(* ===== verification/Prelude.thy ===== *)
theory Prelude
  imports Main
begin

text \<open>
  Shared vocabulary of the development: the error values that the services raise, the two
  shapes of effectful code (a body run inside \<^verbatim>\<open>prisma.$transaction\<close>, which either fails or
  returns a value and a new state, and a service call, which always leaves a state behind),
  the row operations that Prisma's \<^verbatim>\<open>findFirst\<close>, \<^verbatim>\<open>updateMany\<close> and \<^verbatim>\<open>deleteMany\<close> perform on a
  table, and the collections of simplification rules used by the component theories.
\<close>

section \<open>Collections of proof rules\<close>

named_theorems table_simps \<open>laws of the row operations\<close>
named_theorems repo_defs \<open>definitions of the repository operations\<close>
named_theorems service_defs \<open>definitions of the service operations\<close>

section \<open>Errors\<close>

text \<open>
  \<open>AppError message status\<close> is the operational error class of \<^verbatim>\<open>src/utils/appError.ts\<close>;
  \<open>AppErrorFields\<close> is the same class constructed with its third argument, a list of field
  problems. \<open>ThrownError\<close> is a plain \<^verbatim>\<open>Error\<close> and \<open>DbError code\<close> is a rejected statement
  (Prisma's P2002 unique violation, P2003 foreign key, P2025 record not found).
  \<open>NoReturn\<close> marks a loop of the source that does not end.
\<close>

datatype error =
    AppError string nat
  | AppErrorFields string nat "(string \<times> string) list"
  | ThrownError string
  | DbError string
  | NoReturn

section \<open>Transactions and service calls\<close>

type_synonym ('s, 'a) tx = "'s \<Rightarrow> error + ('a \<times> 's)"
type_synonym ('s, 'a) service = "'s \<Rightarrow> (error + 'a) \<times> 's"

definition tx_return :: "'a \<Rightarrow> ('s, 'a) tx" where
  "tx_return x s = Inr (x, s)"

definition tx_fail :: "error \<Rightarrow> ('s, 'a) tx" where
  "tx_fail e s = Inl e"

definition tx_bind :: "('s, 'a) tx \<Rightarrow> ('a \<Rightarrow> ('s, 'b) tx) \<Rightarrow> ('s, 'b) tx" where
  "tx_bind m f s = (case m s of Inl e \<Rightarrow> Inl e | Inr (x, s') \<Rightarrow> f x s')"

text \<open>A rejected transaction body leaves the committed state as it was; otherwise it commits.\<close>

definition transaction :: "('s, 'a) tx \<Rightarrow> ('s, 'a) service" where
  "transaction m s = (case m s of Inl e \<Rightarrow> (Inl e, s) | Inr (x, s') \<Rightarrow> (Inr x, s'))"

lemma tx_return_apply [simp]: "tx_return x s = Inr (x, s)"
  by (simp add: tx_return_def)

lemma tx_fail_apply [simp]: "tx_fail e s = Inl e"
  by (simp add: tx_fail_def)

lemma tx_bind_Inl [simp]: "m s = Inl e \<Longrightarrow> tx_bind m f s = Inl e"
  by (simp add: tx_bind_def)

lemma tx_bind_Inr [simp]: "m s = Inr (x, s') \<Longrightarrow> tx_bind m f s = f x s'"
  by (simp add: tx_bind_def)

lemma tx_bind_eq_Inr:
  "tx_bind m f s = Inr r \<longleftrightarrow> (\<exists>x s'. m s = Inr (x, s') \<and> f x s' = Inr r)"
  by (auto simp: tx_bind_def split: sum.splits)

lemma transaction_rollback: "transaction m s = (Inl e, s') \<Longrightarrow> s' = s"
  by (auto simp: transaction_def split: sum.splits)

lemma transaction_Inl [simp]: "m s = Inl e \<Longrightarrow> transaction m s = (Inl e, s)"
  by (simp add: transaction_def)

lemma transaction_Inr [simp]: "m s = Inr (x, s') \<Longrightarrow> transaction m s = (Inr x, s')"
  by (simp add: transaction_def)

lemma transaction_eq_Inr:
  "transaction m s = (Inr x, s') \<longleftrightarrow> m s = Inr (x, s')"
  by (auto simp: transaction_def split: sum.splits)

section \<open>Rows of a table\<close>

text \<open>
  A table is the list of its rows. \<open>find_first\<close> is \<^verbatim>\<open>findFirst\<close>/\<^verbatim>\<open>findUnique\<close>,
  \<open>update_where\<close> and \<open>delete_where\<close> are the row effects of \<^verbatim>\<open>updateMany\<close> and \<^verbatim>\<open>deleteMany\<close>,
  and \<open>count_where\<close> is the row count those two report.
\<close>

definition find_first :: "('r \<Rightarrow> bool) \<Rightarrow> 'r list \<Rightarrow> 'r option" where
  "find_first P t = find P t"

definition update_where :: "('r \<Rightarrow> bool) \<Rightarrow> ('r \<Rightarrow> 'r) \<Rightarrow> 'r list \<Rightarrow> 'r list" where
  "update_where P f t = map (\<lambda>r. if P r then f r else r) t"

definition delete_where :: "('r \<Rightarrow> bool) \<Rightarrow> 'r list \<Rightarrow> 'r list" where
  "delete_where P t = filter (\<lambda>r. \<not> P r) t"

definition count_where :: "('r \<Rightarrow> bool) \<Rightarrow> 'r list \<Rightarrow> nat" where
  "count_where P t = length (filter P t)"

lemma find_first_Nil [simp]: "find_first P [] = None"
  by (simp add: find_first_def)

lemma find_first_Cons [simp]:
  "find_first P (r # t) = (if P r then Some r else find_first P t)"
  by (simp add: find_first_def)

lemma find_first_SomeD: "find_first P t = Some r \<Longrightarrow> r \<in> set t \<and> P r"
  by (induction t) (auto split: if_splits)

lemma find_first_None_iff [table_simps]: "find_first P t = None \<longleftrightarrow> (\<forall>r \<in> set t. \<not> P r)"
  by (induction t) auto

lemma find_first_append [table_simps]:
  "find_first P (t @ u) = (case find_first P t of None \<Rightarrow> find_first P u | Some r \<Rightarrow> Some r)"
  by (induction t) auto

lemma find_first_cong:
  "(\<And>r. r \<in> set t \<Longrightarrow> P r = Q r) \<Longrightarrow> find_first P t = find_first Q t"
  by (induction t) auto

lemma find_first_unique:
  assumes "distinct (map key t)" and "r \<in> set t"
  shows "find_first (\<lambda>x. key x = key r) t = Some r"
  using assms by (induction t) (auto simp: image_iff)

lemma find_first_exists: "r \<in> set t \<Longrightarrow> P r \<Longrightarrow> \<exists>q. find_first P t = Some q"
  by (induction t) auto

lemma set_update_where [table_simps]:
  "set (update_where P f t) = (\<lambda>r. if P r then f r else r) ` set t"
  by (auto simp: update_where_def)

lemma length_update_where [simp]: "length (update_where P f t) = length t"
  by (simp add: update_where_def)

lemma map_update_where [table_simps]:
  "(\<And>r. P r \<Longrightarrow> key (f r) = key r) \<Longrightarrow> map key (update_where P f t) = map key t"
  by (simp add: update_where_def)

lemma update_where_id [simp]: "(\<And>r. r \<in> set t \<Longrightarrow> \<not> P r) \<Longrightarrow> update_where P f t = t"
  by (simp add: update_where_def map_idI)

lemma find_first_update_where:
  assumes "\<And>r. P r \<Longrightarrow> Q (f r) = Q r"
  shows "find_first Q (update_where P f t) =
    map_option (\<lambda>r. if P r then f r else r) (find_first Q t)"
  using assms by (induction t) (auto simp: update_where_def)

lemma set_delete_where [table_simps, simp]: "set (delete_where P t) = {r \<in> set t. \<not> P r}"
  by (auto simp: delete_where_def)

lemma distinct_map_delete_where [simp, intro]:
  "distinct (map key t) \<Longrightarrow> distinct (map key (delete_where P t))"
  by (simp add: delete_where_def distinct_map_filter)

lemma delete_where_idem [simp]: "delete_where P (delete_where P t) = delete_where P t"
  by (simp add: delete_where_def)

lemma count_where_delete_where [simp]: "count_where P (delete_where P t) = 0"
  by (simp add: count_where_def delete_where_def)

lemma count_where_0_iff [table_simps]: "count_where P t = 0 \<longleftrightarrow> (\<forall>r \<in> set t. \<not> P r)"
  by (auto simp: count_where_def filter_empty_conv)

lemma count_where_append [simp]: "count_where P (t @ u) = count_where P t + count_where P u"
  by (simp add: count_where_def)

lemma count_where_Nil [simp]: "count_where P [] = 0"
  by (simp add: count_where_def)

lemma count_where_Cons [simp]:
  "count_where P (r # t) = (if P r then Suc (count_where P t) else count_where P t)"
  by (simp add: count_where_def)

lemma count_where_unique:
  "distinct (map key t) \<Longrightarrow> count_where (\<lambda>r. key r = k \<and> P r) t \<le> 1"
proof (induction t)
  case (Cons r t)
  have "count_where (\<lambda>x. key x = k \<and> P x) t = 0" if "key r = k"
    using Cons.prems that by (auto simp: count_where_0_iff image_iff)
  with Cons show ?case by auto
qed simp

lemma delete_where_none [simp]: "(\<And>r. r \<in> set t \<Longrightarrow> \<not> P r) \<Longrightarrow> delete_where P t = t"
  by (simp add: delete_where_def filter_id_conv)

lemma find_first_delete_where_other:
  assumes "\<And>r. Q r \<Longrightarrow> \<not> P r"
  shows "find_first Q (delete_where P t) = find_first Q t"
  using assms by (induction t) (auto simp: delete_where_def)

lemma find_first_delete_where_None:
  "(\<And>r. r \<in> set t \<Longrightarrow> Q r \<Longrightarrow> P r) \<Longrightarrow> find_first Q (delete_where P t) = None"
  by (auto simp: find_first_None_iff)

lemma find_first_update_other:
  assumes "\<And>r. P r \<Longrightarrow> \<not> Q r \<and> \<not> Q (f r)"
  shows "find_first Q (update_where P f t) = find_first Q t"
  using assms by (induction t) (auto simp: update_where_def)

text \<open>A property of all pairs of rows, for a table with one row more.\<close>

lemma ball_pairs_append:
  assumes "\<forall>a \<in> set t. \<forall>b \<in> set t. R a b" and "\<And>q. q \<in> set t \<Longrightarrow> R q n"
    and "\<And>q. q \<in> set t \<Longrightarrow> R n q" and "R n n"
  shows "\<forall>a \<in> set (t @ [n]). \<forall>b \<in> set (t @ [n]). R a b"
  using assms by auto

end
