(* ===== verification/Schema.thy ===== *)
theory Schema
  imports Js_String
begin

text \<open>
  The data model (\<^verbatim>\<open>prisma/schema.prisma\<close>) as records, one per table, and the database as the
  record of its tables with the sequences behind the \<^verbatim>\<open>autoincrement()\<close> keys. Times are
  milliseconds since the epoch, the precision of the \<^verbatim>\<open>TIMESTAMP(3)\<close> columns and of
  \<^verbatim>\<open>Date\<close>. A column with \<^verbatim>\<open>?\<close> in the schema is an \<open>option\<close>. The record \<open>env\<close> holds the
  validated configuration values the components read (\<^verbatim>\<open>src/config/env.ts\<close>).
\<close>

type_synonym time = int
type_synonym byte = nat

section \<open>JSON values\<close>

datatype json =
    JNull
  | JBool bool
  | JNum int
  | JStr string
  | JArr "json list"
  | JObj "(string \<times> json) list"

definition json_field :: "string \<Rightarrow> json \<Rightarrow> json option" where
  "json_field k j = (case j of JObj fs \<Rightarrow> map_of fs k | _ \<Rightarrow> None)"

section \<open>Tables\<close>

record role =
  role_id :: nat
  role_slug :: string
  role_title :: string
  role_userType :: string
  role_description :: "string option"
  role_access :: json
  role_createdAt :: time
  role_updatedAt :: time
  role_deletedAt :: "time option"

record user =
  user_id :: nat
  user_name :: "string option"
  user_slug :: "string option"
  user_email :: "string option"
  user_password :: "string option"
  user_avatar :: "string option"
  user_roleId :: "nat option"
  user_isEmailVerified :: bool
  user_createdAt :: time
  user_updatedAt :: time
  user_deletedAt :: "time option"

text \<open>\<open>prof_birthDate\<close> is the stored instant of a \<^verbatim>\<open>DATE\<close> column, midnight UTC.\<close>

record user_profile =
  prof_userId :: nat
  prof_phone :: "string option"
  prof_birthDate :: "time option"
  prof_gender :: "string option"
  prof_locale :: "string option"

record refresh_token =
  rt_id :: string
  rt_token :: string
  rt_userId :: nat
  rt_familyId :: string
  rt_expiresAt :: time
  rt_createdAt :: time
  rt_rotatedAt :: "time option"
  rt_successorCiphertext :: "byte list option"

record email_verification_token =
  evt_id :: string
  evt_token :: string
  evt_userId :: nat
  evt_expiresAt :: time
  evt_createdAt :: time

record email_otp =
  otp_id :: string
  otp_email :: string
  otp_codeHash :: string
  otp_attempts :: nat
  otp_sentAt :: time
  otp_expiresAt :: time
  otp_verifiedAt :: "time option"
  otp_consumedAt :: "time option"

record password_reset_token =
  prt_id :: string
  prt_token :: string
  prt_userId :: nat
  prt_expiresAt :: time
  prt_usedAt :: "time option"
  prt_createdAt :: time

record activity_log =
  log_id :: nat
  log_userId :: nat
  log_action :: "string option"
  log_description :: "string option"
  log_subjectType :: "string option"
  log_subjectId :: nat
  log_oldData :: json
  log_newData :: json
  log_createdAt :: time

record email_template =
  et_id :: nat
  et_key :: string
  et_title :: string
  et_subject :: string
  et_body :: string
  et_isActive :: bool
  et_updatedAt :: time

datatype outbox_status = PENDING | PUBLISHED | FAILED

record outbox_row =
  ob_id :: nat
  ob_queueName :: string
  ob_jobName :: string
  ob_payload :: json
  ob_status :: outbox_status
  ob_attempts :: nat
  ob_availableAt :: time
  ob_publishedAt :: "time option"
  ob_lastError :: "string option"
  ob_createdAt :: time
  ob_updatedAt :: time

record dead_letter_job =
  dl_id :: nat
  dl_queueName :: string
  dl_jobName :: string
  dl_jobId :: "string option"
  dl_payload :: json
  dl_failedReason :: string
  dl_attemptsMade :: nat
  dl_createdAt :: time
  dl_redrivenAt :: "time option"
  dl_redrivenBy :: "string option"
  dl_redriveOutboxId :: "nat option"

record database =
  roles :: "role list"
  users :: "user list"
  user_profiles :: "user_profile list"
  refresh_tokens :: "refresh_token list"
  email_verification_tokens :: "email_verification_token list"
  email_otps :: "email_otp list"
  password_reset_tokens :: "password_reset_token list"
  activity_logs :: "activity_log list"
  email_templates :: "email_template list"
  outbox :: "outbox_row list"
  dead_letter_jobs :: "dead_letter_job list"
  roles_seq :: nat
  users_seq :: nat
  activity_logs_seq :: nat
  email_templates_seq :: nat
  outbox_seq :: nat
  dead_letter_jobs_seq :: nat

definition empty_db :: database where
  "empty_db = \<lparr>roles = [], users = [], user_profiles = [], refresh_tokens = [], email_verification_tokens = [],
     email_otps = [], password_reset_tokens = [], activity_logs = [], email_templates = [], outbox = [],
     dead_letter_jobs = [], roles_seq = 1, users_seq = 1, activity_logs_seq = 1,
     email_templates_seq = 1,
     outbox_seq = 1, dead_letter_jobs_seq = 1\<rparr>"

section \<open>Configuration\<close>

datatype registration_mode = Link | Otp

record env =
  JWT_ACCESS_SECRET :: string
  REFRESH_TOKEN_EXPIRES_DAYS :: nat
  REFRESH_GRACE_SECONDS :: nat
  EMAIL_VERIFICATION_EXPIRES_HOURS :: nat
  PASSWORD_RESET_EXPIRES_MINUTES :: nat
  REGISTRATION_VERIFICATION :: registration_mode
  REGISTRATION_DEFAULT_ROLE :: "string option"
  OTP_EXPIRES_MINUTES :: nat
  OTP_RESEND_COOLDOWN_SECONDS :: nat
  OTP_MAX_ATTEMPTS :: nat
  OTP_VERIFIED_WINDOW_MINUTES :: nat
  OUTBOX_RELAY_BATCH :: nat
  OUTBOX_LEASE_SECONDS :: nat
  OUTBOX_MAX_PUBLISH_ATTEMPTS :: nat
  OUTBOX_RETENTION_PUBLISHED_DAYS :: nat
  OUTBOX_RETENTION_FAILED_DAYS :: nat
  DLQ_RETENTION_DAYS :: nat

text \<open>The defaults of the environment schema, with a secret, which has none.\<close>

definition default_env :: env where
  "default_env = \<lparr>JWT_ACCESS_SECRET = ''secret'', REFRESH_TOKEN_EXPIRES_DAYS = 7, REFRESH_GRACE_SECONDS = 30,
     EMAIL_VERIFICATION_EXPIRES_HOURS = 24, PASSWORD_RESET_EXPIRES_MINUTES = 60,
     REGISTRATION_VERIFICATION = Link, REGISTRATION_DEFAULT_ROLE = None,
     OTP_EXPIRES_MINUTES = 10, OTP_RESEND_COOLDOWN_SECONDS = 60, OTP_MAX_ATTEMPTS = 5,
     OTP_VERIFIED_WINDOW_MINUTES = 30, OUTBOX_RELAY_BATCH = 50, OUTBOX_LEASE_SECONDS = 60,
     OUTBOX_MAX_PUBLISH_ATTEMPTS = 5, OUTBOX_RETENTION_PUBLISHED_DAYS = 7,
     OUTBOX_RETENTION_FAILED_DAYS = 30, DLQ_RETENTION_DAYS = 90\<rparr>"

section \<open>Queue and job names\<close>

text \<open>\<^verbatim>\<open>src/jobs/config/queue.constants.ts\<close>.\<close>

definition QUEUE_EMAIL :: string where "QUEUE_EMAIL = ''email''"
definition QUEUE_SYSTEM :: string where "QUEUE_SYSTEM = ''system''"
definition JOB_VERIFICATION :: string where "JOB_VERIFICATION = ''sendVerificationEmail''"
definition JOB_VERIFICATION_SUCCESS :: string where
  "JOB_VERIFICATION_SUCCESS = ''sendVerificationSuccessEmail''"
definition JOB_RESET_PASSWORD :: string where "JOB_RESET_PASSWORD = ''sendResetPasswordEmail''"
definition JOB_OTP_CODE :: string where "JOB_OTP_CODE = ''sendOtpEmail''"
definition JOB_CLEANUP_EXPIRED_TOKENS :: string where
  "JOB_CLEANUP_EXPIRED_TOKENS = ''cleanupExpiredTokens''"
definition JOB_CLEANUP_OUTBOX :: string where "JOB_CLEANUP_OUTBOX = ''cleanupOutbox''"
definition JOB_CLEANUP_DEAD_LETTER_JOBS :: string where
  "JOB_CLEANUP_DEAD_LETTER_JOBS = ''cleanupDeadLetterJobs''"

lemmas job_name_defs = QUEUE_EMAIL_def QUEUE_SYSTEM_def JOB_VERIFICATION_def
  JOB_VERIFICATION_SUCCESS_def JOB_RESET_PASSWORD_def JOB_OTP_CODE_def
  JOB_CLEANUP_EXPIRED_TOKENS_def JOB_CLEANUP_OUTBOX_def JOB_CLEANUP_DEAD_LETTER_JOBS_def

end
