(* ===== verification/Cache.thy ===== *)
theory Cache
  imports Prelude Schema
begin

text \<open>
  The JSON cache over Redis (\<^verbatim>\<open>src/services/cache.service.ts\<close>). The store keeps JSON strings and
  sets of members under keys, each with an expiry; a key past its expiry reads as missing.
  String keys and set keys have different prefixes throughout the code, so the model keeps two
  maps. When the server cannot be reached every call fails and nothing changes. JSON text is
  represented by the value it encodes; \<^verbatim>\<open>JSON.parse\<close> of a stored value gives that value back.
\<close>

record redis =
  redis_up :: bool
  kv :: "string \<Rightarrow> (json \<times> time option) option"
  sets :: "string \<Rightarrow> (string list \<times> time) option"

definition empty_redis :: redis where
  "empty_redis = \<lparr>redis_up = True, kv = (\<lambda>_. None), sets = (\<lambda>_. None)\<rparr>"

definition redis_down :: error where
  "redis_down = ThrownError ''Connection is closed.''"

definition when_up :: "(redis \<Rightarrow> 'a \<times> redis) \<Rightarrow> (redis, 'a) tx" where
  "when_up f s = (if redis_up s then Inr (f s) else Inl redis_down)"

definition live_value :: "redis \<Rightarrow> time \<Rightarrow> string \<Rightarrow> json option" where
  "live_value s now key = (case kv s key of None \<Rightarrow> None
     | Some (j, None) \<Rightarrow> Some j
     | Some (j, Some t) \<Rightarrow> if now < t then Some j else None)"

definition live_members :: "redis \<Rightarrow> time \<Rightarrow> string \<Rightarrow> string list" where
  "live_members s now key = (case sets s key of None \<Rightarrow> []
     | Some (ms, t) \<Rightarrow> if now < t then ms else [])"

definition cache_get :: "string \<Rightarrow> time \<Rightarrow> (redis, json option) tx" where
  "cache_get key now = when_up (\<lambda>s. (live_value s now key, s))"

definition cache_mget :: "string list \<Rightarrow> time \<Rightarrow> (redis, json option list) tx" where
  "cache_mget keys now = when_up (\<lambda>s. (map (live_value s now) keys, s))"

text \<open>A counter; the command fails on a value that is not an integer.\<close>

definition cache_incr :: "string \<Rightarrow> time \<Rightarrow> (redis, int) tx" where
  "cache_incr key now s =
     (if \<not> redis_up s then Inl redis_down
      else case live_value s now key of
             None \<Rightarrow> Inr (1, s\<lparr>kv := (kv s)(key := Some (JNum 1, None))\<rparr>)
           | Some (JNum n) \<Rightarrow> Inr (n + 1, s\<lparr>kv := (kv s)(key := Some (JNum (n + 1),
                 Option.bind (kv s key) snd))\<rparr>)
           | Some _ \<Rightarrow> Inl (ThrownError ''ERR value is not an integer or out of range''))"

definition cache_set :: "string \<Rightarrow> json \<Rightarrow> nat \<Rightarrow> time \<Rightarrow> (redis, unit) tx" where
  "cache_set key v ttl now =
     when_up (\<lambda>s. ((), s\<lparr>kv := (kv s)(key := Some (v, Some (now + int ttl * 1000)))\<rparr>))"

definition cache_del :: "string list \<Rightarrow> (redis, unit) tx" where
  "cache_del keys s =
     (if keys = [] then Inr ((), s)
      else when_up (\<lambda>s. ((), s\<lparr>kv := (\<lambda>k. if k \<in> set keys then None else kv s k),
                               sets := (\<lambda>k. if k \<in> set keys then None else sets s k)\<rparr>)) s)"

definition cache_sadd :: "string \<Rightarrow> string \<Rightarrow> nat \<Rightarrow> time \<Rightarrow> (redis, unit) tx" where
  "cache_sadd key member ttl now =
     when_up (\<lambda>s. ((), s\<lparr>sets := (sets s)(key := Some
       (let ms = live_members s now key in if member \<in> set ms then ms else ms @ [member],
        now + int ttl * 1000))\<rparr>))"

definition cache_smembers :: "string \<Rightarrow> time \<Rightarrow> (redis, string list) tx" where
  "cache_smembers key now = when_up (\<lambda>s. (live_members s now key, s))"

definition cache_srem :: "string \<Rightarrow> string list \<Rightarrow> time \<Rightarrow> (redis, nat) tx" where
  "cache_srem key members now s =
     (if members = [] then Inr (0, s)
      else when_up (\<lambda>s. let ms = live_members s now key in
             (length (filter (\<lambda>m. m \<in> set members) ms),
              s\<lparr>sets := (sets s)(key := map_option
                  (\<lambda>(_, t). (filter (\<lambda>m. m \<notin> set members) ms, t)) (sets s key))\<rparr>)) s)"

lemmas cache_defs = when_up_def cache_get_def cache_mget_def cache_incr_def cache_set_def
  cache_del_def cache_sadd_def cache_smembers_def cache_srem_def

section \<open>Laws of the store\<close>

text \<open>What the clients of a key-value cache rely on.\<close>

locale json_store =
  fixes get :: "'s \<Rightarrow> time \<Rightarrow> string \<Rightarrow> json option"
    and put :: "string \<Rightarrow> json \<Rightarrow> nat \<Rightarrow> time \<Rightarrow> 's \<Rightarrow> error + unit \<times> 's"
    and drop_keys :: "string list \<Rightarrow> 's \<Rightarrow> error + unit \<times> 's"
  assumes put_get: "put k v ttl now s = Inr (u, s') \<Longrightarrow> now \<le> t \<Longrightarrow> t < now + int ttl * 1000
      \<Longrightarrow> get s' t k = Some v"
    and put_expires: "put k v ttl now s = Inr (u, s') \<Longrightarrow> now + int ttl * 1000 \<le> t \<Longrightarrow> get s' t k = None"
    and put_other: "put k v ttl now s = Inr (u, s') \<Longrightarrow> k' \<noteq> k \<Longrightarrow> get s' t k' = get s t k'"
    and drop_get: "drop_keys ks s = Inr (u, s') \<Longrightarrow> k \<in> set ks \<Longrightarrow> get s' t k = None"
    and drop_other: "drop_keys ks s = Inr (u, s') \<Longrightarrow> k \<notin> set ks \<Longrightarrow> get s' t k = get s t k"
begin

lemma put_drop:
  assumes "put k v ttl now s = Inr (u, s1)" and "drop_keys ks s1 = Inr (w, s2)"
  shows "get s2 t k' = (if k' \<in> set ks then None else get s1 t k')"
  using assms drop_get drop_other by auto

lemma put_then_put:
  assumes "put k v ttl now s = Inr (u, s1)" and "put k v' ttl' now' s1 = Inr (w, s2)"
    and "now' \<le> t" "t < now' + int ttl' * 1000"
  shows "get s2 t k = Some v'"
  using assms put_get by blast

end

interpretation redis_store: json_store live_value cache_set cache_del
proof unfold_locales
  fix k v ttl now s u s' t k' ks
  assume "cache_set k v ttl now s = Inr (u, s')"
  then have s': "s' = s\<lparr>kv := (kv s)(k := Some (v, Some (now + int ttl * 1000)))\<rparr>"
    by (auto simp: cache_defs split: if_splits)
  show "now \<le> t \<Longrightarrow> t < now + int ttl * 1000 \<Longrightarrow> live_value s' t k = Some v"
    and "now + int ttl * 1000 \<le> t \<Longrightarrow> live_value s' t k = None"
    and "k' \<noteq> k \<Longrightarrow> live_value s' t k' = live_value s t k'"
    by (simp_all add: s' live_value_def)
next
  fix ks s u s' k t
  assume d: "cache_del ks s = Inr (u, s')"
  show "k \<in> set ks \<Longrightarrow> live_value s' t k = None"
    and "k \<notin> set ks \<Longrightarrow> live_value s' t k = live_value s t k"
    using d by (auto simp: cache_defs live_value_def split: if_splits)
qed

end
