(* ===== verification/Encoding.thy ===== *)
theory Encoding
  imports Schema
begin

text \<open>
  The byte encodings of Node's \<^verbatim>\<open>Buffer\<close> that the program uses: hexadecimal in both directions
  and URL-safe base64 output, and the ISO 8601 rendering of a time
  (\<^verbatim>\<open>Date.prototype.toISOString\<close>).
\<close>

section \<open>Hexadecimal\<close>

definition hex_digit :: "nat \<Rightarrow> char" where
  "hex_digit d = (if d < 10 then char_of (48 + d) else char_of (87 + d))"

definition hex_value :: "char \<Rightarrow> nat option" where
  "hex_value c =
     (if is_digit c then Some (char_code c - 48)
      else if 97 \<le> char_code c \<and> char_code c \<le> 102 then Some (char_code c - 87)
      else if 65 \<le> char_code c \<and> char_code c \<le> 70 then Some (char_code c - 55)
      else None)"

text \<open>\<^verbatim>\<open>buffer.toString('hex')\<close>.\<close>

definition hex_encode :: "byte list \<Rightarrow> string" where
  "hex_encode bs = concat (map (\<lambda>b. [hex_digit (b div 16), hex_digit (b mod 16)]) bs)"

text \<open>\<^verbatim>\<open>Buffer.from(s, 'hex')\<close>: decoding stops at the first pair that is not hexadecimal, and a
  trailing single character is dropped.\<close>

fun hex_decode :: "string \<Rightarrow> byte list" where
  "hex_decode (h # l # s) =
     (case (hex_value h, hex_value l) of
        (Some a, Some b) \<Rightarrow> (16 * a + b) # hex_decode s
      | _ \<Rightarrow> [])"
| "hex_decode s = []"

definition bytes_ok :: "byte list \<Rightarrow> bool" where
  "bytes_ok bs = list_all (\<lambda>b. b < 256) bs"

text \<open>Lower-case hexadecimal text with an even number of digits, what \<^verbatim>\<open>toString('hex')\<close> makes.\<close>

definition is_hex_digit :: "char \<Rightarrow> bool" where
  "is_hex_digit c = (is_digit c \<or> (97 \<le> char_code c \<and> char_code c \<le> 102))"

definition hex_string :: "string \<Rightarrow> bool" where
  "hex_string s = (even (length s) \<and> list_all is_hex_digit s)"

lemma hex_value_hex_digit [simp]: "d < 16 \<Longrightarrow> hex_value (hex_digit d) = Some d"
  by (auto simp: hex_value_def hex_digit_def is_digit_def)

lemma hex_digit_hex_value: "is_hex_digit c \<Longrightarrow> \<exists>d. hex_value c = Some d \<and> d < 16 \<and> hex_digit d = c"
  by (auto simp: is_hex_digit_def hex_value_def hex_digit_def is_digit_def char_code_inject [symmetric])

lemma hex_decode_encode: "bytes_ok bs \<Longrightarrow> hex_decode (hex_encode bs) = bs"
  by (induction bs) (auto simp: hex_encode_def bytes_ok_def)

lemma hex_encode_decode: "hex_string s \<Longrightarrow> hex_encode (hex_decode s) = s"
proof (induction s rule: hex_decode.induct)
  case (1 h l s)
  then obtain a b where "hex_value h = Some a" "a < 16" "hex_digit a = h"
      and "hex_value l = Some b" "b < 16" "hex_digit b = l"
    using hex_digit_hex_value [of h] hex_digit_hex_value [of l] by (auto simp: hex_string_def)
  with 1 show ?case by (auto simp: hex_string_def hex_encode_def)
qed (auto simp: hex_string_def hex_encode_def)

lemma hex_value_lt: "hex_value c = Some a \<Longrightarrow> a < 16"
  by (auto simp: hex_value_def is_digit_def split: if_splits)

lemma bytes_ok_hex_decode: "bytes_ok (hex_decode s)"
proof (induction s rule: hex_decode.induct)
  case (1 h l s)
  show ?case
  proof (cases "hex_value h"; cases "hex_value l")
    fix a b assume "hex_value h = Some a" "hex_value l = Some b"
    with 1 hex_value_lt [of h a] hex_value_lt [of l b] show ?thesis by (simp add: bytes_ok_def)
  qed (simp_all add: bytes_ok_def)
qed (simp_all add: bytes_ok_def)

lemma length_hex_decode: "hex_string s \<Longrightarrow> length (hex_decode s) = length s div 2"
proof (induction s rule: hex_decode.induct)
  case (1 h l s)
  then show ?case
    using hex_digit_hex_value [of h] hex_digit_hex_value [of l] by (auto simp: hex_string_def)
qed (auto simp: hex_string_def)

lemma hex_string_encode: "bytes_ok bs \<Longrightarrow> hex_string (hex_encode bs)"
proof (induction bs)
  case (Cons b bs)
  have "is_hex_digit (hex_digit d)" if "d < 16" for d
    using that by (auto simp: is_hex_digit_def hex_digit_def is_digit_def)
  with Cons show ?case by (auto simp: bytes_ok_def hex_string_def hex_encode_def)
qed (simp add: hex_string_def hex_encode_def)

lemma hex_decode_inject: "hex_string s \<Longrightarrow> hex_string t \<Longrightarrow> hex_decode s = hex_decode t \<longleftrightarrow> s = t"
  by (metis hex_encode_decode)

section \<open>URL-safe base64\<close>

definition base64url_alphabet :: string where
  "base64url_alphabet =
     ''ABCDEFGHIJKLMNOPQRSTUVWXYZabcdefghijklmnopqrstuvwxyz0123456789-_''"

definition b64 :: "nat \<Rightarrow> char" where
  "b64 d = base64url_alphabet ! (d mod 64)"

text \<open>\<^verbatim>\<open>digest('base64url')\<close>: no padding.\<close>

fun base64url :: "byte list \<Rightarrow> string" where
  "base64url (a # b # c # bs) =
     b64 (a div 4) # b64 ((a mod 4) * 16 + b div 16) # b64 ((b mod 16) * 4 + c div 64)
       # b64 (c mod 64) # base64url bs"
| "base64url [a, b] =
     [b64 (a div 4), b64 ((a mod 4) * 16 + b div 16), b64 ((b mod 16) * 4)]"
| "base64url [a] = [b64 (a div 4), b64 ((a mod 4) * 16)]"
| "base64url [] = []"

lemma base64url_Nil_iff [simp]: "base64url bs = [] \<longleftrightarrow> bs = []"
  by (cases bs rule: base64url.cases) simp_all

section \<open>ISO 8601 times\<close>

definition MS_PER_DAY :: int where "MS_PER_DAY = 86400000"

text \<open>Year, month and day of a day number (days since 1970-01-01), proleptic Gregorian.\<close>

definition civil_of_days :: "int \<Rightarrow> int \<times> int \<times> int" where
  "civil_of_days days =
     (let z = days + 719468;
          era = z div 146097;
          doe = z mod 146097;
          yoe = (doe - doe div 1460 + doe div 36524 - doe div 146096) div 365;
          doy = doe - (365 * yoe + yoe div 4 - yoe div 100);
          mp = (5 * doy + 2) div 153;
          d = doy - (153 * mp + 2) div 5 + 1;
          m = (if mp < 10 then mp + 3 else mp - 9);
          y = yoe + era * 400 + (if m \<le> 2 then 1 else 0)
      in (y, m, d))"

definition pad_int :: "nat \<Rightarrow> int \<Rightarrow> string" where
  "pad_int n i = padStart n CHR ''0'' (show_nat (nat i))"

definition iso_year :: "int \<Rightarrow> string" where
  "iso_year y =
     (if 0 \<le> y \<and> y \<le> 9999 then pad_int 4 y
      else (if y < 0 then ''-'' else ''+'') @ pad_int 6 \<bar>y\<bar>)"

definition toISOString :: "time \<Rightarrow> string" where
  "toISOString t =
     (let (y, m, d) = civil_of_days (t div MS_PER_DAY); ms = t mod MS_PER_DAY
      in iso_year y @ ''-'' @ pad_int 2 m @ ''-'' @ pad_int 2 d @ ''T''
           @ pad_int 2 (ms div 3600000) @ '':'' @ pad_int 2 (ms div 60000 mod 60) @ '':''
           @ pad_int 2 (ms div 1000 mod 60) @ ''.'' @ pad_int 3 (ms mod 1000) @ ''Z'')"

lemma toISOString_epoch: "toISOString 0 = ''1970-01-01T00:00:00.000Z''"
  by code_simp

lemma toISOString_example: "toISOString 1709210096789 = ''2024-02-29T12:34:56.789Z''"
  by code_simp

end
