(* ===== verification/Crypto.thy ===== *)
theory Crypto
  imports Encoding
begin

text \<open>
  Token primitives: opaque tokens and their hashes (\<^verbatim>\<open>src/utils/token.ts\<close>), the sealed
  successor of a rotated refresh token (\<^verbatim>\<open>src/modules/auth/refresh-successor.ts\<close>) and the
  registration codes and tickets (\<^verbatim>\<open>src/modules/otp/otp.code.ts\<close>). The cryptographic
  functions of \<^verbatim>\<open>node:crypto\<close>, bcrypt and the JWT library are not code of the repository:
  they are the fields of the record \<open>crypto\<close>, which every definition that uses one of them
  takes as its first argument. Random values are arguments too.
\<close>

section \<open>The primitives used\<close>

record crypto =
  sha256_hex :: "string \<Rightarrow> string"
  hkdf32 :: "string \<Rightarrow> string \<Rightarrow> string \<Rightarrow> byte list"
  hmac_sha256 :: "byte list \<Rightarrow> string \<Rightarrow> byte list"
  gcm_encrypt :: "byte list \<Rightarrow> byte list \<Rightarrow> string \<Rightarrow> byte list \<Rightarrow> byte list \<times> byte list"
  gcm_decrypt ::
    "byte list \<Rightarrow> byte list \<Rightarrow> string \<Rightarrow> byte list \<Rightarrow> byte list \<Rightarrow> byte list option"
  bcrypt_hash :: "string \<Rightarrow> string"
  bcrypt_compare :: "string \<Rightarrow> string \<Rightarrow> bool"
  jwt_sign :: "string \<Rightarrow> string \<Rightarrow> time \<Rightarrow> string"
  jwt_verify :: "string \<Rightarrow> string \<Rightarrow> time \<Rightarrow> string option"

text \<open>What AES-256-GCM documents: the tag has the requested 16 bytes, the ciphertext is as long
  as the plaintext, and decrypting with the key, nonce and associated data of the encryption
  gives the plaintext back.\<close>

definition gcm_correct :: "crypto \<Rightarrow> bool" where
  "gcm_correct C \<longleftrightarrow>
     (\<forall>k iv aad pt. length (snd (gcm_encrypt C k iv aad pt)) = 16
        \<and> length (fst (gcm_encrypt C k iv aad pt)) = length pt
        \<and> gcm_decrypt C k iv aad (snd (gcm_encrypt C k iv aad pt))
            (fst (gcm_encrypt C k iv aad pt)) = Some pt)"

text \<open>What HMAC-SHA256 documents about its output: 32 bytes.\<close>

definition hmac_bytes :: "crypto \<Rightarrow> bool" where
  "hmac_bytes C \<longleftrightarrow> (\<forall>k m. bytes_ok (hmac_sha256 C k m) \<and> length (hmac_sha256 C k m) = 32)"

text \<open>What bcrypt documents: a password matches the hash made from it.\<close>

definition bcrypt_correct :: "crypto \<Rightarrow> bool" where
  "bcrypt_correct C \<longleftrightarrow> (\<forall>p. bcrypt_compare C p (bcrypt_hash C p))"

text \<open>A concrete instance for the witnesses: a cipher that appends a checksum of its inputs.\<close>

definition sum_code :: "string \<Rightarrow> nat" where
  "sum_code s = sum_list (map char_code s)"

definition demo_crypto :: crypto where
  "demo_crypto = \<lparr>
     sha256_hex = (\<lambda>s. ''h'' @ s),
     hkdf32 = (\<lambda>ikm salt info. map char_code ikm),
     hmac_sha256 = (\<lambda>k m. replicate 31 0 @ [(sum_list k + sum_code m) mod 256]),
     gcm_encrypt = (\<lambda>k iv aad pt. (pt, replicate 15 0 @ [(sum_list k + sum_code aad) mod 256])),
     gcm_decrypt = (\<lambda>k iv aad tag ct.
       if tag = replicate 15 0 @ [(sum_list k + sum_code aad) mod 256] then Some ct else None),
     bcrypt_hash = (\<lambda>p. ''$'' @ p),
     bcrypt_compare = (\<lambda>p h. h = ''$'' @ p),
     jwt_sign = (\<lambda>sub secret now. sub @ ''.'' @ secret),
     jwt_verify = (\<lambda>tok secret now. if suffix (''.'' @ secret) tok
       then Some (take (length tok - Suc (length secret)) tok) else None)\<rparr>"

lemma demo_gcm_correct: "gcm_correct demo_crypto"
  by (simp add: gcm_correct_def demo_crypto_def)

lemma demo_hmac_bytes: "hmac_bytes demo_crypto"
  by (simp add: hmac_bytes_def demo_crypto_def bytes_ok_def list_all_iff)

lemma demo_bcrypt_correct: "bcrypt_correct demo_crypto"
  by (simp add: bcrypt_correct_def demo_crypto_def)

section \<open>Opaque tokens\<close>

text \<open>\<^verbatim>\<open>generateToken\<close> renders 64 random bytes in hexadecimal; the bytes are the argument.\<close>

definition generateToken :: "byte list \<Rightarrow> string" where
  "generateToken random64 = hex_encode random64"

definition hashToken :: "crypto \<Rightarrow> string \<Rightarrow> string" where
  "hashToken C token = sha256_hex C token"

definition random64_ok :: "byte list \<Rightarrow> bool" where
  "random64_ok r \<longleftrightarrow> bytes_ok r \<and> length r = 64"

lemma length_hex_encode [simp]: "length (hex_encode bs) = 2 * length bs"
  by (induction bs) (simp_all add: hex_encode_def)

lemma generateToken_hex: "bytes_ok r \<Longrightarrow> hex_string (generateToken r)"
  by (simp add: generateToken_def hex_string_encode)

lemma generateToken_nonempty: "random64_ok r \<Longrightarrow> generateToken r \<noteq> []"
  by (auto simp: random64_ok_def generateToken_def simp flip: length_0_conv)

section \<open>The sealed successor of a rotated token\<close>

definition VERSION :: byte where "VERSION = 1"
definition IV_BYTES :: nat where "IV_BYTES = 12"
definition TAG_BYTES :: nat where "TAG_BYTES = 16"
definition HEADER_BYTES :: nat where "HEADER_BYTES = 1 + IV_BYTES + TAG_BYTES"
definition INFO :: string where "INFO = ''express-core:refresh-successor:v1''"

definition deriveKey :: "crypto \<Rightarrow> string \<Rightarrow> string \<Rightarrow> byte list" where
  "deriveKey C predecessorToken secret = hkdf32 C predecessorToken secret INFO"

text \<open>\<open>iv\<close> is the result of \<^verbatim>\<open>crypto.randomBytes(IV_BYTES)\<close>.\<close>

definition sealSuccessor ::
  "crypto \<Rightarrow> string \<Rightarrow> byte list \<Rightarrow> string \<Rightarrow> string \<Rightarrow> string \<Rightarrow> byte list" where
  "sealSuccessor C secret iv predecessorToken predecessorHash successorToken =
     (let (body, tag) = gcm_encrypt C (deriveKey C predecessorToken secret) iv predecessorHash
                          (hex_decode successorToken)
      in [VERSION] @ iv @ tag @ body)"

definition openSuccessor ::
  "crypto \<Rightarrow> string \<Rightarrow> string \<Rightarrow> string \<Rightarrow> byte list \<Rightarrow> string option" where
  "openSuccessor C secret predecessorToken predecessorHash data =
     (if length data \<le> HEADER_BYTES \<or> data ! 0 \<noteq> VERSION then None
      else map_option hex_encode
             (gcm_decrypt C (deriveKey C predecessorToken secret)
                (take IV_BYTES (drop 1 data)) predecessorHash
                (take TAG_BYTES (drop (1 + IV_BYTES) data)) (drop HEADER_BYTES data)))"

lemmas successor_consts = VERSION_def IV_BYTES_def TAG_BYTES_def HEADER_BYTES_def

lemma open_seal:
  assumes "gcm_correct C" and "length iv = IV_BYTES" and "hex_string s" and "s \<noteq> []"
  shows "openSuccessor C secret t h (sealSuccessor C secret iv t h s) = Some s"
proof -
  let ?k = "deriveKey C t secret"
  obtain body tag where e: "gcm_encrypt C ?k iv h (hex_decode s) = (body, tag)"
    by (cases "gcm_encrypt C ?k iv h (hex_decode s)") auto
  have "snd (gcm_encrypt C ?k iv h (hex_decode s)) = tag"
    and "fst (gcm_encrypt C ?k iv h (hex_decode s)) = body" using e by simp_all
  then have tag: "length tag = 16" and len: "length body = length (hex_decode s)"
    and dec: "gcm_decrypt C ?k iv h tag body = Some (hex_decode s)"
    using assms(1) unfolding gcm_correct_def by metis+
  have "length body > 0"
    using len length_hex_decode [OF assms(3)] assms(3,4)
    by (cases s) (auto simp: hex_string_def dest: odd_pos elim!: oddE evenE)
  then show ?thesis
    using assms(2) tag dec hex_encode_decode [OF assms(3)]
    by (auto simp: sealSuccessor_def openSuccessor_def e successor_consts)
qed

lemma length_seal:
  assumes "gcm_correct C"
  shows "length (sealSuccessor C secret iv t h s) = 17 + length iv + length (hex_decode s)"
proof -
  have "length (snd (gcm_encrypt C k iv h pt)) = 16"
      "length (fst (gcm_encrypt C k iv h pt)) = length pt" for k pt
    using assms by (auto simp: gcm_correct_def)
  then show ?thesis by (simp add: sealSuccessor_def case_prod_beta Let_def)
qed

text \<open>C37. A sealed successor opens to the token that was sealed, when it is opened with the same
  predecessor, row and secret; the sealed form has the 93 bytes the code documents.\<close>

theorem successor_seal_roundtrip:
  assumes "gcm_correct C" and "length iv = IV_BYTES" and "random64_ok r"
  shows "openSuccessor C secret t h (sealSuccessor C secret iv t h (generateToken r))
      = Some (generateToken r)
    \<and> length (sealSuccessor C secret iv t h (generateToken r)) = 93"
proof
  show "openSuccessor C secret t h (sealSuccessor C secret iv t h (generateToken r))
      = Some (generateToken r)"
    using assms by (intro open_seal) (auto simp: random64_ok_def generateToken_hex
        generateToken_def hex_string_encode simp flip: length_0_conv)
  show "length (sealSuccessor C secret iv t h (generateToken r)) = 93"
    using assms
    by (simp add: length_seal random64_ok_def generateToken_def hex_decode_encode IV_BYTES_def)
qed

theorem successor_seal_roundtrip_witness:
  "openSuccessor demo_crypto ''secret'' ''old'' ''hold''
     (sealSuccessor demo_crypto ''secret'' (replicate 12 7) ''old'' ''hold''
       (generateToken (replicate 64 200))) = Some (generateToken (replicate 64 200))
   \<and> length (sealSuccessor demo_crypto ''secret'' (replicate 12 7) ''old'' ''hold''
       (generateToken (replicate 64 200))) = 93"
  by (rule successor_seal_roundtrip)
    (auto simp: demo_gcm_correct IV_BYTES_def random64_ok_def bytes_ok_def list_all_iff)

lemma open_requires_version:
  "openSuccessor C secret t h data = Some s \<Longrightarrow> HEADER_BYTES < length data \<and> data ! 0 = VERSION"
  by (auto simp: openSuccessor_def split: if_splits)

section \<open>Registration codes and tickets\<close>

definition OTP_DIGITS :: nat where "OTP_DIGITS = 6"

definition otp_key :: "crypto \<Rightarrow> string \<Rightarrow> string \<Rightarrow> byte list" where
  "otp_key C purpose secret = hkdf32 C secret [] (''express-core:'' @ purpose @ '':v1'')"

definition buffer_equal :: "byte list \<Rightarrow> byte list \<Rightarrow> bool" where
  "buffer_equal a b = (length a = length b \<and> a = b)"

definition normalizeEmail :: "string \<Rightarrow> string" where
  "normalizeEmail email = toLowerCase (trim email)"

text \<open>\<open>n\<close> is the result of \<^verbatim>\<open>crypto.randomInt(0, 10 ** OTP_DIGITS)\<close>.\<close>

definition generateOtpCode :: "nat \<Rightarrow> string" where
  "generateOtpCode n = padStart OTP_DIGITS CHR ''0'' (show_nat n)"

definition hashOtpCode :: "crypto \<Rightarrow> string \<Rightarrow> string \<Rightarrow> string \<Rightarrow> string" where
  "hashOtpCode C secret email code =
     hex_encode (hmac_sha256 C (otp_key C ''otp-code'' secret) (email @ [char_of (10 :: nat)] @ code))"

definition otpCodeMatches :: "crypto \<Rightarrow> string \<Rightarrow> string \<Rightarrow> string \<Rightarrow> string \<Rightarrow> bool" where
  "otpCodeMatches C secret email code storedHash =
     buffer_equal (hex_decode (hashOtpCode C secret email code)) (hex_decode storedHash)"

definition registrationTicket :: "crypto \<Rightarrow> string \<Rightarrow> string \<Rightarrow> time \<Rightarrow> string" where
  "registrationTicket C secret otpId verifiedAt =
     base64url (hmac_sha256 C (otp_key C ''otp-ticket'' secret)
       (otpId @ [char_of (10 :: nat)] @ toISOString verifiedAt))"

text \<open>Both buffers hold the UTF-8 bytes of the strings, which determine the strings.\<close>

definition ticketMatches :: "crypto \<Rightarrow> string \<Rightarrow> string \<Rightarrow> string \<Rightarrow> time \<Rightarrow> bool" where
  "ticketMatches C secret ticket otpId verifiedAt =
     (ticket = registrationTicket C secret otpId verifiedAt)"

lemma normalizeEmail_idem [simp]: "normalizeEmail (normalizeEmail e) = normalizeEmail e"
  by (simp add: normalizeEmail_def trim_toLowerCase)

lemma otpCodeMatches_own:
  "otpCodeMatches C secret email code (hashOtpCode C secret email code)"
  by (simp add: otpCodeMatches_def buffer_equal_def)

lemma otpCodeMatches_iff:
  assumes "hmac_bytes C"
  shows "otpCodeMatches C secret email code (hashOtpCode C secret email' code')
    \<longleftrightarrow> hashOtpCode C secret email code = hashOtpCode C secret email' code'"
  using assms
  by (simp add: otpCodeMatches_def buffer_equal_def hashOtpCode_def hmac_bytes_def hex_decode_encode)
    (metis hex_decode_encode)

lemma foldl_zeros: "foldl (\<lambda>n c. 10 * n + digit_value c) 0 (replicate k CHR ''0'') = 0"
  by (induction k) (simp_all add: digit_value_def char_code_def)

text \<open>Every registration code is six decimal digits and determines the random number it was
  made from, so the codes are as evenly spread as the generator.\<close>

theorem generateOtpCode_digits:
  assumes "n < 10 ^ OTP_DIGITS"
  shows "length (generateOtpCode n) = OTP_DIGITS \<and> list_all is_digit (generateOtpCode n)
    \<and> read_nat (generateOtpCode n) = n"
proof -
  have "length (show_nat n) \<le> 6"
    using assms length_show_nat [of n 6] by (simp add: OTP_DIGITS_def)
  then have "length (generateOtpCode n) = OTP_DIGITS"
    by (simp add: generateOtpCode_def padStart_def OTP_DIGITS_def)
  moreover have "list_all is_digit (generateOtpCode n)"
    using show_nat_digits [of _ n]
    by (auto simp: generateOtpCode_def padStart_def list_all_iff is_digit_def char_code_def)
  moreover have "read_nat (generateOtpCode n) = n"
    using read_nat_show_nat [of n] foldl_zeros
    by (simp add: generateOtpCode_def padStart_def read_nat_def)
  ultimately show ?thesis by blast
qed

theorem generateOtpCode_digits_witness:
  "length (generateOtpCode 42) = OTP_DIGITS \<and> list_all is_digit (generateOtpCode 42)
    \<and> read_nat (generateOtpCode 42) = 42"
  by (rule generateOtpCode_digits) (simp add: OTP_DIGITS_def)

section \<open>Access tokens\<close>

text \<open>\<^verbatim>\<open>generateAccessToken\<close> (\<^verbatim>\<open>src/utils/jwt.ts\<close>) signs the user id as the subject.\<close>

definition generateAccessToken :: "crypto \<Rightarrow> env \<Rightarrow> nat \<Rightarrow> time \<Rightarrow> string" where
  "generateAccessToken C E userId now = jwt_sign C (show_nat userId) (JWT_ACCESS_SECRET E) now"

end
