(* ===== verification/Retention.thy ===== *)
theory Retention
  imports Prelude
begin

text \<open>
  Bounded batched deletion. Four repositories (refresh tokens, registration codes, outbox
  rows, dead letters) delete old rows with the same loop: a statement that removes at most
  \<^verbatim>\<open>batchSize\<close> matching rows, oldest first, repeated until a batch is short or
  \<^verbatim>\<open>maxBatches\<close> have run. \<open>delete_batch\<close> is the statement, \<open>prune_loop\<close> the loop, and the
  locale \<open>batched_delete\<close> is the contract between them.
\<close>

section \<open>One batch\<close>

text \<open>\<^verbatim>\<open>DELETE ... WHERE id = ANY(ARRAY(SELECT id ... WHERE P ORDER BY key LIMIT n))\<close>; the result
  is the number of deleted rows and the remaining table.\<close>

definition batch_ids ::
  "('r \<Rightarrow> 'i) \<Rightarrow> ('r \<Rightarrow> bool) \<Rightarrow> ('r \<Rightarrow> 'k::linorder) \<Rightarrow> nat \<Rightarrow> 'r list \<Rightarrow> 'i list" where
  "batch_ids idf P key n t = map idf (take n (sort_key key (filter P t)))"

definition delete_batch ::
  "('r \<Rightarrow> 'i) \<Rightarrow> ('r \<Rightarrow> bool) \<Rightarrow> ('r \<Rightarrow> 'k::linorder) \<Rightarrow> nat \<Rightarrow> 'r list \<Rightarrow> nat \<times> 'r list" where
  "delete_batch idf P key n t =
     (let ids = batch_ids idf P key n t
      in (count_where (\<lambda>r. idf r \<in> set ids) t, delete_where (\<lambda>r. idf r \<in> set ids) t))"

section \<open>The loop\<close>

fun prune_loop :: "(nat \<Rightarrow> 's \<Rightarrow> nat \<times> 's) \<Rightarrow> nat \<Rightarrow> nat \<Rightarrow> nat \<Rightarrow> 's \<Rightarrow> nat \<times> 's" where
  "prune_loop del batchSize 0 removed s = (removed, s)"
| "prune_loop del batchSize (Suc batches) removed s =
     (let (deleted, s') = del batchSize s
      in if deleted < batchSize then (removed + deleted, s')
         else prune_loop del batchSize batches (removed + deleted) s')"

section \<open>The contract of a batch statement\<close>

locale batched_delete =
  fixes del :: "nat \<Rightarrow> 's \<Rightarrow> nat \<times> 's"
    and matching :: "'s \<Rightarrow> nat"
    and rest :: "'s \<Rightarrow> 'k"
    and ok :: "'s \<Rightarrow> bool"
  assumes del_count: "ok s \<Longrightarrow> fst (del n s) = min n (matching s)"
    and del_matching: "ok s \<Longrightarrow> matching (snd (del n s)) = matching s - min n (matching s)"
    and del_rest: "ok s \<Longrightarrow> rest (snd (del n s)) = rest s"
    and del_ok: "ok s \<Longrightarrow> ok (snd (del n s))"
begin

lemma prune_loop_spec:
  assumes "ok s" and "0 < batchSize"
  shows "fst (prune_loop del batchSize batches removed s)
        = removed + min (matching s) (batchSize * batches)
    \<and> matching (snd (prune_loop del batchSize batches removed s))
        = matching s - batchSize * batches
    \<and> rest (snd (prune_loop del batchSize batches removed s)) = rest s
    \<and> ok (snd (prune_loop del batchSize batches removed s))"
  using assms(1)
proof (induction batches arbitrary: removed s)
  case (Suc n)
  obtain d s' where d: "del batchSize s = (d, s')" by fastforce
  then have d_eq: "d = min batchSize (matching s)"
    and m: "matching s' = matching s - min batchSize (matching s)"
    and r: "rest s' = rest s" and ok: "ok s'"
    using del_count [OF Suc.prems, of batchSize] del_matching [OF Suc.prems, of batchSize]
      del_rest [OF Suc.prems, of batchSize] del_ok [OF Suc.prems, of batchSize] by simp_all
  show ?case
  proof (cases "d < batchSize")
    case True
    then have "d = matching s" "matching s' = 0" using d_eq m by auto
    moreover have "matching s < batchSize * Suc n" using True d_eq by (auto simp: min_def split: if_splits)
    ultimately show ?thesis using d True r ok by (simp add: Let_def)
  next
    case False
    then have "d = batchSize" and "batchSize \<le> matching s" using d_eq by auto
    with d False r m Suc.IH [OF ok, of "removed + d"] show ?thesis by (auto simp: Let_def min_def)
  qed
qed simp

lemma prune_removes_all:
  assumes "ok s" and "0 < batchSize" and "matching s \<le> batchSize * batches"
  shows "matching (snd (prune_loop del batchSize batches removed s)) = 0"
  using prune_loop_spec [OF assms(1,2)] assms(3) by simp

end

section \<open>The statement on a table\<close>

lemma distinct_filter_map: "distinct (map f t) \<Longrightarrow> distinct (map f (filter P t))"
  by (simp add: distinct_map_filter)

lemma mem_batch_ids:
  assumes "distinct (map idf t)" and "r \<in> set t"
  shows "idf r \<in> set (batch_ids idf P key n t) \<longleftrightarrow> r \<in> set (take n (sort_key key (filter P t)))"
proof
  assume "idf r \<in> set (batch_ids idf P key n t)"
  then obtain q where q: "q \<in> set (take n (sort_key key (filter P t)))" and "idf q = idf r"
    by (auto simp: batch_ids_def)
  moreover from q have "q \<in> set t" by (auto dest: in_set_takeD)
  ultimately show "r \<in> set (take n (sort_key key (filter P t)))"
    using assms by (metis distinct_map inj_onD)
qed (simp add: batch_ids_def)

lemma delete_batch_matches:
  assumes "distinct (map idf t)" and "r \<in> set t" and "idf r \<in> set (batch_ids idf P key n t)"
  shows "P r"
proof -
  have "r \<in> set (take n (sort_key key (filter P t)))"
    using assms(3) mem_batch_ids [OF assms(1,2)] by blast
  then show ?thesis by (auto dest: in_set_takeD)
qed

lemma delete_batch_count:
  assumes "distinct (map idf t)"
  shows "count_where (\<lambda>r. idf r \<in> set (batch_ids idf P key n t)) t = min n (count_where P t)"
proof -
  let ?b = "take n (sort_key key (filter P t))"
  have dt: "distinct t" using assms by (simp add: distinct_map)
  have "distinct (filter P t)" using dt by simp
  then have db: "distinct ?b" by (simp add: distinct_sort)
  have "set (filter (\<lambda>r. idf r \<in> set (batch_ids idf P key n t)) t) = set ?b"
    using mem_batch_ids [OF assms] by (auto dest: in_set_takeD) (auto simp: batch_ids_def)
  then have "card (set (filter (\<lambda>r. idf r \<in> set (batch_ids idf P key n t)) t)) = length ?b"
    using db by (simp add: distinct_card)
  moreover have "card (set (filter Q t)) = length (filter Q t)" for Q
    using distinct_filter [OF dt] by (rule distinct_card)
  ultimately show ?thesis by (simp add: count_where_def)
qed

lemma length_filter_split:
  "(\<And>r. r \<in> set t \<Longrightarrow> Q r \<Longrightarrow> P r) \<Longrightarrow>
    length (filter P t) = length (filter Q t) + length (filter (\<lambda>r. P r \<and> \<not> Q r) t)"
  by (induction t) auto

lemma delete_batch_remaining:
  assumes "distinct (map idf t)"
  shows "count_where P (snd (delete_batch idf P key n t))
    = count_where P t - min n (count_where P t)"
proof -
  let ?Q = "\<lambda>r. idf r \<in> set (batch_ids idf P key n t)"
  have "length (filter P t) = length (filter ?Q t) + length (filter (\<lambda>r. P r \<and> \<not> ?Q r) t)"
    by (rule length_filter_split) (rule delete_batch_matches [OF assms])
  then show ?thesis
    using delete_batch_count [OF assms, of P key n]
    by (simp add: delete_batch_def Let_def count_where_def delete_where_def conj_commute)
qed

lemma delete_batch_rest:
  assumes "distinct (map idf t)"
  shows "filter (\<lambda>r. \<not> P r) (snd (delete_batch idf P key n t)) = filter (\<lambda>r. \<not> P r) t"
proof -
  have "filter (\<lambda>r. \<not> P r \<and> idf r \<notin> set (batch_ids idf P key n t)) t = filter (\<lambda>r. \<not> P r) t"
    by (rule filter_cong) (use delete_batch_matches [OF assms] in auto)
  then show ?thesis by (simp add: delete_batch_def Let_def delete_where_def conj_commute)
qed

text \<open>Oldest first: a row that stays and matches is not older than one that was deleted.\<close>

lemma take_sort_key_le:
  assumes "sorted (map key xs)" and "a \<in> set (take n xs)" and "b \<in> set (drop n xs)"
  shows "key a \<le> key b"
proof -
  have "sorted (map key (take n xs) @ map key (drop n xs))"
    using assms(1) by (simp flip: map_append)
  then show ?thesis using assms(2,3) by (auto simp: sorted_append)
qed

lemma delete_batch_oldest_first:
  assumes "distinct (map idf t)" and "r \<in> set t" and "r \<notin> set (snd (delete_batch idf P key n t))"
    and "q \<in> set (snd (delete_batch idf P key n t))" and "P q"
  shows "key r \<le> key q"
proof -
  let ?s = "sort_key key (filter P t)"
  have "r \<in> set (take n ?s)"
    using assms(1-3) mem_batch_ids [OF assms(1,2)] by (auto simp: delete_batch_def Let_def)
  moreover have "q \<in> set t" "q \<notin> set (take n ?s)"
    using assms(1,4) mem_batch_ids [OF assms(1)] by (auto simp: delete_batch_def Let_def)
  then have "q \<in> set (drop n ?s)"
    using assms(5) set_append [of "take n ?s" "drop n ?s"] by auto
  ultimately show ?thesis by (rule take_sort_key_le [rotated]) simp
qed

text \<open>The statement on a table with unique ids meets the contract.\<close>

interpretation table_batch: batched_delete
  "delete_batch idf P key" "count_where P" "filter (\<lambda>r. \<not> P r)" "\<lambda>t. distinct (map idf t)"
  for idf :: "'r \<Rightarrow> 'i" and P :: "'r \<Rightarrow> bool" and key :: "'r \<Rightarrow> 'k::linorder"
proof unfold_locales
  fix s :: "'r list" and n :: nat
  assume ok: "distinct (map idf s)"
  show "fst (delete_batch idf P key n s) = min n (count_where P s)"
    using delete_batch_count [OF ok] by (simp add: delete_batch_def Let_def)
  show "count_where P (snd (delete_batch idf P key n s)) = count_where P s - min n (count_where P s)"
    by (rule delete_batch_remaining [OF ok])
  show "filter (\<lambda>r. \<not> P r) (snd (delete_batch idf P key n s)) = filter (\<lambda>r. \<not> P r) s"
    by (rule delete_batch_rest [OF ok])
  show "distinct (map idf (snd (delete_batch idf P key n s)))"
    using ok by (simp add: delete_batch_def Let_def)
qed

end
