(* ===== verification/Auth_Repository.thy ===== *)
theory Auth_Repository
  imports Crypto Retention
begin

text \<open>
  Data access for authentication (\<^verbatim>\<open>src/modules/auth/auth.repository.ts\<close>): users by email,
  refresh tokens, verification and reset tokens. Creating a row fails on a unique key
  (P2002) or a missing parent (P2003); \<^verbatim>\<open>update\<close> of a missing row fails (P2025). Session
  revocation is a loop of DELETE statements under READ COMMITTED: the argument \<open>I\<close> is what
  other transactions have committed to the table when a pass begins.
\<close>

type_synonym interference = "nat \<Rightarrow> refresh_token list \<Rightarrow> refresh_token list"

definition quiet :: interference where
  "quiet pass t = t"

lemma quiet_apply [simp]: "quiet pass t = t"
  by (simp add: quiet_def)

section \<open>Users and roles\<close>

definition active :: "user \<Rightarrow> bool" where
  "active u = (user_deletedAt u = None)"

definition findUserByEmail :: "string \<Rightarrow> database \<Rightarrow> user option" where
  "findUserByEmail email db = find_first (\<lambda>u. user_email u = Some email \<and> active u) (users db)"

text \<open>\<open>lower\<close> is PostgreSQL's \<^verbatim>\<open>lower()\<close>, whose letters depend on the database locale.\<close>

definition findUserByEmailInsensitive ::
  "(string \<Rightarrow> string) \<Rightarrow> string \<Rightarrow> database \<Rightarrow> nat option" where
  "findUserByEmailInsensitive lower email db =
     map_option user_id (find_first
       (\<lambda>u. (case user_email u of None \<Rightarrow> False | Some e \<Rightarrow> lower e = lower email) \<and> active u)
       (users db))"

definition findActiveRoleIdBySlug :: "string \<Rightarrow> database \<Rightarrow> nat option" where
  "findActiveRoleIdBySlug slug db =
     map_option role_id (find_first (\<lambda>r. role_slug r = slug \<and> role_deletedAt r = None) (roles db))"

record create_user_data =
  cu_name :: string
  cu_slug :: string
  cu_email :: string
  cu_password :: string
  cu_roleId :: "nat option"
  cu_isEmailVerified :: bool

definition createUser :: "create_user_data \<Rightarrow> time \<Rightarrow> (database, user) tx" where
  "createUser d now db =
     (if cu_roleId d \<noteq> None \<and> the (cu_roleId d) \<notin> role_id ` set (roles db) then Inl (DbError ''P2003'')
      else let u = \<lparr>user_id = users_seq db, user_name = Some (cu_name d), user_slug = Some (cu_slug d),
                    user_email = Some (cu_email d), user_password = Some (cu_password d),
                    user_avatar = None, user_roleId = cu_roleId d,
                    user_isEmailVerified = cu_isEmailVerified d, user_createdAt = now,
                    user_updatedAt = now, user_deletedAt = None\<rparr>
           in Inr (u, db\<lparr>users := users db @ [u], users_seq := users_seq db + 1\<rparr>))"

section \<open>Refresh tokens\<close>

text \<open>\<open>uuid\<close> is the generated primary key; \<open>familyId\<close> is the given family or the generated
  default.\<close>

definition createRefreshToken ::
  "string \<Rightarrow> string \<Rightarrow> nat \<Rightarrow> string \<Rightarrow> time \<Rightarrow> time \<Rightarrow> database \<Rightarrow> error + database" where
  "createRefreshToken uuid token userId familyId expiresAt now db =
     (if token \<in> rt_token ` set (refresh_tokens db) \<or> uuid \<in> rt_id ` set (refresh_tokens db)
      then Inl (DbError ''P2002'')
      else if userId \<notin> user_id ` set (users db) then Inl (DbError ''P2003'')
      else Inr (db\<lparr>refresh_tokens := refresh_tokens db @ [\<lparr>rt_id = uuid, rt_token = token,
             rt_userId = userId, rt_familyId = familyId, rt_expiresAt = expiresAt,
             rt_createdAt = now, rt_rotatedAt = None, rt_successorCiphertext = None\<rparr>]\<rparr>))"

definition findRefreshToken :: "string \<Rightarrow> database \<Rightarrow> refresh_token option" where
  "findRefreshToken token db = find_first (\<lambda>r. rt_token r = token) (refresh_tokens db)"

definition claimable :: "string \<Rightarrow> refresh_token \<Rightarrow> bool" where
  "claimable rowId r = (rt_id r = rowId \<and> rt_rotatedAt r = None)"

definition markRefreshTokenRotated ::
  "string \<Rightarrow> byte list \<Rightarrow> time \<Rightarrow> database \<Rightarrow> bool \<times> database" where
  "markRefreshTokenRotated rowId successorCiphertext rotatedAt db =
     (count_where (claimable rowId) (refresh_tokens db) = 1,
      db\<lparr>refresh_tokens := update_where (claimable rowId)
           (\<lambda>r. r\<lparr>rt_rotatedAt := Some rotatedAt, rt_successorCiphertext := Some successorCiphertext\<rparr>)
           (refresh_tokens db)\<rparr>)"

definition deleteRefreshToken :: "string \<Rightarrow> database \<Rightarrow> nat \<times> database" where
  "deleteRefreshToken token db =
     (count_where (\<lambda>r. rt_token r = token) (refresh_tokens db),
      db\<lparr>refresh_tokens := delete_where (\<lambda>r. rt_token r = token) (refresh_tokens db)\<rparr>)"

section \<open>Session revocation\<close>

definition MAX_REVOCATION_PASSES :: nat where "MAX_REVOCATION_PASSES = 10"

fun revoke_loop ::
  "interference \<Rightarrow> (refresh_token \<Rightarrow> bool) \<Rightarrow> nat \<Rightarrow> nat \<Rightarrow> nat \<Rightarrow> refresh_token list
     \<Rightarrow> (nat \<times> refresh_token list) option" where
  "revoke_loop I P 0 pass removed t = None"
| "revoke_loop I P (Suc left) pass removed t =
     (let t' = I pass t; count = count_where P t'
      in if count = 0 then Some (removed, t')
         else revoke_loop I P left (pass + 1) (removed + count) (delete_where P t'))"

definition revokeRefreshTokens ::
  "interference \<Rightarrow> (refresh_token \<Rightarrow> bool) \<Rightarrow> (database, nat) tx" where
  "revokeRefreshTokens I P db =
     (case revoke_loop I P MAX_REVOCATION_PASSES 0 0 (refresh_tokens db) of
        None \<Rightarrow> Inl (ThrownError ''Refresh-token revocation did not converge'')
      | Some (removed, t) \<Rightarrow> Inr (removed, db\<lparr>refresh_tokens := t\<rparr>))"

definition in_family :: "nat \<Rightarrow> string \<Rightarrow> refresh_token \<Rightarrow> bool" where
  "in_family userId familyId r = (rt_userId r = userId \<and> rt_familyId r = familyId)"

definition of_user :: "nat \<Rightarrow> refresh_token \<Rightarrow> bool" where
  "of_user userId r = (rt_userId r = userId)"

definition deleteRefreshTokenFamily :: "interference \<Rightarrow> nat \<Rightarrow> string \<Rightarrow> (database, nat) tx" where
  "deleteRefreshTokenFamily I userId familyId = revokeRefreshTokens I (in_family userId familyId)"

definition deleteRefreshTokensByUserId :: "interference \<Rightarrow> nat \<Rightarrow> (database, nat) tx" where
  "deleteRefreshTokensByUserId I userId = revokeRefreshTokens I (of_user userId)"

definition refresh_expired :: "time \<Rightarrow> refresh_token \<Rightarrow> bool" where
  "refresh_expired before r = (rt_expiresAt r < before)"

definition deleteExpiredRefreshTokens :: "time \<Rightarrow> nat \<Rightarrow> nat \<Rightarrow> database \<Rightarrow> nat \<times> database" where
  "deleteExpiredRefreshTokens before batchSize maxBatches db =
     (let (removed, rows) = prune_loop (delete_batch rt_id (refresh_expired before) rt_expiresAt)
                              batchSize maxBatches 0 (refresh_tokens db)
      in (removed, db\<lparr>refresh_tokens := rows\<rparr>))"

section \<open>Verification and reset tokens\<close>

definition createEmailVerificationToken ::
  "string \<Rightarrow> string \<Rightarrow> nat \<Rightarrow> time \<Rightarrow> time \<Rightarrow> database \<Rightarrow> error + database" where
  "createEmailVerificationToken uuid token userId expiresAt now db =
     (if token \<in> evt_token ` set (email_verification_tokens db) then Inl (DbError ''P2002'')
      else if userId \<notin> user_id ` set (users db) then Inl (DbError ''P2003'')
      else Inr (db\<lparr>email_verification_tokens := email_verification_tokens db @
             [\<lparr>evt_id = uuid, evt_token = token, evt_userId = userId, evt_expiresAt = expiresAt,
               evt_createdAt = now\<rparr>]\<rparr>))"

definition findEmailVerificationToken :: "string \<Rightarrow> database \<Rightarrow> email_verification_token option" where
  "findEmailVerificationToken token db =
     find_first (\<lambda>r. evt_token r = token) (email_verification_tokens db)"

definition createPasswordResetToken ::
  "string \<Rightarrow> string \<Rightarrow> nat \<Rightarrow> time \<Rightarrow> time \<Rightarrow> database \<Rightarrow> error + database" where
  "createPasswordResetToken uuid token userId expiresAt now db =
     (if token \<in> prt_token ` set (password_reset_tokens db) then Inl (DbError ''P2002'')
      else if userId \<notin> user_id ` set (users db) then Inl (DbError ''P2003'')
      else Inr (db\<lparr>password_reset_tokens := password_reset_tokens db @
             [\<lparr>prt_id = uuid, prt_token = token, prt_userId = userId, prt_expiresAt = expiresAt,
               prt_usedAt = None, prt_createdAt = now\<rparr>]\<rparr>))"

definition unused_of :: "nat \<Rightarrow> password_reset_token \<Rightarrow> bool" where
  "unused_of userId r = (prt_userId r = userId \<and> prt_usedAt r = None)"

definition deleteUnusedPasswordResetTokens :: "nat \<Rightarrow> database \<Rightarrow> nat \<times> database" where
  "deleteUnusedPasswordResetTokens userId db =
     (count_where (unused_of userId) (password_reset_tokens db),
      db\<lparr>password_reset_tokens := delete_where (unused_of userId) (password_reset_tokens db)\<rparr>)"

definition findUniqueToken :: "string \<Rightarrow> database \<Rightarrow> password_reset_token option" where
  "findUniqueToken token db = find_first (\<lambda>r. prt_token r = token) (password_reset_tokens db)"

definition deletePasswordResetToken :: "string \<Rightarrow> database \<Rightarrow> nat \<times> database" where
  "deletePasswordResetToken token db =
     (count_where (\<lambda>r. prt_token r = token) (password_reset_tokens db),
      db\<lparr>password_reset_tokens :=
           delete_where (\<lambda>r. prt_token r = token) (password_reset_tokens db)\<rparr>)"

definition updatePasswordResetToken :: "string \<Rightarrow> time \<Rightarrow> database \<Rightarrow> error + database" where
  "updatePasswordResetToken token usedAt db =
     (if token \<notin> prt_token ` set (password_reset_tokens db) then Inl (DbError ''P2025'')
      else Inr (db\<lparr>password_reset_tokens :=
             update_where (\<lambda>r. prt_token r = token) (\<lambda>r. r\<lparr>prt_usedAt := Some usedAt\<rparr>)
               (password_reset_tokens db)\<rparr>))"

section \<open>What revocation guarantees\<close>

lemma revoke_loop_clean:
  "revoke_loop I P left pass removed t = Some (n, t') \<Longrightarrow> \<forall>r \<in> set t'. \<not> P r"
proof (induction left arbitrary: pass removed t)
  case (Suc left)
  show ?case
  proof (cases "count_where P (I pass t) = 0")
    case True
    with Suc.prems have "t' = I pass t" by (simp add: Let_def)
    with True show ?thesis by (simp only: count_where_0_iff)
  next
    case False
    with Suc.prems Suc.IH show ?thesis by (simp add: Let_def)
  qed
qed simp

lemma revokeRefreshTokens_clean:
  "revokeRefreshTokens I P db = Inr (n, db') \<Longrightarrow> \<forall>r \<in> set (refresh_tokens db'). \<not> P r"
  by (auto simp: revokeRefreshTokens_def dest: revoke_loop_clean split: option.splits)

lemma revokeRefreshTokens_frame:
  assumes "revokeRefreshTokens I P db = Inr (n, db')"
  shows "db' = db\<lparr>refresh_tokens := refresh_tokens db'\<rparr>"
  using assms by (auto simp: revokeRefreshTokens_def split: option.splits)

lemma revoke_loop_quiet:
  "2 \<le> left \<Longrightarrow> revoke_loop quiet P left pass removed t
     = Some (removed + count_where P t, delete_where P t)"
proof -
  assume "2 \<le> left"
  then obtain k where "left = Suc (Suc k)" using add_2_eq_Suc le_Suc_ex by blast
  moreover have "delete_where P t = t" if "count_where P t = 0"
    using that by (intro delete_where_none) (auto simp: count_where_0_iff)
  ultimately show ?thesis by (cases "count_where P t = 0") (simp_all add: Let_def)
qed

lemma revokeRefreshTokens_quiet:
  "revokeRefreshTokens quiet P db
     = Inr (count_where P (refresh_tokens db),
            db\<lparr>refresh_tokens := delete_where P (refresh_tokens db)\<rparr>)"
  by (simp add: revokeRefreshTokens_def revoke_loop_quiet MAX_REVOCATION_PASSES_def)

text \<open>If some pass after the first starts with no new matching row committed by others, the loop
  ends with success.\<close>

lemma revoke_loop_converges:
  assumes "pass < p" and "p < pass + left"
    and "\<And>t. (\<forall>r \<in> set t. \<not> P r) \<Longrightarrow> (\<forall>r \<in> set (I p t). \<not> P r)"
  shows "revoke_loop I P left pass removed t \<noteq> None"
  using assms(1,2)
proof (induction left arbitrary: pass removed t)
  case (Suc left)
  show ?case
  proof (cases "pass + 1 < p")
    case True
    with Suc.prems have "revoke_loop I P left (pass + 1) (removed + count_where P (I pass t))
        (delete_where P (I pass t)) \<noteq> None"
      by (intro Suc.IH) auto
    then show ?thesis by (simp add: Let_def)
  next
    case False
    with Suc.prems have p: "p = pass + 1" by simp
    with Suc.prems obtain k where k: "left = Suc k" by (cases left) auto
    have "count_where P (I p (delete_where P (I pass t))) = 0"
      using assms(3) [of "delete_where P (I pass t)"] by (simp add: count_where_0_iff)
    with p k show ?thesis by (simp add: Let_def)
  qed
qed simp

text \<open>C16. Session revocation never reports success while a matching session survives, whatever
  other transactions commit between its passes; and it does succeed as soon as one of its later
  passes is not overtaken by a new matching row.\<close>

theorem revocation_sound_and_converges:
  "(\<forall>n db'. revokeRefreshTokens I P db = Inr (n, db') \<longrightarrow> (\<forall>r \<in> set (refresh_tokens db'). \<not> P r))
   \<and> ((\<exists>p. 0 < p \<and> p < MAX_REVOCATION_PASSES
          \<and> (\<forall>t. (\<forall>r \<in> set t. \<not> P r) \<longrightarrow> (\<forall>r \<in> set (I p t). \<not> P r)))
      \<longrightarrow> (\<exists>n db'. revokeRefreshTokens I P db = Inr (n, db')))"
proof (intro conjI impI allI ballI)
  fix n db' r assume "revokeRefreshTokens I P db = Inr (n, db')" "r \<in> set (refresh_tokens db')"
  then show "\<not> P r" using revokeRefreshTokens_clean by blast
next
  assume "\<exists>p. 0 < p \<and> p < MAX_REVOCATION_PASSES
    \<and> (\<forall>t. (\<forall>r \<in> set t. \<not> P r) \<longrightarrow> (\<forall>r \<in> set (I p t). \<not> P r))"
  then obtain p where "0 < p" "p < 0 + MAX_REVOCATION_PASSES"
    and "\<And>t. (\<forall>r \<in> set t. \<not> P r) \<Longrightarrow> (\<forall>r \<in> set (I p t). \<not> P r)" by auto
  then have "revoke_loop I P MAX_REVOCATION_PASSES 0 0 (refresh_tokens db) \<noteq> None"
    by (rule revoke_loop_converges)
  then show "\<exists>n db'. revokeRefreshTokens I P db = Inr (n, db')"
    by (auto simp: revokeRefreshTokens_def)
qed

theorem revocation_sound_and_converges_witness:
  "\<exists>n db'. revokeRefreshTokens quiet (of_user 1) empty_db = Inr (n, db')"
proof -
  have "\<exists>p. 0 < p \<and> p < MAX_REVOCATION_PASSES
      \<and> (\<forall>t. (\<forall>r \<in> set t. \<not> of_user 1 r) \<longrightarrow> (\<forall>r \<in> set (quiet p t). \<not> of_user 1 r))"
    by (rule exI [of _ 1]) (simp add: MAX_REVOCATION_PASSES_def)
  with revocation_sound_and_converges [of quiet "of_user 1" empty_db] show ?thesis by blast
qed

end
