(* ===== verification/Sluggable.thy ===== *)
theory Sluggable
  imports Js_String
begin

text \<open>
  Slug generation (\<^verbatim>\<open>src/utils/sluggable.ts\<close>): the pure normalisation \<open>toSlug\<close> and the
  unbounded search \<open>makeUniqueSlug\<close> for a slug no other row uses. The search is the
  interface through which the role, user, profile and registration services allocate
  slugs; the locale states what it relies on (finitely many slugs are taken) and what it
  gives (it returns, and the slug it returns is free).
\<close>

section \<open>toSlug\<close>

definition slug_kept :: "char \<Rightarrow> bool" where
  "slug_kept c = (is_word c \<or> is_space c \<or> c = CHR ''-'')"

definition toSlug :: "string \<Rightarrow> string" where
  "toSlug text =
     (let s1 = trim (toLowerCase text);
          s2 = keep_only slug_kept s1;
          s3 = replace_runs (\<lambda>c. is_space c \<or> c = CHR ''_'') CHR ''-'' s2;
          s4 = replace_runs (\<lambda>c. c = CHR ''-'') CHR ''-'' s3
      in strip_char CHR ''-'' s4)"

text \<open>The characters a URL slug may hold.\<close>

definition slug_char :: "char \<Rightarrow> bool" where
  "slug_char c = (is_lower_alpha c \<or> is_digit c \<or> c = CHR ''-'')"

fun no_double :: "char \<Rightarrow> string \<Rightarrow> bool" where
  "no_double c (x # y # s) = (\<not> (x = c \<and> y = c) \<and> no_double c (y # s))"
| "no_double c s = True"

definition url_slug :: "string \<Rightarrow> bool" where
  "url_slug s =
     (list_all slug_char s \<and> no_double CHR ''-'' s
      \<and> (s \<noteq> [] \<longrightarrow> hd s \<noteq> CHR ''-'' \<and> last s \<noteq> CHR ''-''))"

lemma no_double_Cons:
  "no_double c (x # s) \<longleftrightarrow> \<not> (x = c \<and> s \<noteq> [] \<and> hd s = c) \<and> no_double c s"
  by (cases s) auto

lemma hd_replace_runs:
  "s \<noteq> [] \<Longrightarrow> hd (replace_runs P r s) = (if P (hd s) then r else hd s)"
  by (cases s) auto

lemma replace_runs_Nil_iff [simp]: "replace_runs P r s = [] \<longleftrightarrow> s = []"
  by (cases s) auto

lemma no_double_replace_runs: "no_double r (replace_runs (\<lambda>x. x = r) r s)"
proof (induction "\<lambda>x. x = r" r s rule: replace_runs.induct)
  case (2 r c cs)
  show ?case
  proof (cases "c = r")
    case True
    have "hd (replace_runs (\<lambda>x. x = r) r (dropWhile (\<lambda>x. x = r) cs)) \<noteq> r"
      if "dropWhile (\<lambda>x. x = r) cs \<noteq> []"
      using hd_dropWhile [OF that] hd_replace_runs [OF that, of "\<lambda>x. x = r" r] by simp
    moreover have "no_double r (replace_runs (\<lambda>x. x = r) r (dropWhile (\<lambda>x. x = r) cs))"
      using 2(1) True by blast
    ultimately show ?thesis
      using True by (auto simp: no_double_Cons)
  next
    case False
    with 2(2) show ?thesis by (simp add: no_double_Cons)
  qed
qed simp

lemma no_double_append_left: "no_double c (s @ t) \<Longrightarrow> no_double c s"
proof (induction s)
  case (Cons x s)
  then show ?case by (cases s) (auto simp: no_double_Cons)
qed simp

lemma no_double_append_right: "no_double c (s @ t) \<Longrightarrow> no_double c t"
  by (induction s) (auto simp: no_double_Cons)

lemma strip_char_parts: "\<exists>a b. s = a @ strip_char c s @ b"
proof -
  let ?d = "dropWhile (\<lambda>x. x = c) s"
  have s: "s = takeWhile (\<lambda>x. x = c) s @ ?d" by simp
  have "rev ?d = takeWhile (\<lambda>x. x = c) (rev ?d) @ dropWhile (\<lambda>x. x = c) (rev ?d)" by simp
  then have "?d = strip_char c s @ rev (takeWhile (\<lambda>x. x = c) (rev ?d))"
    unfolding strip_char_def by (metis rev_append rev_rev_ident)
  with s show ?thesis by metis
qed

lemma no_double_strip_char: "no_double r s \<Longrightarrow> no_double r (strip_char c s)"
  by (metis no_double_append_left no_double_append_right strip_char_parts)

lemma last_strip_char: "strip_char c s \<noteq> [] \<Longrightarrow> last (strip_char c s) \<noteq> c"
  unfolding strip_char_def using hd_dropWhile [of "\<lambda>x. x = c"] by (simp add: last_rev)

lemma strip_char_rev: "strip_char c (rev s) = rev (strip_char c s)"
proof -
  have "rev (dropWhile P (rev (dropWhile P s))) = dropWhile P (rev (dropWhile P (rev s)))"
    for P :: "char \<Rightarrow> bool"
  proof (cases "\<forall>x \<in> set s. P x")
    case True
    then have d: "dropWhile P s = []" "dropWhile P (rev s) = []" by auto
    show ?thesis unfolding d by simp
  next
    case False
    then have "\<exists>x \<in> set s. \<not> P x" by simp
    then obtain a x b where "s = a @ x # b" and "\<not> P x" and "\<forall>y \<in> set a. \<not> \<not> P y"
      by (rule split_list_first_propE)
    then show ?thesis by (simp add: dropWhile_append)
  qed
  then show ?thesis by (simp add: strip_char_def)
qed

lemma hd_strip_char: "strip_char c s \<noteq> [] \<Longrightarrow> hd (strip_char c s) \<noteq> c"
  using last_strip_char [of c "rev s"] by (simp add: strip_char_rev last_rev)

lemma slug_char_toSlug: "c \<in> set (toSlug text) \<Longrightarrow> slug_char c"
proof -
  let ?s1 = "trim (toLowerCase text)"
  let ?s2 = "keep_only slug_kept ?s1"
  let ?s3 = "replace_runs (\<lambda>c. is_space c \<or> c = CHR ''_'') CHR ''-'' ?s2"
  assume "c \<in> set (toSlug text)"
  then have "c = CHR ''-'' \<or> c \<in> set ?s3"
    using set_strip_char set_replace_runs unfolding toSlug_def Let_def by blast
  then have "c = CHR ''-'' \<or> c \<in> set ?s1 \<and> slug_kept c \<and> \<not> is_space c \<and> c \<noteq> CHR ''_''"
    using set_replace_runs unfolding keep_only_def by fastforce
  moreover have "\<not> is_upper_alpha c" if "c \<in> set ?s1"
    using that set_trim_subset [of "toLowerCase text"] by (auto simp: toLowerCase_def)
  ultimately show "slug_char c"
    by (auto simp: slug_char_def slug_kept_def is_word_def)
qed

text \<open>Every slug is a URL slug: only lower-case letters, digits and single hyphens, with no
  hyphen at either end.\<close>

theorem toSlug_url_slug: "url_slug (toSlug text)"
proof -
  have "no_double CHR ''-'' (toSlug text)"
    by (simp add: toSlug_def Let_def no_double_strip_char no_double_replace_runs)
  moreover have "toSlug text \<noteq> [] \<longrightarrow> hd (toSlug text) \<noteq> CHR ''-'' \<and> last (toSlug text) \<noteq> CHR ''-''"
    unfolding toSlug_def Let_def using hd_strip_char last_strip_char by blast
  ultimately show ?thesis
    using slug_char_toSlug by (auto simp: url_slug_def list_all_iff)
qed

section \<open>makeUniqueSlug\<close>

text \<open>The \<^verbatim>\<open>while (true)\<close> loop; \<open>None\<close> would be a search that never ends.\<close>

partial_function (option) slug_loop ::
  "(string \<Rightarrow> bool) \<Rightarrow> string \<Rightarrow> string \<Rightarrow> nat \<Rightarrow> string option" where
  "slug_loop conflict base slug counter =
     (if \<not> conflict slug then Some slug
      else slug_loop conflict base (base @ ''-'' @ show_nat counter) (counter + 1))"

definition makeUniqueSlug :: "string \<Rightarrow> (string \<Rightarrow> bool) \<Rightarrow> string option" where
  "makeUniqueSlug sourceText checkExists =
     slug_loop checkExists (toSlug sourceText) (toSlug sourceText) 1"

text \<open>The candidates in the order the loop tries them.\<close>

definition slug_candidate :: "string \<Rightarrow> nat \<Rightarrow> string" where
  "slug_candidate base i = (if i = 0 then base else base @ ''-'' @ show_nat i)"

lemma slug_candidate_inject: "slug_candidate base i = slug_candidate base j \<Longrightarrow> i = j"
  by (auto simp: slug_candidate_def split: if_splits)

lemma slug_loop_finds:
  assumes "\<not> conflict (slug_candidate base (i + n))"
    and "\<And>k. k < n \<Longrightarrow> conflict (slug_candidate base (i + k))"
  shows "slug_loop conflict base (slug_candidate base i) (i + 1) =
    Some (slug_candidate base (i + n))"
  using assms
proof (induction n arbitrary: i)
  case 0
  then show ?case by (subst slug_loop.simps) simp
next
  case (Suc n)
  have step: "slug_loop conflict base (slug_candidate base (i + 1)) (i + 1 + 1)
      = Some (slug_candidate base (i + 1 + n))"
  proof (rule Suc.IH)
    show "\<not> conflict (slug_candidate base (i + 1 + n))" using Suc.prems(1) by simp
    show "conflict (slug_candidate base (i + 1 + k))" if "k < n" for k
      using Suc.prems(2) [of "Suc k"] that by simp
  qed
  have "conflict (slug_candidate base i)" using Suc.prems(2) [of 0] by simp
  moreover have "base @ ''-'' @ show_nat (i + 1) = slug_candidate base (i + 1)"
    by (simp add: slug_candidate_def)
  ultimately show ?case using step by (subst slug_loop.simps) simp
qed

lemma ex_free_candidate:
  assumes "finite {s. conflict s}"
  shows "\<exists>i. \<not> conflict (slug_candidate base i)"
proof (rule ccontr)
  assume "\<not> ?thesis"
  then have "range (slug_candidate base) \<subseteq> {s. conflict s}" by auto
  moreover have "inj (slug_candidate base)" by (auto intro: injI dest: slug_candidate_inject)
  ultimately show False
    using assms finite_imageD [of "slug_candidate base" UNIV] by (metis finite_subset infinite_UNIV_nat)
qed

lemma least_candidate_free:
  assumes "finite {s. conflict s}"
  shows "\<not> conflict (slug_candidate base (LEAST i. \<not> conflict (slug_candidate base i)))"
  by (rule LeastI_ex) (rule ex_free_candidate [OF assms])

lemma makeUniqueSlug_least:
  assumes "finite {s. conflict s}"
  shows "makeUniqueSlug text conflict =
    Some (slug_candidate (toSlug text) (LEAST i. \<not> conflict (slug_candidate (toSlug text) i)))"
proof -
  let ?n = "LEAST i. \<not> conflict (slug_candidate (toSlug text) i)"
  have "\<not> conflict (slug_candidate (toSlug text) (0 + ?n))"
    using least_candidate_free [OF assms] by simp
  moreover have "conflict (slug_candidate (toSlug text) (0 + k))" if "k < ?n" for k
    using not_less_Least [OF that] by simp
  ultimately have "slug_loop conflict (toSlug text) (slug_candidate (toSlug text) 0) (0 + 1)
      = Some (slug_candidate (toSlug text) (0 + ?n))"
    by (rule slug_loop_finds)
  then show ?thesis by (simp add: makeUniqueSlug_def slug_candidate_def)
qed

section \<open>The slug allocator interface\<close>

text \<open>
  What a client of \<open>makeUniqueSlug\<close> supplies: the rows of its table, the slug of a row, and
  which rows count as conflicts (the active rows other than the one being renamed).
\<close>

locale slug_table =
  fixes rows :: "'db \<Rightarrow> 'r list"
    and slug_of :: "'r \<Rightarrow> string option"
    and counts :: "nat option \<Rightarrow> 'r \<Rightarrow> bool"
    and taken :: "'db \<Rightarrow> nat option \<Rightarrow> string \<Rightarrow> bool"
  assumes taken_iff: "taken db ex s \<longleftrightarrow> (\<exists>r \<in> set (rows db). slug_of r = Some s \<and> counts ex r)"
begin

lemma finite_taken: "finite {s. taken db ex s}"
proof -
  have "{s. taken db ex s} \<subseteq> the ` slug_of ` set (rows db)"
    by (force simp: taken_iff)
  then show ?thesis by (rule finite_subset) simp
qed

lemma unique_slug_returns: "\<exists>s. makeUniqueSlug text (taken db ex) = Some s"
  by (simp add: makeUniqueSlug_least [OF finite_taken])

lemma unique_slug_free:
  assumes "makeUniqueSlug text (taken db ex) = Some s"
  shows "\<not> taken db ex s"
  using assms least_candidate_free [OF finite_taken]
  unfolding makeUniqueSlug_least [OF finite_taken] by blast

lemma unique_slug_fresh_row:
  assumes "makeUniqueSlug text (taken db ex) = Some s" and "r \<in> set (rows db)" and "counts ex r"
  shows "slug_of r \<noteq> Some s"
  using unique_slug_free [OF assms(1)] assms(2,3) by (auto simp: taken_iff)

lemma unique_slug_base:
  assumes "\<not> taken db ex (toSlug text)"
  shows "makeUniqueSlug text (taken db ex) = Some (toSlug text)"
  using assms by (simp add: makeUniqueSlug_def slug_loop.simps)

end

text \<open>C40. The slug search always returns when finitely many slugs are taken, and the slug it
  returns is free.\<close>

theorem makeUniqueSlug_total:
  assumes "finite {s. conflict s}"
  shows "\<exists>s. makeUniqueSlug text conflict = Some s \<and> \<not> conflict s"
  using least_candidate_free [OF assms] makeUniqueSlug_least [OF assms] by blast

theorem makeUniqueSlug_total_witness:
  "\<exists>s. makeUniqueSlug ''Ann Lee!'' (\<lambda>s. s \<in> {''ann-lee'', ''ann-lee-1''}) = Some s
     \<and> s \<notin> {''ann-lee'', ''ann-lee-1''}"
proof -
  have "finite {s :: string. s \<in> {''ann-lee'', ''ann-lee-1''}}" by simp
  from makeUniqueSlug_total [OF this] show ?thesis .
qed

end
