(* ===== verification/Identity_Repository.thy ===== *)
theory Identity_Repository
  imports Auth_Repository Sluggable
begin

text \<open>
  Data access for users and roles (\<^verbatim>\<open>src/modules/user/user.repository.ts\<close>,
  \<^verbatim>\<open>src/modules/role/role.repository.ts\<close>) on the client with the soft-delete extension
  (\<^verbatim>\<open>src/config/database.ts\<close>): a deleted row keeps its data with \<open>deletedAt\<close> set, and the
  lookups skip it. An update is given as a patch whose absent fields are left alone. Both
  tables are interpretations of the slug allocator interface.
\<close>

section \<open>Users\<close>

definition user_find :: "string \<Rightarrow> database \<Rightarrow> user option" where
  "user_find slug db = find_first (\<lambda>u. user_slug u = Some slug \<and> active u) (users db)"

definition user_findByEmail :: "string \<Rightarrow> database \<Rightarrow> user option" where
  "user_findByEmail email db = find_first (\<lambda>u. user_email u = Some email \<and> active u) (users db)"

text \<open>An \<open>excludeId\<close> of 0 is falsy and excludes nothing.\<close>

definition user_counts :: "nat option \<Rightarrow> user \<Rightarrow> bool" where
  "user_counts excludeId u = (active u \<and>
     (case excludeId of None \<Rightarrow> True | Some i \<Rightarrow> i = 0 \<or> user_id u \<noteq> i))"

definition user_findBySlugExcluding :: "string \<Rightarrow> nat option \<Rightarrow> database \<Rightarrow> user option" where
  "user_findBySlugExcluding slug excludeId db =
     find_first (\<lambda>u. user_slug u = Some slug \<and> user_counts excludeId u) (users db)"

record user_patch =
  up_name :: "string option"
  up_slug :: "string option"
  up_email :: "string option"
  up_roleId :: "nat option"
  up_avatar :: "string option"
  up_password :: "string option"
  up_isEmailVerified :: "bool option"

definition no_user_patch :: user_patch where
  "no_user_patch = \<lparr>up_name = None, up_slug = None, up_email = None, up_roleId = None,
     up_avatar = None, up_password = None, up_isEmailVerified = None\<rparr>"

definition patched :: "'a option \<Rightarrow> 'a option \<Rightarrow> 'a option" where
  "patched new old = (case new of None \<Rightarrow> old | Some x \<Rightarrow> Some x)"

definition apply_user_patch :: "user_patch \<Rightarrow> time \<Rightarrow> user \<Rightarrow> user" where
  "apply_user_patch p now u = u\<lparr>user_name := patched (up_name p) (user_name u),
     user_slug := patched (up_slug p) (user_slug u),
     user_email := patched (up_email p) (user_email u),
     user_roleId := patched (up_roleId p) (user_roleId u),
     user_avatar := patched (up_avatar p) (user_avatar u),
     user_password := patched (up_password p) (user_password u),
     user_isEmailVerified := (case up_isEmailVerified p of None \<Rightarrow> user_isEmailVerified u | Some b \<Rightarrow> b),
     user_updatedAt := now\<rparr>"

definition user_update :: "nat \<Rightarrow> user_patch \<Rightarrow> time \<Rightarrow> (database, user) tx" where
  "user_update rowId p now db =
     (case find_first (\<lambda>u. user_id u = rowId) (users db) of
        None \<Rightarrow> Inl (DbError ''P2025'')
      | Some u \<Rightarrow>
          if up_roleId p \<noteq> None \<and> the (up_roleId p) \<notin> role_id ` set (roles db)
          then Inl (DbError ''P2003'')
          else Inr (apply_user_patch p now u,
                 db\<lparr>users := update_where (\<lambda>u. user_id u = rowId) (apply_user_patch p now) (users db)\<rparr>))"

text \<open>\<^verbatim>\<open>delete\<close> is turned into an update of \<^verbatim>\<open>deletedAt\<close> by the soft-delete extension.\<close>

definition user_delete :: "nat \<Rightarrow> time \<Rightarrow> (database, unit) tx" where
  "user_delete rowId now db =
     (if rowId \<notin> user_id ` set (users db) then Inl (DbError ''P2025'')
      else Inr ((), db\<lparr>users := update_where (\<lambda>u. user_id u = rowId)
             (\<lambda>u. u\<lparr>user_deletedAt := Some now, user_updatedAt := now\<rparr>) (users db)\<rparr>))"

definition user_slug_taken :: "database \<Rightarrow> nat option \<Rightarrow> string \<Rightarrow> bool" where
  "user_slug_taken db excludeId slug = (user_findBySlugExcluding slug excludeId db \<noteq> None)"

interpretation user_slugs: slug_table users user_slug user_counts user_slug_taken
  by unfold_locales
    (auto simp: user_slug_taken_def user_findBySlugExcluding_def find_first_None_iff
       simp del: not_None_eq)

section \<open>Roles\<close>

definition role_active :: "role \<Rightarrow> bool" where
  "role_active r = (role_deletedAt r = None)"

definition role_findById :: "nat \<Rightarrow> database \<Rightarrow> role option" where
  "role_findById rowId db = find_first (\<lambda>r. role_id r = rowId \<and> role_active r) (roles db)"

definition role_findBySlug :: "string \<Rightarrow> database \<Rightarrow> role option" where
  "role_findBySlug slug db = find_first (\<lambda>r. role_slug r = slug \<and> role_active r) (roles db)"

definition role_counts :: "nat option \<Rightarrow> role \<Rightarrow> bool" where
  "role_counts excludeId r = (role_active r \<and>
     (case excludeId of None \<Rightarrow> True | Some i \<Rightarrow> i = 0 \<or> role_id r \<noteq> i))"

definition role_findBySlugExcluding :: "string \<Rightarrow> nat option \<Rightarrow> database \<Rightarrow> role option" where
  "role_findBySlugExcluding slug excludeId db =
     find_first (\<lambda>r. role_slug r = slug \<and> role_counts excludeId r) (roles db)"

definition role_create ::
  "string \<Rightarrow> string \<Rightarrow> string \<Rightarrow> string option \<Rightarrow> json \<Rightarrow> time \<Rightarrow> database \<Rightarrow> role \<times> database" where
  "role_create slug title userType description access now db =
     (let r = \<lparr>role_id = roles_seq db, role_slug = slug, role_title = title, role_userType = userType,
               role_description = description, role_access = access, role_createdAt = now,
               role_updatedAt = now, role_deletedAt = None\<rparr>
      in (r, db\<lparr>roles := roles db @ [r], roles_seq := roles_seq db + 1\<rparr>))"

text \<open>\<open>rp_description\<close> distinguishes an absent description from one set to null.\<close>

record role_patch =
  rp_title :: "string option"
  rp_slug :: "string option"
  rp_userType :: "string option"
  rp_description :: "string option option"
  rp_access :: "json option"

definition or_else :: "'a option \<Rightarrow> 'a \<Rightarrow> 'a" where
  "or_else new old = (case new of None \<Rightarrow> old | Some x \<Rightarrow> x)"

definition apply_role_patch :: "role_patch \<Rightarrow> time \<Rightarrow> role \<Rightarrow> role" where
  "apply_role_patch p now r = r\<lparr>role_title := or_else (rp_title p) (role_title r),
     role_slug := or_else (rp_slug p) (role_slug r),
     role_userType := or_else (rp_userType p) (role_userType r),
     role_description := or_else (rp_description p) (role_description r),
     role_access := or_else (rp_access p) (role_access r), role_updatedAt := now\<rparr>"

definition role_update :: "nat \<Rightarrow> role_patch \<Rightarrow> time \<Rightarrow> (database, role) tx" where
  "role_update rowId p now db =
     (case find_first (\<lambda>r. role_id r = rowId) (roles db) of
        None \<Rightarrow> Inl (DbError ''P2025'')
      | Some r \<Rightarrow> Inr (apply_role_patch p now r,
          db\<lparr>roles := update_where (\<lambda>r. role_id r = rowId) (apply_role_patch p now) (roles db)\<rparr>))"

definition role_delete :: "nat \<Rightarrow> time \<Rightarrow> (database, unit) tx" where
  "role_delete rowId now db =
     (if rowId \<notin> role_id ` set (roles db) then Inl (DbError ''P2025'')
      else Inr ((), db\<lparr>roles := update_where (\<lambda>r. role_id r = rowId)
             (\<lambda>r. r\<lparr>role_deletedAt := Some now, role_updatedAt := now\<rparr>) (roles db)\<rparr>))"

definition countUsers :: "nat \<Rightarrow> database \<Rightarrow> nat" where
  "countUsers roleId db = count_where (\<lambda>u. user_roleId u = Some roleId \<and> active u) (users db)"

definition role_slug_taken :: "database \<Rightarrow> nat option \<Rightarrow> string \<Rightarrow> bool" where
  "role_slug_taken db excludeId slug = (role_findBySlugExcluding slug excludeId db \<noteq> None)"

interpretation role_slugs: slug_table roles "\<lambda>r. Some (role_slug r)" role_counts role_slug_taken
  by unfold_locales
    (auto simp: role_slug_taken_def role_findBySlugExcluding_def find_first_None_iff
       simp del: not_None_eq)

section \<open>Well-formed identity tables\<close>

text \<open>Keys below the sequences and unique, slugs unique among the active rows, every user's role
  a row of the role table.\<close>

definition slug_unique_users :: "user list \<Rightarrow> bool" where
  "slug_unique_users t = (\<forall>a \<in> set t. \<forall>b \<in> set t. active a \<longrightarrow> active b \<longrightarrow> user_slug a \<noteq> None
     \<longrightarrow> user_slug a = user_slug b \<longrightarrow> user_id a = user_id b)"

definition slug_unique_roles :: "role list \<Rightarrow> bool" where
  "slug_unique_roles t = (\<forall>a \<in> set t. \<forall>b \<in> set t. role_active a \<longrightarrow> role_active b
     \<longrightarrow> role_slug a = role_slug b \<longrightarrow> role_id a = role_id b)"

definition users_ok :: "database \<Rightarrow> bool" where
  "users_ok db = (distinct (map user_id (users db))
     \<and> (\<forall>u \<in> set (users db). user_id u < users_seq db)
     \<and> (\<forall>u \<in> set (users db). user_roleId u \<noteq> None \<longrightarrow> the (user_roleId u) \<in> role_id ` set (roles db))
     \<and> slug_unique_users (users db))"

definition roles_ok :: "database \<Rightarrow> bool" where
  "roles_ok db = (distinct (map role_id (roles db))
     \<and> (\<forall>r \<in> set (roles db). role_id r < roles_seq db) \<and> slug_unique_roles (roles db))"

lemma slug_unique_rolesD:
  "slug_unique_roles t \<Longrightarrow> a \<in> set t \<Longrightarrow> b \<in> set t \<Longrightarrow> role_active a \<Longrightarrow> role_active b
     \<Longrightarrow> role_slug a = role_slug b \<Longrightarrow> role_id a = role_id b"
  unfolding slug_unique_roles_def by blast

lemma slug_unique_usersD:
  "slug_unique_users t \<Longrightarrow> a \<in> set t \<Longrightarrow> b \<in> set t \<Longrightarrow> active a \<Longrightarrow> active b \<Longrightarrow> user_slug a \<noteq> None
     \<Longrightarrow> user_slug a = user_slug b \<Longrightarrow> user_id a = user_id b"
  unfolding slug_unique_users_def by blast

lemma user_find_SomeD:
  "user_find slug db = Some u \<Longrightarrow> u \<in> set (users db) \<and> user_slug u = Some slug \<and> active u"
  unfolding user_find_def by (drule find_first_SomeD) simp

lemma find_user_id:
  "distinct (map user_id (users db)) \<Longrightarrow> u \<in> set (users db)
     \<Longrightarrow> find_first (\<lambda>x. user_id x = user_id u) (users db) = Some u"
  by (rule find_first_unique)

lemma role_findBySlug_SomeD:
  "role_findBySlug slug db = Some r \<Longrightarrow> r \<in> set (roles db) \<and> role_slug r = slug \<and> role_active r"
  unfolding role_findBySlug_def by (drule find_first_SomeD) simp

lemma apply_user_patch_simps [simp]:
  "user_id (apply_user_patch p now u) = user_id u"
  "user_deletedAt (apply_user_patch p now u) = user_deletedAt u"
  "active (apply_user_patch p now u) = active u"
  "user_slug (apply_user_patch p now u) = patched (up_slug p) (user_slug u)"
  "user_roleId (apply_user_patch p now u) = patched (up_roleId p) (user_roleId u)"
  by (simp_all add: apply_user_patch_def active_def)

end
