(* ===== verification/Rbac.thy ===== *)
theory Rbac
  imports Cache Identity_Repository
begin

text \<open>
  Access control: the versioned cache of each user's role
  (\<^verbatim>\<open>src/services/rbac-cache.service.ts\<close>), its use by \<^verbatim>\<open>src/middleware/resolve-role.ts\<close>, and
  the two gates \<^verbatim>\<open>checkPermission\<close> and \<^verbatim>\<open>checkUserType\<close>. The last part is a step relation in
  which the reads, writes and bumps of concurrent requests interleave with commits to the
  database.
\<close>

section \<open>The versioned cache\<close>

definition RBAC_VERSION_KEY :: string where "RBAC_VERSION_KEY = ''rbac:version''"
definition USER_ROLE_CACHE_TTL :: nat where "USER_ROLE_CACHE_TTL = 300"

definition userKey :: "nat \<Rightarrow> string" where
  "userKey userId = ''user-role:'' @ show_nat userId"

text \<open>\<open>{ ...data, rbacVersion: version }\<close>.\<close>

definition stamped :: "json \<Rightarrow> int \<Rightarrow> json" where
  "stamped data version = (case data of
     JObj fs \<Rightarrow> JObj (filter (\<lambda>(k, v). k \<noteq> ''rbacVersion'') fs @ [(''rbacVersion'', JNum version)])
   | _ \<Rightarrow> JObj [(''rbacVersion'', JNum version)])"

definition stored_version :: "json option \<Rightarrow> int" where
  "stored_version stored = (case stored of Some (JNum n) \<Rightarrow> n | _ \<Rightarrow> 0)"

text \<open>\<open>entry?.rbacVersion === version && (entry.role === null || typeof entry.role.userType === 'string')\<close>;
  reading a field of a missing role throws.\<close>

definition entry_current :: "json \<Rightarrow> int \<Rightarrow> error + bool" where
  "entry_current entry version =
     (if json_field ''rbacVersion'' entry \<noteq> Some (JNum version) then Inr False
      else case json_field ''role'' entry of
             None \<Rightarrow> Inl (ThrownError ''Cannot read properties of undefined'')
           | Some JNull \<Rightarrow> Inr True
           | Some r \<Rightarrow> Inr (case json_field ''userType'' r of Some (JStr _) \<Rightarrow> True | _ \<Rightarrow> False))"

definition readUserAccess :: "nat \<Rightarrow> time \<Rightarrow> (redis, json option \<times> int) tx" where
  "readUserAccess userId now s =
     (case cache_mget [userKey userId, RBAC_VERSION_KEY] now s of
        Inl e \<Rightarrow> Inl e
      | Inr (vs, s') \<Rightarrow>
          (let version = stored_version (vs ! 1) in
           case vs ! 0 of
             None \<Rightarrow> Inr ((None, version), s')
           | Some entry \<Rightarrow>
               (case entry_current entry version of
                  Inl e \<Rightarrow> Inl e
                | Inr current \<Rightarrow> Inr ((if current then Some entry else None, version), s'))))"

definition role_users_key :: "json \<Rightarrow> string" where
  "role_users_key role = ''role-users:'' @ (case json_field ''id'' role of Some (JNum n) \<Rightarrow> show_int n | _ \<Rightarrow> ''undefined'')"

definition has_role :: "json \<Rightarrow> bool" where
  "has_role data = (case json_field ''role'' data of None \<Rightarrow> False | Some JNull \<Rightarrow> False | Some r \<Rightarrow> True)"

definition cacheUserAccess :: "nat \<Rightarrow> json \<Rightarrow> int \<Rightarrow> time \<Rightarrow> (redis, unit) tx" where
  "cacheUserAccess userId data version now =
     tx_bind (cache_set (userKey userId) (stamped data version) USER_ROLE_CACHE_TTL now)
       (\<lambda>_. if has_role data
            then cache_sadd (role_users_key (the (json_field ''role'' data))) (show_nat userId)
                   USER_ROLE_CACHE_TTL now
            else tx_return ())"

definition invalidateAccess :: "time \<Rightarrow> (redis, int) tx" where
  "invalidateAccess now = cache_incr RBAC_VERSION_KEY now"

section \<open>Resolving the role of a request\<close>

definition role_json :: "role \<Rightarrow> json" where
  "role_json r = JObj [(''id'', JNum (int (role_id r))), (''slug'', JStr (role_slug r)),
     (''userType'', JStr (role_userType r)), (''access'', role_access r)]"

text \<open>The selected user with the role relation; the relation hides a soft-deleted role.\<close>

definition access_json :: "database \<Rightarrow> user \<Rightarrow> json" where
  "access_json db u = JObj [(''id'', JNum (int (user_id u))),
     (''role'', case Option.bind (user_roleId u) (\<lambda>i. role_findById i db) of
                None \<Rightarrow> JNull | Some r \<Rightarrow> role_json r)]"

definition stored_access :: "nat \<Rightarrow> database \<Rightarrow> json option" where
  "stored_access userId db =
     map_option (access_json db) (find_first (\<lambda>u. user_id u = userId \<and> active u) (users db))"

definition unauthorized :: error where "unauthorized = AppError ''Unauthorized access'' 401"
definition no_role :: error where "no_role = AppError ''Access denied: no role assigned'' 403"

definition role_of :: "json \<Rightarrow> error + json" where
  "role_of userData = (case json_field ''role'' userData of
     None \<Rightarrow> Inl no_role | Some JNull \<Rightarrow> Inl no_role | Some r \<Rightarrow> Inr r)"

definition resolveRole ::
  "json option \<Rightarrow> nat option \<Rightarrow> time \<Rightarrow> database \<Rightarrow> (redis, json) service" where
  "resolveRole reqRole sub now db s =
     (case reqRole of
        Some r \<Rightarrow> (Inr r, s)
      | None \<Rightarrow>
          (case sub of
             None \<Rightarrow> (Inl unauthorized, s)
           | Some userId \<Rightarrow>
               if userId = 0 then (Inl unauthorized, s)
               else (case readUserAccess userId now s of
                  Inl e \<Rightarrow> (Inl e, s)
                | Inr ((Some userData, version), s1) \<Rightarrow> (role_of userData, s1)
                | Inr ((None, version), s1) \<Rightarrow>
                    (case stored_access userId db of
                       None \<Rightarrow> (Inl unauthorized, s1)
                     | Some userData \<Rightarrow>
                         (case cacheUserAccess userId userData version now s1 of
                            Inl e \<Rightarrow> (Inl e, s1)
                          | Inr (_, s2) \<Rightarrow> (role_of userData, s2))))))"

section \<open>The gates\<close>

definition granted_access :: "json \<Rightarrow> json list" where
  "granted_access role = (case json_field ''access'' role of Some (JArr vs) \<Rightarrow> vs | _ \<Rightarrow> [])"

definition permission_denied :: error where
  "permission_denied = AppError ''You do not have permission to perform this action'' 403"

definition grants :: "string \<Rightarrow> error + json \<Rightarrow> error + unit" where
  "grants permission role = (case role of
     Inl e \<Rightarrow> Inl e
   | Inr r \<Rightarrow> if JStr permission \<in> set (granted_access r) then Inr () else Inl permission_denied)"

definition checkPermission ::
  "string \<Rightarrow> json option \<Rightarrow> nat option \<Rightarrow> time \<Rightarrow> database \<Rightarrow> (redis, unit) service" where
  "checkPermission permission reqRole sub now db s =
     (let (role, s') = resolveRole reqRole sub now db s in (grants permission role, s'))"

definition USER_TYPES :: "string list" where "USER_TYPES = [''Administrator'', ''Member'']"

definition isUserType :: "string \<Rightarrow> bool" where
  "isUserType v = (v \<in> set USER_TYPES)"

text \<open>The factory refuses to build a gate with no type or an unknown one.\<close>

definition checkUserType_new :: "string list \<Rightarrow> error + string list" where
  "checkUserType_new allowedTypes =
     (if allowedTypes = [] \<or> \<not> list_all isUserType allowedTypes
      then Inl (ThrownError (''checkUserType needs types from USER_TYPES ('' @ join_with '', '' USER_TYPES
             @ ''); got: '' @ (let g = join_with '', '' allowedTypes in if g = [] then ''none'' else g)))
      else Inr allowedTypes)"

definition type_allowed :: "string list \<Rightarrow> error + json \<Rightarrow> error + unit" where
  "type_allowed allowed role = (case role of
     Inl e \<Rightarrow> Inl e
   | Inr r \<Rightarrow> (case json_field ''userType'' r of
        Some (JStr t) \<Rightarrow> if t \<in> set allowed then Inr () else Inl (AppError ''Access denied'' 403)
      | _ \<Rightarrow> Inl (AppError ''Access denied'' 403)))"

definition checkUserType ::
  "string list \<Rightarrow> json option \<Rightarrow> nat option \<Rightarrow> time \<Rightarrow> database \<Rightarrow> (redis, unit) service" where
  "checkUserType allowed reqRole sub now db s =
     (let (role, s') = resolveRole reqRole sub now db s in (type_allowed allowed role, s'))"

section \<open>Concurrent requests\<close>

text \<open>A request on its way through \<open>resolveRole\<close> after a miss: with the version it read, then also
  with the data it loaded.\<close>

datatype flight = Read nat int | Loaded nat int json

text \<open>\<open>pending\<close> counts the committed changes of somebody's access whose version bump has not
  happened yet.\<close>

record rbac_state =
  rs_db :: database
  rs_redis :: redis
  rs_flights :: "flight list"
  rs_pending :: nat

inductive rbac_step :: "rbac_state \<Rightarrow> rbac_state \<Rightarrow> bool" where
  miss: "readUserAccess userId now (rs_redis st) = Inr ((None, v), s)
     \<Longrightarrow> rbac_step st (st\<lparr>rs_redis := s, rs_flights := Read userId v # rs_flights st\<rparr>)"
| load: "Read userId v \<in> set (rs_flights st) \<Longrightarrow> stored_access userId (rs_db st) = Some d
     \<Longrightarrow> rbac_step st (st\<lparr>rs_flights := Loaded userId v d # remove1 (Read userId v) (rs_flights st)\<rparr>)"
| refill: "Loaded userId v d \<in> set (rs_flights st) \<Longrightarrow> cacheUserAccess userId d v now (rs_redis st) = Inr (u, s)
     \<Longrightarrow> rbac_step st (st\<lparr>rs_redis := s, rs_flights := remove1 (Loaded userId v d) (rs_flights st)\<rparr>)"
| abandon: "rbac_step st (st\<lparr>rs_flights := remove1 f (rs_flights st)\<rparr>)"
| commit: "rbac_step st (st\<lparr>rs_db := db', rs_pending := rs_pending st + 1\<rparr>)"
| commit_neutral: "(\<And>userId d. stored_access userId (rs_db st) = Some d \<Longrightarrow> stored_access userId db' = Some d)
     \<Longrightarrow> rbac_step st (st\<lparr>rs_db := db'\<rparr>)"
| bump: "0 < rs_pending st \<Longrightarrow> invalidateAccess now (rs_redis st) = Inr (n, s)
     \<Longrightarrow> rbac_step st (st\<lparr>rs_redis := s, rs_pending := rs_pending st - 1\<rparr>)"
| drop: "RBAC_VERSION_KEY \<notin> set ks \<Longrightarrow> cache_del ks (rs_redis st) = Inr (u, s)
     \<Longrightarrow> rbac_step st (st\<lparr>rs_redis := s\<rparr>)"

definition rbac_init :: "database \<Rightarrow> rbac_state" where
  "rbac_init db = \<lparr>rs_db = db, rs_redis = empty_redis, rs_flights = [], rs_pending = 0\<rparr>"

definition cur_version :: "redis \<Rightarrow> int" where
  "cur_version s = stored_version (map_option fst (kv s RBAC_VERSION_KEY))"

definition version_ok :: "redis \<Rightarrow> bool" where
  "version_ok s = (case kv s RBAC_VERSION_KEY of None \<Rightarrow> True
     | Some (j, x) \<Rightarrow> x = None \<and> (\<exists>n. j = JNum n))"

text \<open>A stamp is never ahead of the version, and with no bump outstanding data stamped with the
  current version is what the database holds.\<close>

definition fresh_data :: "rbac_state \<Rightarrow> nat \<Rightarrow> int \<Rightarrow> json \<Rightarrow> bool" where
  "fresh_data st userId v d = (v \<le> cur_version (rs_redis st)
     \<and> (rs_pending st = 0 \<longrightarrow> v = cur_version (rs_redis st) \<longrightarrow> stored_access userId (rs_db st) = Some d))"

definition entries_fresh :: "rbac_state \<Rightarrow> bool" where
  "entries_fresh st = (\<forall>userId j x. kv (rs_redis st) (userKey userId) = Some (j, x)
     \<longrightarrow> (\<exists>d v. j = stamped d v \<and> fresh_data st userId v d))"

definition flight_fresh :: "rbac_state \<Rightarrow> flight \<Rightarrow> bool" where
  "flight_fresh st f = (case f of
       Read userId v \<Rightarrow> v \<le> cur_version (rs_redis st)
     | Loaded userId v d \<Rightarrow> fresh_data st userId v d)"

definition flights_fresh :: "rbac_state \<Rightarrow> bool" where
  "flights_fresh st = (\<forall>f \<in> set (rs_flights st). flight_fresh st f)"

definition rbac_inv :: "rbac_state \<Rightarrow> bool" where
  "rbac_inv st = (version_ok (rs_redis st) \<and> entries_fresh st \<and> flights_fresh st)"

lemma userKey_inject [simp]: "userKey a = userKey b \<longleftrightarrow> a = b"
  by (simp add: userKey_def)

lemma userKey_version [simp]: "userKey a \<noteq> RBAC_VERSION_KEY" "RBAC_VERSION_KEY \<noteq> userKey a"
  by (simp_all add: userKey_def RBAC_VERSION_KEY_def)

lemma map_of_without [simp]: "map_of (filter (\<lambda>(k, v). k \<noteq> a) fs) a = None"
  by (induction fs) auto

lemma map_of_without_other: "k \<noteq> a \<Longrightarrow> map_of (filter (\<lambda>(k, v). k \<noteq> a) fs) k = map_of fs k"
  by (induction fs) auto

lemma stamped_version [simp]: "json_field ''rbacVersion'' (stamped d v) = Some (JNum v)"
  by (simp add: stamped_def json_field_def map_add_def split: json.splits)

lemma stamped_field: "k \<noteq> ''rbacVersion'' \<Longrightarrow> json_field k (stamped (JObj fs) v) = map_of fs k"
  by (auto simp: stamped_def json_field_def map_add_def map_of_without_other split: option.splits)

lemma access_json_stamped [simp]: "json_field ''role'' (stamped (access_json db u) v) = json_field ''role'' (access_json db u)"
  by (simp add: access_json_def stamped_field) (simp add: json_field_def)

lemma cacheUserAccess_kv:
  assumes "cacheUserAccess userId d v now s = Inr (u, s')"
  shows "kv s' = (kv s)(userKey userId := Some (stamped d v, Some (now + int USER_ROLE_CACHE_TTL * 1000)))"
  using assms by (auto simp: cacheUserAccess_def tx_bind_eq_Inr cache_defs split: if_splits)

lemma readUserAccess_state: "readUserAccess userId now s = Inr (r, s') \<Longrightarrow> s' = s"
  by (auto simp: readUserAccess_def cache_defs Let_def split: if_splits sum.splits option.splits)

lemma live_version: "version_ok s \<Longrightarrow> stored_version (live_value s now RBAC_VERSION_KEY) = cur_version s"
  by (auto simp: version_ok_def cur_version_def live_value_def split: option.splits)

lemma readUserAccess_version:
  assumes "version_ok s" and "readUserAccess userId now s = Inr ((c, v), s')"
  shows "v = cur_version s"
  using assms live_version [OF assms(1), of now]
  by (auto simp: readUserAccess_def cache_defs Let_def split: if_splits sum.splits option.splits)

lemma invalidateAccess_kv:
  assumes "version_ok s" and "invalidateAccess now s = Inr (n, s')"
  shows "n = cur_version s + 1 \<and> kv s' = (kv s)(RBAC_VERSION_KEY := Some (JNum (cur_version s + 1), None))"
  using assms unfolding invalidateAccess_def cache_incr_def version_ok_def cur_version_def
    stored_version_def live_value_def
  by (auto split: if_splits option.splits json.splits)

lemma kv_frame_version:
  "kv s' RBAC_VERSION_KEY = kv s RBAC_VERSION_KEY \<Longrightarrow> cur_version s' = cur_version s \<and> version_ok s' = version_ok s"
  by (simp add: cur_version_def version_ok_def)

lemma cache_del_kv:
  "cache_del ks s = Inr (u, s') \<Longrightarrow> kv s' k = (if k \<in> set ks then None else kv s k)"
  by (auto simp: cache_defs split: if_splits)

section \<open>The invariant of concurrent requests\<close>

lemma rbac_inv_step:
  assumes "rbac_inv st" and "version_ok (rs_redis st')"
    and "cur_version (rs_redis st) \<le> cur_version (rs_redis st')"
    and keep: "\<And>userId v d. fresh_data st userId v d \<Longrightarrow> fresh_data st' userId v d"
    and entries: "\<And>userId j x. kv (rs_redis st') (userKey userId) = Some (j, x) \<Longrightarrow>
      kv (rs_redis st) (userKey userId) = Some (j, x) \<or> (\<exists>d v. j = stamped d v \<and> fresh_data st' userId v d)"
    and flights: "\<And>f. f \<in> set (rs_flights st') \<Longrightarrow> f \<in> set (rs_flights st) \<or> flight_fresh st' f"
  shows "rbac_inv st'"
proof -
  have "entries_fresh st'"
    using assms(1) entries keep unfolding rbac_inv_def entries_fresh_def by meson
  moreover have "flight_fresh st' f" if "flight_fresh st f" for f
    using that keep assms(3) by (cases f) (auto simp: flight_fresh_def)
  then have "flights_fresh st'"
    using assms(1) flights unfolding rbac_inv_def flights_fresh_def by blast
  ultimately show ?thesis using assms(2) by (simp add: rbac_inv_def)
qed

lemma rbac_step_inv: "rbac_step st st' \<Longrightarrow> rbac_inv st \<Longrightarrow> rbac_inv st'"
proof (induction rule: rbac_step.induct)
  case (miss userId now st v s)
  then have "s = rs_redis st" "v = cur_version (rs_redis st)"
    using readUserAccess_state readUserAccess_version rbac_inv_def by auto
  then show ?case
    using miss(2) by - (rule rbac_inv_step [of st]; auto simp: fresh_data_def flight_fresh_def rbac_inv_def)
next
  case (load userId v st d)
  then have "v \<le> cur_version (rs_redis st)"
    by (auto simp: rbac_inv_def flights_fresh_def flight_fresh_def)
  with load show ?case
    by - (rule rbac_inv_step [of st]; auto simp: fresh_data_def flight_fresh_def rbac_inv_def dest: set_remove1_subset [THEN subsetD])
next
  case (refill userId v d st now u s)
  note k = cacheUserAccess_kv [OF refill(2)]
  have f: "fresh_data st userId v d"
    using refill(1,3) unfolding rbac_inv_def flights_fresh_def flight_fresh_def by fastforce
  have "cur_version s = cur_version (rs_redis st)" "version_ok s = version_ok (rs_redis st)"
    using kv_frame_version [of s "rs_redis st"] k by simp_all
  with refill(3) f k show ?case
    by - (rule rbac_inv_step [of st]; auto simp: fresh_data_def rbac_inv_def split: if_splits dest: set_remove1_subset [THEN subsetD])
next
  case (abandon st f)
  then show ?case
    by - (rule rbac_inv_step [of st]; auto simp: fresh_data_def rbac_inv_def dest: set_remove1_subset [THEN subsetD])
next
  case (commit st db')
  then show ?case by - (rule rbac_inv_step [of st]; auto simp: fresh_data_def rbac_inv_def)
next
  case (commit_neutral st db')
  then show ?case by - (rule rbac_inv_step [of st]; auto simp: fresh_data_def rbac_inv_def)
next
  case (bump st now n s)
  then have k: "kv s = (kv (rs_redis st))(RBAC_VERSION_KEY := Some (JNum (cur_version (rs_redis st) + 1), None))"
    using invalidateAccess_kv by (auto simp: rbac_inv_def)
  then have "cur_version s = cur_version (rs_redis st) + 1" "version_ok s"
    by (simp_all add: cur_version_def [of s] version_ok_def stored_version_def)
  with bump(3) k show ?case
    by - (rule rbac_inv_step [of st]; auto simp: fresh_data_def split: if_splits)
next
  case (drop ks st u s)
  have k: "kv s x = (if x \<in> set ks then None else kv (rs_redis st) x)" for x
    using cache_del_kv [OF drop(2)] .
  have "cur_version s = cur_version (rs_redis st)" "version_ok s = version_ok (rs_redis st)"
    using kv_frame_version [of s "rs_redis st"] k drop(1) by simp_all
  with drop(3) k show ?case
    by - (rule rbac_inv_step [of st]; auto simp: fresh_data_def rbac_inv_def split: if_splits)
qed

lemma rbac_inv_init: "rbac_inv (rbac_init db)"
  by (simp add: rbac_inv_def rbac_init_def empty_redis_def version_ok_def entries_fresh_def flights_fresh_def)

lemma rbac_run_inv: "rbac_step\<^sup>*\<^sup>* (rbac_init db0) st \<Longrightarrow> rbac_inv st"
  by (induction rule: rtranclp_induct) (simp_all add: rbac_inv_init rbac_step_inv)

text \<open>The decision the database alone would give.\<close>

definition access_decision :: "string \<Rightarrow> nat \<Rightarrow> database \<Rightarrow> error + unit" where
  "access_decision permission userId db =
     (case stored_access userId db of None \<Rightarrow> Inl unauthorized | Some d \<Rightarrow> grants permission (role_of d))"

lemma stored_access_shape:
  assumes "stored_access userId db = Some d"
  shows "\<exists>u. d = access_json db u"
  using assms by (auto simp: stored_access_def)

lemma role_of_stamped [simp]: "role_of (stamped (access_json db u) v) = role_of (access_json db u)"
  by (simp add: role_of_def)

lemma entry_current_stamped:
  "entry_current (stamped (access_json db u) v) v = Inr True"
  by (simp add: entry_current_def)
    (auto simp: access_json_def json_field_def role_json_def split: option.splits)

lemma when_up_mget:
  "redis_up s \<Longrightarrow> cache_mget ks now s = Inr (map (live_value s now) ks, s)"
  by (simp add: cache_defs)

lemma cached_entry_fresh:
  assumes "rbac_inv st" and "rs_pending st = 0"
    and "live_value (rs_redis st) now (userKey userId) = Some e"
    and "json_field ''rbacVersion'' e = Some (JNum (cur_version (rs_redis st)))"
  shows "\<exists>u. stored_access userId (rs_db st) = Some (access_json (rs_db st) u)
    \<and> e = stamped (access_json (rs_db st) u) (cur_version (rs_redis st))"
proof -
  obtain x where "kv (rs_redis st) (userKey userId) = Some (e, x)"
    using assms(3) by (auto simp: live_value_def split: option.splits if_splits)
  then obtain d v where e: "e = stamped d v" and f: "fresh_data st userId v d"
    using assms(1) unfolding rbac_inv_def entries_fresh_def by blast
  have "v = cur_version (rs_redis st)" using assms(4) e by simp
  with f assms(2) have d: "stored_access userId (rs_db st) = Some d" by (simp add: fresh_data_def)
  then obtain u where "d = access_json (rs_db st) u" using stored_access_shape by blast
  with d e \<open>v = cur_version (rs_redis st)\<close> show ?thesis by blast
qed

text \<open>Whatever the cache holds, resolving a role gives what the database holds.\<close>

lemma resolveRole_fresh:
  assumes "rbac_inv st" and "rs_pending st = 0" and "redis_up (rs_redis st)" and "userId \<noteq> 0"
  shows "fst (resolveRole None (Some userId) now (rs_db st) (rs_redis st))
    = (case stored_access userId (rs_db st) of None \<Rightarrow> Inl unauthorized | Some d \<Rightarrow> role_of d)"
proof -
  let ?s = "rs_redis st" and ?v = "cur_version (rs_redis st)"
  have ver: "stored_version (live_value ?s now RBAC_VERSION_KEY) = ?v"
    using live_version assms(1) by (simp add: rbac_inv_def)
  have refill: "\<exists>u s'. cacheUserAccess userId d v now ?s = Inr (u, s')" for d v
    using assms(3) by (auto simp: cacheUserAccess_def tx_bind_def cache_defs)
  show ?thesis
  proof (cases "\<exists>e. live_value ?s now (userKey userId) = Some e
      \<and> json_field ''rbacVersion'' e = Some (JNum ?v)")
    case True
    then obtain e where e: "live_value ?s now (userKey userId) = Some e"
      "json_field ''rbacVersion'' e = Some (JNum ?v)" by blast
    obtain u where "stored_access userId (rs_db st) = Some (access_json (rs_db st) u)"
      "e = stamped (access_json (rs_db st) u) ?v"
      using cached_entry_fresh [OF assms(1,2) e] by blast
    with e assms(3,4) ver show ?thesis
      by (simp add: resolveRole_def readUserAccess_def when_up_mget Let_def entry_current_stamped)
  next
    case False
    then have "readUserAccess userId now ?s = Inr ((None, ?v), ?s)"
      using assms(3) ver
      by (auto simp: readUserAccess_def when_up_mget Let_def entry_current_def split: option.splits)
    then show ?thesis
      using assms(4) refill [of "the (stored_access userId (rs_db st))" ?v]
      by (cases "stored_access userId (rs_db st)") (auto simp: resolveRole_def)
  qed
qed

text \<open>C5. However requests, role and user changes and cache traffic interleave, whenever every
  committed change has been followed by its version bump, \<open>checkPermission\<close> decides exactly
  by what the database holds: no stale cached role is ever honoured.\<close>

theorem checkPermission_never_stale:
  assumes "rbac_step\<^sup>*\<^sup>* (rbac_init db0) st" and "rs_pending st = 0"
    and "redis_up (rs_redis st)" and "userId \<noteq> 0"
  shows "fst (checkPermission permission None (Some userId) now (rs_db st) (rs_redis st))
    = access_decision permission userId (rs_db st)"
proof -
  have "fst (resolveRole None (Some userId) now (rs_db st) (rs_redis st))
      = (case stored_access userId (rs_db st) of None \<Rightarrow> Inl unauthorized | Some d \<Rightarrow> role_of d)"
    using resolveRole_fresh [OF rbac_run_inv [OF assms(1)] assms(2-4)] .
  then show ?thesis
    by (auto simp: checkPermission_def Let_def case_prod_beta access_decision_def grants_def split: option.splits)
qed

definition demo_admin_role :: role where
  "demo_admin_role = \<lparr>role_id = 1, role_slug = ''admin'', role_title = ''Admin'',
     role_userType = ''Administrator'', role_description = None,
     role_access = JArr [JStr ''module.dashboard.index''], role_createdAt = 0, role_updatedAt = 0,
     role_deletedAt = None\<rparr>"

definition demo_rbac_db :: database where
  "demo_rbac_db = empty_db\<lparr>roles := [demo_admin_role], roles_seq := 2, users_seq := 2,
     users := [\<lparr>user_id = 1, user_name = Some ''Ann'', user_slug = Some ''ann'',
       user_email = Some ''ann@x.io'', user_password = Some ''$pw'', user_avatar = None,
       user_roleId = Some 1, user_isEmailVerified = True, user_createdAt = 0, user_updatedAt = 0,
       user_deletedAt = None\<rparr>]\<rparr>"

text \<open>A role loses its permissions: the change commits, then the version is bumped.\<close>

definition demo_revoked_db :: database where
  "demo_revoked_db = demo_rbac_db\<lparr>roles := [demo_admin_role\<lparr>role_access := JArr []\<rparr>]\<rparr>"

theorem checkPermission_never_stale_witness:
  "\<exists>s. rbac_step\<^sup>*\<^sup>* (rbac_init demo_rbac_db)
        \<lparr>rs_db = demo_revoked_db, rs_redis = s, rs_flights = [], rs_pending = 0\<rparr>
     \<and> fst (checkPermission ''module.dashboard.index'' None (Some 1) 5 demo_revoked_db s)
         = Inl permission_denied"
proof -
  let ?s = "empty_redis\<lparr>kv := (kv empty_redis)(RBAC_VERSION_KEY := Some (JNum 1, None))\<rparr>"
  let ?st = "\<lparr>rs_db = demo_revoked_db, rs_redis = ?s, rs_flights = [], rs_pending = 0\<rparr>"
  have "rbac_step (rbac_init demo_rbac_db) ((rbac_init demo_rbac_db)\<lparr>rs_db := demo_revoked_db,
      rs_pending := rs_pending (rbac_init demo_rbac_db) + 1\<rparr>)" (is "rbac_step _ ?mid")
    by (rule rbac_step.commit)
  moreover have "rbac_step ?mid (?mid\<lparr>rs_redis := ?s, rs_pending := rs_pending ?mid - 1\<rparr>)"
    by (rule rbac_step.bump [of _ 0 1])
      (simp_all add: rbac_init_def invalidateAccess_def cache_incr_def empty_redis_def live_value_def)
  moreover have "?mid\<lparr>rs_redis := ?s, rs_pending := rs_pending ?mid - 1\<rparr> = ?st"
    by (simp add: rbac_init_def)
  ultimately have run: "rbac_step\<^sup>*\<^sup>* (rbac_init demo_rbac_db) ?st"
    by (metis r_into_rtranclp rtranclp.rtrancl_into_rtrancl)
  have "fst (checkPermission ''module.dashboard.index'' None (Some 1) 5 demo_revoked_db ?s)
      = access_decision ''module.dashboard.index'' 1 demo_revoked_db"
    using checkPermission_never_stale [OF run, of 1 "''module.dashboard.index''" 5]
    by (simp add: empty_redis_def)
  also have "\<dots> = Inl permission_denied"
    by (simp add: access_decision_def stored_access_def demo_revoked_db_def demo_rbac_db_def
        demo_admin_role_def empty_db_def active_def access_json_def role_findById_def role_active_def
        role_of_def json_field_def role_json_def grants_def granted_access_def)
  finally show ?thesis using run by blast
qed

end
