(* ===== verification/Outbox.thy ===== *)
theory Outbox
  imports Schema Retention
begin

text \<open>
  The transactional outbox (\<^verbatim>\<open>src/modules/outbox/outbox.repository.ts\<close>): intents recorded in
  the caller's transaction, leased by relays, and finished as PUBLISHED or FAILED. Each
  operation takes the database clock \<open>now\<close>. The second half is the state machine of a row:
  a step relation over the repository operations, its invariant and what no run can undo, together
  with the dead letters that failures, re-drives and dead-letter retention write and remove.
\<close>

section \<open>Operations\<close>

record claimed_row =
  cr_id :: nat
  cr_queueName :: string
  cr_jobName :: string
  cr_payload :: json
  cr_attempts :: nat

definition outboxJobId :: "nat \<Rightarrow> string" where
  "outboxJobId rowId = ''outbox-'' @ show_nat rowId"

definition outbox_create :: "string \<Rightarrow> string \<Rightarrow> json \<Rightarrow> time \<Rightarrow> database \<Rightarrow> nat \<times> database" where
  "outbox_create queueName jobName payload now db =
     (outbox_seq db,
      db\<lparr>outbox := outbox db @ [\<lparr>ob_id = outbox_seq db, ob_queueName = queueName,
           ob_jobName = jobName, ob_payload = payload, ob_status = PENDING, ob_attempts = 0,
           ob_availableAt = now, ob_publishedAt = None, ob_lastError = None,
           ob_createdAt = now, ob_updatedAt = now\<rparr>],
         outbox_seq := outbox_seq db + 1\<rparr>)"

definition enqueue :: "string \<Rightarrow> string \<Rightarrow> json \<Rightarrow> time \<Rightarrow> database \<Rightarrow> database" where
  "enqueue queueName jobName payload now db = snd (outbox_create queueName jobName payload now db)"

definition due :: "time \<Rightarrow> outbox_row \<Rightarrow> bool" where
  "due now r = (ob_status r = PENDING \<and> ob_availableAt r \<le> now)"

definition claimed_of :: "outbox_row \<Rightarrow> claimed_row" where
  "claimed_of r = \<lparr>cr_id = ob_id r, cr_queueName = ob_queueName r, cr_jobName = ob_jobName r,
     cr_payload = ob_payload r, cr_attempts = ob_attempts r\<rparr>"

text \<open>\<open>locked\<close> are the ids whose rows another session holds locked at the time of the scan
  (\<^verbatim>\<open>FOR UPDATE SKIP LOCKED\<close> leaves them out).\<close>

definition claimBatch ::
  "env \<Rightarrow> nat list \<Rightarrow> nat \<Rightarrow> time \<Rightarrow> database \<Rightarrow> claimed_row list \<times> database" where
  "claimBatch E locked limit now db =
     (let ids = batch_ids ob_id (\<lambda>r. due now r \<and> ob_id r \<notin> set locked) ob_availableAt limit
                  (outbox db);
          mine = (\<lambda>r. ob_id r \<in> set ids)
      in (map claimed_of (filter mine (outbox db)),
          db\<lparr>outbox := update_where mine
               (\<lambda>r. r\<lparr>ob_availableAt := now + int (OUTBOX_LEASE_SECONDS E) * 1000,
                      ob_updatedAt := now\<rparr>)
               (outbox db)\<rparr>))"

definition pending_id :: "nat \<Rightarrow> outbox_row \<Rightarrow> bool" where
  "pending_id rowId r = (ob_id r = rowId \<and> ob_status r = PENDING)"

definition markPublished :: "nat \<Rightarrow> time \<Rightarrow> database \<Rightarrow> bool \<times> database" where
  "markPublished rowId now db =
     (count_where (pending_id rowId) (outbox db) = 1,
      db\<lparr>outbox := update_where (pending_id rowId)
           (\<lambda>r. r\<lparr>ob_status := PUBLISHED, ob_publishedAt := Some now, ob_availableAt := now,
                  ob_payload := JObj [], ob_lastError := None, ob_updatedAt := now\<rparr>)
           (outbox db)\<rparr>)"

definition markRetry :: "nat \<Rightarrow> string \<Rightarrow> time \<Rightarrow> time \<Rightarrow> database \<Rightarrow> bool \<times> database" where
  "markRetry rowId error availableAt now db =
     (count_where (pending_id rowId) (outbox db) = 1,
      db\<lparr>outbox := update_where (pending_id rowId)
           (\<lambda>r. r\<lparr>ob_attempts := ob_attempts r + 1, ob_lastError := Some error,
                  ob_availableAt := availableAt, ob_updatedAt := now\<rparr>)
           (outbox db)\<rparr>)"

definition dead_letter_create ::
  "string \<Rightarrow> string \<Rightarrow> string option \<Rightarrow> json \<Rightarrow> string \<Rightarrow> nat \<Rightarrow> time \<Rightarrow> database \<Rightarrow> database" where
  "dead_letter_create queueName jobName jobId payload failedReason attemptsMade now db =
     db\<lparr>dead_letter_jobs := dead_letter_jobs db @ [\<lparr>dl_id = dead_letter_jobs_seq db,
          dl_queueName = queueName, dl_jobName = jobName, dl_jobId = jobId,
          dl_payload = payload, dl_failedReason = failedReason, dl_attemptsMade = attemptsMade,
          dl_createdAt = now, dl_redrivenAt = None, dl_redrivenBy = None,
          dl_redriveOutboxId = None\<rparr>],
        dead_letter_jobs_seq := dead_letter_jobs_seq db + 1\<rparr>"

text \<open>\<^verbatim>\<open>row.payload ?? {}\<close>.\<close>

definition payload_or_empty :: "json \<Rightarrow> json" where
  "payload_or_empty j = (if j = JNull then JObj [] else j)"

definition markFailed :: "claimed_row \<Rightarrow> string \<Rightarrow> nat \<Rightarrow> time \<Rightarrow> database \<Rightarrow> bool \<times> database" where
  "markFailed row reason attempts now db =
     (if count_where (pending_id (cr_id row)) (outbox db) = 0 then (False, db)
      else (True,
        dead_letter_create (cr_queueName row) (cr_jobName row) (Some (outboxJobId (cr_id row)))
          (payload_or_empty (cr_payload row)) reason attempts now
          (db\<lparr>outbox := update_where (pending_id (cr_id row))
               (\<lambda>r. r\<lparr>ob_status := FAILED, ob_attempts := attempts, ob_lastError := Some reason,
                      ob_availableAt := now, ob_updatedAt := now\<rparr>)
               (outbox db)\<rparr>)))"

definition outbox_prunable :: "outbox_status \<Rightarrow> time \<Rightarrow> outbox_row \<Rightarrow> bool" where
  "outbox_prunable status before r = (ob_status r = status \<and> ob_availableAt r < before)"

definition outbox_prune ::
  "outbox_status \<Rightarrow> time \<Rightarrow> nat \<Rightarrow> nat \<Rightarrow> database \<Rightarrow> nat \<times> database" where
  "outbox_prune status before batchSize maxBatches db =
     (let (removed, rows) = prune_loop (delete_batch ob_id (outbox_prunable status before) ob_availableAt)
                              batchSize maxBatches 0 (outbox db)
      in (removed, db\<lparr>outbox := rows\<rparr>))"

text \<open>The other statements on the dead letters: retention (\<^verbatim>\<open>dead-letter.repository.ts\<close>) and the stamp of a re-drive
  (\<^verbatim>\<open>dead-letter.service.ts\<close>).\<close>

definition dl_prunable :: "time \<Rightarrow> dead_letter_job \<Rightarrow> bool" where
  "dl_prunable before r = (dl_createdAt r < before)"

definition dead_letter_prune :: "time \<Rightarrow> nat \<Rightarrow> nat \<Rightarrow> database \<Rightarrow> nat \<times> database" where
  "dead_letter_prune before batchSize maxBatches db =
     (let (removed, rows) = prune_loop (delete_batch dl_id (dl_prunable before) dl_createdAt)
                              batchSize maxBatches 0 (dead_letter_jobs db)
      in (removed, db\<lparr>dead_letter_jobs := rows\<rparr>))"

definition redrivable :: "nat \<Rightarrow> dead_letter_job \<Rightarrow> bool" where
  "redrivable rowId r = (dl_id r = rowId \<and> dl_redrivenAt r = None)"

definition stamp_redriven :: "time \<Rightarrow> string option \<Rightarrow> nat \<Rightarrow> dead_letter_job \<Rightarrow> dead_letter_job" where
  "stamp_redriven now operator outboxId r =
     r\<lparr>dl_redrivenAt := Some now, dl_redrivenBy := operator, dl_redriveOutboxId := Some outboxId\<rparr>"

section \<open>The intent interface\<close>

text \<open>
  What the services that send email rely on when they record an intent inside their own
  transaction: one new PENDING row that carries exactly their queue, job and payload, every
  earlier row untouched, and no other table changed.
\<close>

locale intent_log =
  fixes record_intent :: "string \<Rightarrow> string \<Rightarrow> json \<Rightarrow> time \<Rightarrow> 'db \<Rightarrow> 'db"
    and intents :: "'db \<Rightarrow> outbox_row list"
    and rest :: "'db \<Rightarrow> 'x"
  assumes record_adds: "\<exists>r. intents (record_intent q j p now db) = intents db @ [r]
      \<and> ob_queueName r = q \<and> ob_jobName r = j \<and> ob_payload r = p \<and> ob_status r = PENDING
      \<and> ob_attempts r = 0 \<and> ob_availableAt r = now"
    and record_rest: "rest (record_intent q j p now db) = rest db"
begin

lemma record_prefix: "intents db = take (length (intents db)) (intents (record_intent q j p now db))"
  using record_adds [of q j p now db] by auto

lemma record_length: "length (intents (record_intent q j p now db)) = Suc (length (intents db))"
  using record_adds [of q j p now db] by auto

lemma record_due: "\<exists>r \<in> set (intents (record_intent q j p now db)).
    due now r \<and> ob_queueName r = q \<and> ob_jobName r = j \<and> ob_payload r = p"
  using record_adds [of q j p now db] by (auto simp: due_def)

lemma record_mono: "set (intents db) \<subseteq> set (intents (record_intent q j p now db))"
  using record_adds [of q j p now db] by auto

end

text \<open>Everything of a database but its outbox.\<close>

definition outside_outbox :: "database \<Rightarrow> database" where
  "outside_outbox db = db\<lparr>outbox := [], outbox_seq := 0\<rparr>"

interpretation outbox_log: intent_log enqueue outbox outside_outbox
  by unfold_locales (simp_all add: enqueue_def outbox_create_def outside_outbox_def)

lemma enqueue_frame [simp]:
  "users (enqueue q j p now db) = users db"
  "roles (enqueue q j p now db) = roles db"
  "refresh_tokens (enqueue q j p now db) = refresh_tokens db"
  "email_verification_tokens (enqueue q j p now db) = email_verification_tokens db"
  "email_otps (enqueue q j p now db) = email_otps db"
  "password_reset_tokens (enqueue q j p now db) = password_reset_tokens db"
  "dead_letter_jobs (enqueue q j p now db) = dead_letter_jobs db"
  "users_seq (enqueue q j p now db) = users_seq db"
  by (simp_all add: enqueue_def outbox_create_def)


section \<open>Claims and leases\<close>

lemma claimed_of_simps [simp]:
  "cr_id (claimed_of r) = ob_id r" "cr_queueName (claimed_of r) = ob_queueName r"
  "cr_jobName (claimed_of r) = ob_jobName r" "cr_payload (claimed_of r) = ob_payload r"
  "cr_attempts (claimed_of r) = ob_attempts r"
  by (simp_all add: claimed_of_def)

text \<open>The ids a claim takes.\<close>

definition claim_ids :: "nat list \<Rightarrow> nat \<Rightarrow> time \<Rightarrow> database \<Rightarrow> nat set" where
  "claim_ids locked limit now db =
     set (batch_ids ob_id (\<lambda>r. due now r \<and> ob_id r \<notin> set locked) ob_availableAt limit (outbox db))"

lemma claimBatch_rows:
  "fst (claimBatch E locked limit now db)
     = map claimed_of (filter (\<lambda>r. ob_id r \<in> claim_ids locked limit now db) (outbox db))"
  by (simp add: claimBatch_def claim_ids_def Let_def)

lemma claimBatch_table:
  "outbox (snd (claimBatch E locked limit now db))
     = update_where (\<lambda>r. ob_id r \<in> claim_ids locked limit now db)
         (\<lambda>r. r\<lparr>ob_availableAt := now + int (OUTBOX_LEASE_SECONDS E) * 1000, ob_updatedAt := now\<rparr>)
         (outbox db)"
  by (simp add: claimBatch_def claim_ids_def Let_def)

lemma claimBatch_frame [simp]:
  "outbox_seq (snd (claimBatch E locked limit now db)) = outbox_seq db"
  "dead_letter_jobs (snd (claimBatch E locked limit now db)) = dead_letter_jobs db"
  by (simp_all add: claimBatch_def Let_def)

lemma claim_ids_due:
  assumes "distinct (map ob_id (outbox db))" and "r \<in> set (outbox db)"
    and "ob_id r \<in> claim_ids locked limit now db"
  shows "due now r \<and> ob_id r \<notin> set locked"
  using delete_batch_matches [OF assms(1,2)] assms(3) unfolding claim_ids_def by blast

lemma length_claim:
  assumes "distinct (map ob_id (outbox db))"
  shows "length (fst (claimBatch E locked limit now db)) \<le> limit"
  using delete_batch_count [OF assms, of "\<lambda>r. due now r \<and> ob_id r \<notin> set locked" ob_availableAt limit]
  by (simp add: claimBatch_rows claim_ids_def count_where_def)

text \<open>C20. A lease is exclusive: until it expires, no later claim, whatever its batch size,
  returns a row that an earlier claim returned; and a claim never returns more rows than asked
  for, nor one that is not due.\<close>

theorem claim_lease_exclusive:
  assumes "distinct (map ob_id (outbox db))"
    and "claimBatch E locked limit now db = (rows, db')"
    and "later < now + int (OUTBOX_LEASE_SECONDS E) * 1000"
  shows "length rows \<le> limit
    \<and> cr_id ` set rows \<inter> cr_id ` set (fst (claimBatch E locked' limit' later db')) = {}"
proof
  show "length rows \<le> limit" using length_claim [OF assms(1)] assms(2) by (metis fst_conv)
  let ?I = "claim_ids locked limit now db"
  have rows: "rows = map claimed_of (filter (\<lambda>r. ob_id r \<in> ?I) (outbox db))"
    using claimBatch_rows [of E locked limit now db] assms(2) by simp
  have t: "outbox db' = update_where (\<lambda>r. ob_id r \<in> ?I)
      (\<lambda>r. r\<lparr>ob_availableAt := now + int (OUTBOX_LEASE_SECONDS E) * 1000, ob_updatedAt := now\<rparr>)
      (outbox db)"
    using claimBatch_table [of E locked limit now db] assms(2) by simp
  then have d': "distinct (map ob_id (outbox db'))" using assms(1) by (simp add: map_update_where)
  have "ob_id r \<notin> ?I" if "r \<in> set (outbox db')" "ob_id r \<in> claim_ids locked' limit' later db'" for r
  proof
    assume "ob_id r \<in> ?I"
    then have "ob_availableAt r = now + int (OUTBOX_LEASE_SECONDS E) * 1000"
      using that(1) by (auto simp: t set_update_where split: if_splits)
    moreover have "due later r" using claim_ids_due [OF d' that] by simp
    ultimately show False using assms(3) by (simp add: due_def)
  qed
  then show "cr_id ` set rows \<inter> cr_id ` set (fst (claimBatch E locked' limit' later db')) = {}"
    unfolding claimBatch_rows [of E locked' limit' later db'] rows by auto
qed

definition sample_outbox_db :: database where
  "sample_outbox_db = enqueue ''email'' ''a'' JNull 10 (enqueue ''email'' ''b'' JNull 5 empty_db)"

theorem claim_lease_exclusive_witness:
  "length (fst (claimBatch default_env [] 1 20 sample_outbox_db)) \<le> 1
   \<and> cr_id ` set (fst (claimBatch default_env [] 1 20 sample_outbox_db))
     \<inter> cr_id ` set (fst (claimBatch default_env [] 5 40
          (snd (claimBatch default_env [] 1 20 sample_outbox_db)))) = {}"
  by (rule claim_lease_exclusive)
    (auto simp: sample_outbox_db_def enqueue_def outbox_create_def empty_db_def default_env_def)

section \<open>The state machine of an outbox row\<close>

text \<open>The statements on the outbox table.\<close>

inductive outbox_step :: "env \<Rightarrow> database \<Rightarrow> database \<Rightarrow> bool" for E where
  step_enqueue: "outbox_step E db (enqueue q j p now db)"
| step_claim: "outbox_step E db (snd (claimBatch E locked limit now db))"
| step_published: "outbox_step E db (snd (markPublished i now db))"
| step_retry: "outbox_step E db (snd (markRetry i err at now db))"
| step_failed: "outbox_step E db (snd (markFailed row reason attempts now db))"
| step_prune: "st \<noteq> PENDING \<Longrightarrow> outbox_step E db (snd (outbox_prune st before bs mb db))"

text \<open>\<open>gone\<close> is the history of dead-letter retention: each removed record with the cut-off it was older than.\<close>

type_synonym retired = "(time \<times> dead_letter_job) list"

definition letters :: "retired \<Rightarrow> database \<Rightarrow> dead_letter_job set" where
  "letters gone db = set (dead_letter_jobs db) \<union> snd ` set gone"

definition failed_recorded :: "retired \<Rightarrow> database \<Rightarrow> bool" where
  "failed_recorded gone db = (\<forall>r \<in> set (outbox db). ob_status r = FAILED \<longrightarrow>
     (\<exists>d \<in> letters gone db. dl_jobId d = Some (outboxJobId (ob_id r))))"

definition published_cleared :: "database \<Rightarrow> bool" where
  "published_cleared db = (\<forall>r \<in> set (outbox db). ob_status r = PUBLISHED \<longrightarrow>
     ob_payload r = JObj [] \<and> ob_publishedAt r = Some (ob_availableAt r))"

definition outbox_ids_ok :: "database \<Rightarrow> bool" where
  "outbox_ids_ok db =
     (distinct (map ob_id (outbox db)) \<and> (\<forall>r \<in> set (outbox db). ob_id r < outbox_seq db))"

definition outbox_inv :: "retired \<Rightarrow> database \<Rightarrow> bool" where
  "outbox_inv gone db = (outbox_ids_ok db \<and> failed_recorded gone db \<and> published_cleared db)"

lemmas outbox_inv_defs = outbox_inv_def outbox_ids_ok_def failed_recorded_def published_cleared_def

text \<open>A pruned table keeps a subset of its rows.\<close>

lemma prune_loop_subset:
  assumes "\<And>n t. set (snd (del n t)) \<subseteq> set t" and "\<And>n t. distinct (map f t) \<Longrightarrow> distinct (map f (snd (del n t)))"
  shows "set (snd (prune_loop del bs mb removed t)) \<subseteq> set t
    \<and> (distinct (map f t) \<longrightarrow> distinct (map f (snd (prune_loop del bs mb removed t))))"
proof (induction mb arbitrary: removed t)
  case (Suc mb)
  obtain d t' where d: "del bs t = (d, t')" by fastforce
  then have "set t' \<subseteq> set t" "distinct (map f t) \<longrightarrow> distinct (map f t')"
    using assms(1) [of bs t] assms(2) [of t bs] by auto
  then show ?case using d Suc.IH [of "removed + d" t'] by (auto simp: Let_def)
qed simp

lemma delete_batch_subset: "set (snd (delete_batch idf P key n t)) \<subseteq> set t"
  by (auto simp: delete_batch_def Let_def)

lemma delete_batch_distinct:
  "distinct (map f t) \<Longrightarrow> distinct (map f (snd (delete_batch idf P key n t)))"
  by (simp add: delete_batch_def Let_def)

lemma outbox_prune_table:
  "outbox (snd (outbox_prune st before bs mb db))
     = snd (prune_loop (delete_batch ob_id (outbox_prunable st before) ob_availableAt) bs mb 0 (outbox db))"
  "outbox_seq (snd (outbox_prune st before bs mb db)) = outbox_seq db"
  "dead_letter_jobs (snd (outbox_prune st before bs mb db)) = dead_letter_jobs db"
  by (simp_all add: outbox_prune_def Let_def case_prod_beta)

lemma outbox_prune_subset:
  "set (outbox (snd (outbox_prune st before bs mb db))) \<subseteq> set (outbox db)
   \<and> (distinct (map ob_id (outbox db))
        \<longrightarrow> distinct (map ob_id (outbox (snd (outbox_prune st before bs mb db)))))"
  unfolding outbox_prune_table
  by (rule prune_loop_subset) (rule delete_batch_subset, rule delete_batch_distinct)

lemma outbox_ids_ok_update:
  assumes "outbox_ids_ok db" and "\<And>r. P r \<Longrightarrow> ob_id (f r) = ob_id r"
    and "outbox db' = update_where P f (outbox db)" and "outbox_seq db' = outbox_seq db"
  shows "outbox_ids_ok db'"
  using assms by (auto simp: outbox_ids_ok_def map_update_where set_update_where)

lemma markPublished_table:
  "outbox (snd (markPublished i now db)) = update_where (pending_id i)
     (\<lambda>r. r\<lparr>ob_status := PUBLISHED, ob_publishedAt := Some now, ob_availableAt := now,
            ob_payload := JObj [], ob_lastError := None, ob_updatedAt := now\<rparr>) (outbox db)"
  by (simp add: markPublished_def)

lemma markRetry_table:
  "outbox (snd (markRetry i err at now db)) = update_where (pending_id i)
     (\<lambda>r. r\<lparr>ob_attempts := ob_attempts r + 1, ob_lastError := Some err,
            ob_availableAt := at, ob_updatedAt := now\<rparr>) (outbox db)"
  by (simp add: markRetry_def)

lemma mark_frame [simp]:
  "outbox_seq (snd (markPublished i now db)) = outbox_seq db"
  "outbox_seq (snd (markRetry i err at now db)) = outbox_seq db"
  "dead_letter_jobs (snd (markPublished i now db)) = dead_letter_jobs db"
  "dead_letter_jobs (snd (markRetry i err at now db)) = dead_letter_jobs db"
  by (simp_all add: markPublished_def markRetry_def)

lemma markFailed_False: "markFailed row reason attempts now db = (False, db') \<Longrightarrow> db' = db"
  by (auto simp: markFailed_def split: if_splits)

lemma markFailed_True_table:
  assumes "fst (markFailed row reason attempts now db)"
  shows "outbox (snd (markFailed row reason attempts now db)) =
      update_where (pending_id (cr_id row))
        (\<lambda>r. r\<lparr>ob_status := FAILED, ob_attempts := attempts, ob_lastError := Some reason,
               ob_availableAt := now, ob_updatedAt := now\<rparr>) (outbox db)
    \<and> outbox_seq (snd (markFailed row reason attempts now db)) = outbox_seq db
    \<and> (\<exists>d. dead_letter_jobs (snd (markFailed row reason attempts now db)) = dead_letter_jobs db @ [d]
        \<and> dl_jobId d = Some (outboxJobId (cr_id row)) \<and> dl_payload d = payload_or_empty (cr_payload row)
        \<and> dl_queueName d = cr_queueName row \<and> dl_jobName d = cr_jobName row)"
  using assms by (auto simp: markFailed_def dead_letter_create_def split: if_splits)

lemma markFailed_cases:
  obtains "snd (markFailed row reason attempts now db) = db"
  | "fst (markFailed row reason attempts now db)"
  using markFailed_False [of row reason attempts now db]
  by (metis prod.collapse)

text \<open>What a step may do to a row: keep it, or rewrite a PENDING row without changing its id.\<close>

definition row_step :: "outbox_row \<Rightarrow> outbox_row \<Rightarrow> bool" where
  "row_step r r' = (r' = r \<or> (ob_status r = PENDING \<and> ob_id r' = ob_id r))"

lemma update_where_row_step:
  assumes "r' \<in> set (update_where P f t)" and "\<And>r. P r \<Longrightarrow> ob_id (f r) = ob_id r"
    and "\<And>r. r \<in> set t \<Longrightarrow> P r \<Longrightarrow> ob_status r = PENDING"
  shows "\<exists>r \<in> set t. row_step r r'"
proof -
  from assms(1) obtain r where r: "r \<in> set t" and r': "r' = (if P r then f r else r)"
    by (auto simp: set_update_where)
  have "row_step r r'" using r r' assms(2,3) by (auto simp: row_step_def)
  with r show ?thesis by blast
qed

lemma step_old_rows:
  assumes "outbox_step E db db'" and "outbox_ids_ok db" and "r' \<in> set (outbox db')"
    and "ob_id r' < outbox_seq db"
  shows "\<exists>r \<in> set (outbox db). row_step r r'"
  using assms
proof (cases rule: outbox_step.cases)
  case (step_enqueue q j p now)
  with assms(2-4) show ?thesis by (auto simp: enqueue_def outbox_create_def row_step_def)
next
  case (step_claim locked limit now)
  show ?thesis
  proof (rule update_where_row_step)
    show "r' \<in> set (update_where (\<lambda>r. ob_id r \<in> claim_ids locked limit now db)
        (\<lambda>r. r\<lparr>ob_availableAt := now + int (OUTBOX_LEASE_SECONDS E) * 1000, ob_updatedAt := now\<rparr>)
        (outbox db))"
      using assms(3) step_claim claimBatch_table [of E locked limit now db] by metis
    show "ob_status r = PENDING"
      if "r \<in> set (outbox db)" "ob_id r \<in> claim_ids locked limit now db" for r
      using claim_ids_due [OF _ that] assms(2) by (simp add: outbox_ids_ok_def due_def)
  qed simp
next
  case (step_failed row reason attempts now)
  show ?thesis
  proof (cases rule: markFailed_cases [of row reason attempts now db])
    case 2
    show ?thesis
      using assms(3) markFailed_True_table [OF 2] step_failed
      by (auto simp: pending_id_def intro: update_where_row_step)
  qed (use assms(3) step_failed in \<open>auto simp: row_step_def\<close>)
next
  case (step_prune st before bs mb)
  with assms(3) outbox_prune_subset [of st before bs mb db] show ?thesis
    by (auto simp: row_step_def)
next
  case (step_published i now)
  with assms(3) show ?thesis
    by (auto simp: markPublished_def pending_id_def intro: update_where_row_step)
next
  case (step_retry i err at now)
  with assms(3) show ?thesis
    by (auto simp: markRetry_def pending_id_def intro: update_where_row_step)
qed

lemma step_seq_mono: "outbox_step E db db' \<Longrightarrow> outbox_seq db \<le> outbox_seq db'"
  by (cases rule: outbox_step.cases)
    (auto simp: enqueue_def outbox_create_def markPublished_def markRetry_def markFailed_def
      dead_letter_create_def outbox_prune_table)

lemma step_ids_ok: "outbox_step E db db' \<Longrightarrow> outbox_ids_ok db \<Longrightarrow> outbox_ids_ok db'"
proof (induction rule: outbox_step.induct)
  case (step_enqueue db q j p now)
  then show ?case by (auto simp: outbox_ids_ok_def enqueue_def outbox_create_def)
next
  case (step_claim db locked limit now)
  then show ?case by (rule outbox_ids_ok_update [OF _ _ claimBatch_table]) simp_all
next
  case (step_published db i now)
  then show ?case by (rule outbox_ids_ok_update) (auto simp: markPublished_def)
next
  case (step_retry db i err at now)
  then show ?case by (rule outbox_ids_ok_update) (auto simp: markRetry_def)
next
  case (step_failed db row reason attempts now)
  show ?case
  proof (cases rule: markFailed_cases [of row reason attempts now db])
    case 2
    note T = markFailed_True_table [OF 2]
    show ?thesis
      by (rule outbox_ids_ok_update [OF step_failed _ T [THEN conjunct1] T [THEN conjunct2, THEN conjunct1]])
        simp
  qed (use step_failed in simp)
next
  case (step_prune st db before bs mb)
  then show ?case
    using outbox_prune_subset [of st before bs mb db]
    by (auto simp: outbox_ids_ok_def outbox_prune_table(2))
qed

lemma letters_mono: "set (dead_letter_jobs db) \<subseteq> set (dead_letter_jobs db') \<Longrightarrow> letters gone db \<subseteq> letters gone db'"
  by (auto simp: letters_def)

lemma failed_recorded_update:
  assumes "failed_recorded gone db" and "outbox db' = update_where P f (outbox db)"
    and "set (dead_letter_jobs db) \<subseteq> set (dead_letter_jobs db')"
    and "\<And>r. P r \<Longrightarrow> ob_id (f r) = ob_id r"
    and "\<And>r. P r \<Longrightarrow> ob_status (f r) = FAILED \<Longrightarrow> ob_status r = FAILED
      \<or> (\<exists>d \<in> set (dead_letter_jobs db'). dl_jobId d = Some (outboxJobId (ob_id r)))"
  shows "failed_recorded gone db'"
  unfolding failed_recorded_def
proof (intro ballI impI)
  fix r' assume "r' \<in> set (outbox db')" and failed: "ob_status r' = FAILED"
  then obtain r where r: "r \<in> set (outbox db)" and r': "r' = (if P r then f r else r)"
    by (auto simp: assms(2) set_update_where)
  then have "ob_id r' = ob_id r" using assms(4) by simp
  moreover have "\<exists>d \<in> letters gone db'. dl_jobId d = Some (outboxJobId (ob_id r))" if "ob_status r = FAILED"
    using assms(1) r that letters_mono [OF assms(3)] unfolding failed_recorded_def by blast
  then have "\<exists>d \<in> letters gone db'. dl_jobId d = Some (outboxJobId (ob_id r))"
    using assms(5) [of r] r' failed by (cases "P r") (auto simp: letters_def)
  ultimately show "\<exists>d \<in> letters gone db'. dl_jobId d = Some (outboxJobId (ob_id r'))" by simp
qed

lemma step_failed_recorded:
  "outbox_step E db db' \<Longrightarrow> failed_recorded gone db \<Longrightarrow> failed_recorded gone db'"
proof (induction rule: outbox_step.induct)
  case (step_enqueue db q j p now)
  then show ?case by (auto simp: failed_recorded_def letters_def enqueue_def outbox_create_def)
next
  case (step_claim db locked limit now)
  then show ?case by (rule failed_recorded_update [OF _ claimBatch_table]) simp_all
next
  case (step_published db i now)
  then show ?case by (rule failed_recorded_update [OF _ markPublished_table]) auto
next
  case (step_retry db i err at now)
  then show ?case by (rule failed_recorded_update [OF _ markRetry_table]) auto
next
  case (step_failed db row reason attempts now)
  show ?case
  proof (cases rule: markFailed_cases [of row reason attempts now db])
    case 2
    note T = markFailed_True_table [OF 2]
    show ?thesis
      by (rule failed_recorded_update [OF step_failed T [THEN conjunct1]])
        (use T in \<open>auto simp: pending_id_def\<close>)
  qed (use step_failed in simp)
next
  case (step_prune st db before bs mb)
  then show ?case
    using outbox_prune_subset [of st before bs mb db]
    by (auto simp: failed_recorded_def letters_def outbox_prune_table(3))
qed

lemma step_published_cleared:
  "outbox_step E db db' \<Longrightarrow> outbox_ids_ok db \<Longrightarrow> published_cleared db \<Longrightarrow> published_cleared db'"
proof (induction rule: outbox_step.induct)
  case (step_claim db locked limit now)
  then show ?case
    using claim_ids_due [of db]
    by (auto simp: published_cleared_def claimBatch_table set_update_where outbox_ids_ok_def due_def)
next
  case (step_failed db row reason attempts now)
  show ?case
  proof (cases rule: markFailed_cases [of row reason attempts now db])
    case 2
    with step_failed show ?thesis
      using markFailed_True_table [OF 2] by (auto simp: published_cleared_def set_update_where)
  qed (use step_failed in simp)
next
  case (step_prune st db before bs mb)
  then show ?case
    using outbox_prune_subset [of st before bs mb db] by (auto simp: published_cleared_def)
qed (auto simp: published_cleared_def enqueue_def outbox_create_def markPublished_def
    markRetry_def set_update_where pending_id_def)

lemma outbox_step_inv: "outbox_step E db db' \<Longrightarrow> outbox_inv gone db \<Longrightarrow> outbox_inv gone db'"
  using step_ids_ok [of E db db'] step_failed_recorded [of E db db']
    step_published_cleared [of E db db'] by (simp add: outbox_inv_def)

lemma outbox_run_inv: "(outbox_step E)\<^sup>*\<^sup>* db db' \<Longrightarrow> outbox_inv gone db \<Longrightarrow> outbox_inv gone db'"
  by (induction rule: rtranclp_induct) (auto intro: outbox_step_inv)

lemma outbox_inv_empty: "outbox_inv gone empty_db"
  by (simp add: outbox_inv_defs empty_db_def)

text \<open>Everything that happens to the outbox and the dead letters: the statements on the outbox, failures
  recorded by workers, stamps of re-drives, and dead-letter retention, which removes records older
  than its cut-off whether or not their outbox row is still there.\<close>

definition retire :: "time \<Rightarrow> nat \<Rightarrow> nat \<Rightarrow> database \<Rightarrow> retired" where
  "retire before batchSize maxBatches db =
     map (Pair before) (filter (\<lambda>d. d \<notin> set (dead_letter_jobs (snd (dead_letter_prune before batchSize maxBatches db))))
       (dead_letter_jobs db))"

inductive stores_reach :: "env \<Rightarrow> retired \<Rightarrow> database \<Rightarrow> bool" for E where
  reach_start: "stores_reach E [] empty_db"
| reach_outbox: "stores_reach E gone db \<Longrightarrow> outbox_step E db db' \<Longrightarrow> stores_reach E gone db'"
| reach_worker: "stores_reach E gone db \<Longrightarrow> stores_reach E gone (dead_letter_create q j i p reason attempts now db)"
| reach_redrive: "stores_reach E gone db \<Longrightarrow> stores_reach E gone
    (db\<lparr>dead_letter_jobs := update_where (redrivable rowId) (stamp_redriven now operator outboxId) (dead_letter_jobs db)\<rparr>)"
| reach_retention: "stores_reach E gone db \<Longrightarrow> 0 < bs \<Longrightarrow>
    stores_reach E (gone @ retire before bs mb db) (snd (dead_letter_prune before bs mb db))"

lemma dead_letter_prune_frame [simp]:
  "outbox (snd (dead_letter_prune before bs mb db)) = outbox db"
  "outbox_seq (snd (dead_letter_prune before bs mb db)) = outbox_seq db"
  by (simp_all add: dead_letter_prune_def Let_def case_prod_beta)

lemma dead_letter_prune_subset:
  "set (dead_letter_jobs (snd (dead_letter_prune before bs mb db))) \<subseteq> set (dead_letter_jobs db)
   \<and> (distinct (map dl_id (dead_letter_jobs db))
        \<longrightarrow> distinct (map dl_id (dead_letter_jobs (snd (dead_letter_prune before bs mb db)))))
   \<and> dead_letter_jobs_seq (snd (dead_letter_prune before bs mb db)) = dead_letter_jobs_seq db"
  using prune_loop_subset [of "delete_batch dl_id (dl_prunable before) dl_createdAt" dl_id bs mb 0 "dead_letter_jobs db",
      OF delete_batch_subset delete_batch_distinct]
  by (simp add: dead_letter_prune_def Let_def case_prod_beta)

lemma retire_old:
  assumes "distinct (map dl_id (dead_letter_jobs db))" and "0 < bs" and "(t, d) \<in> set (retire before bs mb db)"
  shows "dl_createdAt d < t"
proof (rule ccontr)
  assume young: "\<not> dl_createdAt d < t"
  let ?t = "dead_letter_jobs (snd (dead_letter_prune before bs mb db))"
  from assms(3) have d: "t = before" "d \<in> set (dead_letter_jobs db)" "d \<notin> set ?t" by (auto simp: retire_def)
  have "filter (\<lambda>r. \<not> dl_prunable before r) ?t = filter (\<lambda>r. \<not> dl_prunable before r) (dead_letter_jobs db)"
    using table_batch.prune_loop_spec [OF assms(1,2), of "dl_prunable before" dl_createdAt mb 0]
    by (simp add: dead_letter_prune_def Let_def case_prod_beta)
  then have "d \<in> set (filter (\<lambda>r. \<not> dl_prunable before r) (dead_letter_jobs db)) \<longleftrightarrow> d \<in> set (filter (\<lambda>r. \<not> dl_prunable before r) ?t)"
    by simp
  with d young show False by (simp add: dl_prunable_def)
qed

definition letters_ok :: "database \<Rightarrow> bool" where
  "letters_ok db = (distinct (map dl_id (dead_letter_jobs db))
     \<and> (\<forall>d \<in> set (dead_letter_jobs db). dl_id d < dead_letter_jobs_seq db))"

lemma create_letters_ok: "letters_ok db \<Longrightarrow> letters_ok (dead_letter_create q j i p reason attempts now db)"
  by (auto simp: letters_ok_def dead_letter_create_def)

lemma step_letters_ok: "outbox_step E db db' \<Longrightarrow> letters_ok db \<Longrightarrow> letters_ok db'"
proof (induction rule: outbox_step.induct)
  case (step_failed db row reason attempts now)
  then have "letters_ok (db\<lparr>outbox := t\<rparr>)" for t by (simp add: letters_ok_def)
  with step_failed show ?case by (simp add: markFailed_def create_letters_ok)
qed (auto simp: letters_ok_def enqueue_def outbox_create_def markPublished_def markRetry_def claimBatch_def outbox_prune_def
    Let_def case_prod_beta)

lemma failed_recorded_letters:
  assumes "failed_recorded gone db" and "outbox db' = outbox db"
    and "dl_jobId ` letters gone db \<subseteq> dl_jobId ` letters gone' db'"
  shows "failed_recorded gone' db'"
  unfolding failed_recorded_def assms(2)
proof (intro ballI impI)
  fix r assume "r \<in> set (outbox db)" "ob_status r = FAILED"
  then have "Some (outboxJobId (ob_id r)) \<in> dl_jobId ` letters gone db"
    using assms(1) unfolding failed_recorded_def by force
  then have "Some (outboxJobId (ob_id r)) \<in> dl_jobId ` letters gone' db'" using assms(3) by blast
  then show "\<exists>d \<in> letters gone' db'. dl_jobId d = Some (outboxJobId (ob_id r))" by force
qed

text \<open>The invariant over all of it.\<close>

definition stores_inv :: "retired \<Rightarrow> database \<Rightarrow> bool" where
  "stores_inv gone db = (outbox_inv gone db \<and> letters_ok db \<and> (\<forall>(before, d) \<in> set gone. dl_createdAt d < before))"

lemma outbox_inv_letters:
  assumes "outbox_inv gone db" and "outbox db' = outbox db" and "outbox_seq db' = outbox_seq db"
    and "dl_jobId ` letters gone db \<subseteq> dl_jobId ` letters gone' db'"
  shows "outbox_inv gone' db'"
  using assms failed_recorded_letters [OF _ assms(2,4)]
  by (simp add: outbox_inv_def outbox_ids_ok_def published_cleared_def)

lemma stores_reach_inv: "stores_reach E gone db \<Longrightarrow> stores_inv gone db"
proof (induction rule: stores_reach.induct)
  case reach_start
  have "letters_ok empty_db" by (simp add: letters_ok_def empty_db_def)
  then show ?case using outbox_inv_empty [of "[]"] by (simp add: stores_inv_def)
next
  case (reach_outbox gone db db')
  then show ?case using outbox_step_inv [of E db db' gone] step_letters_ok [of E db db'] by (simp add: stores_inv_def)
next
  case (reach_worker gone db q j i p reason attempts now)
  let ?db = "dead_letter_create q j i p reason attempts now db"
  have "outbox_inv gone ?db"
    by (rule outbox_inv_letters [where db = db]) (use reach_worker in \<open>auto simp: stores_inv_def dead_letter_create_def letters_def\<close>)
  with reach_worker show ?case by (simp add: stores_inv_def create_letters_ok)
next
  case (reach_redrive gone db rowId now operator outboxId)
  let ?db = "db\<lparr>dead_letter_jobs := update_where (redrivable rowId) (stamp_redriven now operator outboxId) (dead_letter_jobs db)\<rparr>"
  have ids: "map dl_id (dead_letter_jobs ?db) = map dl_id (dead_letter_jobs db)"
      "map dl_jobId (dead_letter_jobs ?db) = map dl_jobId (dead_letter_jobs db)"
    by (simp_all add: map_update_where stamp_redriven_def)
  have "dl_jobId ` set (dead_letter_jobs ?db) = dl_jobId ` set (dead_letter_jobs db)"
    using arg_cong [where f = set, OF ids(2)] by (simp only: set_map)
  then have l: "dl_jobId ` letters gone ?db = dl_jobId ` letters gone db"
    unfolding letters_def image_Un by (simp only:)
  have o: "outbox ?db = outbox db" "outbox_seq ?db = outbox_seq db" by simp_all
  have i: "outbox_inv gone db" using reach_redrive by (simp only: stores_inv_def)
  have "outbox_inv gone ?db" by (rule outbox_inv_letters [OF i o equalityD2 [OF l]])
  moreover have "letters_ok ?db"
    using reach_redrive ids(1) by (auto simp: stores_inv_def letters_ok_def set_update_where stamp_redriven_def)
  ultimately show ?case using reach_redrive by (simp add: stores_inv_def)
next
  case (reach_retention gone db bs before mb)
  let ?db = "snd (dead_letter_prune before bs mb db)"
  note sub = dead_letter_prune_subset [of before bs mb db]
  have d: "distinct (map dl_id (dead_letter_jobs db))" using reach_retention by (simp add: stores_inv_def letters_ok_def)
  have l: "letters gone db \<subseteq> letters (gone @ retire before bs mb db) ?db"
    by (auto simp: letters_def retire_def image_Un image_image)
  have i: "outbox_inv gone db" using reach_retention by (simp only: stores_inv_def)
  have "outbox_inv (gone @ retire before bs mb db) ?db"
    by (rule outbox_inv_letters [OF i _ _ image_mono [OF l]]) simp_all
  moreover have "letters_ok ?db" using reach_retention sub by (auto simp: stores_inv_def letters_ok_def)
  ultimately show ?case
    using reach_retention retire_old [OF d, of bs _ _ before mb] by (auto simp: stores_inv_def)
qed

text \<open>C21. In every state the outbox and the dead letters can reach from an empty database, row ids are
  unique, a PUBLISHED row no longer holds its payload, and a FAILED row has its dead letter, unless
  dead-letter retention has removed that record since, as older than its cut-off: the two retention
  periods are configured independently, so the record may go before the row.\<close>

theorem outbox_reachable_inv:
  assumes "stores_reach E gone db"
  shows "distinct (map ob_id (outbox db)) \<and> published_cleared db
    \<and> (\<forall>r \<in> set (outbox db). ob_status r = FAILED \<longrightarrow>
        (\<exists>d. dl_jobId d = Some (outboxJobId (ob_id r))
           \<and> (d \<in> set (dead_letter_jobs db) \<or> (\<exists>before. (before, d) \<in> set gone \<and> dl_createdAt d < before))))"
proof -
  note inv = stores_reach_inv [OF assms, unfolded stores_inv_def]
  have "\<exists>d. dl_jobId d = Some (outboxJobId (ob_id r))
      \<and> (d \<in> set (dead_letter_jobs db) \<or> (\<exists>before. (before, d) \<in> set gone \<and> dl_createdAt d < before))"
    if r: "r \<in> set (outbox db)" "ob_status r = FAILED" for r
  proof -
    have "failed_recorded gone db" using inv by (simp add: outbox_inv_def)
    then obtain d where "d \<in> letters gone db" "dl_jobId d = Some (outboxJobId (ob_id r))"
      using r unfolding failed_recorded_def by blast
    with inv show ?thesis unfolding letters_def by force
  qed
  then show ?thesis using inv by (simp add: outbox_inv_def outbox_ids_ok_def)
qed

text \<open>A row that failed at time 20, and its dead letter removed at a cut-off of 100.\<close>

definition failed_db :: database where
  "failed_db = snd (markFailed \<lparr>cr_id = 1, cr_queueName = ''email'', cr_jobName = ''a'', cr_payload = JNull, cr_attempts = 0\<rparr>
     ''down'' 5 20 (enqueue ''email'' ''a'' JNull 10 empty_db))"

theorem outbox_reachable_inv_witness:
  "(\<exists>r \<in> set (outbox (snd (dead_letter_prune 100 1 1 failed_db))). ob_status r = FAILED
      \<and> (\<exists>d before. dl_jobId d = Some (outboxJobId (ob_id r)) \<and> (before, d) \<in> set (retire 100 1 1 failed_db) \<and> dl_createdAt d < before))
    \<and> dead_letter_jobs (snd (dead_letter_prune 100 1 1 failed_db)) = []"
proof -
  have r: "stores_reach default_env ([] @ retire 100 1 1 failed_db) (snd (dead_letter_prune 100 1 1 failed_db))"
    unfolding failed_db_def
    by (intro reach_retention reach_outbox [OF reach_outbox [OF reach_start step_enqueue] step_failed]) simp
  have none: "dead_letter_jobs (snd (dead_letter_prune 100 1 1 failed_db)) = []" by code_simp
  have "list_ex (\<lambda>r. ob_status r = FAILED) (outbox failed_db)" by code_simp
  then obtain q where "q \<in> set (outbox (snd (dead_letter_prune 100 1 1 failed_db)))" "ob_status q = FAILED"
    by (auto simp: list_ex_iff)
  with outbox_reachable_inv [OF r] none show ?thesis by (simp only: append_Nil) force
qed

lemma outbox_run_terminal:
  assumes "(outbox_step E)\<^sup>*\<^sup>* db db'" and "outbox_inv gone db" and "r \<in> set (outbox db)"
    and "ob_status r \<noteq> PENDING"
  shows "outbox_seq db \<le> outbox_seq db'
    \<and> (\<forall>r' \<in> set (outbox db'). ob_id r' = ob_id r \<longrightarrow> r' = r)"
  using assms(1)
proof (induction rule: rtranclp_induct)
  case base
  then show ?case
    using assms(2,3) by (auto simp: outbox_inv_def outbox_ids_ok_def dest: eq_key_imp_eq_value
        elim!: inj_onD [rotated] simp: distinct_map)
next
  case (step mid db')
  have inv: "outbox_inv gone mid" using outbox_run_inv [OF step.hyps(1) assms(2)] .
  have "ob_id r < outbox_seq mid"
    using assms(2,3) step.IH by (auto simp: outbox_inv_defs)
  then have "\<exists>q \<in> set (outbox mid). row_step q r'"
    if "r' \<in> set (outbox db')" "ob_id r' = ob_id r" for r'
    using step_old_rows [OF step.hyps(2) _ that(1)] inv that(2) by (simp add: outbox_inv_def)
  then show ?case
    using step.IH step_seq_mono [OF step.hyps(2)] assms(4) unfolding row_step_def
    by (metis order_trans)
qed

text \<open>A terminal row is final: whatever relays, retries and retention do afterwards, a row
  with its id is the very same row (it can only be removed).\<close>

theorem outbox_terminal_final:
  assumes "(outbox_step E)\<^sup>*\<^sup>* db db'" and "outbox_inv gone db" and "r \<in> set (outbox db)"
    and "ob_status r \<noteq> PENDING" and "r' \<in> set (outbox db')" and "ob_id r' = ob_id r"
  shows "r' = r"
  using outbox_run_terminal [OF assms(1-4)] assms(5,6) by blast

definition published_db :: database where
  "published_db = snd (markPublished 1 20 (enqueue ''email'' ''a'' JNull 10 empty_db))"

theorem outbox_terminal_final_witness:
  "hd (outbox (snd (markRetry 1 ''late'' 50 30 published_db))) = hd (outbox published_db)"
proof -
  have inv: "outbox_inv [] published_db"
    by (simp add: outbox_inv_defs published_db_def markPublished_def enqueue_def outbox_create_def
        empty_db_def update_where_def pending_id_def)
  have hd: "hd (outbox published_db) \<in> set (outbox published_db)"
    "ob_status (hd (outbox published_db)) \<noteq> PENDING" "ob_id (hd (outbox published_db)) = 1"
    by (simp_all add: published_db_def markPublished_def enqueue_def outbox_create_def
        empty_db_def update_where_def pending_id_def)
  have "(outbox_step default_env)\<^sup>*\<^sup>* published_db (snd (markRetry 1 ''late'' 50 30 published_db))"
    by (rule r_into_rtranclp, rule step_retry)
  note final = outbox_terminal_final [OF this inv hd(1,2)]
  show ?thesis
    by (rule final) (simp_all add: published_db_def markPublished_def markRetry_def enqueue_def outbox_create_def
        empty_db_def update_where_def pending_id_def)
qed

text \<open>Retention of the outbox removes only terminal rows of the requested status whose
  terminal time is past the cut-off: every other row survives, in order, and when the batches
  suffice none of the requested rows is left.\<close>

theorem outbox_prune_exact:
  assumes "distinct (map ob_id (outbox db))" and "0 < batchSize"
    and "outbox_prune status before batchSize maxBatches db = (removed, db')"
  shows "filter (\<lambda>r. \<not> outbox_prunable status before r) (outbox db')
        = filter (\<lambda>r. \<not> outbox_prunable status before r) (outbox db)
    \<and> removed = min (count_where (outbox_prunable status before) (outbox db)) (batchSize * maxBatches)
    \<and> count_where (outbox_prunable status before) (outbox db')
        = count_where (outbox_prunable status before) (outbox db) - batchSize * maxBatches"
  using table_batch.prune_loop_spec [OF assms(1,2), of "outbox_prunable status before"
      ob_availableAt maxBatches 0] assms(3)
  by (auto simp: outbox_prune_def Let_def case_prod_beta)

theorem outbox_prune_exact_witness:
  "count_where (outbox_prunable PUBLISHED 100) (outbox (snd (outbox_prune PUBLISHED 100 1000 100 published_db)))
     = count_where (outbox_prunable PUBLISHED 100) (outbox published_db) - 1000 * 100"
proof -
  have d: "distinct (map ob_id (outbox published_db))"
    by (simp add: published_db_def markPublished_def enqueue_def outbox_create_def
        empty_db_def update_where_def pending_id_def)
  obtain removed db' where p: "outbox_prune PUBLISHED 100 1000 100 published_db = (removed, db')"
    by fastforce
  from outbox_prune_exact [OF d _ p] show ?thesis by (simp add: p)
qed

end
