(* ===== verification/Otp.thy ===== *)
theory Otp
  imports Auth_Repository Outbox
begin

text \<open>
  Registration codes (\<^verbatim>\<open>src/modules/otp/otp.repository.ts\<close> and \<^verbatim>\<open>otp.service.ts\<close>). Each
  repository operation is one guarded statement on the row of an email address. The
  statements compare against the database clock (\<open>now\<close>); the service reads the clock of the
  process (\<open>jsnow\<close>) where the code does. \<open>W\<close> is what other requests commit between two
  statements of one verification.
\<close>

section \<open>Repository\<close>

definition by_email :: "string \<Rightarrow> email_otp \<Rightarrow> bool" where
  "by_email email r = (otp_email r = email)"

text \<open>\<open>uuid\<close> is \<^verbatim>\<open>gen_random_uuid()\<close>; a colliding key would reject the statement.\<close>

definition otp_issue ::
  "string \<Rightarrow> string \<Rightarrow> string \<Rightarrow> nat \<Rightarrow> nat \<Rightarrow> time \<Rightarrow> (database, bool) tx" where
  "otp_issue uuid email codeHash expiresMinutes cooldownSeconds now db =
     (let expiresAt = now + int (expiresMinutes * 60) * 1000 in
      case find_first (by_email email) (email_otps db) of
        None \<Rightarrow>
          if uuid \<in> otp_id ` set (email_otps db) then Inl (DbError ''P2010'')
          else Inr (True, db\<lparr>email_otps := email_otps db @ [\<lparr>otp_id = uuid, otp_email = email,
                 otp_codeHash = codeHash, otp_attempts = 0, otp_sentAt = now,
                 otp_expiresAt = expiresAt, otp_verifiedAt = None, otp_consumedAt = None\<rparr>]\<rparr>)
      | Some r \<Rightarrow>
          if otp_sentAt r \<le> now - int cooldownSeconds * 1000
          then Inr (True, db\<lparr>email_otps := update_where (by_email email)
                 (\<lambda>r. r\<lparr>otp_codeHash := codeHash, otp_attempts := 0, otp_sentAt := now,
                        otp_expiresAt := expiresAt, otp_verifiedAt := None, otp_consumedAt := None\<rparr>)
                 (email_otps db)\<rparr>)
          else Inr (False, db))"

record reserved_attempt =
  ra_id :: string
  ra_codeHash :: string
  ra_verifiedAt :: "time option"

definition reservable :: "string \<Rightarrow> nat \<Rightarrow> time \<Rightarrow> email_otp \<Rightarrow> bool" where
  "reservable email maxAttempts now r = (otp_email r = email \<and> otp_consumedAt r = None
     \<and> now < otp_expiresAt r \<and> otp_attempts r < maxAttempts)"

definition reserveAttempt ::
  "string \<Rightarrow> nat \<Rightarrow> time \<Rightarrow> database \<Rightarrow> reserved_attempt option \<times> database" where
  "reserveAttempt email maxAttempts now db =
     (map_option (\<lambda>r. \<lparr>ra_id = otp_id r, ra_codeHash = otp_codeHash r, ra_verifiedAt = otp_verifiedAt r\<rparr>)
        (find_first (reservable email maxAttempts now) (email_otps db)),
      db\<lparr>email_otps := update_where (reservable email maxAttempts now)
           (\<lambda>r. r\<lparr>otp_attempts := otp_attempts r + 1\<rparr>) (email_otps db)\<rparr>)"

definition otp_findByEmail :: "string \<Rightarrow> database \<Rightarrow> email_otp option" where
  "otp_findByEmail email db = find_first (by_email email) (email_otps db)"

definition markVerified :: "string \<Rightarrow> time \<Rightarrow> database \<Rightarrow> time option \<times> database" where
  "markVerified rowId jsnow db =
     (let t = update_where (\<lambda>r. otp_id r = rowId \<and> otp_verifiedAt r = None)
                (\<lambda>r. r\<lparr>otp_verifiedAt := Some jsnow\<rparr>) (email_otps db)
      in (Option.bind (find_first (\<lambda>r. otp_id r = rowId) t) otp_verifiedAt, db\<lparr>email_otps := t\<rparr>))"

definition consumable :: "string \<Rightarrow> nat \<Rightarrow> time \<Rightarrow> email_otp \<Rightarrow> bool" where
  "consumable email windowMinutes now r = (otp_email r = email \<and> otp_consumedAt r = None
     \<and> (case otp_verifiedAt r of None \<Rightarrow> False
        | Some v \<Rightarrow> now - int (windowMinutes * 60) * 1000 < v))"

definition otp_consume ::
  "string \<Rightarrow> nat \<Rightarrow> time \<Rightarrow> database \<Rightarrow> (string \<times> time) option \<times> database" where
  "otp_consume email windowMinutes now db =
     (map_option (\<lambda>r. (otp_id r, the (otp_verifiedAt r)))
        (find_first (consumable email windowMinutes now) (email_otps db)),
      db\<lparr>email_otps := update_where (consumable email windowMinutes now)
           (\<lambda>r. r\<lparr>otp_consumedAt := Some now\<rparr>) (email_otps db)\<rparr>)"

definition otp_expired :: "time \<Rightarrow> email_otp \<Rightarrow> bool" where
  "otp_expired before r = (otp_expiresAt r < before)"

definition otp_deleteExpired :: "time \<Rightarrow> nat \<Rightarrow> nat \<Rightarrow> database \<Rightarrow> nat \<times> database" where
  "otp_deleteExpired before batchSize maxBatches db =
     (let (removed, rows) = prune_loop (delete_batch otp_id (otp_expired before) otp_expiresAt)
                              batchSize maxBatches 0 (email_otps db)
      in (removed, db\<lparr>email_otps := rows\<rparr>))"

section \<open>Service\<close>

definition otp_payload :: "env \<Rightarrow> string \<Rightarrow> string \<Rightarrow> json" where
  "otp_payload E email code = JObj [(''email'', JStr email), (''code'', JStr code),
     (''expiresMinutes'', JNum (int (OTP_EXPIRES_MINUTES E)))]"

definition send_tx :: "crypto \<Rightarrow> env \<Rightarrow> string \<Rightarrow> string \<Rightarrow> string \<Rightarrow> time \<Rightarrow> (database, bool) tx" where
  "send_tx C E uuid email code now db =
     (case otp_issue uuid email (hashOtpCode C (JWT_ACCESS_SECRET E) email code)
             (OTP_EXPIRES_MINUTES E) (OTP_RESEND_COOLDOWN_SECONDS E) now db of
        Inl e \<Rightarrow> Inl e
      | Inr (fresh, db') \<Rightarrow>
          Inr (fresh, if fresh then enqueue QUEUE_EMAIL JOB_OTP_CODE (otp_payload E email code) now db'
                      else db'))"

definition sendCode ::
  "crypto \<Rightarrow> env \<Rightarrow> (string \<Rightarrow> string) \<Rightarrow> nat \<Rightarrow> string \<Rightarrow> time \<Rightarrow> string \<Rightarrow> (database, unit) service" where
  "sendCode C E lower n uuid now rawEmail db =
     (let email = normalizeEmail rawEmail in
      if findUserByEmailInsensitive lower email db \<noteq> None
      then (Inl (AppError ''Email already registered'' 409), db)
      else (case transaction (send_tx C E uuid email (generateOtpCode n) now) db of
              (Inl e, db') \<Rightarrow> (Inl e, db')
            | (Inr issued, db') \<Rightarrow>
                if issued then (Inr (), db')
                else (Inl (AppError ''Please wait before requesting a new code'' 429), db')))"

definition verifyCode ::
  "crypto \<Rightarrow> env \<Rightarrow> (email_otp list \<Rightarrow> email_otp list) \<Rightarrow> time \<Rightarrow> time \<Rightarrow> string \<Rightarrow> string
     \<Rightarrow> (database, string) service" where
  "verifyCode C E W now jsnow rawEmail code db =
     (let email = normalizeEmail rawEmail;
          (attempt, db0) = reserveAttempt email (OTP_MAX_ATTEMPTS E) now db;
          db1 = db0\<lparr>email_otps := W (email_otps db0)\<rparr>
      in case attempt of
           None \<Rightarrow>
             (case otp_findByEmail email db1 of
                Some row \<Rightarrow>
                  if otp_consumedAt row = None \<and> jsnow < otp_expiresAt row
                     \<and> OTP_MAX_ATTEMPTS E \<le> otp_attempts row
                  then (Inl (AppError ''Too many attempts. Please request a new code'' 429), db1)
                  else (Inl (AppError ''Invalid or expired code'' 400), db1)
              | None \<Rightarrow> (Inl (AppError ''Invalid or expired code'' 400), db1))
         | Some a \<Rightarrow>
             if \<not> otpCodeMatches C (JWT_ACCESS_SECRET E) email code (ra_codeHash a)
             then (Inl (AppError ''Invalid code'' 400), db1)
             else (let (verifiedAt, db2) =
                         (case ra_verifiedAt a of
                            Some v \<Rightarrow> (Some v, db1)
                          | None \<Rightarrow> markVerified (ra_id a) jsnow db1)
                   in case verifiedAt of
                        None \<Rightarrow> (Inl (AppError ''Invalid or expired code'' 400), db2)
                      | Some v \<Rightarrow> (Inr (registrationTicket C (JWT_ACCESS_SECRET E) (ra_id a) v), db2)))"

definition not_verified :: error where
  "not_verified = AppError ''Email not verified. Request and verify a code before registering.'' 400"

text \<open>An absent or empty ticket skips the consumption.\<close>

definition consumeForRegistration ::
  "crypto \<Rightarrow> env \<Rightarrow> string \<Rightarrow> string option \<Rightarrow> time \<Rightarrow> (database, unit) tx" where
  "consumeForRegistration C E rawEmail ticket now db =
     (case ticket of
        None \<Rightarrow> Inl not_verified
      | Some tk \<Rightarrow>
          if tk = [] then Inl not_verified
          else (case otp_consume (normalizeEmail rawEmail) (OTP_VERIFIED_WINDOW_MINUTES E) now db of
                  (None, db') \<Rightarrow> Inl not_verified
                | (Some (rowId, verifiedAt), db') \<Rightarrow>
                    if ticketMatches C (JWT_ACCESS_SECRET E) tk rowId verifiedAt then Inr ((), db')
                    else Inl not_verified))"

section \<open>The invariant of the code table\<close>

definition otp_row_ok :: "nat \<Rightarrow> email_otp \<Rightarrow> bool" where
  "otp_row_ok maxAttempts r = (otp_attempts r \<le> maxAttempts
     \<and> (otp_consumedAt r \<noteq> None \<longrightarrow> otp_verifiedAt r \<noteq> None))"

definition otp_inv :: "nat \<Rightarrow> email_otp list \<Rightarrow> bool" where
  "otp_inv maxAttempts t = (distinct (map otp_email t) \<and> distinct (map otp_id t)
     \<and> list_all (otp_row_ok maxAttempts) t)"

inductive otp_step :: "env \<Rightarrow> database \<Rightarrow> database \<Rightarrow> bool" for E where
  issue: "otp_issue uuid email codeHash em cs now db = Inr (fresh, db') \<Longrightarrow> otp_step E db db'"
| reserve: "reserveAttempt email (OTP_MAX_ATTEMPTS E) now db = (a, db') \<Longrightarrow> otp_step E db db'"
| mark: "markVerified rowId jsnow db = (v, db') \<Longrightarrow> otp_step E db db'"
| consume: "otp_consume email window now db = (c, db') \<Longrightarrow> otp_step E db db'"
| expire: "otp_deleteExpired before batchSize maxBatches db = (n, db') \<Longrightarrow> otp_step E db db'"

lemma otp_email_unique:
  "otp_inv m t \<Longrightarrow> q \<in> set t \<Longrightarrow> r \<in> set t \<Longrightarrow> otp_email q = otp_email r \<Longrightarrow> q = r"
  by (auto simp: otp_inv_def distinct_map dest: inj_onD)

lemma find_email:
  assumes "otp_inv m (email_otps db)" and "otp_findByEmail email db = Some r"
    and "q \<in> set (email_otps db)" and "otp_email q = email"
  shows "q = r"
proof -
  have "r \<in> set (email_otps db)" "otp_email r = email"
    using assms(2) find_first_SomeD by (fastforce simp: otp_findByEmail_def by_email_def)+
  with assms otp_email_unique show ?thesis by blast
qed

lemma otp_inv_update:
  assumes "otp_inv m t" and "\<And>r. otp_id (f r) = otp_id r" and "\<And>r. otp_email (f r) = otp_email r"
    and "\<And>r. r \<in> set t \<Longrightarrow> P r \<Longrightarrow> otp_row_ok m r \<Longrightarrow> otp_row_ok m (f r)"
  shows "otp_inv m (update_where P f t)"
  using assms by (auto simp: otp_inv_def map_update_where set_update_where list_all_iff)

lemma otp_inv_append:
  assumes "otp_inv m t" and "otp_row_ok m r" and "otp_id r \<notin> otp_id ` set t"
    and "otp_email r \<notin> otp_email ` set t"
  shows "otp_inv m (t @ [r])"
  using assms by (auto simp: otp_inv_def)

lemma otp_inv_issue:
  assumes "otp_issue uuid email h em cs now db = Inr (fresh, db')" and "otp_inv m (email_otps db)"
  shows "otp_inv m (email_otps db')"
proof (cases "find_first (by_email email) (email_otps db)")
  case None
  then have "email \<notin> otp_email ` set (email_otps db)"
    by (auto simp: find_first_None_iff by_email_def)
  with None assms show ?thesis
    by (auto simp: otp_issue_def Let_def otp_row_ok_def intro!: otp_inv_append split: if_splits)
next
  case (Some r)
  with assms show ?thesis
    by (auto simp: otp_issue_def Let_def otp_row_ok_def intro!: otp_inv_update split: if_splits)
qed

lemma otp_inv_reserve:
  "otp_inv m (email_otps db) \<Longrightarrow> otp_inv m (email_otps (snd (reserveAttempt email m now db)))"
  by (auto simp: reserveAttempt_def reservable_def otp_row_ok_def intro!: otp_inv_update)

lemma otp_inv_mark:
  "otp_inv m (email_otps db) \<Longrightarrow> otp_inv m (email_otps (snd (markVerified rowId jsnow db)))"
  by (auto simp: markVerified_def Let_def otp_row_ok_def intro!: otp_inv_update)

lemma otp_inv_consume:
  "otp_inv m (email_otps db) \<Longrightarrow> otp_inv m (email_otps (snd (otp_consume email w now db)))"
  by (auto simp: otp_consume_def consumable_def otp_row_ok_def intro!: otp_inv_update
      split: option.splits)

lemma otp_inv_expire:
  assumes "otp_inv m (email_otps db)"
  shows "otp_inv m (email_otps (snd (otp_deleteExpired before bs mb db)))"
proof -
  have "otp_inv m (snd (prune_loop (delete_batch otp_id P otp_expiresAt) bs mb removed t))"
    if "otp_inv m t" for removed t P
    using that
  proof (induction mb arbitrary: removed t)
    case (Suc mb)
    have "otp_inv m (snd (delete_batch otp_id P otp_expiresAt bs t))"
      using Suc.prems by (auto simp: otp_inv_def delete_batch_def Let_def list_all_iff)
    with Suc show ?case by (simp add: case_prod_beta Let_def)
  qed simp
  with assms show ?thesis by (simp add: otp_deleteExpired_def case_prod_beta)
qed

lemma otp_step_inv:
  "otp_step E db db' \<Longrightarrow> otp_inv (OTP_MAX_ATTEMPTS E) (email_otps db)
     \<Longrightarrow> otp_inv (OTP_MAX_ATTEMPTS E) (email_otps db')"
proof (induction rule: otp_step.induct)
  case issue then show ?case using otp_inv_issue by blast
next
  case (reserve email now db a db')
  then show ?case using otp_inv_reserve [of "OTP_MAX_ATTEMPTS E" db email now] by simp
next
  case (mark rowId jsnow db v db')
  then show ?case using otp_inv_mark [of _ db rowId jsnow] by simp
next
  case (consume email window now db c db')
  then show ?case using otp_inv_consume [of _ db email window now] by simp
next
  case (expire before batchSize maxBatches db n db')
  then show ?case using otp_inv_expire [of _ db before batchSize maxBatches] by simp
qed

lemma otp_inv_empty: "otp_inv m (email_otps empty_db)"
  by (simp add: empty_db_def otp_inv_def)

text \<open>C15. However send, verify, register and clean-up requests interleave, the table holds one
  row per email address, no row has counted more attempts than allowed, and only a verified
  code is ever consumed.\<close>

theorem otp_reachable_inv:
  assumes "(otp_step E)\<^sup>*\<^sup>* empty_db db"
  shows "otp_inv (OTP_MAX_ATTEMPTS E) (email_otps db)"
  using assms by (induction rule: rtranclp_induct) (simp add: otp_inv_empty, rule otp_step_inv)

theorem otp_reachable_inv_witness:
  "otp_inv (OTP_MAX_ATTEMPTS default_env) (email_otps (empty_db\<lparr>email_otps := [\<lparr>otp_id = ''o1'',
     otp_email = ''a@x.io'', otp_codeHash = ''ab'', otp_attempts = 0, otp_sentAt = 0,
     otp_expiresAt = 600000, otp_verifiedAt = None, otp_consumedAt = None\<rparr>]\<rparr>))"
proof (rule otp_reachable_inv, rule r_into_rtranclp, rule otp_step.issue)
  show "otp_issue ''o1'' ''a@x.io'' ''ab'' 10 60 0 empty_db = Inr (True, empty_db\<lparr>email_otps :=
     [\<lparr>otp_id = ''o1'', otp_email = ''a@x.io'', otp_codeHash = ''ab'', otp_attempts = 0,
       otp_sentAt = 0, otp_expiresAt = 600000, otp_verifiedAt = None, otp_consumedAt = None\<rparr>]\<rparr>)"
    by (simp add: otp_issue_def empty_db_def)
qed

section \<open>Guesses per code\<close>

text \<open>Each attempt is one statement, so parallel guesses are some sequence of reservations; \<open>ts\<close>
  are the times at which they run. The result counts those that get to compare a code.\<close>

fun compared :: "string \<Rightarrow> nat \<Rightarrow> time list \<Rightarrow> database \<Rightarrow> nat" where
  "compared email m [] db = 0"
| "compared email m (now # ts) db =
     (case reserveAttempt email m now db of
        (None, db') \<Rightarrow> compared email m ts db'
      | (Some a, db') \<Rightarrow> Suc (compared email m ts db'))"

lemma reserveAttempt_cases:
  assumes "otp_inv m (email_otps db)"
  shows "(fst (reserveAttempt email m now db) = None \<and> snd (reserveAttempt email m now db) = db)
    \<or> (\<exists>r a. otp_findByEmail email db = Some r \<and> fst (reserveAttempt email m now db) = Some a
         \<and> otp_attempts r < m
         \<and> otp_findByEmail email (snd (reserveAttempt email m now db))
             = Some (r\<lparr>otp_attempts := otp_attempts r + 1\<rparr>))"
proof (cases "find_first (reservable email m now) (email_otps db)")
  case None
  then have "update_where (reservable email m now) f (email_otps db) = email_otps db" for f
    by (intro update_where_id) (simp add: find_first_None_iff)
  with None show ?thesis by (simp add: reserveAttempt_def)
next
  case (Some r)
  then have r: "r \<in> set (email_otps db)" "reservable email m now r"
    using find_first_SomeD by fastforce+
  then have "otp_findByEmail email db = Some r"
    using assms find_first_unique [of otp_email "email_otps db" r]
    by (auto simp: otp_findByEmail_def by_email_def [abs_def] otp_inv_def reservable_def)
  moreover from this have "otp_findByEmail email (snd (reserveAttempt email m now db))
      = Some (r\<lparr>otp_attempts := otp_attempts r + 1\<rparr>)"
    using r(2) unfolding otp_findByEmail_def reserveAttempt_def
    by (simp add: find_first_update_where by_email_def)
  ultimately show ?thesis using Some r(2) by (auto simp: reserveAttempt_def reservable_def)
qed

lemma compared_le:
  "otp_inv m (email_otps db) \<Longrightarrow> compared email m ts db
     \<le> (case otp_findByEmail email db of None \<Rightarrow> 0 | Some r \<Rightarrow> m - otp_attempts r)"
proof (induction ts arbitrary: db)
  case (Cons now ts)
  let ?d = "snd (reserveAttempt email m now db)"
  have inv: "otp_inv m (email_otps ?d)" using Cons.prems by (rule otp_inv_reserve)
  from reserveAttempt_cases [OF Cons.prems, of email now] show ?case
  proof (elim disjE exE conjE)
    assume "fst (reserveAttempt email m now db) = None" "?d = db"
    with Cons.IH [OF Cons.prems] show ?thesis by (auto split: prod.splits option.splits)
  next
    fix r a
    assume *: "otp_findByEmail email db = Some r" "fst (reserveAttempt email m now db) = Some a"
      "otp_attempts r < m" "otp_findByEmail email ?d = Some (r\<lparr>otp_attempts := otp_attempts r + 1\<rparr>)"
    have "compared email m ts ?d \<le> m - (otp_attempts r + 1)" using Cons.IH [OF inv] *(4) by simp
    with * show ?thesis by (auto split: prod.splits)
  qed
qed simp

text \<open>C14. Between two sends at most \<open>OTP_MAX_ATTEMPTS\<close> guesses are ever compared with a code,
  however many verifications arrive and whenever they run; each one uses up an attempt that
  was left.\<close>

theorem guesses_bounded:
  assumes "otp_inv (OTP_MAX_ATTEMPTS E) (email_otps db)"
  shows "compared email (OTP_MAX_ATTEMPTS E) ts db \<le> OTP_MAX_ATTEMPTS E
    \<and> (\<forall>r. otp_findByEmail email db = Some r
         \<longrightarrow> compared email (OTP_MAX_ATTEMPTS E) ts db + otp_attempts r \<le> OTP_MAX_ATTEMPTS E)"
proof
  note le = compared_le [OF assms, of email ts]
  show "compared email (OTP_MAX_ATTEMPTS E) ts db \<le> OTP_MAX_ATTEMPTS E"
    using le by (auto split: option.splits)
  show "\<forall>r. otp_findByEmail email db = Some r
       \<longrightarrow> compared email (OTP_MAX_ATTEMPTS E) ts db + otp_attempts r \<le> OTP_MAX_ATTEMPTS E"
  proof (intro allI impI)
    fix r assume r: "otp_findByEmail email db = Some r"
    then have "r \<in> set (email_otps db)" unfolding otp_findByEmail_def by (simp add: find_first_SomeD)
    then have "otp_attempts r \<le> OTP_MAX_ATTEMPTS E"
      using assms by (simp add: otp_inv_def list_all_iff otp_row_ok_def)
    with le r show "compared email (OTP_MAX_ATTEMPTS E) ts db + otp_attempts r \<le> OTP_MAX_ATTEMPTS E"
      by simp
  qed
qed

definition demo_otp_db :: database where
  "demo_otp_db = empty_db\<lparr>email_otps := [\<lparr>otp_id = ''o1'', otp_email = ''a@x.io'',
     otp_codeHash = ''ab'', otp_attempts = 3, otp_sentAt = 0, otp_expiresAt = 600000,
     otp_verifiedAt = None, otp_consumedAt = None\<rparr>]\<rparr>"

theorem guesses_bounded_witness:
  "compared ''a@x.io'' (OTP_MAX_ATTEMPTS default_env) [1, 2, 3, 4] demo_otp_db + 3
     \<le> OTP_MAX_ATTEMPTS default_env
   \<and> compared ''a@x.io'' (OTP_MAX_ATTEMPTS default_env) [1, 2, 3, 4] demo_otp_db = 2"
proof
  have "otp_inv (OTP_MAX_ATTEMPTS default_env) (email_otps demo_otp_db)"
    by (simp add: otp_inv_def demo_otp_db_def otp_row_ok_def default_env_def)
  from guesses_bounded [OF this, of "''a@x.io''" "[1, 2, 3, 4]"]
  show "compared ''a@x.io'' (OTP_MAX_ATTEMPTS default_env) [1, 2, 3, 4] demo_otp_db + 3
     \<le> OTP_MAX_ATTEMPTS default_env"
    by (simp add: otp_findByEmail_def demo_otp_db_def by_email_def)
  show "compared ''a@x.io'' (OTP_MAX_ATTEMPTS default_env) [1, 2, 3, 4] demo_otp_db = 2"
    by (simp add: demo_otp_db_def default_env_def reserveAttempt_def reservable_def update_where_def)
qed

section \<open>Sending a code\<close>

definition cooling :: "env \<Rightarrow> string \<Rightarrow> time \<Rightarrow> database \<Rightarrow> bool" where
  "cooling E email now db = (case otp_findByEmail email db of None \<Rightarrow> False
     | Some r \<Rightarrow> now - int (OTP_RESEND_COOLDOWN_SECONDS E) * 1000 < otp_sentAt r)"

definition fresh_code :: "crypto \<Rightarrow> env \<Rightarrow> string \<Rightarrow> string \<Rightarrow> time \<Rightarrow> email_otp \<Rightarrow> bool" where
  "fresh_code C E email code now r =
     (otp_email r = email \<and> otp_codeHash r = hashOtpCode C (JWT_ACCESS_SECRET E) email code
      \<and> otp_attempts r = 0 \<and> otp_sentAt r = now
      \<and> otp_expiresAt r = now + int (OTP_EXPIRES_MINUTES E * 60) * 1000
      \<and> otp_verifiedAt r = None \<and> otp_consumedAt r = None)"

lemma otp_findByEmail_enqueue [simp]: "otp_findByEmail e (enqueue q j p now db) = otp_findByEmail e db"
  by (simp add: otp_findByEmail_def)

lemma otp_issue_cooling:
  assumes "cooling E email now db"
  shows "otp_issue uuid email h em (OTP_RESEND_COOLDOWN_SECONDS E) now db = Inr (False, db)"
  using assms by (auto simp: cooling_def otp_findByEmail_def otp_issue_def split: option.splits)

lemma otp_issue_fresh:
  assumes "\<not> cooling E email now db" and "uuid \<notin> otp_id ` set (email_otps db)"
  shows "\<exists>db'. otp_issue uuid email (hashOtpCode C (JWT_ACCESS_SECRET E) email code)
      (OTP_EXPIRES_MINUTES E) (OTP_RESEND_COOLDOWN_SECONDS E) now db = Inr (True, db')
    \<and> db' = db\<lparr>email_otps := email_otps db'\<rparr>
    \<and> (\<exists>r. otp_findByEmail email db' = Some r \<and> fresh_code C E email code now r)
    \<and> (\<forall>e. e \<noteq> email \<longrightarrow> otp_findByEmail e db' = otp_findByEmail e db)"
proof (cases "otp_findByEmail email db")
  case None
  then have "find_first (by_email email) (email_otps db) = None" by (simp add: otp_findByEmail_def)
  with assms show ?thesis
    by (auto simp: otp_issue_def Let_def otp_findByEmail_def find_first_append by_email_def
        fresh_code_def split: option.splits)
next
  case (Some r)
  then have f: "find_first (by_email email) (email_otps db) = Some r" "otp_email r = email"
    using find_first_SomeD by (fastforce simp: otp_findByEmail_def by_email_def)+
  have other: "find_first (by_email e) (update_where (by_email email) g (email_otps db))
      = find_first (by_email e) (email_otps db)"
    if "e \<noteq> email" "\<And>r. otp_email (g r) = otp_email r" for e g
    using that by (intro find_first_update_other) (simp add: by_email_def)
  have same: "find_first (by_email email) (update_where (by_email email) g (email_otps db)) = Some (g r)"
    if "\<And>r. otp_email (g r) = otp_email r" for g
    using f that by (subst find_first_update_where) (simp_all add: by_email_def)
  from Some assms f show ?thesis
    by (auto simp: otp_issue_def Let_def otp_findByEmail_def cooling_def other same fresh_code_def)
qed

lemma send_tx_fresh:
  assumes "\<not> cooling E email now db" and "uuid \<notin> otp_id ` set (email_otps db)"
  shows "\<exists>db' i. transaction (send_tx C E uuid email code now) db = (Inr True, db')
    \<and> outbox db' = outbox db @ [i] \<and> ob_queueName i = QUEUE_EMAIL \<and> ob_jobName i = JOB_OTP_CODE
    \<and> ob_payload i = otp_payload E email code \<and> ob_status i = PENDING \<and> users db' = users db
    \<and> (\<exists>r. otp_findByEmail email db' = Some r \<and> fresh_code C E email code now r)
    \<and> (\<forall>e. e \<noteq> email \<longrightarrow> otp_findByEmail e db' = otp_findByEmail e db)"
proof -
  obtain db1 where i: "otp_issue uuid email (hashOtpCode C (JWT_ACCESS_SECRET E) email code)
      (OTP_EXPIRES_MINUTES E) (OTP_RESEND_COOLDOWN_SECONDS E) now db = Inr (True, db1)"
    and frame: "db1 = db\<lparr>email_otps := email_otps db1\<rparr>"
    and row: "\<exists>r. otp_findByEmail email db1 = Some r \<and> fresh_code C E email code now r"
    and others: "\<forall>e. e \<noteq> email \<longrightarrow> otp_findByEmail e db1 = otp_findByEmail e db"
    using otp_issue_fresh [OF assms] by blast
  have "outbox db1 = outbox db" "users db1 = users db" by (subst frame, simp)+
  moreover obtain i where "outbox (enqueue QUEUE_EMAIL JOB_OTP_CODE (otp_payload E email code) now db1)
      = outbox db1 @ [i]" "ob_queueName i = QUEUE_EMAIL" "ob_jobName i = JOB_OTP_CODE"
      "ob_payload i = otp_payload E email code" "ob_status i = PENDING"
    using outbox_log.record_adds by blast
  ultimately show ?thesis using i row others by (simp add: transaction_def send_tx_def)
qed

text \<open>Sending a code to an address with no account either finds the previous code still in
  its cooldown, and then answers 429 and changes nothing, or stores a fresh code (attempts at
  zero, unverified) and records exactly one email intent that carries it, leaving the codes of
  other addresses alone; a repeated request within the cooldown is then refused.\<close>

theorem sendCode_spec:
  assumes "findUserByEmailInsensitive lower (normalizeEmail raw) db = None"
    and "uuid \<notin> otp_id ` set (email_otps db)"
  defines "email \<equiv> normalizeEmail raw"
  shows "if cooling E email now db
    then sendCode C E lower n uuid now raw db
        = (Inl (AppError ''Please wait before requesting a new code'' 429), db)
    else \<exists>db' i. sendCode C E lower n uuid now raw db = (Inr (), db')
      \<and> outbox db' = outbox db @ [i] \<and> ob_jobName i = JOB_OTP_CODE
      \<and> ob_payload i = otp_payload E email (generateOtpCode n) \<and> ob_status i = PENDING
      \<and> (\<exists>r. otp_findByEmail email db' = Some r \<and> fresh_code C E email (generateOtpCode n) now r)
      \<and> (\<forall>e. e \<noteq> email \<longrightarrow> otp_findByEmail e db' = otp_findByEmail e db)
      \<and> (\<forall>now2 m u2. now2 < now + int (OTP_RESEND_COOLDOWN_SECONDS E) * 1000 \<longrightarrow>
           sendCode C E lower m u2 now2 raw db'
             = (Inl (AppError ''Please wait before requesting a new code'' 429), db'))"
proof (cases "cooling E email now db")
  case True
  with assms(1) show ?thesis
    by (simp add: sendCode_def Let_def transaction_def send_tx_def otp_issue_cooling email_def)
next
  case False
  obtain db' i where t: "transaction (send_tx C E uuid email (generateOtpCode n) now) db = (Inr True, db')"
    and i: "outbox db' = outbox db @ [i]" "ob_jobName i = JOB_OTP_CODE"
      "ob_payload i = otp_payload E email (generateOtpCode n)" "ob_status i = PENDING"
    and u: "users db' = users db"
    and row: "\<exists>r. otp_findByEmail email db' = Some r \<and> fresh_code C E email (generateOtpCode n) now r"
    and others: "\<forall>e. e \<noteq> email \<longrightarrow> otp_findByEmail e db' = otp_findByEmail e db"
    using send_tx_fresh [OF False assms(2)] by blast
  have cool: "cooling E email now2 db'" if "now2 < now + int (OTP_RESEND_COOLDOWN_SECONDS E) * 1000" for now2
    using row that by (auto simp: cooling_def fresh_code_def)
  have "findUserByEmailInsensitive lower email db' = None"
    using assms(1) u by (simp add: findUserByEmailInsensitive_def email_def)
  then have again: "sendCode C E lower m u2 now2 raw db'
      = (Inl (AppError ''Please wait before requesting a new code'' 429), db')"
    if "now2 < now + int (OTP_RESEND_COOLDOWN_SECONDS E) * 1000" for now2 m u2
    using cool [OF that]
    by (simp add: sendCode_def Let_def transaction_def send_tx_def otp_issue_cooling flip: email_def)
  have "sendCode C E lower n uuid now raw db = (Inr (), db')"
    using assms(1) t by (simp add: sendCode_def Let_def flip: email_def)
  with False i row others again show ?thesis by auto
qed

theorem sendCode_spec_witness:
  "\<exists>db' r. sendCode demo_crypto default_env (\<lambda>s. s) 42 ''o1'' 0 '' Ann@x.io '' empty_db = (Inr (), db')
     \<and> otp_findByEmail (normalizeEmail '' Ann@x.io '') db' = Some r
     \<and> fresh_code demo_crypto default_env (normalizeEmail '' Ann@x.io '') (generateOtpCode 42) 0 r"
proof -
  have h: "findUserByEmailInsensitive (\<lambda>s. s) (normalizeEmail '' Ann@x.io '') empty_db = None"
    "''o1'' \<notin> otp_id ` set (email_otps empty_db)"
    "\<not> cooling default_env (normalizeEmail '' Ann@x.io '') 0 empty_db"
    by (simp_all add: findUserByEmailInsensitive_def empty_db_def cooling_def otp_findByEmail_def)
  from sendCode_spec [OF h(1,2), of default_env 0 demo_crypto 42] h(3) show ?thesis by auto
qed

section \<open>Verifying and consuming a code\<close>

lemma find_reservable:
  assumes "otp_inv m (email_otps db)" and "otp_findByEmail email db = Some r" and "reservable email m now r"
  shows "find_first (reservable email m now) (email_otps db) = Some r"
proof -
  have r: "r \<in> set (email_otps db)"
    using assms(2) unfolding otp_findByEmail_def by (simp add: find_first_SomeD)
  obtain q where q: "find_first (reservable email m now) (email_otps db) = Some q"
    using find_first_exists [OF r, of "reservable email m now"] assms(3) by blast
  then have "q \<in> set (email_otps db)" "otp_email q = otp_email r"
    using find_first_SomeD [OF q] assms(3) by (auto simp: reservable_def)
  with q find_email [OF assms(1,2)] assms(3) show ?thesis by (simp add: reservable_def)
qed

lemma reserve_refused:
  assumes "otp_inv m (email_otps db)" and "otp_findByEmail email db = Some r" and "\<not> reservable email m now r"
  shows "reserveAttempt email m now db = (None, db)"
proof -
  have none: "\<not> reservable email m now q" if "q \<in> set (email_otps db)" for q
    using find_email [OF assms(1,2) that] assms(3) by (auto simp: reservable_def)
  then have "find_first (reservable email m now) (email_otps db) = None"
    by (simp only: find_first_None_iff) blast
  with none show ?thesis by (simp add: reserveAttempt_def)
qed

lemma verifyCode_ok:
  fixes jsnow :: time
  assumes "otp_inv (OTP_MAX_ATTEMPTS E) (email_otps db)"
    and find: "otp_findByEmail (normalizeEmail raw) db = Some r"
    and "reservable (normalizeEmail raw) (OTP_MAX_ATTEMPTS E) now r"
    and "otp_codeHash r = hashOtpCode C (JWT_ACCESS_SECRET E) (normalizeEmail raw) code"
  defines "v \<equiv> (case otp_verifiedAt r of Some v \<Rightarrow> v | None \<Rightarrow> jsnow)"
  shows "\<exists>db'. verifyCode C E (\<lambda>t. t) now jsnow raw code db
        = (Inr (registrationTicket C (JWT_ACCESS_SECRET E) (otp_id r) v), db')
    \<and> otp_findByEmail (normalizeEmail raw) db'
        = Some (r\<lparr>otp_attempts := otp_attempts r + 1, otp_verifiedAt := Some v\<rparr>)
    \<and> otp_inv (OTP_MAX_ATTEMPTS E) (email_otps db') \<and> db' = db\<lparr>email_otps := email_otps db'\<rparr>"
proof -
  let ?email = "normalizeEmail raw" and ?m = "OTP_MAX_ATTEMPTS E"
  let ?db1 = "snd (reserveAttempt ?email ?m now db)" and ?r1 = "r\<lparr>otp_attempts := otp_attempts r + 1\<rparr>"
  have a: "fst (reserveAttempt ?email ?m now db) = Some \<lparr>ra_id = otp_id r, ra_codeHash = otp_codeHash r,
      ra_verifiedAt = otp_verifiedAt r\<rparr>"
    by (simp add: reserveAttempt_def find_reservable [OF assms(1-3)])
  then have f1: "otp_findByEmail ?email ?db1 = Some ?r1"
    using reserveAttempt_cases [OF assms(1), of ?email now] find by auto
  have inv1: "otp_inv ?m (email_otps ?db1)" by (rule otp_inv_reserve [OF assms(1)])
  have fr1: "?db1 = db\<lparr>email_otps := email_otps ?db1\<rparr>" by (simp add: reserveAttempt_def)
  have match: "otpCodeMatches C (JWT_ACCESS_SECRET E) ?email code (otp_codeHash r)"
    using assms(4) otpCodeMatches_own by simp
  show ?thesis
  proof (cases "otp_verifiedAt r")
    case (Some w)
    then have "verifyCode C E (\<lambda>t. t) now jsnow raw code db
        = (Inr (registrationTicket C (JWT_ACCESS_SECRET E) (otp_id r) v), ?db1)"
      using a match by (simp add: verifyCode_def Let_def case_prod_beta v_def)
    moreover have "?r1 = r\<lparr>otp_attempts := otp_attempts r + 1, otp_verifiedAt := Some v\<rparr>"
      using Some by (simp add: v_def)
    ultimately show ?thesis using f1 inv1 fr1 by metis
  next
    case None
    let ?db2 = "snd (markVerified (otp_id r) jsnow ?db1)"
    have r1: "?r1 \<in> set (email_otps ?db1)"
      using f1 unfolding otp_findByEmail_def by (simp add: find_first_SomeD)
    have "find_first (\<lambda>x. otp_id x = otp_id ?r1) (email_otps ?db1) = Some ?r1"
      by (rule find_first_unique [OF _ r1]) (use inv1 in \<open>simp add: otp_inv_def\<close>)
    then have "fst (markVerified (otp_id r) jsnow ?db1) = Some v"
      using None by (simp add: markVerified_def Let_def find_first_update_where v_def)
    then have "verifyCode C E (\<lambda>t. t) now jsnow raw code db
        = (Inr (registrationTicket C (JWT_ACCESS_SECRET E) (otp_id r) v), ?db2)"
      using a match None by (simp add: verifyCode_def Let_def case_prod_beta)
    moreover have "otp_findByEmail ?email ?db2
        = Some (r\<lparr>otp_attempts := otp_attempts r + 1, otp_verifiedAt := Some v\<rparr>)"
      using f1 None
      by (simp add: otp_findByEmail_def markVerified_def Let_def find_first_update_where by_email_def v_def)
    moreover have "otp_inv ?m (email_otps ?db2)" by (rule otp_inv_mark [OF inv1])
    moreover have "?db2 = db\<lparr>email_otps := email_otps ?db2\<rparr>"
      using fr1 by (simp add: markVerified_def Let_def reserveAttempt_def)
    ultimately show ?thesis by blast
  qed
qed

lemma consume_ok:
  assumes "otp_inv m (email_otps db)" and find: "otp_findByEmail (normalizeEmail raw) db = Some r"
    and cons: "otp_consumedAt r = None" and ver: "otp_verifiedAt r = Some v"
    and win: "now - int (OTP_VERIFIED_WINDOW_MINUTES E * 60) * 1000 < v"
    and tk: "tk = registrationTicket C (JWT_ACCESS_SECRET E) (otp_id r) v" "tk \<noteq> []"
  shows "\<exists>db'. consumeForRegistration C E raw (Some tk) now db = Inr ((), db')
    \<and> otp_findByEmail (normalizeEmail raw) db' = Some (r\<lparr>otp_consumedAt := Some now\<rparr>)
    \<and> db' = db\<lparr>email_otps := email_otps db'\<rparr>"
proof -
  let ?email = "normalizeEmail raw" and ?w = "OTP_VERIFIED_WINDOW_MINUTES E"
  let ?db' = "snd (otp_consume ?email ?w now db)"
  have r: "r \<in> set (email_otps db)" "otp_email r = ?email"
    using find find_first_SomeD by (fastforce simp: otp_findByEmail_def by_email_def)+
  have c: "consumable ?email ?w now r" using r cons ver win by (simp add: consumable_def)
  obtain q where q: "find_first (consumable ?email ?w now) (email_otps db) = Some q"
    using find_first_exists [OF r(1)] c by blast
  then have "q \<in> set (email_otps db)" "otp_email q = otp_email r"
    using find_first_SomeD [OF q] r(2) by (auto simp: consumable_def)
  then have "q = r" using find_email [OF assms(1) find] r(2) by simp
  then have "consumeForRegistration C E raw (Some tk) now db = Inr ((), ?db')"
    using q ver tk by (simp add: consumeForRegistration_def otp_consume_def ticketMatches_def)
  moreover have "otp_findByEmail ?email ?db' = Some (r\<lparr>otp_consumedAt := Some now\<rparr>)"
    using find c by (simp add: otp_findByEmail_def otp_consume_def find_first_update_where by_email_def)
  moreover have "?db' = db\<lparr>email_otps := email_otps ?db'\<rparr>" by (simp add: otp_consume_def)
  ultimately show ?thesis by blast
qed

lemma consume_refused:
  assumes "otp_inv m (email_otps db)" and "otp_findByEmail (normalizeEmail raw) db = Some r"
    and "otp_consumedAt r \<noteq> None \<or> otp_verifiedAt r = None"
  shows "consumeForRegistration C E raw ticket now db = Inl not_verified"
proof -
  have "\<not> consumable (normalizeEmail raw) w now q" if q: "q \<in> set (email_otps db)" for q w
  proof
    assume c: "consumable (normalizeEmail raw) w now q"
    then have "otp_findByEmail (normalizeEmail raw) db = Some q"
      using find_first_unique [of otp_email, OF _ q] assms(1)
      by (simp add: otp_findByEmail_def by_email_def [abs_def] consumable_def otp_inv_def)
    with assms(2,3) c show False by (auto simp: consumable_def)
  qed
  then have "find_first (consumable (normalizeEmail raw) w now) (email_otps db) = None" for w
    by (simp add: find_first_None_iff)
  then show ?thesis
    by (simp add: consumeForRegistration_def otp_consume_def split: option.splits)
qed

text \<open>A correct code entered again gives the ticket it gave the first time.\<close>

lemma verifyCode_again:
  assumes "otp_inv (OTP_MAX_ATTEMPTS E) (email_otps db)"
    and "otp_findByEmail (normalizeEmail raw) db = Some r"
    and "reservable (normalizeEmail raw) (OTP_MAX_ATTEMPTS E) now r"
    and "otp_codeHash r = hashOtpCode C (JWT_ACCESS_SECRET E) (normalizeEmail raw) code"
    and "otp_attempts r + 1 < OTP_MAX_ATTEMPTS E" and "now2 < otp_expiresAt r"
    and run: "verifyCode C E (\<lambda>t. t) now jsnow raw code db = (Inr tk, db')"
  shows "\<exists>db''. verifyCode C E (\<lambda>t. t) now2 jsnow2 raw code db' = (Inr tk, db'')"
proof -
  let ?v = "case otp_verifiedAt r of Some v \<Rightarrow> v | None \<Rightarrow> jsnow"
  let ?r' = "r\<lparr>otp_attempts := otp_attempts r + 1, otp_verifiedAt := Some ?v\<rparr>"
  have tk: "tk = registrationTicket C (JWT_ACCESS_SECRET E) (otp_id r) ?v"
    and f: "otp_findByEmail (normalizeEmail raw) db' = Some ?r'"
    and inv: "otp_inv (OTP_MAX_ATTEMPTS E) (email_otps db')"
    using verifyCode_ok [OF assms(1-4), of jsnow] run by auto
  have "reservable (normalizeEmail raw) (OTP_MAX_ATTEMPTS E) now2 ?r'"
    using assms(3,5,6) by (simp add: reservable_def)
  from verifyCode_ok [OF inv f this, of C code jsnow2] assms(4) tk show ?thesis by auto
qed

text \<open>C13. A code is good for one account: once a verification has produced a ticket, registering
  with it within the window succeeds, and from then on no ticket registers that address again
  and the code is refused, until a new code is sent. Entering the correct code a second time
  before registering returns the very same ticket.\<close>

theorem one_registration_per_code:
  assumes "hmac_bytes C" and "otp_inv (OTP_MAX_ATTEMPTS E) (email_otps db)"
    and "otp_findByEmail (normalizeEmail raw) db = Some r"
    and "fresh_code C E (normalizeEmail raw) code sent r"
    and "1 < OTP_MAX_ATTEMPTS E" and "now < otp_expiresAt r" and "now2 < otp_expiresAt r"
    and "now3 - int (OTP_VERIFIED_WINDOW_MINUTES E * 60) * 1000 < jsnow"
  shows "\<exists>tk db1 db2. verifyCode C E (\<lambda>t. t) now jsnow raw code db = (Inr tk, db1)
    \<and> (\<exists>db1'. verifyCode C E (\<lambda>t. t) now2 jsnow2 raw code db1 = (Inr tk, db1'))
    \<and> consumeForRegistration C E raw (Some tk) now3 db1 = Inr ((), db2)
    \<and> (\<forall>tk2 now4. consumeForRegistration C E raw tk2 now4 db2 = Inl not_verified)
    \<and> (\<forall>now4 js4 code4. fst (verifyCode C E (\<lambda>t. t) now4 js4 raw code4 db2)
          = Inl (AppError ''Invalid or expired code'' 400))"
proof -
  let ?email = "normalizeEmail raw" and ?m = "OTP_MAX_ATTEMPTS E"
  let ?tk = "registrationTicket C (JWT_ACCESS_SECRET E) (otp_id r) jsnow"
  have res: "reservable ?email ?m now r" and h: "otp_codeHash r = hashOtpCode C (JWT_ACCESS_SECRET E) ?email code"
    and small: "otp_attempts r + 1 < ?m" and ver: "otp_verifiedAt r = None" "otp_consumedAt r = None"
    using assms(4-6) by (simp_all add: fresh_code_def reservable_def)
  obtain db1 where v: "verifyCode C E (\<lambda>t. t) now jsnow raw code db = (Inr ?tk, db1)"
    and f1: "otp_findByEmail ?email db1 = Some (r\<lparr>otp_attempts := otp_attempts r + 1, otp_verifiedAt := Some jsnow\<rparr>)"
    and inv1: "otp_inv ?m (email_otps db1)"
    using verifyCode_ok [OF assms(2,3) res h, of jsnow] ver by auto
  have "hmac_sha256 C k x \<noteq> []" for k x
    using assms(1) unfolding hmac_bytes_def by (metis length_0_conv zero_neq_numeral)
  then have ne: "?tk \<noteq> []" by (simp add: registrationTicket_def base64url_Nil_iff)
  obtain db2 where c: "consumeForRegistration C E raw (Some ?tk) now3 db1 = Inr ((), db2)"
    and f2: "otp_findByEmail ?email db2 = Some (r\<lparr>otp_attempts := otp_attempts r + 1,
        otp_verifiedAt := Some jsnow, otp_consumedAt := Some now3\<rparr>)"
    and d2: "db2 = db1\<lparr>email_otps := email_otps db2\<rparr>"
    using consume_ok [OF inv1 f1 _ _ _ _ ne, of jsnow now3 E C] ver assms(8) by auto
  have inv2: "otp_inv ?m (email_otps db2)"
    using c otp_inv_consume [OF inv1, of ?email "OTP_VERIFIED_WINDOW_MINUTES E" now3]
    by (auto simp: consumeForRegistration_def split: option.splits if_splits prod.splits)
  have "consumeForRegistration C E raw tk2 now4 db2 = Inl not_verified" for tk2 now4
    by (rule consume_refused [OF inv2 f2]) simp
  moreover have "fst (verifyCode C E (\<lambda>t. t) now4 js4 raw code4 db2)
      = Inl (AppError ''Invalid or expired code'' 400)" for now4 js4 code4
  proof -
    have "reserveAttempt ?email ?m now4 db2 = (None, db2)"
      by (rule reserve_refused [OF inv2 f2]) (simp add: reservable_def)
    then show ?thesis using f2 by (simp add: verifyCode_def Let_def case_prod_beta)
  qed
  ultimately show ?thesis
    using v c verifyCode_again [OF assms(2,3) res h small assms(7) v, of jsnow2] by blast
qed

definition demo_fresh_otp :: email_otp where
  "demo_fresh_otp = \<lparr>otp_id = ''o1'', otp_email = normalizeEmail ''a@x.io'',
     otp_codeHash = hashOtpCode demo_crypto (JWT_ACCESS_SECRET default_env) (normalizeEmail ''a@x.io'') ''000042'',
     otp_attempts = 0, otp_sentAt = 0, otp_expiresAt = 600000, otp_verifiedAt = None,
     otp_consumedAt = None\<rparr>"

theorem one_registration_per_code_witness:
  "\<exists>tk db1 db2. verifyCode demo_crypto default_env (\<lambda>t. t) 1000 1000 ''a@x.io'' ''000042''
      (empty_db\<lparr>email_otps := [demo_fresh_otp]\<rparr>) = (Inr tk, db1)
    \<and> consumeForRegistration demo_crypto default_env ''a@x.io'' (Some tk) 3000 db1 = Inr ((), db2)
    \<and> consumeForRegistration demo_crypto default_env ''a@x.io'' (Some tk) 4000 db2 = Inl not_verified"
proof -
  let ?db = "empty_db\<lparr>email_otps := [demo_fresh_otp]\<rparr>"
  have h: "otp_inv (OTP_MAX_ATTEMPTS default_env) (email_otps ?db)"
    "otp_findByEmail (normalizeEmail ''a@x.io'') ?db = Some demo_fresh_otp"
    "fresh_code demo_crypto default_env (normalizeEmail ''a@x.io'') ''000042'' 0 demo_fresh_otp"
    "1 < OTP_MAX_ATTEMPTS default_env" "1000 < otp_expiresAt demo_fresh_otp"
    "2000 < otp_expiresAt demo_fresh_otp"
    "3000 - int (OTP_VERIFIED_WINDOW_MINUTES default_env * 60) * 1000 < 1000"
    by (simp_all add: otp_inv_def otp_row_ok_def demo_fresh_otp_def default_env_def
        otp_findByEmail_def by_email_def fresh_code_def)
  from one_registration_per_code [OF demo_hmac_bytes h] show ?thesis by blast
qed

end
