(* ===== verification/Relay.thy ===== *)
theory Relay
  imports Outbox
begin

text \<open>
  The outbox relay (\<^verbatim>\<open>src/jobs/relay/outbox-relay.ts\<close>): one pass claims due rows, publishes each
  as a job whose id is derived from the row, and marks it PUBLISHED, schedules a retry with
  backoff, or dead-letters it. The job queue is the list of the jobs it holds; adding a job
  under an id it already holds does nothing, as BullMQ documents. What each attempt to publish
  meets is the argument \<open>pub\<close>: success, or an error (a timeout included), after which the job may
  nevertheless have reached the queue.
\<close>

section \<open>Publishing\<close>

record job =
  job_id :: string
  job_queue :: string
  job_name :: string
  job_data :: json

type_synonym broker = "job list"

definition queue_add :: "string \<Rightarrow> string \<Rightarrow> json \<Rightarrow> string \<Rightarrow> broker \<Rightarrow> broker" where
  "queue_add queueName jobName data jobId b =
     (if jobId \<in> job_id ` set b then b
      else b @ [\<lparr>job_id = jobId, job_queue = queueName, job_name = jobName, job_data = data\<rparr>])"

datatype publish_result = PubOk | PubErr string bool

definition PUBLISH_TIMEOUT_MS :: nat where "PUBLISH_TIMEOUT_MS = 5000"

definition publish :: "(claimed_row \<Rightarrow> publish_result) \<Rightarrow> claimed_row \<Rightarrow> broker \<Rightarrow> string option \<times> broker" where
  "publish pub row b =
     (let added = queue_add (cr_queueName row) (cr_jobName row) (cr_payload row) (outboxJobId (cr_id row)) b
      in case pub row of
           PubOk \<Rightarrow> (None, added)
         | PubErr reason reached \<Rightarrow> (Some reason, if reached then added else b))"

definition retryDelaySeconds :: "nat \<Rightarrow> nat" where
  "retryDelaySeconds attempts = min (5 * 2 ^ attempts) 3600"

definition routable :: "string \<Rightarrow> bool" where
  "routable queueName = (queueName = QUEUE_EMAIL \<or> queueName = QUEUE_SYSTEM)"

datatype publish_outcome = Published | Retry | Failed | Skipped

definition processRow ::
  "env \<Rightarrow> (claimed_row \<Rightarrow> publish_result) \<Rightarrow> time \<Rightarrow> claimed_row \<Rightarrow> database \<times> broker
     \<Rightarrow> publish_outcome \<times> (database \<times> broker)" where
  "processRow E pub now row st = (case st of (db, b) \<Rightarrow>
     if \<not> routable (cr_queueName row)
     then (let (failed, db') = markFailed row (''Unknown queue: '' @ cr_queueName row) (cr_attempts row + 1) now db
           in (if failed then Failed else Skipped, (db', b)))
     else (case publish pub row b of
             (Some reason, b') \<Rightarrow>
               (let attempts = cr_attempts row + 1 in
                if OUTBOX_MAX_PUBLISH_ATTEMPTS E \<le> attempts
                then (let (failed, db') = markFailed row (''Publish failed after '' @ show_nat attempts
                                            @ '' attempts: '' @ reason) attempts now db
                      in (if failed then Failed else Skipped, (db', b')))
                else (let (retried, db') = markRetry (cr_id row) reason
                                             (now + int (retryDelaySeconds attempts) * 1000) now db
                      in (if retried then Retry else Skipped, (db', b'))))
           | (None, b') \<Rightarrow>
               (let (done, db') = markPublished (cr_id row) now db
                in (if done then Published else Skipped, (db', b')))))"

text \<open>The loop over the claimed rows stops after the first transient failure.\<close>

fun relay_rows ::
  "env \<Rightarrow> (claimed_row \<Rightarrow> publish_result) \<Rightarrow> time \<Rightarrow> claimed_row list \<Rightarrow> nat \<Rightarrow> database \<times> broker
     \<Rightarrow> nat \<times> (database \<times> broker)" where
  "relay_rows E pub now [] published st = (published, st)"
| "relay_rows E pub now (row # rows) published st =
     (case processRow E pub now row st of
        (outcome, st') \<Rightarrow>
          (let published' = (if outcome = Published then published + 1 else published)
           in if outcome = Retry then (published', st')
              else relay_rows E pub now rows published' st'))"

definition relayOnce ::
  "env \<Rightarrow> (claimed_row \<Rightarrow> publish_result) \<Rightarrow> nat list \<Rightarrow> time \<Rightarrow> database \<times> broker
     \<Rightarrow> nat \<times> (database \<times> broker)" where
  "relayOnce E pub locked now st = (case st of (db, b) \<Rightarrow>
     (let (rows, db') = claimBatch E locked (OUTBOX_RELAY_BATCH E) now db
      in relay_rows E pub now rows 0 (db', b)))"

section \<open>Backoff\<close>

text \<open>The delay before a retry starts at ten seconds, doubles with every attempt and never
  exceeds an hour.\<close>

theorem retryDelay_backoff:
  "retryDelaySeconds 1 = 10 \<and> retryDelaySeconds n \<le> 3600
   \<and> retryDelaySeconds n \<le> retryDelaySeconds (Suc n)
   \<and> retryDelaySeconds (Suc n) = min (2 * retryDelaySeconds n) 3600"
  by (simp add: retryDelaySeconds_def min_def)

section \<open>What a pass does to the rows\<close>

definition row_at :: "nat \<Rightarrow> database \<Rightarrow> outbox_row option" where
  "row_at i db = find_first (\<lambda>r. ob_id r = i) (outbox db)"

lemma row_at_update:
  assumes "outbox db' = update_where (pending_id i) f (outbox db)" and "\<And>r. ob_id (f r) = ob_id r"
  shows "row_at j db' = map_option (\<lambda>r. if pending_id i r then f r else r) (row_at j db)"
  unfolding row_at_def assms(1) by (rule find_first_update_where) (simp add: assms(2))

lemma row_at_other:
  assumes "outbox db' = update_where (pending_id i) f (outbox db)" and "\<And>r. ob_id (f r) = ob_id r"
    and "j \<noteq> i"
  shows "row_at j db' = row_at j db"
  unfolding row_at_def assms(1) by (rule find_first_update_other) (use assms in \<open>auto simp: pending_id_def\<close>)

lemma row_at_SomeD: "row_at i db = Some r \<Longrightarrow> r \<in> set (outbox db) \<and> ob_id r = i"
  unfolding row_at_def by (drule find_first_SomeD) simp

lemma row_at_mem: "distinct (map ob_id (outbox db)) \<Longrightarrow> r \<in> set (outbox db) \<Longrightarrow> row_at (ob_id r) db = Some r"
  unfolding row_at_def by (rule find_first_unique)

lemma markFailed_table_cases:
  "outbox (snd (markFailed row reason attempts now db)) = update_where (pending_id (cr_id row))
     (\<lambda>r. r\<lparr>ob_status := FAILED, ob_attempts := attempts, ob_lastError := Some reason,
            ob_availableAt := now, ob_updatedAt := now\<rparr>) (outbox db)"
proof (cases "fst (markFailed row reason attempts now db)")
  case True
  from markFailed_True_table [OF this] show ?thesis by blast
next
  case False
  then have "count_where (pending_id (cr_id row)) (outbox db) = 0" "snd (markFailed row reason attempts now db) = db"
    by (simp_all add: markFailed_def split: if_splits)
  then have "\<forall>r \<in> set (outbox db). \<not> pending_id (cr_id row) r" by (simp only: count_where_0_iff)
  with \<open>snd (markFailed row reason attempts now db) = db\<close> show ?thesis by simp
qed

text \<open>The three ways a processed row is rewritten.\<close>

definition next_row :: "env \<Rightarrow> (claimed_row \<Rightarrow> publish_result) \<Rightarrow> time \<Rightarrow> claimed_row \<Rightarrow> outbox_row \<Rightarrow> outbox_row" where
  "next_row E pub now row r =
     (let failed = (\<lambda>reason. r\<lparr>ob_status := FAILED, ob_attempts := cr_attempts row + 1,
                       ob_lastError := Some reason, ob_availableAt := now, ob_updatedAt := now\<rparr>)
      in if \<not> routable (cr_queueName row) then failed (''Unknown queue: '' @ cr_queueName row)
         else case pub row of
           PubOk \<Rightarrow> r\<lparr>ob_status := PUBLISHED, ob_publishedAt := Some now, ob_availableAt := now,
                      ob_payload := JObj [], ob_lastError := None, ob_updatedAt := now\<rparr>
         | PubErr reason reached \<Rightarrow>
             if OUTBOX_MAX_PUBLISH_ATTEMPTS E \<le> cr_attempts row + 1
             then failed (''Publish failed after '' @ show_nat (cr_attempts row + 1) @ '' attempts: '' @ reason)
             else r\<lparr>ob_attempts := ob_attempts r + 1, ob_lastError := Some reason,
                    ob_availableAt := now + int (retryDelaySeconds (cr_attempts row + 1)) * 1000,
                    ob_updatedAt := now\<rparr>)"

lemma next_row_id [simp]: "ob_id (next_row E pub now row r) = ob_id r"
  by (auto simp: next_row_def Let_def split: publish_result.splits)

lemma processRow_table:
  "outbox (fst (snd (processRow E pub now row (db, b))))
     = update_where (pending_id (cr_id row)) (next_row E pub now row) (outbox db)"
  by (auto simp: processRow_def next_row_def [abs_def] publish_def Let_def case_prod_beta
      markFailed_table_cases markPublished_table markRetry_table split: publish_result.splits)

lemma processRow_step: "\<exists>db'. fst (snd (processRow E pub now row (db, b))) = db' \<and> outbox_step E db db'"
  by (auto simp: processRow_def publish_def Let_def case_prod_beta
      split: publish_result.splits intro: outbox_step.intros)

lemma relay_rows_run:
  "(outbox_step E)\<^sup>*\<^sup>* (fst st) (fst (snd (relay_rows E pub now rows published st)))"
proof (induction rows arbitrary: published st)
  case (Cons row rows)
  obtain outcome db' b' where p: "processRow E pub now row st = (outcome, (db', b'))" by (metis prod.exhaust)
  then have step: "outbox_step E (fst st) db'"
    using processRow_step [of E pub now row "fst st" "snd st"] by simp
  have "(outbox_step E)\<^sup>*\<^sup>* db' (fst (snd (relay_rows E pub now rows k (db', b'))))" for k
    using Cons.IH [where st = "(db', b')"] by simp
  with step p show ?case by (simp add: Let_def converse_rtranclp_into_rtranclp r_into_rtranclp)
qed simp

lemma relayOnce_run: "(outbox_step E)\<^sup>*\<^sup>* db (fst (snd (relayOnce E pub locked now (db, b))))"
proof -
  obtain rows db' where c: "claimBatch E locked (OUTBOX_RELAY_BATCH E) now db = (rows, db')" by fastforce
  then have "outbox_step E db db'" using step_claim [of E db locked "OUTBOX_RELAY_BATCH E" now] by simp
  with relay_rows_run [of E "(db', b)" pub now rows 0] c show ?thesis
    by (simp add: relayOnce_def converse_rtranclp_into_rtranclp)
qed

section \<open>Delivery\<close>

definition delivered :: "database \<Rightarrow> broker \<Rightarrow> bool" where
  "delivered db b = (\<forall>r \<in> set (outbox db). ob_status r = PUBLISHED \<longrightarrow> outboxJobId (ob_id r) \<in> job_id ` set b)"

lemma queue_add_ids: "job_id ` set (queue_add q n d i b) = insert i (job_id ` set b)"
  by (auto simp: queue_add_def)

lemma queue_add_distinct: "distinct (map job_id b) \<Longrightarrow> distinct (map job_id (queue_add q n d i b))"
  by (simp add: queue_add_def)

lemma processRow_broker:
  "snd (snd (processRow E pub now row (db, b)))
     = (if routable (cr_queueName row) then snd (publish pub row b) else b)"
  by (auto simp: processRow_def publish_def Let_def case_prod_beta split: publish_result.splits)

lemma publish_ids:
  "job_id ` set b \<subseteq> job_id ` set (snd (publish pub row b))"
  "pub row = PubOk \<Longrightarrow> outboxJobId (cr_id row) \<in> job_id ` set (snd (publish pub row b))"
  "distinct (map job_id b) \<Longrightarrow> distinct (map job_id (snd (publish pub row b)))"
  by (auto simp: publish_def Let_def queue_add_ids queue_add_distinct split: publish_result.splits)

lemma next_row_published:
  assumes "ob_status (next_row E pub now row r) = PUBLISHED" and "ob_status r = PENDING"
  shows "routable (cr_queueName row) \<and> pub row = PubOk"
  using assms by (auto simp: next_row_def Let_def split: if_splits publish_result.splits)

lemma processRow_delivered:
  assumes "delivered db b" and "processRow E pub now row (db, b) = (outcome, (db', b'))"
  shows "delivered db' b' \<and> (distinct (map job_id b) \<longrightarrow> distinct (map job_id b'))"
proof
  have b': "b' = (if routable (cr_queueName row) then snd (publish pub row b) else b)"
    using processRow_broker [of E pub now row db b] assms(2) by simp
  then show "distinct (map job_id b) \<longrightarrow> distinct (map job_id b')" using publish_ids(3) by auto
  have sub: "job_id ` set b \<subseteq> job_id ` set b'" using b' publish_ids(1) [of b pub row] by auto
  have t: "outbox db' = update_where (pending_id (cr_id row)) (next_row E pub now row) (outbox db)"
    using processRow_table [of E pub now row db b] assms(2) by simp
  show "delivered db' b'"
    unfolding delivered_def
  proof (intro ballI impI)
    fix r' assume r': "r' \<in> set (outbox db')" "ob_status r' = PUBLISHED"
    then obtain r where r: "r \<in> set (outbox db)"
      "r' = (if pending_id (cr_id row) r then next_row E pub now row r else r)"
      by (auto simp: t set_update_where)
    show "outboxJobId (ob_id r') \<in> job_id ` set b'"
    proof (cases "pending_id (cr_id row) r")
      case True
      then have "routable (cr_queueName row)" "pub row = PubOk" "ob_id r' = cr_id row"
        using next_row_published r r'(2) by (auto simp: pending_id_def)
      with b' publish_ids(2) show ?thesis by simp
    next
      case False
      with r r'(2) assms(1) sub show ?thesis by (auto simp: delivered_def)
    qed
  qed
qed

lemma relay_rows_delivered:
  assumes "delivered (fst st) (snd st)" and "distinct (map job_id (snd st))"
    and "relay_rows E pub now rows published st = (n, (db', b'))"
  shows "delivered db' b' \<and> distinct (map job_id b')"
  using assms
proof (induction rows arbitrary: published st)
  case (Cons row rows)
  obtain outcome db1 b1 where p: "processRow E pub now row (fst st, snd st) = (outcome, (db1, b1))"
    by (metis prod.exhaust)
  then have "delivered db1 b1 \<and> distinct (map job_id b1)"
    using processRow_delivered [OF Cons.prems(1) p] Cons.prems(2) by blast
  with p Cons.IH [of "(db1, b1)"] Cons.prems(3) show ?case
    by (auto simp: Let_def split: if_splits)
qed auto

lemma claim_delivered:
  "delivered db b \<Longrightarrow> delivered (snd (claimBatch E locked limit now db)) b"
  by (auto simp: delivered_def claimBatch_table set_update_where)

text \<open>C17. Whatever goes wrong while publishing, a relay pass marks a row PUBLISHED only when its
  job is in the queue, never puts two jobs for one row there, dead-letters every row it fails,
  and keeps the invariant of the outbox.\<close>

theorem relay_pass_safe:
  assumes "outbox_inv gone db" and "delivered db b" and "distinct (map job_id b)"
    and "relayOnce E pub locked now (db, b) = (n, (db', b'))"
  shows "outbox_inv gone db' \<and> delivered db' b' \<and> distinct (map job_id b') \<and> failed_recorded gone db'"
proof -
  have "outbox_inv gone db'"
    using outbox_run_inv [OF relayOnce_run assms(1)] assms(4) by (metis fst_conv snd_conv)
  moreover have "delivered db' b' \<and> distinct (map job_id b')"
    using assms(4) relay_rows_delivered [where st = "(snd (claimBatch E locked (OUTBOX_RELAY_BATCH E) now db), b)"]
      claim_delivered [OF assms(2)] assms(3)
    by (simp add: relayOnce_def case_prod_beta)
  ultimately show ?thesis by (simp add: outbox_inv_def)
qed

definition demo_relay_db :: database where
  "demo_relay_db = enqueue QUEUE_EMAIL JOB_OTP_CODE (JObj []) 5 empty_db"

lemma demo_relay_inv: "outbox_inv [] demo_relay_db" "delivered demo_relay_db []"
  by (simp_all add: outbox_inv_defs delivered_def demo_relay_db_def enqueue_def outbox_create_def empty_db_def)

theorem relay_pass_safe_witness:
  "\<exists>n db' b'. relayOnce default_env (\<lambda>_. PubErr ''timeout'' True) [] 10 (demo_relay_db, []) = (n, (db', b'))
     \<and> outbox_inv [] db' \<and> delivered db' b' \<and> distinct (map job_id b')"
proof -
  obtain n db' b' where r: "relayOnce default_env (\<lambda>_. PubErr ''timeout'' True) [] 10 (demo_relay_db, []) = (n, (db', b'))"
    by (metis prod.exhaust)
  from relay_pass_safe [OF demo_relay_inv _ r] r show ?thesis by auto
qed

section \<open>Progress\<close>

definition pending_claim :: "database \<Rightarrow> claimed_row \<Rightarrow> bool" where
  "pending_claim db row = (\<exists>r. row_at (cr_id row) db = Some r \<and> ob_status r = PENDING
     \<and> ob_attempts r = cr_attempts row)"

lemma processRow_row_at:
  assumes "processRow E pub now row (db, b) = (outcome, (db', b'))"
  shows "row_at j db' = (if j = cr_id row then map_option (\<lambda>r. if pending_id j r then next_row E pub now row r else r)
           (row_at j db) else row_at j db)"
proof -
  have t: "outbox db' = update_where (pending_id (cr_id row)) (next_row E pub now row) (outbox db)"
    using processRow_table [of E pub now row db b] assms by simp
  show ?thesis using row_at_update [OF t] row_at_other [OF t] by simp
qed

lemma pending_claim_next:
  assumes "processRow E pub now row (db, b) = (outcome, (db', b'))" and "cr_id q \<noteq> cr_id row"
    and "pending_claim db q"
  shows "pending_claim db' q"
  using assms processRow_row_at [OF assms(1), of "cr_id q"] by (simp add: pending_claim_def)

lemma processRow_ok:
  assumes "routable (cr_queueName row)" and "pub row = PubOk" and "pending_claim db row"
    and "distinct (map ob_id (outbox db))"
  shows "\<exists>db' b' r. processRow E pub now row (db, b) = (Published, (db', b'))
    \<and> row_at (cr_id row) db' = Some r \<and> ob_status r = PUBLISHED"
proof -
  obtain r where r: "row_at (cr_id row) db = Some r" "ob_status r = PENDING"
    using assms(3) by (auto simp: pending_claim_def)
  have mem: "r \<in> set (outbox db)" "ob_id r = cr_id row" using row_at_SomeD [OF r(1)] by simp_all
  have "count_where (pending_id (cr_id row)) (outbox db) \<le> 1"
    unfolding pending_id_def [abs_def] by (rule count_where_unique [OF assms(4)])
  moreover have "count_where (pending_id (cr_id row)) (outbox db) \<noteq> 0"
    using mem r(2) unfolding count_where_0_iff by (auto simp: pending_id_def)
  ultimately have "count_where (pending_id (cr_id row)) (outbox db) = 1" by linarith
  then obtain db' b' where p: "processRow E pub now row (db, b) = (Published, (db', b'))"
    using assms(1,2) by (simp add: processRow_def publish_def Let_def markPublished_def)
  have "row_at (cr_id row) db' = Some (next_row E pub now row r)"
    using processRow_row_at [OF p, of "cr_id row"] r mem by (simp add: pending_id_def)
  moreover have "ob_status (next_row E pub now row r) = PUBLISHED"
    using assms(1,2) by (simp add: next_row_def)
  ultimately show ?thesis using p by blast
qed

lemma processRow_keys:
  "processRow E pub now row (db, b) = (outcome, (db', b')) \<Longrightarrow> map ob_id (outbox db') = map ob_id (outbox db)"
  using processRow_table [of E pub now row db b] by (simp add: map_update_where)

lemma relay_rows_all_published:
  assumes "\<forall>row \<in> set rows. routable (cr_queueName row) \<and> pub row = PubOk"
    and "distinct (map cr_id rows)" and "\<forall>row \<in> set rows. pending_claim db row"
    and "distinct (map ob_id (outbox db))"
  shows "\<exists>db' b'. relay_rows E pub now rows k (db, b) = (k + length rows, (db', b'))
    \<and> (\<forall>row \<in> set rows. \<exists>r. row_at (cr_id row) db' = Some r \<and> ob_status r = PUBLISHED)
    \<and> (\<forall>j. j \<notin> cr_id ` set rows \<longrightarrow> row_at j db' = row_at j db)"
  using assms
proof (induction rows arbitrary: k db b)
  case (Cons row rows)
  obtain db1 b1 r where p: "processRow E pub now row (db, b) = (Published, (db1, b1))"
    and r: "row_at (cr_id row) db1 = Some r" "ob_status r = PUBLISHED"
    using processRow_ok [of row pub db] Cons.prems by (metis list.set_intros(1))
  have ne: "cr_id q \<noteq> cr_id row" if "q \<in> set rows" for q using Cons.prems(2) that by (auto simp: image_iff)
  have claims: "\<forall>q \<in> set rows. pending_claim db1 q" using pending_claim_next [OF p] ne Cons.prems(3) by simp
  have d1: "distinct (map ob_id (outbox db1))" using processRow_keys [OF p] Cons.prems(4) by simp
  have ok: "\<forall>q \<in> set rows. routable (cr_queueName q) \<and> pub q = PubOk" "distinct (map cr_id rows)"
    using Cons.prems(1,2) by simp_all
  obtain db' b' where
    run: "relay_rows E pub now rows (k + 1) (db1, b1) = (k + 1 + length rows, (db', b'))"
    and pubs: "\<forall>q \<in> set rows. \<exists>r. row_at (cr_id q) db' = Some r \<and> ob_status r = PUBLISHED"
    and others: "\<forall>j. j \<notin> cr_id ` set rows \<longrightarrow> row_at j db' = row_at j db1"
    using Cons.IH [OF ok claims d1, of "k + 1" b1] by blast
  have "cr_id row \<notin> cr_id ` set rows" using Cons.prems(2) by simp
  then have "row_at (cr_id row) db' = Some r" using others r(1) by simp
  moreover have "row_at j db' = row_at j db" if "j \<notin> cr_id ` set (row # rows)" for j
    using that others processRow_row_at [OF p, of j] by simp
  ultimately show ?case using p run pubs r(2) by (auto simp: Let_def)
qed simp

lemma claim_all_due:
  assumes "count_where (due now) (outbox db) \<le> limit" and "distinct (map ob_id (outbox db))"
    and "r \<in> set (outbox db)"
  shows "ob_id r \<in> claim_ids [] limit now db \<longleftrightarrow> due now r"
proof -
  have "take limit (sort_key ob_availableAt (filter (due now) (outbox db)))
      = sort_key ob_availableAt (filter (due now) (outbox db))"
    using assms(1) by (simp add: count_where_def)
  then show ?thesis
    using mem_batch_ids [OF assms(2,3), of "due now" ob_availableAt limit] assms(3)
    by (simp add: claim_ids_def)
qed

text \<open>C18. Once the queue accepts jobs again, one pass drains a backlog that fits in a batch: every
  due row is PUBLISHED, the pass reports their number, and no row is due any more.\<close>

theorem relay_drains_backlog:
  assumes "outbox_inv gone db" and "count_where (due now) (outbox db) \<le> OUTBOX_RELAY_BATCH E"
    and "\<forall>r \<in> set (outbox db). routable (ob_queueName r)" and "0 < OUTBOX_LEASE_SECONDS E"
  shows "\<exists>db' b'. relayOnce E (\<lambda>_. PubOk) [] now (db, b) = (count_where (due now) (outbox db), (db', b'))
    \<and> (\<forall>r \<in> set (outbox db). due now r \<longrightarrow>
         (\<exists>r'. row_at (ob_id r) db' = Some r' \<and> ob_status r' = PUBLISHED))
    \<and> (\<forall>r \<in> set (outbox db). \<not> due now r \<longrightarrow> row_at (ob_id r) db' = Some r)"
proof -
  let ?n = "OUTBOX_RELAY_BATCH E" and ?I = "claim_ids [] (OUTBOX_RELAY_BATCH E) now db"
  have d: "distinct (map ob_id (outbox db))" using assms(1) by (simp add: outbox_inv_defs)
  obtain rows db1 where c: "claimBatch E [] ?n now db = (rows, db1)" by fastforce
  have rows: "rows = map claimed_of (filter (due now) (outbox db))"
    using claimBatch_rows [of E "[]" ?n now db] c claim_all_due [OF assms(2) d]
    by (simp cong: filter_cong)
  have t1: "outbox db1 = update_where (\<lambda>r. ob_id r \<in> ?I)
      (\<lambda>r. r\<lparr>ob_availableAt := now + int (OUTBOX_LEASE_SECONDS E) * 1000, ob_updatedAt := now\<rparr>) (outbox db)"
    using claimBatch_table [of E "[]" ?n now db] c by simp
  have at1: "row_at (ob_id r) db1 = Some (if due now r
      then r\<lparr>ob_availableAt := now + int (OUTBOX_LEASE_SECONDS E) * 1000, ob_updatedAt := now\<rparr> else r)"
    if r: "r \<in> set (outbox db)" for r
    unfolding row_at_def t1
    by (subst find_first_update_where) (use find_first_unique [OF d r] claim_all_due [OF assms(2) d r] in simp_all)
  have claims: "\<forall>row \<in> set rows. pending_claim db1 row"
    using at1 by (auto simp: rows pending_claim_def due_def)
  have ok: "\<forall>row \<in> set rows. routable (cr_queueName row) \<and> PubOk = PubOk"
    using assms(3) by (auto simp: rows)
  have dr: "distinct (map cr_id rows)"
    using distinct_filter_map [OF d, of "due now"] by (simp add: rows comp_def)
  have d1: "distinct (map ob_id (outbox db1))" using d by (simp add: t1 map_update_where)
  obtain db' b' where run: "relay_rows E (\<lambda>_. PubOk) now rows 0 (db1, b) = (0 + length rows, (db', b'))"
    and pubs: "\<forall>row \<in> set rows. \<exists>r. row_at (cr_id row) db' = Some r \<and> ob_status r = PUBLISHED"
    and rest: "\<forall>j. j \<notin> cr_id ` set rows \<longrightarrow> row_at j db' = row_at j db1"
    using relay_rows_all_published [OF ok dr claims d1] by blast
  have "row_at (ob_id r) db' = Some r" if r: "r \<in> set (outbox db)" "\<not> due now r" for r
  proof -
    have "ob_id r \<notin> cr_id ` set rows"
      using d r by (auto simp: rows distinct_map dest: inj_onD)
    with rest at1 [OF r(1)] r(2) show ?thesis by simp
  qed
  moreover have "relayOnce E (\<lambda>_. PubOk) [] now (db, b) = (count_where (due now) (outbox db), (db', b'))"
    using run c by (simp add: relayOnce_def rows count_where_def)
  moreover have "\<exists>r'. row_at (ob_id r) db' = Some r' \<and> ob_status r' = PUBLISHED"
    if "r \<in> set (outbox db)" "due now r" for r
    using pubs that by (auto simp: rows)
  ultimately show ?thesis by blast
qed

theorem relay_drains_backlog_witness:
  "\<exists>db' b' r'. relayOnce default_env (\<lambda>_. PubOk) [] 10 (demo_relay_db, []) = (1, (db', b'))
     \<and> row_at 1 db' = Some r' \<and> ob_status r' = PUBLISHED"
proof -
  have h: "count_where (due 10) (outbox demo_relay_db) \<le> OUTBOX_RELAY_BATCH default_env"
    "\<forall>r \<in> set (outbox demo_relay_db). routable (ob_queueName r)" "0 < OUTBOX_LEASE_SECONDS default_env"
    "count_where (due 10) (outbox demo_relay_db) = 1"
    "\<exists>r. outbox demo_relay_db = [r] \<and> ob_id r = 1 \<and> due 10 r"
    by (simp_all add: demo_relay_db_def enqueue_def outbox_create_def empty_db_def due_def default_env_def
        routable_def)
  from relay_drains_backlog [OF demo_relay_inv(1) h(1-3), of "[]"] h(4,5) show ?thesis by auto
qed

section \<open>Bounded attempts\<close>

definition attempts_bounded :: "nat \<Rightarrow> database \<Rightarrow> bool" where
  "attempts_bounded m db = (\<forall>r \<in> set (outbox db). (ob_status r = PENDING \<longrightarrow> ob_attempts r < m)
     \<and> ob_attempts r \<le> m)"

lemma next_row_attempts:
  assumes "ob_status r = PENDING" "ob_attempts r = cr_attempts row" "cr_attempts row < OUTBOX_MAX_PUBLISH_ATTEMPTS E"
  shows "(ob_status (next_row E pub now row r) = PENDING \<longrightarrow>
      ob_attempts (next_row E pub now row r) < OUTBOX_MAX_PUBLISH_ATTEMPTS E)
    \<and> ob_attempts (next_row E pub now row r) \<le> OUTBOX_MAX_PUBLISH_ATTEMPTS E"
  using assms by (auto simp: next_row_def Let_def split: publish_result.splits)

lemma processRow_attempts:
  assumes "attempts_bounded (OUTBOX_MAX_PUBLISH_ATTEMPTS E) db" and "distinct (map ob_id (outbox db))"
    and "pending_claim db row" and "processRow E pub now row (db, b) = (outcome, (db', b'))"
  shows "attempts_bounded (OUTBOX_MAX_PUBLISH_ATTEMPTS E) db'"
  unfolding attempts_bounded_def
proof
  fix r' assume "r' \<in> set (outbox db')"
  then obtain r where r: "r \<in> set (outbox db)"
    "r' = (if pending_id (cr_id row) r then next_row E pub now row r else r)"
    using processRow_table [of E pub now row db b] assms(4) by (auto simp: set_update_where)
  show "(ob_status r' = PENDING \<longrightarrow> ob_attempts r' < OUTBOX_MAX_PUBLISH_ATTEMPTS E)
      \<and> ob_attempts r' \<le> OUTBOX_MAX_PUBLISH_ATTEMPTS E"
  proof (cases "pending_id (cr_id row) r")
    case True
    then have "row_at (cr_id row) db = Some r" "ob_status r = PENDING"
      using row_at_mem [OF assms(2) r(1)] by (auto simp: pending_id_def)
    with assms(1,3) r True show ?thesis
      using next_row_attempts [of r row E pub now] by (auto simp: pending_claim_def attempts_bounded_def)
  next
    case False
    with r assms(1) show ?thesis by (auto simp: attempts_bounded_def)
  qed
qed

lemma relay_rows_attempts:
  assumes "attempts_bounded (OUTBOX_MAX_PUBLISH_ATTEMPTS E) db" and "distinct (map ob_id (outbox db))"
    and "\<forall>row \<in> set rows. pending_claim db row" and "distinct (map cr_id rows)"
  shows "attempts_bounded (OUTBOX_MAX_PUBLISH_ATTEMPTS E) (fst (snd (relay_rows E pub now rows k (db, b))))"
  using assms
proof (induction rows arbitrary: k db b)
  case (Cons row rows)
  obtain outcome db1 b1 where p: "processRow E pub now row (db, b) = (outcome, (db1, b1))"
    by (metis prod.exhaust)
  have ne: "cr_id q \<noteq> cr_id row" if "q \<in> set rows" for q using Cons.prems(4) that by (auto simp: image_iff)
  have a1: "attempts_bounded (OUTBOX_MAX_PUBLISH_ATTEMPTS E) db1"
    using processRow_attempts [OF Cons.prems(1,2) _ p] Cons.prems(3) by simp
  moreover have "\<forall>q \<in> set rows. pending_claim db1 q" using pending_claim_next [OF p] ne Cons.prems(3) by simp
  moreover have "distinct (map ob_id (outbox db1))" using processRow_keys [OF p] Cons.prems(2) by simp
  ultimately have "attempts_bounded (OUTBOX_MAX_PUBLISH_ATTEMPTS E)
      (fst (snd (relay_rows E pub now rows k' (db1, b1))))" for k'
    using Cons.IH Cons.prems(4) by simp
  with p a1 show ?case by (simp add: Let_def)
qed simp

text \<open>A row is retried a bounded number of times: a pass never leaves a PENDING row with its
  attempts used up, nor any row with more attempts than configured, whatever publishing meets.\<close>

theorem relay_attempts_bounded:
  assumes "outbox_inv gone db" and "attempts_bounded (OUTBOX_MAX_PUBLISH_ATTEMPTS E) db"
  shows "attempts_bounded (OUTBOX_MAX_PUBLISH_ATTEMPTS E) (fst (snd (relayOnce E pub locked now (db, b))))"
proof -
  let ?I = "claim_ids locked (OUTBOX_RELAY_BATCH E) now db"
  obtain rows db1 where c: "claimBatch E locked (OUTBOX_RELAY_BATCH E) now db = (rows, db1)" by fastforce
  have d: "distinct (map ob_id (outbox db))" using assms(1) by (simp add: outbox_inv_defs)
  have rows: "rows = map claimed_of (filter (\<lambda>r. ob_id r \<in> ?I) (outbox db))"
    using claimBatch_rows [of E locked "OUTBOX_RELAY_BATCH E" now db] c by simp
  have t1: "outbox db1 = update_where (\<lambda>r. ob_id r \<in> ?I)
      (\<lambda>r. r\<lparr>ob_availableAt := now + int (OUTBOX_LEASE_SECONDS E) * 1000, ob_updatedAt := now\<rparr>) (outbox db)"
    using claimBatch_table [of E locked "OUTBOX_RELAY_BATCH E" now db] c by simp
  have at1: "row_at (ob_id r) db1 = Some (r\<lparr>ob_availableAt := now + int (OUTBOX_LEASE_SECONDS E) * 1000,
      ob_updatedAt := now\<rparr>)" if "r \<in> set (outbox db)" "ob_id r \<in> ?I" for r
    unfolding row_at_def t1
    by (subst find_first_update_where) (use find_first_unique [OF d that(1)] that(2) in simp_all)
  have claims: "\<forall>row \<in> set rows. pending_claim db1 row"
    using at1 claim_ids_due [OF d] by (auto simp: rows pending_claim_def due_def)
  have b1: "attempts_bounded (OUTBOX_MAX_PUBLISH_ATTEMPTS E) db1"
    using assms(2) by (auto simp: attempts_bounded_def t1 set_update_where)
  have "distinct (map ob_id (outbox db1))" using d by (simp add: t1 map_update_where)
  moreover have "distinct (map cr_id rows)"
    using distinct_filter_map [OF d, of "\<lambda>r. ob_id r \<in> ?I"] by (simp add: rows comp_def)
  ultimately show ?thesis using relay_rows_attempts [OF b1 _ claims] c by (simp add: relayOnce_def)
qed

theorem relay_attempts_bounded_witness:
  "attempts_bounded (OUTBOX_MAX_PUBLISH_ATTEMPTS default_env)
     (fst (snd (relayOnce default_env (\<lambda>_. PubErr ''down'' False) [] 10 (demo_relay_db, []))))"
proof -
  have "attempts_bounded (OUTBOX_MAX_PUBLISH_ATTEMPTS default_env) demo_relay_db"
    by (simp add: attempts_bounded_def demo_relay_db_def enqueue_def outbox_create_def empty_db_def default_env_def)
  from relay_attempts_bounded [OF demo_relay_inv(1) this] show ?thesis .
qed

end
