(* ===== verification/Dead_Letter.thy ===== *)
theory Dead_Letter
  imports Otp Relay
begin

text \<open>
  The dead-letter store (\<^verbatim>\<open>src/modules/dead-letter\<close>): recording final job failures
  (\<^verbatim>\<open>src/jobs/workers/worker-logging.ts\<close>), and the one audited re-drive of a row with
  its replay guards, up to the operator command (\<^verbatim>\<open>src/scripts/redrive-dlq.ts\<close>). \<open>W\<close> is what
  other re-drives commit to the table before the conditional stamp of this one runs. The statements of
  retention and of the stamp are in \<open>Outbox\<close>, whose states they change.
\<close>

section \<open>Recording and retention\<close>

record failed_job =
  fj_name :: string
  fj_id :: "string option"
  fj_data :: json
  fj_attemptsMade :: nat
  fj_attempts :: "nat option"

definition isFinalFailure :: "failed_job \<Rightarrow> bool \<Rightarrow> bool" where
  "isFinalFailure job unrecoverable =
     (unrecoverable \<or> (case fj_attempts job of None \<Rightarrow> 1 | Some n \<Rightarrow> n) \<le> fj_attemptsMade job)"

definition dead_letter_record ::
  "string \<Rightarrow> string \<Rightarrow> string option \<Rightarrow> json \<Rightarrow> string \<Rightarrow> nat \<Rightarrow> time \<Rightarrow> database \<Rightarrow> database" where
  "dead_letter_record queueName jobName jobId payload failedReason attemptsMade now db =
     dead_letter_create queueName jobName jobId payload failedReason attemptsMade now db"

text \<open>The \<^verbatim>\<open>failed\<close> event of a worker: \<open>job\<close> is missing when the queue lost it.\<close>

definition on_failed :: "string \<Rightarrow> failed_job option \<Rightarrow> string \<Rightarrow> bool \<Rightarrow> time \<Rightarrow> database \<Rightarrow> database" where
  "on_failed workerName job reason unrecoverable now db =
     (case job of
        None \<Rightarrow> db
      | Some j \<Rightarrow> if isFinalFailure j unrecoverable
          then dead_letter_record workerName (fj_name j) (fj_id j) (payload_or_empty (fj_data j)) reason
                 (fj_attemptsMade j) now db
          else db)"

section \<open>Re-driving\<close>

definition tokenOf :: "json \<Rightarrow> string option" where
  "tokenOf payload = (case json_field ''token'' payload of
     Some (JStr t) \<Rightarrow> if t = [] then None else Some t | _ \<Rightarrow> None)"

definition guard_verification :: "json \<Rightarrow> time \<Rightarrow> database \<Rightarrow> string option" where
  "guard_verification payload now db =
     (case Option.bind (tokenOf payload) (\<lambda>t. findEmailVerificationToken t db) of
        None \<Rightarrow> Some ''the verification token no longer exists (already verified or removed)''
      | Some r \<Rightarrow> if evt_expiresAt r \<le> now then Some ''the verification token has expired'' else None)"

definition guard_reset :: "json \<Rightarrow> time \<Rightarrow> database \<Rightarrow> string option" where
  "guard_reset payload now db =
     (case Option.bind (tokenOf payload) (\<lambda>t. findUniqueToken t db) of
        None \<Rightarrow> Some ''the password-reset token no longer exists''
      | Some r \<Rightarrow> if prt_usedAt r \<noteq> None then Some ''the password-reset token was already used''
          else if prt_expiresAt r \<le> now then Some ''the password-reset token has expired'' else None)"

definition guard_otp :: "crypto \<Rightarrow> env \<Rightarrow> json \<Rightarrow> time \<Rightarrow> database \<Rightarrow> string option" where
  "guard_otp C E payload now db =
     (let gone = Some ''the registration code was replaced or no longer exists'' in
      case (json_field ''email'' payload, json_field ''code'' payload) of
        (Some (JStr email), Some (JStr code)) \<Rightarrow>
          (case otp_findByEmail email db of
             None \<Rightarrow> gone
           | Some r \<Rightarrow>
               if \<not> otpCodeMatches C (JWT_ACCESS_SECRET E) email code (otp_codeHash r) then gone
               else if otp_consumedAt r \<noteq> None then Some ''the registration code was already used''
               else if otp_verifiedAt r \<noteq> None then Some ''the registration code was already verified''
               else if otp_expiresAt r \<le> now then Some ''the registration code has expired'' else None)
      | _ \<Rightarrow> gone)"

definition replay_guard :: "crypto \<Rightarrow> env \<Rightarrow> string \<Rightarrow> json \<Rightarrow> time \<Rightarrow> database \<Rightarrow> string option" where
  "replay_guard C E jobName payload now db =
     (if jobName = JOB_VERIFICATION then guard_verification payload now db
      else if jobName = JOB_RESET_PASSWORD then guard_reset payload now db
      else if jobName = JOB_OTP_CODE then guard_otp C E payload now db
      else None)"

record redrive_result =
  rr_deadLetterId :: nat
  rr_outboxId :: nat
  rr_queueName :: string
  rr_jobName :: string

definition dl_name :: "nat \<Rightarrow> string" where
  "dl_name rowId = ''Dead-letter job '' @ show_nat rowId"

definition redrive_tx ::
  "crypto \<Rightarrow> env \<Rightarrow> (dead_letter_job list \<Rightarrow> dead_letter_job list) \<Rightarrow> time \<Rightarrow> time \<Rightarrow> nat \<Rightarrow> string option
     \<Rightarrow> (database, redrive_result) tx" where
  "redrive_tx C E W now dbnow rowId operator db =
     (case find_first (\<lambda>r. dl_id r = rowId) (dead_letter_jobs db) of
        None \<Rightarrow> Inl (ThrownError (dl_name rowId @ '' not found''))
      | Some row \<Rightarrow>
          (case dl_redrivenAt row of
             Some t \<Rightarrow> Inl (ThrownError (dl_name rowId @ '' was already re-driven at '' @ toISOString t
                   @ '' (outbox '' @ (case dl_redriveOutboxId row of None \<Rightarrow> ''null'' | Some i \<Rightarrow> show_nat i) @ '')''))
           | None \<Rightarrow>
               if \<not> routable (dl_queueName row)
               then Inl (ThrownError (''Unknown queue '' @ [CHR 0x22] @ dl_queueName row @ [CHR 0x22]
                      @ ''; nothing can process it''))
               else (case replay_guard C E (dl_jobName row) (dl_payload row) now db of
                  Some refusal \<Rightarrow> Inl (ThrownError (''Refusing to re-drive '' @ dl_jobName row @ '': '' @ refusal))
                | None \<Rightarrow>
                    (let (outboxId, db1) = outbox_create (dl_queueName row) (dl_jobName row) (dl_payload row) dbnow db;
                         t = W (dead_letter_jobs db1)
                     in if count_where (redrivable rowId) t = 0
                        then Inl (ThrownError (dl_name rowId @ '' was re-driven concurrently''))
                        else Inr (\<lparr>rr_deadLetterId = dl_id row, rr_outboxId = outboxId,
                               rr_queueName = dl_queueName row, rr_jobName = dl_jobName row\<rparr>,
                             db1\<lparr>dead_letter_jobs := update_where (redrivable rowId)
                                  (stamp_redriven now operator outboxId) t\<rparr>)))))"

definition redrive ::
  "crypto \<Rightarrow> env \<Rightarrow> (dead_letter_job list \<Rightarrow> dead_letter_job list) \<Rightarrow> time \<Rightarrow> time \<Rightarrow> nat \<Rightarrow> string option
     \<Rightarrow> (database, redrive_result) service" where
  "redrive C E W now dbnow rowId operator = transaction (redrive_tx C E W now dbnow rowId operator)"

section \<open>The operator command\<close>

fun after_by :: "string list \<Rightarrow> string option option" where
  "after_by [] = None"
| "after_by (x # rest) = (if x = ''--by'' then Some (case rest of [] \<Rightarrow> None | y # _ \<Rightarrow> Some y) else after_by rest)"

text \<open>The arguments the command accepts: a decimal id and, when \<^verbatim>\<open>--by\<close> is given, a non-empty name.\<close>

definition redrive_args :: "string list \<Rightarrow> (nat \<times> string option) option" where
  "redrive_args argv =
     (case argv of
        [] \<Rightarrow> None
      | i # rest \<Rightarrow>
          if i = [] \<or> \<not> list_all is_digit i then None
          else (case after_by rest of
                  None \<Rightarrow> Some (read_nat i, None)
                | Some None \<Rightarrow> None
                | Some (Some name) \<Rightarrow> if name = [] then None else Some (read_nat i, Some name)))"

text \<open>The exit code; an error that is not a refusal is thrown on.\<close>

definition redrive_run ::
  "crypto \<Rightarrow> env \<Rightarrow> (dead_letter_job list \<Rightarrow> dead_letter_job list) \<Rightarrow> time \<Rightarrow> time \<Rightarrow> string list
     \<Rightarrow> (database, nat) service" where
  "redrive_run C E W now dbnow argv db =
     (case redrive_args argv of
        None \<Rightarrow> (Inr 1, db)
      | Some (rowId, operator) \<Rightarrow>
          (case redrive C E W now dbnow rowId operator db of
             (Inr _, db') \<Rightarrow> (Inr 0, db')
           | (Inl (ThrownError m), db') \<Rightarrow> (Inr 1, db')
           | (Inl e, db') \<Rightarrow> (Inl e, db')))"

section \<open>At most one re-drive\<close>

lemma not_redrivable_stamped [simp]: "\<not> redrivable rowId (stamp_redriven now operator i r)"
  by (simp add: redrivable_def stamp_redriven_def)

lemma find_stamped:
  assumes "find_first (\<lambda>r. dl_id r = rowId) t = Some row" and "dl_redrivenAt row = None"
  shows "find_first (\<lambda>r. dl_id r = rowId) (update_where (redrivable rowId) (stamp_redriven now operator i) t)
    = Some (stamp_redriven now operator i row)"
  using assms find_first_SomeD [OF assms(1)]
  by (subst find_first_update_where) (auto simp: stamp_redriven_def redrivable_def)

lemma redrive_tx_Inr:
  assumes "redrive_tx C E (\<lambda>t. t) now dbnow rowId operator db = Inr (res, db')"
  shows "\<exists>row i. find_first (\<lambda>r. dl_id r = rowId) (dead_letter_jobs db) = Some row
    \<and> dl_redrivenAt row = None \<and> routable (dl_queueName row)
    \<and> replay_guard C E (dl_jobName row) (dl_payload row) now db = None
    \<and> outbox db' = outbox db @ [i] \<and> ob_queueName i = dl_queueName row \<and> ob_jobName i = dl_jobName row
    \<and> ob_payload i = dl_payload row \<and> ob_status i = PENDING \<and> rr_outboxId res = ob_id i
    \<and> dead_letter_jobs db' = update_where (redrivable rowId) (stamp_redriven now operator (ob_id i)) (dead_letter_jobs db)"
  using assms
  by (auto simp: redrive_tx_def outbox_create_def Let_def split: option.splits if_splits)

text \<open>C32. A dead-lettered job is re-driven at most once. A successful re-drive adds exactly one
  PENDING outbox row with the job's queue, name and payload and stamps the dead-letter row with
  its id; every later attempt is refused and changes nothing, and so is an attempt that passed
  its checks before this one committed.\<close>

theorem redrive_at_most_once:
  assumes "redrive C E (\<lambda>t. t) now dbnow rowId operator db = (Inr res, db')"
    and "distinct (map dl_id (dead_letter_jobs db))"
  shows "(\<exists>row i. find_first (\<lambda>r. dl_id r = rowId) (dead_letter_jobs db) = Some row
      \<and> replay_guard C E (dl_jobName row) (dl_payload row) now db = None
      \<and> outbox db' = outbox db @ [i] \<and> ob_queueName i = dl_queueName row \<and> ob_jobName i = dl_jobName row
      \<and> ob_payload i = dl_payload row \<and> ob_status i = PENDING
      \<and> find_first (\<lambda>r. dl_id r = rowId) (dead_letter_jobs db') = Some (stamp_redriven now operator (ob_id i) row))
    \<and> (\<exists>m. redrive C E W now2 dbnow2 rowId operator2 db' = (Inl (ThrownError m), db'))
    \<and> (\<exists>m. redrive C E (\<lambda>_. dead_letter_jobs db') now2 dbnow2 rowId operator2 db = (Inl (ThrownError m), db))"
proof -
  have run: "redrive_tx C E (\<lambda>t. t) now dbnow rowId operator db = Inr (res, db')"
    using assms(1) by (simp add: redrive_def transaction_eq_Inr)
  then obtain row i where row: "find_first (\<lambda>r. dl_id r = rowId) (dead_letter_jobs db) = Some row"
      "dl_redrivenAt row = None" "replay_guard C E (dl_jobName row) (dl_payload row) now db = None"
    and i: "outbox db' = outbox db @ [i]" "ob_queueName i = dl_queueName row" "ob_jobName i = dl_jobName row"
      "ob_payload i = dl_payload row" "ob_status i = PENDING"
    and t: "dead_letter_jobs db' = update_where (redrivable rowId) (stamp_redriven now operator (ob_id i)) (dead_letter_jobs db)"
    using redrive_tx_Inr by blast
  have f: "find_first (\<lambda>r. dl_id r = rowId) (dead_letter_jobs db') = Some (stamp_redriven now operator (ob_id i) row)"
    using find_stamped [OF row(1,2)] by (simp add: t)
  have later: "\<exists>m. redrive C E W now2 dbnow2 rowId operator2 db' = (Inl (ThrownError m), db')"
    using f by (simp add: redrive_def transaction_def redrive_tx_def stamp_redriven_def)
  have "\<not> redrivable rowId r" if "r \<in> set (dead_letter_jobs db')" for r
    using that not_redrivable_stamped by (fastforce simp: t set_update_where)
  then have none: "count_where (redrivable rowId) (dead_letter_jobs db') = 0"
    by (simp only: count_where_0_iff) blast
  have "\<exists>m. redrive_tx C E (\<lambda>_. dead_letter_jobs db') now2 dbnow2 rowId operator2 db = Inl (ThrownError m)"
    using row(1,2) none by (auto simp: redrive_tx_def Let_def case_prod_beta split: option.splits)
  then have "\<exists>m. redrive C E (\<lambda>_. dead_letter_jobs db') now2 dbnow2 rowId operator2 db = (Inl (ThrownError m), db)"
    by (auto simp: redrive_def)
  with row i f later show ?thesis by blast
qed

definition demo_dl_db :: database where
  "demo_dl_db = dead_letter_create QUEUE_EMAIL JOB_VERIFICATION_SUCCESS (Some ''7'') (JObj []) ''boom'' 3 0 empty_db"

theorem redrive_at_most_once_witness:
  "\<exists>res db' m. redrive demo_crypto default_env (\<lambda>t. t) 10 10 1 (Some ''ops'') demo_dl_db = (Inr res, db')
     \<and> redrive demo_crypto default_env (\<lambda>t. t) 20 20 1 (Some ''ops'') db' = (Inl (ThrownError m), db')"
proof -
  have d: "distinct (map dl_id (dead_letter_jobs demo_dl_db))"
    by (simp add: demo_dl_db_def dead_letter_create_def empty_db_def)
  obtain res db' where r: "redrive demo_crypto default_env (\<lambda>t. t) 10 10 1 (Some ''ops'') demo_dl_db = (Inr res, db')"
    by (simp add: redrive_def transaction_def redrive_tx_def demo_dl_db_def dead_letter_create_def empty_db_def
        routable_def replay_guard_def job_name_defs outbox_create_def redrivable_def)
  from redrive_at_most_once [OF r d, of "\<lambda>t. t" 20 20 "Some ''ops''"] r show ?thesis by blast
qed

text \<open>C33. A job whose link or code can no longer be used is never sent again: the re-drive of a
  verification, reset or registration-code email succeeds only while the token it carries exists,
  is unused and has not expired. An attempt that is refused changes nothing.\<close>

theorem redrive_only_usable:
  assumes "find_first (\<lambda>r. dl_id r = rowId) (dead_letter_jobs db) = Some row"
    and "redrive C E W now dbnow rowId operator db = (result, db')"
  shows "(\<forall>e. result = Inl e \<longrightarrow> db' = db)
    \<and> (\<forall>res. result = Inr res \<longrightarrow> dl_jobName row = JOB_VERIFICATION \<longrightarrow>
         (\<exists>t r. json_field ''token'' (dl_payload row) = Some (JStr t)
            \<and> findEmailVerificationToken t db = Some r \<and> now < evt_expiresAt r))
    \<and> (\<forall>res. result = Inr res \<longrightarrow> dl_jobName row = JOB_RESET_PASSWORD \<longrightarrow>
         (\<exists>t r. json_field ''token'' (dl_payload row) = Some (JStr t)
            \<and> findUniqueToken t db = Some r \<and> prt_usedAt r = None \<and> now < prt_expiresAt r))
    \<and> (\<forall>res. result = Inr res \<longrightarrow> dl_jobName row = JOB_OTP_CODE \<longrightarrow>
         (\<exists>email code r. json_field ''email'' (dl_payload row) = Some (JStr email)
            \<and> json_field ''code'' (dl_payload row) = Some (JStr code) \<and> otp_findByEmail email db = Some r
            \<and> otpCodeMatches C (JWT_ACCESS_SECRET E) email code (otp_codeHash r)
            \<and> otp_verifiedAt r = None \<and> otp_consumedAt r = None \<and> now < otp_expiresAt r))"
proof -
  have guard: "replay_guard C E (dl_jobName row) (dl_payload row) now db = None" if "result = Inr res" for res
    using assms that
    by (auto simp: redrive_def transaction_eq_Inr redrive_tx_def Let_def split: option.splits if_splits)
  have rb: "db' = db" if "result = Inl e" for e
    using assms(2) that transaction_rollback by (metis redrive_def)
  show ?thesis
  proof (intro conjI allI impI)
    fix res assume "result = Inr res" "dl_jobName row = JOB_VERIFICATION"
    then show "\<exists>t r. json_field ''token'' (dl_payload row) = Some (JStr t)
            \<and> findEmailVerificationToken t db = Some r \<and> now < evt_expiresAt r"
      using guard by (auto simp: replay_guard_def guard_verification_def tokenOf_def Option.bind_eq_Some_conv
          split: option.splits if_splits json.splits)
  next
    fix res assume "result = Inr res" "dl_jobName row = JOB_RESET_PASSWORD"
    then show "\<exists>t r. json_field ''token'' (dl_payload row) = Some (JStr t)
            \<and> findUniqueToken t db = Some r \<and> prt_usedAt r = None \<and> now < prt_expiresAt r"
      using guard by (auto simp: replay_guard_def guard_reset_def tokenOf_def job_name_defs Option.bind_eq_Some_conv
          split: option.splits if_splits json.splits)
  next
    fix res assume "result = Inr res" "dl_jobName row = JOB_OTP_CODE"
    then show "\<exists>email code r. json_field ''email'' (dl_payload row) = Some (JStr email)
            \<and> json_field ''code'' (dl_payload row) = Some (JStr code) \<and> otp_findByEmail email db = Some r
            \<and> otpCodeMatches C (JWT_ACCESS_SECRET E) email code (otp_codeHash r)
            \<and> otp_verifiedAt r = None \<and> otp_consumedAt r = None \<and> now < otp_expiresAt r"
      using guard by (auto simp: replay_guard_def guard_otp_def Let_def job_name_defs
          split: option.splits if_splits json.splits)
  qed (use rb in simp)
qed

definition demo_dl_link_db :: database where
  "demo_dl_link_db = (dead_letter_create QUEUE_EMAIL JOB_VERIFICATION (Some ''7'')
     (JObj [(''token'', JStr ''t'')]) ''boom'' 3 0 empty_db)\<lparr>email_verification_tokens :=
       [\<lparr>evt_id = ''e1'', evt_token = ''t'', evt_userId = 1, evt_expiresAt = 1000, evt_createdAt = 0\<rparr>]\<rparr>"

theorem redrive_only_usable_witness:
  "\<exists>res db' t r. redrive demo_crypto default_env (\<lambda>t. t) 10 10 1 None demo_dl_link_db = (Inr res, db')
     \<and> findEmailVerificationToken t demo_dl_link_db = Some r \<and> 10 < evt_expiresAt r"
proof -
  let ?row = "hd (dead_letter_jobs demo_dl_link_db)"
  have f: "find_first (\<lambda>r. dl_id r = 1) (dead_letter_jobs demo_dl_link_db) = Some ?row"
    and j: "dl_jobName ?row = JOB_VERIFICATION"
    by (simp_all add: demo_dl_link_db_def dead_letter_create_def empty_db_def)
  obtain res db' where r: "redrive demo_crypto default_env (\<lambda>t. t) 10 10 1 None demo_dl_link_db = (Inr res, db')"
    by (simp add: redrive_def transaction_def redrive_tx_def demo_dl_link_db_def dead_letter_create_def
        empty_db_def routable_def replay_guard_def guard_verification_def tokenOf_def json_field_def
        findEmailVerificationToken_def outbox_create_def redrivable_def)
  from redrive_only_usable [OF f r] j r show ?thesis by blast
qed

end
