(* ===== verification/Refresh_Rotation.thy ===== *)
theory Refresh_Rotation
  imports Auth_Repository
begin

text \<open>
  One refresh-token exchange (\<^verbatim>\<open>src/modules/auth/refresh-rotation.ts\<close>) inside the caller's
  transaction. The statements run under READ COMMITTED: the argument \<open>W\<close> is what other
  transactions commit to the table between the first read and the claim of the presented
  row (the claim waits for a winner's commit), \<open>I\<close> what they commit between the passes of a
  family revocation. \<open>rnd\<close> and \<open>iv\<close> are the random bytes of the successor and of its seal,
  \<open>uuid\<close> the generated key of its row.
\<close>

section \<open>The exchange\<close>

datatype rotation_outcome =
    Issued nat string
  | Invalid
  | Expired
  | Reused nat string

definition MAX_SUCCESSOR_HOPS :: nat where "MAX_SUCCESSOR_HOPS = 5"

fun latest_loop ::
  "crypto \<Rightarrow> env \<Rightarrow> database \<Rightarrow> time \<Rightarrow> nat \<Rightarrow> string \<Rightarrow> refresh_token \<Rightarrow> rotation_outcome" where
  "latest_loop C E db now 0 currentToken current = Invalid"
| "latest_loop C E db now (Suc hops) currentToken current =
     (case (case rt_successorCiphertext current of
              None \<Rightarrow> None
            | Some ct \<Rightarrow> openSuccessor C (JWT_ACCESS_SECRET E) currentToken (rt_token current) ct) of
        None \<Rightarrow> Invalid
      | Some next \<Rightarrow>
          if next = [] then Invalid
          else (case findRefreshToken (hashToken C next) db of
             None \<Rightarrow> Invalid
           | Some row \<Rightarrow>
               if rt_expiresAt row \<le> now then Invalid
               else if rt_rotatedAt row = None then Issued (rt_userId row) next
               else latest_loop C E db now hops next row))"

definition latestSuccessor ::
  "crypto \<Rightarrow> env \<Rightarrow> string \<Rightarrow> refresh_token \<Rightarrow> database \<Rightarrow> time \<Rightarrow> rotation_outcome" where
  "latestSuccessor C E token record db now =
     latest_loop C E db now MAX_SUCCESSOR_HOPS token record"

text \<open>The tail of the exchange for a row already rotated at \<open>rotatedAt\<close>.\<close>

definition exchange_rotated ::
  "crypto \<Rightarrow> env \<Rightarrow> interference \<Rightarrow> string \<Rightarrow> time \<Rightarrow> refresh_token \<Rightarrow> time
     \<Rightarrow> (database, rotation_outcome) tx" where
  "exchange_rotated C E I token now record rotatedAt db =
     (if now - rotatedAt > int (REFRESH_GRACE_SECONDS E) * 1000
      then (case deleteRefreshTokenFamily I (rt_userId record) (rt_familyId record) db of
              Inl e \<Rightarrow> Inl e
            | Inr (n, db') \<Rightarrow> Inr (Reused (rt_userId record) (rt_familyId record), db'))
      else Inr (latestSuccessor C E token record db now, db))"

definition rotateRefreshToken ::
  "crypto \<Rightarrow> env \<Rightarrow> (refresh_token list \<Rightarrow> refresh_token list) \<Rightarrow> interference
     \<Rightarrow> byte list \<Rightarrow> byte list \<Rightarrow> string \<Rightarrow> time \<Rightarrow> string \<Rightarrow> time
     \<Rightarrow> (database, rotation_outcome) tx" where
  "rotateRefreshToken C E W I rnd iv uuid dbnow token now db =
     (let hashedToken = hashToken C token in
      case findRefreshToken hashedToken db of
        None \<Rightarrow> Inr (Invalid, db)
      | Some record \<Rightarrow>
          if rt_expiresAt record \<le> now then Inr (Expired, snd (deleteRefreshToken hashedToken db))
          else (case rt_rotatedAt record of
             Some rotatedAt \<Rightarrow> exchange_rotated C E I token now record rotatedAt db
           | None \<Rightarrow>
               (let successor = generateToken rnd;
                    db1 = db\<lparr>refresh_tokens := W (refresh_tokens db)\<rparr>;
                    (claimed, db2) = markRefreshTokenRotated (rt_id record)
                       (sealSuccessor C (JWT_ACCESS_SECRET E) iv token hashedToken successor) now db1
                in if claimed
                   then (case createRefreshToken uuid (hashToken C successor) (rt_userId record)
                           (rt_familyId record)
                           (now + int (REFRESH_TOKEN_EXPIRES_DAYS E) * 86400000) dbnow db2 of
                           Inl e \<Rightarrow> Inl e
                         | Inr db3 \<Rightarrow> Inr (Issued (rt_userId record) successor, db3))
                   else (case findRefreshToken hashedToken db2 of
                           None \<Rightarrow> Inr (Invalid, db2)
                         | Some record2 \<Rightarrow>
                             (case rt_rotatedAt record2 of
                                None \<Rightarrow> Inr (Invalid, db2)
                              | Some rotatedAt \<Rightarrow>
                                  exchange_rotated C E I token now record2 rotatedAt db2)))))"

section \<open>The invariant of the token table\<close>

definition one_live :: "refresh_token list \<Rightarrow> bool" where
  "one_live t = (\<forall>r \<in> set t. \<forall>q \<in> set t. rt_familyId r = rt_familyId q
     \<longrightarrow> rt_rotatedAt r = None \<longrightarrow> rt_rotatedAt q = None \<longrightarrow> r = q)"

definition sealed_iff_rotated :: "refresh_token list \<Rightarrow> bool" where
  "sealed_iff_rotated t =
     (\<forall>r \<in> set t. rt_rotatedAt r = None \<longleftrightarrow> rt_successorCiphertext r = None)"

definition family_user :: "refresh_token list \<Rightarrow> bool" where
  "family_user t = (\<forall>r \<in> set t. \<forall>q \<in> set t.
     rt_familyId r = rt_familyId q \<longrightarrow> rt_userId r = rt_userId q)"

definition rt_keys :: "refresh_token list \<Rightarrow> bool" where
  "rt_keys t = (distinct (map rt_id t) \<and> distinct (map rt_token t))"

definition rt_inv :: "refresh_token list \<Rightarrow> bool" where
  "rt_inv t = (rt_keys t \<and> one_live t \<and> sealed_iff_rotated t \<and> family_user t)"

lemmas rt_inv_defs = rt_inv_def rt_keys_def one_live_def sealed_iff_rotated_def family_user_def

lemma one_liveD:
  "one_live t \<Longrightarrow> r \<in> set t \<Longrightarrow> q \<in> set t \<Longrightarrow> rt_familyId r = rt_familyId q
     \<Longrightarrow> rt_rotatedAt r = None \<Longrightarrow> rt_rotatedAt q = None \<Longrightarrow> r = q"
  unfolding one_live_def by blast

lemma family_userD:
  "family_user t \<Longrightarrow> r \<in> set t \<Longrightarrow> q \<in> set t \<Longrightarrow> rt_familyId r = rt_familyId q
     \<Longrightarrow> rt_userId r = rt_userId q"
  unfolding family_user_def by blast

text \<open>What other transactions do to a row they do not delete: identity, owner, family and
  expiry stay.\<close>

definition evolves :: "refresh_token list \<Rightarrow> refresh_token list \<Rightarrow> bool" where
  "evolves t t' = (\<forall>r \<in> set t. \<forall>r' \<in> set t'. rt_id r' = rt_id r \<longrightarrow>
     rt_token r' = rt_token r \<and> rt_userId r' = rt_userId r \<and> rt_familyId r' = rt_familyId r
     \<and> rt_expiresAt r' = rt_expiresAt r)"

lemma evolves_refl: "distinct (map rt_id t) \<Longrightarrow> evolves t t"
  by (auto simp: evolves_def distinct_map dest: inj_onD)

lemma rt_inv_Nil [simp]: "rt_inv []"
  by (simp add: rt_inv_defs)

lemma rt_inv_subset:
  assumes "rt_inv t" and "set t' \<subseteq> set t" and "distinct (map rt_id t')" and "distinct (map rt_token t')"
  shows "rt_inv t'"
  using assms unfolding rt_inv_defs by (meson subsetD)

lemma rt_inv_delete_where: "rt_inv t \<Longrightarrow> rt_inv (delete_where P t)"
  by (rule rt_inv_subset) (auto simp: rt_inv_def rt_keys_def)

lemma findRefreshToken_SomeD:
  "findRefreshToken h db = Some r \<Longrightarrow> r \<in> set (refresh_tokens db) \<and> rt_token r = h"
  unfolding findRefreshToken_def by (drule find_first_SomeD) simp

lemma find_token:
  assumes "distinct (map rt_token (refresh_tokens db))" and "r \<in> set (refresh_tokens db)"
  shows "findRefreshToken (rt_token r) db = Some r"
  using find_first_unique [OF assms] by (simp add: findRefreshToken_def)

section \<open>The claim and the new row\<close>

definition claim_row :: "byte list \<Rightarrow> time \<Rightarrow> refresh_token \<Rightarrow> refresh_token" where
  "claim_row ct now r = r\<lparr>rt_rotatedAt := Some now, rt_successorCiphertext := Some ct\<rparr>"

definition claim_table :: "string \<Rightarrow> byte list \<Rightarrow> time \<Rightarrow> refresh_token list \<Rightarrow> refresh_token list" where
  "claim_table rowId ct now t = update_where (claimable rowId) (claim_row ct now) t"

definition fresh_row :: "string \<Rightarrow> string \<Rightarrow> refresh_token \<Rightarrow> time \<Rightarrow> time \<Rightarrow> refresh_token" where
  "fresh_row uuid h r expiresAt dbnow = \<lparr>rt_id = uuid, rt_token = h, rt_userId = rt_userId r,
     rt_familyId = rt_familyId r, rt_expiresAt = expiresAt, rt_createdAt = dbnow,
     rt_rotatedAt = None, rt_successorCiphertext = None\<rparr>"

lemma markRotated_eq:
  "markRefreshTokenRotated rowId ct now db =
     (count_where (claimable rowId) (refresh_tokens db) = 1,
      db\<lparr>refresh_tokens := claim_table rowId ct now (refresh_tokens db)\<rparr>)"
  by (simp add: markRefreshTokenRotated_def claim_table_def claim_row_def [abs_def])

lemma claim_row_simps [simp]:
  "rt_id (claim_row ct now r) = rt_id r" "rt_token (claim_row ct now r) = rt_token r"
  "rt_userId (claim_row ct now r) = rt_userId r" "rt_familyId (claim_row ct now r) = rt_familyId r"
  "rt_expiresAt (claim_row ct now r) = rt_expiresAt r"
  "rt_rotatedAt (claim_row ct now r) = Some now"
  "rt_successorCiphertext (claim_row ct now r) = Some ct"
  by (simp_all add: claim_row_def)

lemma fresh_row_simps [simp]:
  "rt_id (fresh_row uuid h r x d) = uuid" "rt_token (fresh_row uuid h r x d) = h"
  "rt_userId (fresh_row uuid h r x d) = rt_userId r"
  "rt_familyId (fresh_row uuid h r x d) = rt_familyId r"
  "rt_expiresAt (fresh_row uuid h r x d) = x" "rt_rotatedAt (fresh_row uuid h r x d) = None"
  "rt_successorCiphertext (fresh_row uuid h r x d) = None"
  by (simp_all add: fresh_row_def)

lemma claim_table_keys [simp]:
  "map rt_id (claim_table rowId ct now t) = map rt_id t"
  "map rt_token (claim_table rowId ct now t) = map rt_token t"
  by (simp_all add: claim_table_def map_update_where)

lemma claim_table_mem:
  "r' \<in> set (claim_table rowId ct now t) \<Longrightarrow>
     \<exists>r \<in> set t. r' = (if claimable rowId r then claim_row ct now r else r)"
  by (auto simp: claim_table_def set_update_where)

lemma live_claim_table:
  "r' \<in> set (claim_table rowId ct now t) \<Longrightarrow> rt_rotatedAt r' = None \<Longrightarrow> r' \<in> set t"
  by (auto dest!: claim_table_mem split: if_splits)

lemma claim_table_not_claimable:
  "q \<in> set (claim_table rowId ct now t) \<Longrightarrow> \<not> claimable rowId q"
  by (auto simp: claimable_def dest!: claim_table_mem split: if_splits)

lemma one_live_claim: "one_live t \<Longrightarrow> one_live (claim_table rowId ct now t)"
  unfolding one_live_def by (meson live_claim_table)

lemma sealed_claim: "sealed_iff_rotated t \<Longrightarrow> sealed_iff_rotated (claim_table rowId ct now t)"
  unfolding sealed_iff_rotated_def
  by (intro ballI, drule claim_table_mem) (auto split: if_splits)

lemma claim_table_owner:
  "r' \<in> set (claim_table rowId ct now t) \<Longrightarrow>
     \<exists>r \<in> set t. rt_familyId r = rt_familyId r' \<and> rt_userId r = rt_userId r'"
  by (drule claim_table_mem) auto

lemma family_user_claim: "family_user t \<Longrightarrow> family_user (claim_table rowId ct now t)"
  unfolding family_user_def by (metis claim_table_owner)

lemma rt_inv_claim: "rt_inv t \<Longrightarrow> rt_inv (claim_table rowId ct now t)"
  by (simp add: rt_inv_def rt_keys_def one_live_claim sealed_claim family_user_claim)

text \<open>Appending the successor of a row whose family has no live row keeps the invariant.\<close>

lemma rt_inv_append:
  assumes "rt_inv t" and "uuid \<notin> rt_id ` set t" and "h \<notin> rt_token ` set t"
    and "\<And>q. q \<in> set t \<Longrightarrow> rt_familyId q = rt_familyId r \<Longrightarrow> rt_rotatedAt q \<noteq> None \<and> rt_userId q = rt_userId r"
  shows "rt_inv (t @ [fresh_row uuid h r x d])"
proof -
  have "one_live t" "sealed_iff_rotated t" "family_user t" "rt_keys t"
    using assms(1) by (simp_all add: rt_inv_def)
  let ?n = "fresh_row uuid h r x d"
  have dead: "rt_rotatedAt q \<noteq> None" "rt_userId q = rt_userId ?n"
    if "q \<in> set t" "rt_familyId q = rt_familyId ?n" for q
    using assms(4) [OF that(1)] that(2) by simp_all
  have "one_live (t @ [?n])"
    unfolding one_live_def
  proof (rule ball_pairs_append)
    show "\<forall>a \<in> set t. \<forall>b \<in> set t. rt_familyId a = rt_familyId b \<longrightarrow> rt_rotatedAt a = None
        \<longrightarrow> rt_rotatedAt b = None \<longrightarrow> a = b"
      using \<open>one_live t\<close> by (simp only: one_live_def)
  qed (use dead(1) [OF _ sym] dead(1) in \<open>blast+\<close>)
  moreover have "sealed_iff_rotated (t @ [fresh_row uuid h r x d])"
    using \<open>sealed_iff_rotated t\<close> by (auto simp: sealed_iff_rotated_def)
  moreover have "family_user (t @ [fresh_row uuid h r x d])"
    unfolding family_user_def
  proof (rule ball_pairs_append)
    show "\<forall>a \<in> set t. \<forall>b \<in> set t. rt_familyId a = rt_familyId b \<longrightarrow> rt_userId a = rt_userId b"
      using \<open>family_user t\<close> by (simp only: family_user_def)
  qed (use dead(2) dead(2) [OF _ sym, THEN sym] in \<open>blast+\<close>)
  moreover have "rt_keys (t @ [fresh_row uuid h r x d])"
    using \<open>rt_keys t\<close> assms(2,3) by (auto simp: rt_keys_def)
  ultimately show ?thesis by (simp add: rt_inv_def)
qed

lemma createRefreshToken_Inr:
  assumes "createRefreshToken uuid h (rt_userId r) (rt_familyId r) x d db = Inr db'"
  shows "uuid \<notin> rt_id ` set (refresh_tokens db) \<and> h \<notin> rt_token ` set (refresh_tokens db)
    \<and> db' = db\<lparr>refresh_tokens := refresh_tokens db @ [fresh_row uuid h r x d]\<rparr>"
  using assms by (auto simp: createRefreshToken_def fresh_row_def split: if_splits)

lemma claimed_row: "count_where (claimable i) t = 1 \<Longrightarrow> \<exists>r \<in> set t. claimable i r"
proof (rule ccontr)
  assume one: "count_where (claimable i) t = 1" and none: "\<not> (\<exists>r \<in> set t. claimable i r)"
  from none have "\<forall>r \<in> set t. \<not> claimable i r" by blast
  then have "count_where (claimable i) t = 0" by (simp only: count_where_0_iff)
  with one show False by simp
qed

lemma family_dead_after_claim:
  assumes "rt_inv t" and "r \<in> set t" and "claimable i r" and q: "q \<in> set (claim_table i ct now t)"
    and fam: "rt_familyId q = rt_familyId r"
  shows "rt_rotatedAt q \<noteq> None \<and> rt_userId q = rt_userId r"
proof
  obtain p where p: "p \<in> set t" "q = (if claimable i p then claim_row ct now p else p)"
    using claim_table_mem [OF q] by blast
  have fp: "rt_familyId p = rt_familyId r" "rt_userId q = rt_userId p"
    using p(2) fam by (auto split: if_splits)
  show "rt_userId q = rt_userId r"
    using family_userD [OF _ p(1) assms(2) fp(1)] assms(1) fp(2) by (simp add: rt_inv_def)
  show "rt_rotatedAt q \<noteq> None"
  proof
    assume live: "rt_rotatedAt q = None"
    then have "\<not> claimable i p" "q = p" using p(2) by (auto split: if_splits)
    moreover have "rt_rotatedAt r = None" using assms(3) by (simp add: claimable_def)
    ultimately have "p = r"
      using one_liveD [OF _ p(1) assms(2) fp(1)] assms(1) live by (simp add: rt_inv_def)
    with \<open>\<not> claimable i p\<close> assms(3) show False by simp
  qed
qed

section \<open>Every exchange keeps the invariant\<close>

lemma revoke_loop_preserves:
  assumes "revoke_loop I P left pass removed t = Some (n, t')" and "Q t"
    and "\<And>p t. Q t \<Longrightarrow> Q (I p t)" and "\<And>t. Q t \<Longrightarrow> Q (delete_where P t)"
  shows "Q t'"
  using assms(1,2)
  by (induction left arbitrary: pass removed t)
    (auto simp: Let_def assms(3,4) split: if_splits)

lemma revokeRefreshTokens_preserves:
  assumes "revokeRefreshTokens I P db = Inr (n, db')" and "rt_inv (refresh_tokens db)"
    and "\<And>p t. rt_inv t \<Longrightarrow> rt_inv (I p t)"
  shows "rt_inv (refresh_tokens db')"
proof -
  obtain m t where "revoke_loop I P MAX_REVOCATION_PASSES 0 0 (refresh_tokens db) = Some (m, t)"
      and "refresh_tokens db' = t"
    using assms(1) by (auto simp: revokeRefreshTokens_def split: option.splits)
  then show ?thesis
    using revoke_loop_preserves [where Q = rt_inv] assms(2,3) rt_inv_delete_where by blast
qed

lemma exchange_rotated_inv:
  assumes "exchange_rotated C E I token now r ra db = Inr (out, db')" and "rt_inv (refresh_tokens db)"
    and "\<And>p t. rt_inv t \<Longrightarrow> rt_inv (I p t)"
  shows "rt_inv (refresh_tokens db')"
  using assms revokeRefreshTokens_preserves [OF _ assms(2,3)]
  by (auto simp: exchange_rotated_def deleteRefreshTokenFamily_def split: if_splits sum.splits)

lemma claim_and_create_inv:
  assumes "rt_inv t" and "count_where (claimable (rt_id r)) t = 1"
    and same: "\<And>q. q \<in> set t \<Longrightarrow> rt_id q = rt_id r
      \<Longrightarrow> rt_familyId q = rt_familyId r \<and> rt_userId q = rt_userId r"
    and "uuid \<notin> rt_id ` set (claim_table (rt_id r) ct now t)"
    and "h \<notin> rt_token ` set (claim_table (rt_id r) ct now t)"
  shows "rt_inv (claim_table (rt_id r) ct now t @ [fresh_row uuid h r x d])"
proof (rule rt_inv_append [OF rt_inv_claim [OF assms(1)] assms(4,5)])
  fix q assume q: "q \<in> set (claim_table (rt_id r) ct now t)" "rt_familyId q = rt_familyId r"
  obtain p where p: "p \<in> set t" "claimable (rt_id r) p" using claimed_row [OF assms(2)] by blast
  then have pr: "rt_familyId p = rt_familyId r" "rt_userId p = rt_userId r"
    using same [of p] by (auto simp: claimable_def)
  have "rt_familyId q = rt_familyId p" using q(2) pr(1) by simp
  from family_dead_after_claim [OF assms(1) p q(1) this]
  show "rt_rotatedAt q \<noteq> None \<and> rt_userId q = rt_userId r" using pr(2) by simp
qed

text \<open>C2. Whatever a refresh request presents and however it ends, the token table keeps its
  invariant: unique keys, at most one unrotated token per family, a sealed successor exactly on
  the rotated tokens, one owner per family. The hypotheses say that the other transactions whose
  commits become visible between the statements keep it too.\<close>

theorem rotate_preserves_inv:
  assumes "rt_inv (refresh_tokens db)" and "rt_inv (W (refresh_tokens db))"
    and "evolves (refresh_tokens db) (W (refresh_tokens db))"
    and "\<And>p t. rt_inv t \<Longrightarrow> rt_inv (I p t)"
    and "rotateRefreshToken C E W I rnd iv uuid dbnow token now db = Inr (out, db')"
  shows "rt_inv (refresh_tokens db')"
proof (cases "findRefreshToken (hashToken C token) db")
  case None
  with assms(1,5) show ?thesis by (simp add: rotateRefreshToken_def Let_def)
next
  case (Some r)
  let ?ct = "sealSuccessor C (JWT_ACCESS_SECRET E) iv token (hashToken C token) (generateToken rnd)"
  let ?t = "W (refresh_tokens db)" and ?db1 = "db\<lparr>refresh_tokens := claim_table (rt_id r)
    ?ct now (W (refresh_tokens db))\<rparr>"
  note run = assms(5) [unfolded rotateRefreshToken_def Let_def markRotated_eq Some option.case]
  have r: "r \<in> set (refresh_tokens db)" using findRefreshToken_SomeD [OF Some] by simp
  have inv1: "rt_inv (refresh_tokens ?db1)" using rt_inv_claim [OF assms(2)] by simp
  consider (expired) "rt_expiresAt r \<le> now"
    | (rotated) ra where "\<not> rt_expiresAt r \<le> now" "rt_rotatedAt r = Some ra"
    | (claim) "\<not> rt_expiresAt r \<le> now" "rt_rotatedAt r = None" "count_where (claimable (rt_id r)) ?t = 1"
    | (lost) "\<not> rt_expiresAt r \<le> now" "rt_rotatedAt r = None" "count_where (claimable (rt_id r)) ?t \<noteq> 1"
    by fastforce
  then show ?thesis
  proof cases
    case expired
    with run rt_inv_delete_where [OF assms(1)] show ?thesis by (auto simp: deleteRefreshToken_def)
  next
    case rotated
    with run exchange_rotated_inv [OF _ assms(1,4)] show ?thesis by simp
  next
    case claim
    with run createRefreshToken_Inr claim_and_create_inv [OF assms(2) claim(3)] assms(3) r
    show ?thesis by (fastforce simp: evolves_def split: sum.splits)
  next
    case lost
    with run inv1 exchange_rotated_inv [OF _ inv1 assms(4)] show ?thesis
      by (auto split: option.splits)
  qed
qed

text \<open>A family with one live token, held by user 1, for the witnesses.\<close>

definition demo_live :: refresh_token where
  "demo_live = \<lparr>rt_id = ''r1'', rt_token = ''hold'', rt_userId = 1, rt_familyId = ''f1'',
     rt_expiresAt = 604800000, rt_createdAt = 0, rt_rotatedAt = None, rt_successorCiphertext = None\<rparr>"

definition demo_user :: user where
  "demo_user = \<lparr>user_id = 1, user_name = Some ''Ann'', user_slug = Some ''ann'',
     user_email = Some ''ann@x.io'', user_password = Some ''$pw'', user_avatar = None,
     user_roleId = None, user_isEmailVerified = True, user_createdAt = 0, user_updatedAt = 0,
     user_deletedAt = None\<rparr>"

definition demo_token_db :: database where
  "demo_token_db = empty_db\<lparr>users := [demo_user], users_seq := 2, refresh_tokens := [demo_live]\<rparr>"

lemmas demo_token_defs = demo_token_db_def demo_live_def demo_user_def empty_db_def

lemma demo_hash: "hashToken demo_crypto s = ''h'' @ s"
  by (simp add: hashToken_def demo_crypto_def)

lemma demo_token_inv: "rt_inv (refresh_tokens demo_token_db)"
  by (simp add: demo_token_defs rt_inv_defs)

lemma demo_find: "findRefreshToken (hashToken demo_crypto ''old'') demo_token_db = Some demo_live"
  by (simp add: demo_hash findRefreshToken_def demo_token_defs)

section \<open>The steps of a claim\<close>

lemma rotate_claimed:
  assumes "findRefreshToken (hashToken C token) db = Some r" and "now < rt_expiresAt r"
    and "rt_rotatedAt r = None" and "distinct (map rt_id (refresh_tokens db))"
  shows "rotateRefreshToken C E (\<lambda>t. t) I rnd iv uuid dbnow token now db =
    (case createRefreshToken uuid (hashToken C (generateToken rnd)) (rt_userId r) (rt_familyId r)
       (now + int (REFRESH_TOKEN_EXPIRES_DAYS E) * 86400000) dbnow
       (db\<lparr>refresh_tokens := claim_table (rt_id r) (sealSuccessor C (JWT_ACCESS_SECRET E) iv token
          (hashToken C token) (generateToken rnd)) now (refresh_tokens db)\<rparr>) of
       Inl e \<Rightarrow> Inl e | Inr db3 \<Rightarrow> Inr (Issued (rt_userId r) (generateToken rnd), db3))"
proof -
  have r: "r \<in> set (refresh_tokens db)" "claimable (rt_id r) r"
    using findRefreshToken_SomeD [OF assms(1)] assms(3) by (auto simp: claimable_def)
  have "count_where (claimable (rt_id r)) (refresh_tokens db) \<le> 1"
    unfolding claimable_def [abs_def] by (rule count_where_unique [OF assms(4)])
  moreover have "count_where (claimable (rt_id r)) (refresh_tokens db) \<noteq> 0"
    using r by (simp only: count_where_0_iff) blast
  ultimately have "count_where (claimable (rt_id r)) (refresh_tokens db) = 1" by linarith
  with assms show ?thesis by (simp add: rotateRefreshToken_def Let_def markRotated_eq)
qed

lemma find_claimed:
  assumes "findRefreshToken h db = Some r" and "rt_rotatedAt r = None"
  shows "find_first (\<lambda>x. rt_token x = h) (claim_table (rt_id r) ct now (refresh_tokens db))
    = Some (claim_row ct now r)"
  using assms unfolding claim_table_def
  by (subst find_first_update_where) (simp_all add: findRefreshToken_def claimable_def)

lemma claimed_state:
  assumes "findRefreshToken (hashToken C token) db = Some r" and "now < rt_expiresAt r"
    and "rt_rotatedAt r = None" and "distinct (map rt_id (refresh_tokens db))"
    and "rotateRefreshToken C E (\<lambda>t. t) I rnd iv uuid dbnow token now db = Inr (out, db')"
  defines "s \<equiv> generateToken rnd"
  defines "ct \<equiv> sealSuccessor C (JWT_ACCESS_SECRET E) iv token (hashToken C token) s"
  defines "x \<equiv> now + int (REFRESH_TOKEN_EXPIRES_DAYS E) * 86400000"
  shows "out = Issued (rt_userId r) s
    \<and> refresh_tokens db' = claim_table (rt_id r) ct now (refresh_tokens db)
        @ [fresh_row uuid (hashToken C s) r x dbnow]
    \<and> (\<forall>q \<in> set (refresh_tokens db'). \<not> claimable (rt_id r) q)
    \<and> findRefreshToken (hashToken C token) db' = Some (claim_row ct now r)
    \<and> findRefreshToken (hashToken C s) db' = Some (fresh_row uuid (hashToken C s) r x dbnow)
    \<and> db' = db\<lparr>refresh_tokens := refresh_tokens db'\<rparr>"
proof -
  let ?t = "claim_table (rt_id r) ct now (refresh_tokens db)"
  let ?n = "fresh_row uuid (hashToken C s) r x dbnow"
  have "createRefreshToken uuid (hashToken C s) (rt_userId r) (rt_familyId r) x dbnow
      (db\<lparr>refresh_tokens := ?t\<rparr>) = Inr db'" and out: "out = Issued (rt_userId r) s"
    using assms(5) unfolding rotate_claimed [OF assms(1-4)] s_def ct_def x_def
    by (auto split: sum.splits)
  from createRefreshToken_Inr [OF this(1)]
  have new: "hashToken C s \<notin> rt_token ` set ?t" "uuid \<notin> rt_id ` set ?t"
    and db': "db' = db\<lparr>refresh_tokens := ?t @ [?n]\<rparr>" by simp_all
  have "rt_id r \<in> rt_id ` set ?t"
    using findRefreshToken_SomeD [OF assms(1)] claim_table_keys(1) by (metis image_eqI list.set_map)
  then have gone: "\<forall>q \<in> set (?t @ [?n]). \<not> claimable (rt_id r) q"
    using new(2) claim_table_not_claimable by (auto simp: claimable_def)
  have "find_first (\<lambda>x. rt_token x = hashToken C s) ?t = None"
    using new(1) by (simp only: find_first_None_iff) (metis image_eqI)
  then show ?thesis
    using out db' gone find_claimed [OF assms(1,3)]
    by (simp add: findRefreshToken_def find_first_append)
qed

text \<open>A request that presents the predecessor within the grace window reads the same successor
  out of the claimed row.\<close>

lemma exchange_after_claim:
  assumes "gcm_correct C" and "length iv = IV_BYTES" and "random64_ok rnd"
  defines "s \<equiv> generateToken rnd"
  assumes "findRefreshToken (hashToken C s) db = Some n" and "now2 < rt_expiresAt n"
    and "rt_rotatedAt n = None" and "now2 - now \<le> int (REFRESH_GRACE_SECONDS E) * 1000"
    and "rt_token r = hashToken C token"
  shows "exchange_rotated C E I token now2 (claim_row
      (sealSuccessor C (JWT_ACCESS_SECRET E) iv token (hashToken C token) s) now r) now db
    = Inr (Issued (rt_userId n) s, db)"
proof -
  have hex: "hex_string s" "s \<noteq> []"
    using assms(3) generateToken_hex generateToken_nonempty by (auto simp: s_def random64_ok_def)
  show ?thesis
    using assms(5-9) open_seal [OF assms(1,2) hex] hex(2)
    by (simp add: exchange_rotated_def latestSuccessor_def MAX_SUCCESSOR_HOPS_def eval_nat_numeral)
qed

text \<open>C1. Two requests that present the same live token get one and the same successor: the
  second one, whether it comes later within the grace window or has already read the live row
  and then loses the claim to the first, is answered with the successor the first one issued,
  and adds nothing to the table.\<close>

theorem rotation_converges:
  assumes "gcm_correct C" and "length iv = IV_BYTES" and "random64_ok rnd"
    and "rt_inv (refresh_tokens db)"
    and "findRefreshToken (hashToken C token) db = Some r" and "rt_rotatedAt r = None"
    and "now < rt_expiresAt r" and "now2 < rt_expiresAt r"
    and "now2 - now \<le> int (REFRESH_GRACE_SECONDS E) * 1000"
    and "now2 - now < int (REFRESH_TOKEN_EXPIRES_DAYS E) * 86400000"
    and "rotateRefreshToken C E (\<lambda>t. t) I rnd iv uuid dbnow token now db = Inr (out, db')"
  shows "out = Issued (rt_userId r) (generateToken rnd)
    \<and> rotateRefreshToken C E W I' rnd' iv' uuid' dbnow' token now2 db' = Inr (out, db')
    \<and> rotateRefreshToken C E (\<lambda>_. refresh_tokens db') I' rnd' iv' uuid' dbnow' token now2 db
        = Inr (out, db')"
proof -
  let ?s = "generateToken rnd"
  let ?ct = "sealSuccessor C (JWT_ACCESS_SECRET E) iv token (hashToken C token) ?s"
  let ?x = "now + int (REFRESH_TOKEN_EXPIRES_DAYS E) * 86400000"
  let ?n = "fresh_row uuid (hashToken C ?s) r ?x dbnow"
  have ids: "distinct (map rt_id (refresh_tokens db))" using assms(4) by (simp add: rt_inv_def rt_keys_def)
  note st = claimed_state [OF assms(5,7,6) ids assms(11)]
  have tok: "rt_token r = hashToken C token" using findRefreshToken_SomeD [OF assms(5)] by simp
  have old: "findRefreshToken (hashToken C token) db' = Some (claim_row ?ct now r)" using st by blast
  have new: "findRefreshToken (hashToken C ?s) db' = Some ?n" using st by blast
  have ex: "exchange_rotated C E I' token now2 (claim_row ?ct now r) now db'
      = Inr (Issued (rt_userId r) ?s, db')"
    using exchange_after_claim [OF assms(1-3) new _ _ assms(9) tok] assms(10) by simp
  have out: "out = Issued (rt_userId r) ?s" using st by blast
  have later: "rotateRefreshToken C E W I' rnd' iv' uuid' dbnow' token now2 db' = Inr (out, db')"
    using old ex assms(8) out by (simp add: rotateRefreshToken_def Let_def)
  have dbe: "db\<lparr>refresh_tokens := refresh_tokens db'\<rparr> = db'" using st by metis
  have gone: "\<forall>q \<in> set (refresh_tokens db'). \<not> claimable (rt_id r) q" using st by blast
  then have "claim_table (rt_id r) c m (refresh_tokens db') = refresh_tokens db'" for c m
    by (simp add: claim_table_def)
  moreover have "count_where (claimable (rt_id r)) (refresh_tokens db') = 0"
    using gone by (simp only: count_where_0_iff)
  ultimately have "rotateRefreshToken C E (\<lambda>_. refresh_tokens db') I' rnd' iv' uuid' dbnow' token now2 db
        = Inr (out, db')"
    using assms(5,6,8) old ex out dbe
    by (simp add: rotateRefreshToken_def Let_def markRotated_eq)
  with later out show ?thesis by blast
qed

definition demo_random :: "byte list" where "demo_random = replicate 64 200"
definition demo_iv :: "byte list" where "demo_iv = replicate 12 7"

lemma demo_random_ok: "random64_ok demo_random" "length demo_iv = IV_BYTES"
  by (simp_all add: demo_random_def demo_iv_def random64_ok_def bytes_ok_def list_all_iff IV_BYTES_def)

lemma demo_successor_fresh: "generateToken demo_random \<noteq> ''old''"
proof
  assume "generateToken demo_random = ''old''"
  then have "length (generateToken demo_random) = length ''old''" by (rule arg_cong)
  then show False by (simp add: generateToken_def demo_random_def)
qed

lemma demo_rotation:
  "\<exists>db'. rotateRefreshToken demo_crypto default_env (\<lambda>t. t) quiet demo_random demo_iv ''r2'' 1000
     ''old'' 1000 demo_token_db = Inr (Issued 1 (generateToken demo_random), db')"
proof -
  have live: "1000 < rt_expiresAt demo_live" "rt_rotatedAt demo_live = None"
    "distinct (map rt_id (refresh_tokens demo_token_db))" by (simp_all add: demo_token_defs)
  show ?thesis
    unfolding rotate_claimed [OF demo_find live] createRefreshToken_def
    using demo_successor_fresh
    by (simp add: demo_hash demo_token_defs claim_table_def update_where_def claimable_def claim_row_def)
qed

theorem rotate_preserves_inv_witness:
  "\<exists>out db'. rotateRefreshToken demo_crypto default_env (\<lambda>t. t) quiet demo_random demo_iv ''r2'' 1000
     ''old'' 1000 demo_token_db = Inr (out, db') \<and> rt_inv (refresh_tokens db')"
proof -
  obtain db' where run: "rotateRefreshToken demo_crypto default_env (\<lambda>t. t) quiet demo_random demo_iv
    ''r2'' 1000 ''old'' 1000 demo_token_db = Inr (Issued 1 (generateToken demo_random), db')"
    using demo_rotation by blast
  have "evolves (refresh_tokens demo_token_db) (refresh_tokens demo_token_db)"
    by (rule evolves_refl) (simp add: demo_token_defs)
  from rotate_preserves_inv [OF demo_token_inv demo_token_inv this _ run] run
  show ?thesis by auto
qed

theorem rotation_converges_witness:
  "\<exists>out db'. rotateRefreshToken demo_crypto default_env (\<lambda>t. t) quiet demo_random demo_iv ''r2'' 1000
      ''old'' 1000 demo_token_db = Inr (out, db')
    \<and> out = Issued 1 (generateToken demo_random)
    \<and> rotateRefreshToken demo_crypto default_env (\<lambda>_. refresh_tokens db') quiet [] [] ''r3'' 2000
        ''old'' 2000 demo_token_db = Inr (out, db')"
proof -
  obtain db' where run: "rotateRefreshToken demo_crypto default_env (\<lambda>t. t) quiet demo_random demo_iv
    ''r2'' 1000 ''old'' 1000 demo_token_db = Inr (Issued 1 (generateToken demo_random), db')"
    using demo_rotation by blast
  have live: "rt_rotatedAt demo_live = None" "1000 < rt_expiresAt demo_live"
    "2000 < rt_expiresAt demo_live" "rt_userId demo_live = 1" by (simp_all add: demo_token_defs)
  have grace: "2000 - 1000 \<le> int (REFRESH_GRACE_SECONDS default_env) * 1000"
    "2000 - 1000 < int (REFRESH_TOKEN_EXPIRES_DAYS default_env) * 86400000"
    by (simp_all add: default_env_def)
  from rotation_converges [OF demo_gcm_correct demo_random_ok(2,1) demo_token_inv demo_find live(1-3)
      grace run, of undefined quiet "[]" "[]" "''r3''" 2000] run
  show ?thesis by blast
qed

section \<open>What an issued token is\<close>

lemma latest_loop_issued:
  "latest_loop C E db now hops tok r = Issued u s \<Longrightarrow>
     \<exists>n. findRefreshToken (hashToken C s) db = Some n \<and> now < rt_expiresAt n
       \<and> rt_rotatedAt n = None \<and> rt_userId n = u"
  by (induction hops arbitrary: tok r) (auto split: option.splits if_splits)

lemma exchange_rotated_issued:
  assumes "exchange_rotated C E I token now r ra db = Inr (Issued u s, db')"
  shows "db' = db \<and> (\<exists>n. findRefreshToken (hashToken C s) db = Some n \<and> now < rt_expiresAt n
    \<and> rt_rotatedAt n = None \<and> rt_userId n = u)"
  using assms latest_loop_issued
  by (auto simp: exchange_rotated_def latestSuccessor_def split: if_splits sum.splits)

text \<open>A token that a refresh hands out is usable: its row is in the table the transaction
  leaves, unexpired, unrotated and owned by the user the access token is then signed for.\<close>

theorem issued_token_usable:
  assumes "0 < REFRESH_TOKEN_EXPIRES_DAYS E"
    and "rotateRefreshToken C E W I rnd iv uuid dbnow token now db = Inr (Issued u s, db')"
  shows "\<exists>n. findRefreshToken (hashToken C s) db' = Some n \<and> now < rt_expiresAt n
    \<and> rt_rotatedAt n = None \<and> rt_userId n = u"
proof (cases "findRefreshToken (hashToken C token) db")
  case None
  with assms(2) show ?thesis by (simp add: rotateRefreshToken_def Let_def)
next
  case (Some r)
  let ?ct = "sealSuccessor C (JWT_ACCESS_SECRET E) iv token (hashToken C token) (generateToken rnd)"
  let ?x = "now + int (REFRESH_TOKEN_EXPIRES_DAYS E) * 86400000"
  let ?db1 = "db\<lparr>refresh_tokens := claim_table (rt_id r) ?ct now (W (refresh_tokens db))\<rparr>"
  note run = assms(2) [unfolded rotateRefreshToken_def Let_def markRotated_eq Some option.case]
  show ?thesis
  proof (cases "rt_rotatedAt r = None \<and> \<not> rt_expiresAt r \<le> now
      \<and> count_where (claimable (rt_id r)) (W (refresh_tokens db)) = 1")
    case True
    then have c: "createRefreshToken uuid (hashToken C (generateToken rnd)) (rt_userId r)
        (rt_familyId r) ?x dbnow ?db1 = Inr db'" and s: "s = generateToken rnd" "u = rt_userId r"
      using run by (auto split: sum.splits)
    from createRefreshToken_Inr [OF c] s
    have new: "hashToken C s \<notin> rt_token ` set (refresh_tokens ?db1)"
      and db': "refresh_tokens db' = refresh_tokens ?db1 @ [fresh_row uuid (hashToken C s) r ?x dbnow]"
      by simp_all
    have "find_first (\<lambda>x. rt_token x = hashToken C s) (refresh_tokens ?db1) = None"
      using new by (simp only: find_first_None_iff) (metis image_eqI)
    with db' s assms(1) show ?thesis by (simp add: findRefreshToken_def find_first_append)
  next
    case False
    with run exchange_rotated_issued show ?thesis
      by (fastforce split: option.splits if_splits)
  qed
qed

theorem issued_token_usable_witness:
  "\<exists>db' n. rotateRefreshToken demo_crypto default_env (\<lambda>t. t) quiet demo_random demo_iv ''r2'' 1000
     ''old'' 1000 demo_token_db = Inr (Issued 1 (generateToken demo_random), db')
   \<and> findRefreshToken (hashToken demo_crypto (generateToken demo_random)) db' = Some n
   \<and> 1000 < rt_expiresAt n \<and> rt_rotatedAt n = None \<and> rt_userId n = 1"
proof -
  obtain db' where run: "rotateRefreshToken demo_crypto default_env (\<lambda>t. t) quiet demo_random demo_iv
    ''r2'' 1000 ''old'' 1000 demo_token_db = Inr (Issued 1 (generateToken demo_random), db')"
    using demo_rotation by blast
  have "0 < REFRESH_TOKEN_EXPIRES_DAYS default_env" by (simp add: default_env_def)
  from issued_token_usable [OF this run] run show ?thesis by blast
qed

section \<open>Reuse and expiry\<close>

text \<open>C3. Presenting a rotated, unexpired token after the grace window revokes exactly its family:
  no row of the family is left and every other row is, and from then on every token of the
  family is refused without any further change.\<close>

theorem reuse_revokes_family:
  assumes "findRefreshToken (hashToken C token) db = Some r" and "now < rt_expiresAt r"
    and "rt_rotatedAt r = Some ra" and "int (REFRESH_GRACE_SECONDS E) * 1000 < now - ra"
    and "distinct (map rt_token (refresh_tokens db))"
  defines "db' \<equiv> db\<lparr>refresh_tokens :=
    delete_where (in_family (rt_userId r) (rt_familyId r)) (refresh_tokens db)\<rparr>"
  shows "rotateRefreshToken C E W quiet rnd iv uuid dbnow token now db
      = Inr (Reused (rt_userId r) (rt_familyId r), db')
    \<and> (\<forall>q. q \<in> set (refresh_tokens db') \<longleftrightarrow>
         q \<in> set (refresh_tokens db) \<and> \<not> in_family (rt_userId r) (rt_familyId r) q)
    \<and> (\<forall>tok q. findRefreshToken (hashToken C tok) db = Some q
         \<longrightarrow> in_family (rt_userId r) (rt_familyId r) q
         \<longrightarrow> rotateRefreshToken C E W' I' rnd' iv' uuid' dbnow' tok now2 db' = Inr (Invalid, db'))"
proof (intro conjI allI impI)
  show "rotateRefreshToken C E W quiet rnd iv uuid dbnow token now db
      = Inr (Reused (rt_userId r) (rt_familyId r), db')"
    using assms(1-4) by (simp add: rotateRefreshToken_def Let_def exchange_rotated_def
        deleteRefreshTokenFamily_def revokeRefreshTokens_quiet db'_def)
  show "q \<in> set (refresh_tokens db') \<longleftrightarrow>
      q \<in> set (refresh_tokens db) \<and> \<not> in_family (rt_userId r) (rt_familyId r) q" for q
    by (simp add: db'_def)
next
  fix tok q
  assume q: "findRefreshToken (hashToken C tok) db = Some q" "in_family (rt_userId r) (rt_familyId r) q"
  have "in_family (rt_userId r) (rt_familyId r) p"
    if "p \<in> set (refresh_tokens db)" "rt_token p = hashToken C tok" for p
    using find_token [OF assms(5) that(1)] q that(2) by simp
  then have "findRefreshToken (hashToken C tok) db' = None"
    unfolding findRefreshToken_def db'_def by (simp add: find_first_delete_where_None)
  then show "rotateRefreshToken C E W' I' rnd' iv' uuid' dbnow' tok now2 db' = Inr (Invalid, db')"
    by (simp add: rotateRefreshToken_def Let_def)
qed

definition demo_rotated_db :: database where
  "demo_rotated_db = demo_token_db\<lparr>refresh_tokens := [demo_live\<lparr>rt_rotatedAt := Some 0,
     rt_successorCiphertext := Some []\<rparr>]\<rparr>"

theorem reuse_revokes_family_witness:
  "\<exists>db'. rotateRefreshToken demo_crypto default_env (\<lambda>t. t) quiet [] [] ''r2'' 60000 ''old'' 60000
     demo_rotated_db = Inr (Reused 1 ''f1'', db') \<and> refresh_tokens db' = []"
proof -
  let ?r = "demo_live\<lparr>rt_rotatedAt := Some 0, rt_successorCiphertext := Some []\<rparr>"
  have f: "findRefreshToken (hashToken demo_crypto ''old'') demo_rotated_db = Some ?r"
    by (simp add: demo_hash findRefreshToken_def demo_rotated_db_def demo_token_defs)
  have h: "60000 < rt_expiresAt ?r" "rt_rotatedAt ?r = Some 0"
    "int (REFRESH_GRACE_SECONDS default_env) * 1000 < 60000 - 0"
    "distinct (map rt_token (refresh_tokens demo_rotated_db))"
    by (simp_all add: default_env_def demo_rotated_db_def demo_token_defs)
  from reuse_revokes_family [OF f h, of "\<lambda>t. t" "[]" "[]" "''r2''" 60000] show ?thesis
    by (simp add: demo_rotated_db_def demo_token_defs delete_where_def in_family_def)
qed

end
