(* ===== verification/System_Service.thy ===== *)
theory System_Service
  imports Dead_Letter Refresh_Rotation
begin

text \<open>
  Maintenance and audit logging (\<^verbatim>\<open>src/services/system.service.ts\<close>) and the processor of the
  maintenance queue (\<^verbatim>\<open>src/jobs/workers/system.processor.ts\<close>). Writing an activity log never fails
  its caller: a rejected row is reported and dropped. A row needs an actor and a subject, and the
  actor must be a user. Actors come from verified access tokens and user rows are never removed, so
  what a rejected foreign key does to a surrounding transaction is not distinguished.
\<close>

section \<open>Activity log\<close>

definition generateDefaultDescription :: "string \<Rightarrow> string \<Rightarrow> string" where
  "generateDefaultDescription action subjectType =
     (let a = toUpperCase action in
      if a = ''CREATE'' then ''Create new data '' @ subjectType
      else if a = ''UPDATE'' then ''Update data '' @ subjectType
      else if a = ''DELETE'' then ''Delete data '' @ subjectType
      else if a = ''APPROVE'' then ''Approve data '' @ subjectType
      else if a = ''REJECT'' then ''Reject data '' @ subjectType
      else ''Perform action '' @ action @ '' on '' @ subjectType)"

definition activity_create ::
  "nat option \<Rightarrow> string \<Rightarrow> string \<Rightarrow> nat option \<Rightarrow> string \<Rightarrow> json \<Rightarrow> json \<Rightarrow> time \<Rightarrow> database \<Rightarrow> error + database" where
  "activity_create userId action subjectType subjectId description oldData newData now db =
     (case (userId, subjectId) of
        (Some u, Some i) \<Rightarrow>
          if u \<notin> user_id ` set (users db) then Inl (DbError ''P2003'')
          else Inr (db\<lparr>activity_logs := activity_logs db @ [\<lparr>log_id = activity_logs_seq db, log_userId = u,
                 log_action = Some action, log_description = Some description,
                 log_subjectType = Some subjectType, log_subjectId = i, log_oldData = oldData,
                 log_newData = newData, log_createdAt = now\<rparr>],
               activity_logs_seq := activity_logs_seq db + 1\<rparr>)
      | _ \<Rightarrow> Inl (ThrownError ''Argument must not be null''))"

definition logActivity ::
  "nat option \<Rightarrow> string \<Rightarrow> string \<Rightarrow> nat option \<Rightarrow> string option \<Rightarrow> json \<Rightarrow> json \<Rightarrow> time \<Rightarrow> database \<Rightarrow> database" where
  "logActivity userId action subjectType subjectId description oldData newData now db =
     (let finalDescription = (case description of
            None \<Rightarrow> generateDefaultDescription action subjectType
          | Some d \<Rightarrow> if d = [] then generateDefaultDescription action subjectType else d)
      in case activity_create userId (toUpperCase action) subjectType subjectId finalDescription
                oldData newData now db of
           Inl e \<Rightarrow> db
         | Inr db' \<Rightarrow> db')"

lemma logActivity_frame [simp]:
  "users (logActivity a b c d e f g now db) = users db"
  "roles (logActivity a b c d e f g now db) = roles db"
  "users_seq (logActivity a b c d e f g now db) = users_seq db"
  "roles_seq (logActivity a b c d e f g now db) = roles_seq db"
  "refresh_tokens (logActivity a b c d e f g now db) = refresh_tokens db"
  "outbox (logActivity a b c d e f g now db) = outbox db"
  "email_otps (logActivity a b c d e f g now db) = email_otps db"
  "email_verification_tokens (logActivity a b c d e f g now db) = email_verification_tokens db"
  "password_reset_tokens (logActivity a b c d e f g now db) = password_reset_tokens db"
  by (simp_all add: logActivity_def activity_create_def Let_def split: sum.splits option.splits)

lemma logActivity_adds:
  assumes "userId = Some u" and "subjectId = Some i" and "u \<in> user_id ` set (users db)"
  shows "\<exists>l. activity_logs (logActivity userId action subjectType subjectId description old new now db)
      = activity_logs db @ [l] \<and> log_userId l = u \<and> log_action l = Some (toUpperCase action)
    \<and> log_subjectType l = Some subjectType \<and> log_subjectId l = i \<and> log_oldData l = old \<and> log_newData l = new"
  using assms by (simp add: logActivity_def activity_create_def Let_def)

section \<open>Maintenance\<close>

definition DAY_MS :: int where "DAY_MS = 86400000"
definition BATCH_SIZE :: nat where "BATCH_SIZE = 1000"
definition MAX_BATCHES :: nat where "MAX_BATCHES = 100"

text \<open>The statements of the clean-up run one after the other, each committed by itself.\<close>

definition cleanupExpiredTokens :: "env \<Rightarrow> time \<Rightarrow> database \<Rightarrow> database" where
  "cleanupExpiredTokens E now db =
     (let db1 = snd (deleteExpiredRefreshTokens now BATCH_SIZE MAX_BATCHES db);
          db2 = db1\<lparr>email_verification_tokens := delete_where (\<lambda>r. evt_expiresAt r < now) (email_verification_tokens db1)\<rparr>;
          db3 = db2\<lparr>password_reset_tokens := delete_where (\<lambda>r. prt_expiresAt r < now) (password_reset_tokens db2)\<rparr>
      in snd (otp_deleteExpired (now - int (OTP_VERIFIED_WINDOW_MINUTES E) * 60000) BATCH_SIZE MAX_BATCHES db3))"

definition cleanupOutbox :: "env \<Rightarrow> time \<Rightarrow> database \<Rightarrow> (nat \<times> nat) \<times> database" where
  "cleanupOutbox E now db =
     (let (published, db1) = outbox_prune PUBLISHED (now - int (OUTBOX_RETENTION_PUBLISHED_DAYS E) * DAY_MS)
                               BATCH_SIZE MAX_BATCHES db;
          (failed, db2) = outbox_prune FAILED (now - int (OUTBOX_RETENTION_FAILED_DAYS E) * DAY_MS)
                            BATCH_SIZE MAX_BATCHES db1
      in ((published, failed), db2))"

definition cleanupDeadLetterJobs :: "env \<Rightarrow> time \<Rightarrow> database \<Rightarrow> nat \<times> database" where
  "cleanupDeadLetterJobs E now db =
     dead_letter_prune (now - int (DLQ_RETENTION_DAYS E) * DAY_MS) BATCH_SIZE MAX_BATCHES db"

definition processSystemJob :: "env \<Rightarrow> string \<Rightarrow> time \<Rightarrow> (database, unit) service" where
  "processSystemJob E name now db =
     (if name = JOB_CLEANUP_EXPIRED_TOKENS then (Inr (), cleanupExpiredTokens E now db)
      else if name = JOB_CLEANUP_OUTBOX then (Inr (), snd (cleanupOutbox E now db))
      else if name = JOB_CLEANUP_DEAD_LETTER_JOBS then (Inr (), snd (cleanupDeadLetterJobs E now db))
      else (Inl (ThrownError (''Unknown job name: '' @ name)), db))"

section \<open>Clean-up keeps what is still of use\<close>

lemma prune_keeps:
  assumes "distinct (map idf t)"
  shows "filter (\<lambda>r. \<not> P r) (snd (prune_loop (delete_batch idf P key) BATCH_SIZE MAX_BATCHES 0 t))
    = filter (\<lambda>r. \<not> P r) t"
  and "count_where P t \<le> 100000
    \<Longrightarrow> snd (prune_loop (delete_batch idf P key) BATCH_SIZE MAX_BATCHES 0 t) = filter (\<lambda>r. \<not> P r) t"
proof -
  note spec = table_batch.prune_loop_spec [OF assms, of BATCH_SIZE P key MAX_BATCHES 0]
  then show keep: "filter (\<lambda>r. \<not> P r) (snd (prune_loop (delete_batch idf P key) BATCH_SIZE MAX_BATCHES 0 t))
      = filter (\<lambda>r. \<not> P r) t"
    by (simp add: BATCH_SIZE_def)
  assume "count_where P t \<le> 100000"
  then have "count_where P (snd (prune_loop (delete_batch idf P key) BATCH_SIZE MAX_BATCHES 0 t)) = 0"
    using spec by (simp add: BATCH_SIZE_def MAX_BATCHES_def)
  then have "filter (\<lambda>r. \<not> P r) (snd (prune_loop (delete_batch idf P key) BATCH_SIZE MAX_BATCHES 0 t))
      = snd (prune_loop (delete_batch idf P key) BATCH_SIZE MAX_BATCHES 0 t)"
    by (simp only: filter_id_conv count_where_0_iff)
  with keep show "snd (prune_loop (delete_batch idf P key) BATCH_SIZE MAX_BATCHES 0 t) = filter (\<lambda>r. \<not> P r) t"
    by simp
qed

text \<open>The token clean-up removes nothing that can still be used: every unexpired refresh,
  verification and reset token survives (rotated refresh tokens too, for reuse detection), and
  every registration code within its registration window; with at most 100000 expired rows per
  table nothing expired is left. Users, roles, outbox and dead letters are untouched.\<close>

theorem cleanup_keeps_usable:
  fixes now :: time and E :: env
  assumes "distinct (map rt_id (refresh_tokens db))" and "distinct (map otp_id (email_otps db))"
  defines "db' \<equiv> cleanupExpiredTokens E now db"
  shows "filter (\<lambda>r. now \<le> rt_expiresAt r) (refresh_tokens db') = filter (\<lambda>r. now \<le> rt_expiresAt r) (refresh_tokens db)
    \<and> email_verification_tokens db' = filter (\<lambda>r. now \<le> evt_expiresAt r) (email_verification_tokens db)
    \<and> password_reset_tokens db' = filter (\<lambda>r. now \<le> prt_expiresAt r) (password_reset_tokens db)
    \<and> filter (\<lambda>r. now - int (OTP_VERIFIED_WINDOW_MINUTES E) * 60000 \<le> otp_expiresAt r) (email_otps db')
        = filter (\<lambda>r. now - int (OTP_VERIFIED_WINDOW_MINUTES E) * 60000 \<le> otp_expiresAt r) (email_otps db)
    \<and> (count_where (refresh_expired now) (refresh_tokens db) \<le> 100000
        \<longrightarrow> refresh_tokens db' = filter (\<lambda>r. now \<le> rt_expiresAt r) (refresh_tokens db))
    \<and> users db' = users db \<and> roles db' = roles db \<and> outbox db' = outbox db
    \<and> dead_letter_jobs db' = dead_letter_jobs db"
proof -
  have rt: "refresh_tokens db' = snd (prune_loop (delete_batch rt_id (refresh_expired now) rt_expiresAt)
      BATCH_SIZE MAX_BATCHES 0 (refresh_tokens db))"
    and otp: "email_otps db' = snd (prune_loop (delete_batch otp_id
      (otp_expired (now - int (OTP_VERIFIED_WINDOW_MINUTES E) * 60000)) otp_expiresAt) BATCH_SIZE MAX_BATCHES 0 (email_otps db))"
    by (simp_all add: db'_def cleanupExpiredTokens_def Let_def deleteExpiredRefreshTokens_def
        otp_deleteExpired_def case_prod_beta)
  have "email_verification_tokens db' = filter (\<lambda>r. now \<le> evt_expiresAt r) (email_verification_tokens db)"
    "password_reset_tokens db' = filter (\<lambda>r. now \<le> prt_expiresAt r) (password_reset_tokens db)"
    "users db' = users db" "roles db' = roles db" "outbox db' = outbox db"
    "dead_letter_jobs db' = dead_letter_jobs db"
    by (simp_all add: db'_def cleanupExpiredTokens_def Let_def deleteExpiredRefreshTokens_def
        otp_deleteExpired_def case_prod_beta delete_where_def not_less)
  then show ?thesis
    using prune_keeps [OF assms(1), of "refresh_expired now" rt_expiresAt]
      prune_keeps(1) [OF assms(2), of "otp_expired (now - int (OTP_VERIFIED_WINDOW_MINUTES E) * 60000)" otp_expiresAt]
    unfolding rt otp by (simp add: refresh_expired_def otp_expired_def not_less)
qed

theorem cleanup_keeps_usable_witness:
  "refresh_tokens (cleanupExpiredTokens default_env 1000 demo_token_db) = refresh_tokens demo_token_db"
proof -
  have h: "distinct (map rt_id (refresh_tokens demo_token_db))" "distinct (map otp_id (email_otps demo_token_db))"
    by (simp_all add: demo_token_defs)
  have "count_where (refresh_expired 1000) (refresh_tokens demo_token_db) \<le> 100000"
    by (simp add: demo_token_defs refresh_expired_def)
  with cleanup_keeps_usable [OF h, of 1000 default_env]
  have "refresh_tokens (cleanupExpiredTokens default_env 1000 demo_token_db)
    = filter (\<lambda>r. 1000 \<le> rt_expiresAt r) (refresh_tokens demo_token_db)" by blast
  then show ?thesis by (simp add: demo_token_defs)
qed

text \<open>Outbox retention never touches a PENDING row, however often it runs.\<close>

lemma cleanupOutbox_pending:
  assumes "distinct (map ob_id (outbox db))" and "r \<in> set (outbox db)" and "ob_status r = PENDING"
  shows "r \<in> set (outbox (snd (cleanupOutbox E now db)))"
proof -
  have keep: "x \<in> set (outbox (snd (outbox_prune st before BATCH_SIZE MAX_BATCHES d)))"
    if "distinct (map ob_id (outbox d))" "x \<in> set (outbox d)" "ob_status x = PENDING" "st \<noteq> PENDING" for x st before d
  proof -
    have "x \<in> set (filter (\<lambda>r. \<not> outbox_prunable st before r) (outbox d))"
      using that by (simp add: outbox_prunable_def)
    then have "x \<in> set (filter (\<lambda>r. \<not> outbox_prunable st before r)
        (outbox (snd (outbox_prune st before BATCH_SIZE MAX_BATCHES d))))"
      unfolding outbox_prune_table(1) prune_keeps(1) [OF that(1)] .
    then show ?thesis by simp
  qed
  let ?d1 = "snd (outbox_prune PUBLISHED (now - int (OUTBOX_RETENTION_PUBLISHED_DAYS E) * DAY_MS) BATCH_SIZE MAX_BATCHES db)"
  have "distinct (map ob_id (outbox ?d1))" using outbox_prune_subset assms(1) by blast
  then show ?thesis
    using keep [OF assms(1,2,3), of PUBLISHED] keep [of ?d1 r FAILED] assms(3)
    by (simp add: cleanupOutbox_def Let_def case_prod_beta)
qed

end
