(* ===== verification/Role_Service.thy ===== *)
theory Role_Service
  imports Rbac System_Service
begin

text \<open>
  Roles: the permission catalogue (\<^verbatim>\<open>src/modules/role/role.permissions.ts\<close>) and the role service
  (\<^verbatim>\<open>src/modules/role/role.service.ts\<close>) with its audit log and the invalidation of cached access
  after commit. The state of the application is its database, its cache and the uploaded files.
  An error after the transaction leaves the committed database in place.
\<close>

section \<open>Application state\<close>

record app =
  app_db :: database
  app_redis :: redis
  app_files :: "(string \<times> string) list"

definition in_db :: "(database, 'a) service \<Rightarrow> (app, 'a) service" where
  "in_db m a = (let (r, db') = m (app_db a) in (r, a\<lparr>app_db := db'\<rparr>))"

text \<open>Cache commands after a commit: an error surfaces, the database keeps its changes.\<close>

definition then_cache :: "(app, 'a) service \<Rightarrow> ('a \<Rightarrow> (redis, unit) tx) \<Rightarrow> (app, 'a) service" where
  "then_cache m f a =
     (case m a of
        (Inl e, a') \<Rightarrow> (Inl e, a')
      | (Inr x, a') \<Rightarrow>
          (case f x (app_redis a') of
             Inl e \<Rightarrow> (Inl e, a')
           | Inr (_, s) \<Rightarrow> (Inr x, a'\<lparr>app_redis := s\<rparr>)))"

section \<open>Permissions\<close>

record permission_activity =
  pa_label :: string
  pa_value :: string

record permission_sub_module =
  ps_module :: string
  ps_activities :: "permission_activity list"

record permission_module =
  pm_module :: string
  pm_sub_module :: "permission_sub_module list"

definition act :: "string \<Rightarrow> string \<Rightarrow> permission_activity" where
  "act l v = \<lparr>pa_label = l, pa_value = v\<rparr>"

definition ACCESS_LIST :: "permission_module list" where
  "ACCESS_LIST =
     [\<lparr>pm_module = ''Dashboard'', pm_sub_module =
        [\<lparr>ps_module = ''Dashboard'', ps_activities = [act ''Menu Dashboard'' ''module.dashboard.index'']\<rparr>]\<rparr>,
      \<lparr>pm_module = ''Data Master'', pm_sub_module =
        [\<lparr>ps_module = ''Role'', ps_activities =
           [act ''Menu Role'' ''module.master-data.role.index'',
            act ''Add Role'' ''module.master-data.role.create'',
            act ''Edit Role'' ''module.master-data.role.edit'',
            act ''Delete Role'' ''module.master-data.role.delete'']\<rparr>,
         \<lparr>ps_module = ''User'', ps_activities =
           [act ''Menu User'' ''module.master-data.user.index'',
            act ''Add User'' ''module.master-data.user.create'',
            act ''Edit User'' ''module.master-data.user.edit'',
            act ''Delete User'' ''module.master-data.user.delete'']\<rparr>,
         \<lparr>ps_module = ''Email Template'', ps_activities =
           [act ''Menu Email Template'' ''module.master-data.email-template.index'',
            act ''Edit Email Template'' ''module.master-data.email-template.edit'']\<rparr>]\<rparr>,
      \<lparr>pm_module = ''History'', pm_sub_module =
        [\<lparr>ps_module = ''Activity Log'', ps_activities =
           [act ''Menu Activity Log'' ''module.activity-log.index'',
            act ''Activity Log Details'' ''module.activity-log.detail'']\<rparr>]\<rparr>]"

text \<open>The leaves of the constant tree used by the routes, with their paths.\<close>

definition PERMISSIONS :: "(string \<times> string) list" where
  "PERMISSIONS =
     [(''DASHBOARD.INDEX'', ''module.dashboard.index''),
      (''DATA_MASTER.ROLE.INDEX'', ''module.master-data.role.index''),
      (''DATA_MASTER.ROLE.CREATE'', ''module.master-data.role.create''),
      (''DATA_MASTER.ROLE.EDIT'', ''module.master-data.role.edit''),
      (''DATA_MASTER.ROLE.DELETE'', ''module.master-data.role.delete''),
      (''DATA_MASTER.USER.INDEX'', ''module.master-data.user.index''),
      (''DATA_MASTER.USER.CREATE'', ''module.master-data.user.create''),
      (''DATA_MASTER.USER.EDIT'', ''module.master-data.user.edit''),
      (''DATA_MASTER.USER.DELETE'', ''module.master-data.user.delete''),
      (''DATA_MASTER.EMAIL_TEMPLATE.INDEX'', ''module.master-data.email-template.index''),
      (''DATA_MASTER.EMAIL_TEMPLATE.EDIT'', ''module.master-data.email-template.edit''),
      (''ACTIVITY_LOG.INDEX'', ''module.activity-log.index''),
      (''ACTIVITY_LOG.DETAIL'', ''module.activity-log.detail'')]"

definition ALL_PERMISSIONS :: "string list" where
  "ALL_PERMISSIONS = concat (map (\<lambda>m. concat (map (\<lambda>s. map pa_value (ps_activities s)) (pm_sub_module m))) ACCESS_LIST)"

lemma permissions_in_sync: "map snd PERMISSIONS = ALL_PERMISSIONS \<and> distinct ALL_PERMISSIONS"
  by (simp add: PERMISSIONS_def ALL_PERMISSIONS_def ACCESS_LIST_def act_def)

definition validateAccess :: "string list \<Rightarrow> error option" where
  "validateAccess access =
     (let invalid = filter (\<lambda>p. p \<notin> set ALL_PERMISSIONS) access
      in if invalid \<noteq> []
         then Some (AppError (''Invalid permission value(s): '' @ join_with '', '' invalid) 400) else None)"

section \<open>Service\<close>

definition access_array :: "string list \<Rightarrow> json" where
  "access_array access = JArr (map JStr access)"

record role_input =
  in_title :: string
  in_userType :: string
  in_description :: "string option"
  in_access :: "string list"

definition role_snapshot :: "role \<Rightarrow> json" where
  "role_snapshot r = JObj [(''title'', JStr (role_title r)), (''userType'', JStr (role_userType r)),
     (''slug'', JStr (role_slug r)), (''access'', role_access r)]"

definition getRole :: "string \<Rightarrow> database \<Rightarrow> error + role" where
  "getRole slug db = (case role_findBySlug slug db of
     None \<Rightarrow> Inl (AppError ''Role not found'' 404) | Some r \<Rightarrow> Inr r)"

definition createRole_tx :: "role_input \<Rightarrow> nat option \<Rightarrow> time \<Rightarrow> (database, role) tx" where
  "createRole_tx d createdBy now db =
     (case makeUniqueSlug (in_title d) (role_slug_taken db None) of
        None \<Rightarrow> Inl NoReturn
      | Some slug \<Rightarrow>
          (let (r, db1) = role_create slug (in_title d) (in_userType d) (in_description d)
                            (access_array (in_access d)) now db
           in Inr (r, logActivity createdBy ''CREATE'' ''Role'' (Some (role_id r))
                        (Some (''Role created: '' @ role_title r)) JNull (role_snapshot r) now db1)))"

definition createRole :: "role_input \<Rightarrow> nat option \<Rightarrow> time \<Rightarrow> (app, role) service" where
  "createRole d createdBy now a =
     (case validateAccess (in_access d) of
        Some e \<Rightarrow> (Inl e, a)
      | None \<Rightarrow> in_db (transaction (createRole_tx d createdBy now)) a)"

record role_changes =
  ch_title :: "string option"
  ch_userType :: "string option"
  ch_description :: "string option option"
  ch_access :: "string list option"

text \<open>\<open>truthy_str\<close> is \<^verbatim>\<open>value && ...\<close> on an optional string.\<close>

definition truthy_str :: "string option \<Rightarrow> string option" where
  "truthy_str s = (case s of None \<Rightarrow> None | Some x \<Rightarrow> if x = [] then None else Some x)"

definition role_new_slug :: "role \<Rightarrow> string option \<Rightarrow> database \<Rightarrow> error + string option" where
  "role_new_slug role title db =
     (case truthy_str title of
        None \<Rightarrow> Inr None
      | Some t \<Rightarrow>
          if t = role_title role then Inr None
          else (case makeUniqueSlug t (role_slug_taken db (Some (role_id role))) of
                  None \<Rightarrow> Inl NoReturn
                | Some s \<Rightarrow> Inr (truthy_str (Some s))))"

definition updateRole_tx :: "role \<Rightarrow> role_changes \<Rightarrow> nat option \<Rightarrow> time \<Rightarrow> (database, role) tx" where
  "updateRole_tx role d updatedBy now db =
     (case role_new_slug role (ch_title d) db of
        Inl e \<Rightarrow> Inl e
      | Inr newSlug \<Rightarrow>
          (case role_update (role_id role) \<lparr>rp_title = truthy_str (ch_title d), rp_slug = newSlug,
                  rp_userType = truthy_str (ch_userType d), rp_description = ch_description d,
                  rp_access = map_option access_array (ch_access d)\<rparr> now db of
             Inl e \<Rightarrow> Inl e
           | Inr (u, db1) \<Rightarrow>
               Inr (u, logActivity updatedBy ''UPDATE'' ''Role'' (Some (role_id role))
                         (Some (''Role updated: '' @ role_title u)) (role_snapshot role) (role_snapshot u) now db1)))"

definition role_cacheKey :: "string \<Rightarrow> string" where
  "role_cacheKey k = ''role:'' @ k"

text \<open>The members of the set are user ids as strings.\<close>

definition invalidateRoleUsers :: "nat \<Rightarrow> time \<Rightarrow> (redis, unit) tx" where
  "invalidateRoleUsers roleId now =
     tx_bind (invalidateAccess now) (\<lambda>_.
       let setKey = ''role-users:'' @ show_nat roleId in
       tx_bind (cache_smembers setKey now) (\<lambda>userIds.
         tx_bind (cache_del (concat (map (\<lambda>u. [''user-role:'' @ u, ''profile:'' @ u]) userIds))) (\<lambda>_.
           tx_bind (cache_srem setKey userIds now) (\<lambda>_. tx_return ()))))"

definition role_invalidation :: "role \<Rightarrow> time \<Rightarrow> (redis, unit) tx" where
  "role_invalidation role now =
     tx_bind (cache_del [role_cacheKey (role_slug role)]) (\<lambda>_. invalidateRoleUsers (role_id role) now)"

definition updateRole :: "string \<Rightarrow> role_changes \<Rightarrow> nat option \<Rightarrow> time \<Rightarrow> (app, role) service" where
  "updateRole slug d updatedBy now a =
     (case role_findBySlug slug (app_db a) of
        None \<Rightarrow> (Inl (AppError ''Role not found'' 404), a)
      | Some role \<Rightarrow>
          (case Option.bind (ch_access d) validateAccess of
             Some e \<Rightarrow> (Inl e, a)
           | None \<Rightarrow> then_cache (in_db (transaction (updateRole_tx role d updatedBy now)))
                       (\<lambda>_. role_invalidation role now) a))"

definition deleteRole_tx :: "role \<Rightarrow> nat option \<Rightarrow> time \<Rightarrow> (database, unit) tx" where
  "deleteRole_tx role deletedBy now db =
     (case role_delete (role_id role) now db of
        Inl e \<Rightarrow> Inl e
      | Inr (_, db1) \<Rightarrow>
          Inr ((), logActivity deletedBy ''DELETE'' ''Role'' (Some (role_id role))
                     (Some (''Role deleted: '' @ role_title role)) (role_snapshot role) JNull now db1))"

definition deleteRole :: "string \<Rightarrow> nat option \<Rightarrow> time \<Rightarrow> (app, unit) service" where
  "deleteRole slug deletedBy now a =
     (case role_findBySlug slug (app_db a) of
        None \<Rightarrow> (Inl (AppError ''Role not found'' 404), a)
      | Some role \<Rightarrow>
          (let userCount = countUsers (role_id role) (app_db a) in
           if 0 < userCount
           then (Inl (AppError (''Cannot delete role: '' @ show_nat userCount
                    @ '' user(s) are still assigned to this role'') 409), a)
           else then_cache (in_db (transaction (deleteRole_tx role deletedBy now)))
                  (\<lambda>_. role_invalidation role now) a))"

section \<open>Keys and slugs of roles\<close>

lemma roles_ok_append:
  assumes "roles_ok db" and "role_id r = roles_seq db"
    and "\<And>q. q \<in> set (roles db) \<Longrightarrow> role_active q \<Longrightarrow> role_slug q \<noteq> role_slug r"
    and "roles db' = roles db @ [r]" and "roles_seq db' = roles_seq db + 1"
  shows "roles_ok db'"
proof -
  have u: "slug_unique_roles (roles db)" using assms(1) by (simp add: roles_ok_def)
  have "slug_unique_roles (roles db @ [r])"
    unfolding slug_unique_roles_def
  proof (rule ball_pairs_append)
    show "\<forall>a \<in> set (roles db). \<forall>b \<in> set (roles db). role_active a \<longrightarrow> role_active b
        \<longrightarrow> role_slug a = role_slug b \<longrightarrow> role_id a = role_id b"
      using u by (simp only: slug_unique_roles_def)
  qed (use assms(3) assms(3) [THEN not_sym] in \<open>blast+\<close>)
  moreover have "\<forall>q \<in> set (roles db). role_id q < roles_seq db" using assms(1) by (simp add: roles_ok_def)
  ultimately show ?thesis
    using assms(1,2,4,5) by (auto simp: roles_ok_def less_Suc_eq)
qed

lemma roles_ok_update:
  assumes "roles_ok db" and "\<And>r. role_id (f r) = role_id r"
    and "\<And>r q. r \<in> set (roles db) \<Longrightarrow> q \<in> set (roles db) \<Longrightarrow> role_id r = i \<Longrightarrow> role_id q \<noteq> i
      \<Longrightarrow> role_active (f r) \<Longrightarrow> role_active q \<Longrightarrow> role_slug (f r) \<noteq> role_slug q"
    and "roles db' = update_where (\<lambda>r. role_id r = i) f (roles db)" and "roles_seq db' = roles_seq db"
  shows "roles_ok db'"
proof -
  have "slug_unique_roles (roles db')"
    unfolding slug_unique_roles_def
  proof (intro ballI impI)
    fix a b assume ab: "a \<in> set (roles db')" "b \<in> set (roles db')" "role_active a" "role_active b"
      "role_slug a = role_slug b"
    obtain x where x: "x \<in> set (roles db)" "a = (if role_id x = i then f x else x)"
      using ab(1) by (auto simp: assms(4) set_update_where)
    obtain y where y: "y \<in> set (roles db)" "b = (if role_id y = i then f y else y)"
      using ab(2) by (auto simp: assms(4) set_update_where)
    have ids: "role_id a = role_id x" "role_id b = role_id y" using x(2) y(2) assms(2) by auto
    consider "role_id x = i" "role_id y = i" | "role_id x = i" "role_id y \<noteq> i"
      | "role_id x \<noteq> i" "role_id y = i" | "role_id x \<noteq> i" "role_id y \<noteq> i" by blast
    then show "role_id a = role_id b"
    proof cases
      case 1 with ids show ?thesis by simp
    next
      case 2 with assms(3) [OF x(1) y(1)] ab x(2) y(2) show ?thesis by auto
    next
      case 3 with assms(3) [OF y(1) x(1)] ab x(2) y(2) show ?thesis by auto
    next
      case 4
      then have "a = x" "b = y" using x(2) y(2) by simp_all
      with x(1) y(1) ab assms(1) show ?thesis
        unfolding roles_ok_def by (intro slug_unique_rolesD [of "roles db" a b]) simp_all
    qed
  qed
  then show ?thesis
    using assms by (auto simp: roles_ok_def map_update_where set_update_where)
qed

lemma role_new_slug_free:
  assumes "role_new_slug role title db = Inr (Some s)" and "q \<in> set (roles db)" and "role_active q"
    and "role_id q \<noteq> role_id role"
  shows "role_slug q \<noteq> s"
proof -
  obtain t where m: "makeUniqueSlug t (role_slug_taken db (Some (role_id role))) = Some s"
    using assms(1) by (auto simp: role_new_slug_def truthy_str_def split: option.splits if_splits)
  have "role_counts (Some (role_id role)) q" using assms(3,4) by (simp add: role_counts_def)
  from role_slugs.unique_slug_fresh_row [OF m assms(2) this] show ?thesis by simp
qed

lemma updateRole_tx_roles:
  assumes "updateRole_tx role d updatedBy now db = Inr (u, db')"
  shows "\<exists>p. roles db' = update_where (\<lambda>r. role_id r = role_id role) (apply_role_patch p now) (roles db)
    \<and> role_new_slug role (ch_title d) db = Inr (rp_slug p) \<and> users db' = users db
    \<and> roles_seq db' = roles_seq db \<and> users_seq db' = users_seq db"
  using assms by (auto simp: updateRole_tx_def role_update_def split: sum.splits option.splits)

lemma apply_role_patch_simps [simp]:
  "role_id (apply_role_patch p now r) = role_id r"
  "role_active (apply_role_patch p now r) = role_active r"
  "role_slug (apply_role_patch p now r) = or_else (rp_slug p) (role_slug r)"
  by (simp_all add: apply_role_patch_def role_active_def)

lemma updateRole_tx_ok:
  assumes "roles_ok db" and "role \<in> set (roles db)" and "role_active role"
    and "updateRole_tx role d updatedBy now db = Inr (u, db')"
  shows "roles_ok db'"
proof -
  obtain p where t: "roles db' = update_where (\<lambda>r. role_id r = role_id role) (apply_role_patch p now) (roles db)"
    "roles_seq db' = roles_seq db" and s: "role_new_slug role (ch_title d) db = Inr (rp_slug p)"
    using updateRole_tx_roles [OF assms(4)] by blast
  show ?thesis
  proof (rule roles_ok_update [OF assms(1) _ _ t])
    fix r q assume r: "r \<in> set (roles db)" "role_id r = role_id role" "role_active (apply_role_patch p now r)"
      and q: "q \<in> set (roles db)" "role_id q \<noteq> role_id role" "role_active q"
    show "role_slug (apply_role_patch p now r) \<noteq> role_slug q"
    proof (cases "rp_slug p")
      case None
      then have "role_slug (apply_role_patch p now r) = role_slug r" by (simp add: or_else_def)
      moreover have "slug_unique_roles (roles db)" using assms(1) by (simp add: roles_ok_def)
      ultimately show ?thesis using slug_unique_rolesD [OF _ r(1) q(1)] r(2,3) q(2,3) by auto
    next
      case (Some x)
      with role_new_slug_free [of role "ch_title d" db x q] s q show ?thesis by (auto simp: or_else_def)
    qed
  qed simp
qed

lemma createRole_tx_ok:
  assumes "roles_ok db" and "createRole_tx d createdBy now db = Inr (r, db')"
  shows "roles_ok db'"
proof -
  obtain slug where s: "makeUniqueSlug (in_title d) (role_slug_taken db None) = Some slug"
    using assms(2) by (auto simp: createRole_tx_def split: option.splits)
  then have r: "roles db' = roles db @ [r]" "roles_seq db' = roles_seq db + 1" "role_id r = roles_seq db"
    "role_slug r = slug"
    using assms(2) by (auto simp: createRole_tx_def role_create_def Let_def)
  have "role_slug q \<noteq> role_slug r" if "q \<in> set (roles db)" "role_active q" for q
    using role_slugs.unique_slug_fresh_row [OF s that(1)] that(2) r(4) by (simp add: role_counts_def)
  with roles_ok_append [OF assms(1) r(3) _ r(1,2)] show ?thesis by blast
qed

lemma deleteRole_tx_ok:
  assumes "roles_ok db" and "deleteRole_tx role deletedBy now db = Inr (u, db')"
  shows "roles_ok db'"
proof -
  let ?f = "\<lambda>r. r\<lparr>role_deletedAt := Some now, role_updatedAt := now\<rparr>"
  have t: "roles db' = update_where (\<lambda>r. role_id r = role_id role) ?f (roles db)" "roles_seq db' = roles_seq db"
    using assms(2) by (auto simp: deleteRole_tx_def role_delete_def split: if_splits)
  show ?thesis by (rule roles_ok_update [OF assms(1) _ _ t]) (simp_all add: role_active_def)
qed

lemma in_db_Inr: "in_db (transaction m) a = (Inr x, a') \<longleftrightarrow> (\<exists>db'. m (app_db a) = Inr (x, db') \<and> a' = a\<lparr>app_db := db'\<rparr>)"
  by (auto simp: in_db_def transaction_def split: sum.splits)

lemma in_db_Inl: "in_db (transaction m) a = (Inl e, a') \<Longrightarrow> a' = a"
  by (auto simp: in_db_def transaction_def split: sum.splits)

lemma in_db_preserves:
  assumes "P (app_db a)" and "\<And>x db'. m (app_db a) = Inr (x, db') \<Longrightarrow> P db'"
    and "in_db (transaction m) a = (r, a')"
  shows "P (app_db a')"
  using assms by (auto simp: in_db_def transaction_def split: sum.splits)

lemma then_cache_db: "app_db (snd (then_cache m f a)) = app_db (snd (m a))"
  by (auto simp: then_cache_def split: sum.splits prod.splits)

text \<open>The role service keeps the role table well formed: whatever it is asked to create, rename
  or delete, keys stay unique and no two active roles share a slug.\<close>

theorem role_service_keeps_ok:
  assumes "roles_ok (app_db a)"
  shows "roles_ok (app_db (snd (createRole input actor now a)))
    \<and> roles_ok (app_db (snd (updateRole slug changes actor now a)))
    \<and> roles_ok (app_db (snd (deleteRole slug actor now a)))"
proof (intro conjI)
  show "roles_ok (app_db (snd (createRole input actor now a)))"
    using assms in_db_preserves [of roles_ok a "createRole_tx input actor now"] createRole_tx_ok [OF assms]
    by (auto simp: createRole_def split: option.splits) (metis prod.collapse)
  show "roles_ok (app_db (snd (updateRole slug changes actor now a)))"
  proof (cases "role_findBySlug slug (app_db a)")
    case (Some role)
    then have role: "role \<in> set (roles (app_db a))" "role_active role" using role_findBySlug_SomeD by blast+
    have "roles_ok (app_db (snd (in_db (transaction (updateRole_tx role changes actor now)) a)))"
      using in_db_preserves [of roles_ok a "updateRole_tx role changes actor now"] assms
        updateRole_tx_ok [OF assms role] by (metis prod.collapse)
    with Some assms show ?thesis by (auto simp: updateRole_def then_cache_db split: option.splits)
  qed (simp add: updateRole_def assms)
  show "roles_ok (app_db (snd (deleteRole slug actor now a)))"
  proof (cases "role_findBySlug slug (app_db a)")
    case (Some role)
    have "roles_ok (app_db (snd (in_db (transaction (deleteRole_tx role actor now)) a)))"
      using in_db_preserves [of roles_ok a "deleteRole_tx role actor now"] assms
        deleteRole_tx_ok [OF assms] by (metis prod.collapse)
    with Some assms show ?thesis by (simp add: deleteRole_def Let_def then_cache_db)
  qed (simp add: deleteRole_def assms)
qed

definition demo_app :: app where
  "demo_app = \<lparr>app_db = demo_rbac_db, app_redis = empty_redis, app_files = []\<rparr>"

lemma demo_roles_ok: "roles_ok (app_db demo_app)"
  by (simp add: demo_app_def demo_rbac_db_def demo_admin_role_def roles_ok_def slug_unique_roles_def empty_db_def)

theorem role_service_keeps_ok_witness:
  "roles_ok (app_db (snd (updateRole ''admin'' \<lparr>ch_title = Some ''Boss'', ch_userType = None,
     ch_description = None, ch_access = Some []\<rparr> (Some 1) 5 demo_app)))"
  using role_service_keeps_ok [OF demo_roles_ok] by blast

section \<open>A role change takes effect at once\<close>

lemma rbac_inv_kv:
  assumes "rbac_inv (st\<lparr>rs_redis := s\<rparr>)" and "kv s' = kv s"
  shows "rbac_inv (st\<lparr>rs_redis := s'\<rparr>)"
  using assms
  by (simp add: rbac_inv_def version_ok_def entries_fresh_def flights_fresh_def flight_fresh_def
      fresh_data_def cur_version_def cong: flight.case_cong)

lemma cache_srem_kv: "cache_srem k ms now s = Inr (n, s') \<Longrightarrow> kv s' = kv s \<and> redis_up s' = redis_up s"
  by (auto simp: cache_defs Let_def split: if_splits)

lemma invalidateAccess_up: "invalidateAccess now s = Inr (n, s') \<Longrightarrow> redis_up s'"
  by (auto simp: invalidateAccess_def cache_incr_def split: if_splits option.splits json.splits)

lemma cache_del_up: "cache_del ks s = Inr (u, s') \<Longrightarrow> redis_up s' = redis_up s"
  by (auto simp: cache_defs split: if_splits)

lemma bump_restores:
  assumes "rbac_inv \<lparr>rs_db = db, rs_redis = s, rs_flights = fs, rs_pending = Suc n\<rparr>"
    and "invalidateAccess now s = Inr (v, s')"
  shows "rbac_inv \<lparr>rs_db = db, rs_redis = s', rs_flights = fs, rs_pending = n\<rparr>"
  using rbac_step_inv [OF rbac_step.bump [of "\<lparr>rs_db = db, rs_redis = s, rs_flights = fs, rs_pending = Suc n\<rparr>"]]
    assms by simp

lemma drop_keeps:
  assumes "rbac_inv \<lparr>rs_db = db, rs_redis = s, rs_flights = fs, rs_pending = n\<rparr>"
    and "cache_del ks s = Inr (u, s')" and "RBAC_VERSION_KEY \<notin> set ks"
  shows "rbac_inv \<lparr>rs_db = db, rs_redis = s', rs_flights = fs, rs_pending = n\<rparr>"
  using rbac_step_inv [OF rbac_step.drop [of ks "\<lparr>rs_db = db, rs_redis = s, rs_flights = fs, rs_pending = n\<rparr>" u s']]
    assms by simp

lemma commit_pending:
  assumes "rbac_inv \<lparr>rs_db = db, rs_redis = s, rs_flights = fs, rs_pending = n\<rparr>"
  shows "rbac_inv \<lparr>rs_db = db', rs_redis = s, rs_flights = fs, rs_pending = Suc n\<rparr>"
  using rbac_step_inv [OF rbac_step.commit assms, of db'] by simp

lemma role_invalidation_restores:
  assumes "rbac_inv \<lparr>rs_db = db, rs_redis = s, rs_flights = fs, rs_pending = Suc 0\<rparr>"
    and "role_invalidation role now s = Inr (u, s')"
  shows "rbac_inv \<lparr>rs_db = db, rs_redis = s', rs_flights = fs, rs_pending = 0\<rparr> \<and> redis_up s'"
proof -
  obtain s1 n s2 ms k s3 where d: "cache_del [role_cacheKey (role_slug role)] s = Inr ((), s1)"
    and b: "invalidateAccess now s1 = Inr (n, s2)"
    and d2: "cache_del (concat (map (\<lambda>u. [''user-role:'' @ u, ''profile:'' @ u]) ms)) s2 = Inr ((), s3)"
    and r: "cache_srem (''role-users:'' @ show_nat (role_id role)) ms now s3 = Inr (k, s')"
    using assms(2)
    by (auto simp: role_invalidation_def invalidateRoleUsers_def tx_bind_eq_Inr Let_def cache_smembers_def when_up_def
        split: if_splits)
  have "RBAC_VERSION_KEY \<noteq> role_cacheKey k" for k by (simp add: RBAC_VERSION_KEY_def role_cacheKey_def)
  then have i1: "rbac_inv \<lparr>rs_db = db, rs_redis = s1, rs_flights = fs, rs_pending = Suc 0\<rparr>"
    using drop_keeps [OF assms(1) d] by simp
  have i2: "rbac_inv \<lparr>rs_db = db, rs_redis = s2, rs_flights = fs, rs_pending = 0\<rparr>" by (rule bump_restores [OF i1 b])
  have i3: "rbac_inv \<lparr>rs_db = db, rs_redis = s3, rs_flights = fs, rs_pending = 0\<rparr>"
    by (rule drop_keeps [OF i2 d2]) (auto simp: RBAC_VERSION_KEY_def)
  have "rbac_inv \<lparr>rs_db = db, rs_redis = s', rs_flights = fs, rs_pending = 0\<rparr>"
    using rbac_inv_kv [where st = "\<lparr>rs_db = db, rs_redis = s3, rs_flights = fs, rs_pending = 0\<rparr>" and s = s3 and s' = s'] i3 cache_srem_kv [OF r]
    by simp
  moreover have "redis_up s'" using cache_srem_kv [OF r] cache_del_up [OF d2] invalidateAccess_up [OF b] by simp
  ultimately show ?thesis ..
qed

text \<open>C7. A change to a role takes effect with the response: after a successful update or deletion,
  every permission check decides by the new database, whatever was cached before and whatever
  requests were in flight.\<close>

theorem role_change_takes_effect:
  assumes "rbac_inv \<lparr>rs_db = app_db a, rs_redis = app_redis a, rs_flights = fs, rs_pending = 0\<rparr>"
    and "(\<exists>r. updateRole slug changes actor now a = (Inr r, a')) \<or> deleteRole slug actor now a = (Inr (), a')"
    and "userId \<noteq> 0"
  shows "rbac_inv \<lparr>rs_db = app_db a', rs_redis = app_redis a', rs_flights = fs, rs_pending = 0\<rparr>
    \<and> fst (checkPermission permission None (Some userId) later (app_db a') (app_redis a'))
        = access_decision permission userId (app_db a')"
proof -
  obtain role u where inv: "role_invalidation role now (app_redis a) = Inr (u, app_redis a')"
    using assms(2)
    by (auto simp: updateRole_def deleteRole_def then_cache_def in_db_def transaction_def Let_def
        split: option.splits sum.splits prod.splits if_splits)
  have p: "rbac_inv \<lparr>rs_db = app_db a', rs_redis = app_redis a, rs_flights = fs, rs_pending = Suc 0\<rparr>"
    using commit_pending [OF assms(1)] by simp
  from role_invalidation_restores [OF p inv]
  have i: "rbac_inv \<lparr>rs_db = app_db a', rs_redis = app_redis a', rs_flights = fs, rs_pending = 0\<rparr>"
    and up: "redis_up (app_redis a')" by simp_all
  have "fst (resolveRole None (Some userId) later (app_db a') (app_redis a'))
      = (case stored_access userId (app_db a') of None \<Rightarrow> Inl unauthorized | Some d \<Rightarrow> role_of d)"
    using resolveRole_fresh [OF i _ _ assms(3), of later] up by simp
  with i show ?thesis
    by (auto simp: checkPermission_def Let_def case_prod_beta access_decision_def grants_def split: option.splits)
qed

definition demo_revoke :: role_changes where
  "demo_revoke = \<lparr>ch_title = None, ch_userType = None, ch_description = None, ch_access = Some []\<rparr>"

lemma role_invalidation_demo: "\<exists>s. role_invalidation role now empty_redis = Inr ((), s)"
  by (simp add: role_invalidation_def invalidateRoleUsers_def tx_bind_def cache_defs invalidateAccess_def
      live_value_def live_members_def empty_redis_def Let_def RBAC_VERSION_KEY_def role_cacheKey_def)

theorem role_change_takes_effect_witness:
  "\<exists>r a'. updateRole ''admin'' demo_revoke (Some 1) 5 demo_app = (Inr r, a')
     \<and> fst (checkPermission ''module.dashboard.index'' None (Some 1) 6 (app_db a') (app_redis a'))
         = access_decision ''module.dashboard.index'' 1 (app_db a')"
proof -
  have i: "rbac_inv \<lparr>rs_db = app_db demo_app, rs_redis = app_redis demo_app, rs_flights = [], rs_pending = 0\<rparr>"
    using rbac_inv_init [of demo_rbac_db] by (simp add: rbac_init_def demo_app_def)
  have f: "role_findBySlug ''admin'' (app_db demo_app) = Some demo_admin_role"
    by (simp add: role_findBySlug_def demo_app_def demo_rbac_db_def demo_admin_role_def role_active_def)
  have "find_first (\<lambda>r. role_id r = role_id demo_admin_role) (roles (app_db demo_app)) = Some demo_admin_role"
    by (simp add: demo_app_def demo_rbac_db_def)
  then obtain x db' where t: "updateRole_tx demo_admin_role demo_revoke (Some 1) 5 (app_db demo_app) = Inr (x, db')"
    by (simp add: updateRole_tx_def demo_revoke_def role_new_slug_def truthy_str_def role_update_def)
  obtain s where "role_invalidation demo_admin_role 5 (app_redis demo_app) = Inr ((), s)"
    using role_invalidation_demo by (auto simp: demo_app_def)
  with f t obtain r a' where u: "updateRole ''admin'' demo_revoke (Some 1) 5 demo_app = (Inr r, a')"
    by (simp add: updateRole_def demo_revoke_def validateAccess_def then_cache_def in_db_def transaction_def)
  then have "(\<exists>r. updateRole ''admin'' demo_revoke (Some 1) 5 demo_app = (Inr r, a'))
      \<or> deleteRole ''admin'' (Some 1) 5 demo_app = (Inr (), a')" by blast
  from role_change_takes_effect [OF i this, of 1 "''module.dashboard.index''" 6] u show ?thesis by auto
qed

end
