(* ===== verification/Auth_Service.thy ===== *)
theory Auth_Service
  imports Otp Refresh_Rotation Identity_Repository Cache
begin

text \<open>
  Registration, login, refresh, logout, email verification and password reset
  (\<^verbatim>\<open>src/modules/auth/auth.service.ts\<close>, \<^verbatim>\<open>registration.settings.ts\<close>). \<open>now\<close> is the clock of the
  process, \<open>dbnow\<close> that of the database; the random bytes of tokens and the generated keys are
  arguments. A service that ends in an error keeps exactly what its transaction committed. \<open>W\<close> is what
  other transactions commit between the look-ups of a registration or a reset and its writes.
\<close>

section \<open>Registration\<close>

record register_input =
  ri_name :: string
  ri_email :: string
  ri_password :: string
  ri_registrationToken :: "string option"

definition settings_mode :: "env \<Rightarrow> registration_mode" where
  "settings_mode E = REGISTRATION_VERIFICATION E"

definition settings_defaultRoleSlug :: "env \<Rightarrow> string option" where
  "settings_defaultRoleSlug E = REGISTRATION_DEFAULT_ROLE E"

definition defaultRoleId :: "env \<Rightarrow> database \<Rightarrow> error + nat option" where
  "defaultRoleId E db =
     (case settings_defaultRoleSlug E of
        None \<Rightarrow> Inr None
      | Some slug \<Rightarrow>
          if slug = [] then Inr None
          else (case findActiveRoleIdBySlug slug db of
                  None \<Rightarrow> Inl (AppError ''Registration is temporarily unavailable'' 500)
                | Some i \<Rightarrow> Inr (Some i)))"

definition json_opt :: "string option \<Rightarrow> json" where
  "json_opt s = (case s of None \<Rightarrow> JNull | Some x \<Rightarrow> JStr x)"

definition token_payload :: "user \<Rightarrow> string \<Rightarrow> json" where
  "token_payload u token = JObj [(''email'', json_opt (user_email u)), (''name'', json_opt (user_name u)),
     (''token'', JStr token)]"

lemma token_payload_token [simp]: "json_field ''token'' (token_payload u token) = Some (JStr token)"
  by (simp add: token_payload_def json_field_def)

definition safe_user :: "user \<Rightarrow> user" where
  "safe_user u = u\<lparr>user_password := None\<rparr>"

text \<open>The account is created from here on; \<open>slug\<close> is searched in the same transaction. Neither the email nor the slug has a unique index: \<open>W\<close> is what other transactions commit between the
  look-ups and the insert.\<close>

definition register_account_between ::
  "(database \<Rightarrow> database) \<Rightarrow> crypto \<Rightarrow> env \<Rightarrow> byte list \<Rightarrow> string \<Rightarrow> time \<Rightarrow> time \<Rightarrow> register_input \<Rightarrow> (database, user) tx" where
  "register_account_between W C E rnd uuid now dbnow d db =
     (case defaultRoleId E db of
        Inl e \<Rightarrow> Inl e
      | Inr roleId \<Rightarrow>
          (let otpMode = (settings_mode E = Otp);
               hashedPassword = bcrypt_hash C (ri_password d)
           in case makeUniqueSlug (ri_name d) (user_slug_taken db None) of
                None \<Rightarrow> Inl NoReturn
              | Some slug \<Rightarrow>
                  (case createUser \<lparr>cu_name = ri_name d, cu_slug = slug, cu_email = ri_email d,
                          cu_password = hashedPassword, cu_roleId = roleId, cu_isEmailVerified = otpMode\<rparr> dbnow (W db) of
                     Inl e \<Rightarrow> Inl e
                   | Inr (u, db1) \<Rightarrow>
                       if otpMode then Inr (safe_user u, db1)
                       else (let token = generateToken rnd in
                             case createEmailVerificationToken uuid token (user_id u)
                                    (now + int (EMAIL_VERIFICATION_EXPIRES_HOURS E) * 3600000) dbnow db1 of
                               Inl e \<Rightarrow> Inl e
                             | Inr db2 \<Rightarrow> Inr (safe_user u,
                                 enqueue QUEUE_EMAIL JOB_VERIFICATION (token_payload u token) dbnow db2)))))"

definition email_in_use :: "env \<Rightarrow> (string \<Rightarrow> string) \<Rightarrow> string \<Rightarrow> database \<Rightarrow> bool" where
  "email_in_use E lower email db =
     (if settings_mode E = Otp then findUserByEmailInsensitive lower email db \<noteq> None
      else findUserByEmail email db \<noteq> None)"

definition register_between ::
  "(database \<Rightarrow> database) \<Rightarrow> crypto \<Rightarrow> env \<Rightarrow> (string \<Rightarrow> string) \<Rightarrow> byte list \<Rightarrow> string \<Rightarrow> time \<Rightarrow> time \<Rightarrow> register_input
     \<Rightarrow> (database, user) tx" where
  "register_between W C E lower rnd uuid now dbnow d db =
     (if email_in_use E lower (ri_email d) db then Inl (AppError ''Email already in use'' 400)
      else (case (if settings_mode E = Otp
                  then consumeForRegistration C E (ri_email d) (ri_registrationToken d) dbnow db
                  else Inr ((), db)) of
              Inl e \<Rightarrow> Inl e
            | Inr (_, db0) \<Rightarrow> register_account_between W C E rnd uuid now dbnow d db0))"

definition register_account ::
  "crypto \<Rightarrow> env \<Rightarrow> byte list \<Rightarrow> string \<Rightarrow> time \<Rightarrow> time \<Rightarrow> register_input \<Rightarrow> (database, user) tx" where
  "register_account = register_account_between (\<lambda>db. db)"

definition register_tx ::
  "crypto \<Rightarrow> env \<Rightarrow> (string \<Rightarrow> string) \<Rightarrow> byte list \<Rightarrow> string \<Rightarrow> time \<Rightarrow> time \<Rightarrow> register_input
     \<Rightarrow> (database, user) tx" where
  "register_tx = register_between (\<lambda>db. db)"

lemmas register_account_alone = register_account_def [THEN fun_cong, THEN fun_cong, THEN fun_cong, THEN fun_cong, THEN fun_cong,
  THEN fun_cong, THEN fun_cong, THEN fun_cong, unfolded register_account_between_def]

lemmas register_alone = register_tx_def [THEN fun_cong, THEN fun_cong, THEN fun_cong, THEN fun_cong, THEN fun_cong,
  THEN fun_cong, THEN fun_cong, THEN fun_cong, THEN fun_cong, unfolded register_between_def, folded register_account_def]

definition register ::
  "crypto \<Rightarrow> env \<Rightarrow> (string \<Rightarrow> string) \<Rightarrow> byte list \<Rightarrow> string \<Rightarrow> time \<Rightarrow> time \<Rightarrow> register_input
     \<Rightarrow> (database, user) service" where
  "register C E lower rnd uuid now dbnow d = transaction (register_tx C E lower rnd uuid now dbnow d)"

section \<open>Sessions\<close>

record auth_tokens =
  at_accessToken :: string
  at_refreshToken :: string

definition login ::
  "crypto \<Rightarrow> env \<Rightarrow> byte list \<Rightarrow> string \<Rightarrow> string \<Rightarrow> time \<Rightarrow> time \<Rightarrow> string \<Rightarrow> string
     \<Rightarrow> (database, auth_tokens) service" where
  "login C E rnd uuid family now dbnow email password db =
     (let refused = Inl (AppError ''Unable to sign in. Please verify your credentials or activate your account first.'' 401)
      in case findUserByEmail email db of
           None \<Rightarrow> (refused, db)
         | Some u \<Rightarrow>
             if \<not> user_isEmailVerified u then (refused, db)
             else (case user_password u of
                     None \<Rightarrow> (Inl (ThrownError ''Illegal arguments: string, object''), db)
                   | Some h \<Rightarrow>
                       if \<not> bcrypt_compare C password h
                       then (Inl (AppError ''Invalid email or password'' 401), db)
                       else (let accessToken = generateAccessToken C E (user_id u) now;
                                 refreshToken = generateToken rnd
                             in case createRefreshToken uuid (hashToken C refreshToken) (user_id u) family
                                       (now + int (REFRESH_TOKEN_EXPIRES_DAYS E) * 86400000) dbnow db of
                                  Inl e \<Rightarrow> (Inl e, db)
                                | Inr db' \<Rightarrow> (Inr \<lparr>at_accessToken = accessToken, at_refreshToken = refreshToken\<rparr>, db'))))"

definition invalid_refresh :: error where "invalid_refresh = AppError ''Invalid refresh token'' 401"

definition refreshAccessToken ::
  "crypto \<Rightarrow> env \<Rightarrow> (refresh_token list \<Rightarrow> refresh_token list) \<Rightarrow> interference \<Rightarrow> byte list \<Rightarrow> byte list
     \<Rightarrow> string \<Rightarrow> time \<Rightarrow> time \<Rightarrow> string \<Rightarrow> (database, auth_tokens) service" where
  "refreshAccessToken C E W I rnd iv uuid now dbnow token db =
     (if token = [] then (Inl (AppError ''Refresh token required'' 401), db)
      else (case transaction (rotateRefreshToken C E W I rnd iv uuid dbnow token now) db of
              (Inl e, db') \<Rightarrow> (Inl e, db')
            | (Inr (Issued userId refreshToken), db') \<Rightarrow>
                (Inr \<lparr>at_accessToken = generateAccessToken C E userId now, at_refreshToken = refreshToken\<rparr>, db')
            | (Inr Expired, db') \<Rightarrow> (Inl (AppError ''Refresh token expired'' 401), db')
            | (Inr (Reused userId familyId), db') \<Rightarrow> (Inl invalid_refresh, db')
            | (Inr Invalid, db') \<Rightarrow> (Inl invalid_refresh, db')))"

text \<open>Outside a transaction every pass of a revocation commits by itself: the table after all
  passes of one that does not converge.\<close>

fun revoke_passes :: "interference \<Rightarrow> (refresh_token \<Rightarrow> bool) \<Rightarrow> nat \<Rightarrow> nat \<Rightarrow> refresh_token list \<Rightarrow> refresh_token list" where
  "revoke_passes I P 0 pass t = t"
| "revoke_passes I P (Suc left) pass t = revoke_passes I P left (pass + 1) (delete_where P (I pass t))"

definition revoke_autocommit :: "interference \<Rightarrow> (refresh_token \<Rightarrow> bool) \<Rightarrow> (database, nat) service" where
  "revoke_autocommit I P db =
     (case revokeRefreshTokens I P db of
        Inl e \<Rightarrow> (Inl e, db\<lparr>refresh_tokens := revoke_passes I P MAX_REVOCATION_PASSES 0 (refresh_tokens db)\<rparr>)
      | Inr (n, db') \<Rightarrow> (Inr n, db'))"

definition profileKey :: "nat \<Rightarrow> string" where
  "profileKey userId = ''profile:'' @ show_nat userId"

text \<open>A failing cache is logged and otherwise ignored.\<close>

definition logout :: "crypto \<Rightarrow> interference \<Rightarrow> string \<Rightarrow> (database \<times> redis, unit) service" where
  "logout C I token st = (case st of (db, s) \<Rightarrow>
     (case findRefreshToken (hashToken C token) db of
        None \<Rightarrow> (Inl invalid_refresh, (db, s))
      | Some r \<Rightarrow>
          (case revoke_autocommit I (in_family (rt_userId r) (rt_familyId r)) db of
             (Inl e, db') \<Rightarrow> (Inl e, (db', s))
           | (Inr _, db') \<Rightarrow>
               (case cache_del [profileKey (rt_userId r)] s of
                  Inl e \<Rightarrow> (Inr (), (db', s))
                | Inr (_, s') \<Rightarrow> (Inr (), (db', s'))))))"

section \<open>Email verification\<close>

definition notice_payload :: "user \<Rightarrow> json" where
  "notice_payload u = JObj [(''email'', json_opt (user_email u)), (''name'', json_opt (user_name u))]"

definition delete_verification_token :: "string \<Rightarrow> database \<Rightarrow> database" where
  "delete_verification_token token db =
     db\<lparr>email_verification_tokens := delete_where (\<lambda>r. evt_token r = token) (email_verification_tokens db)\<rparr>"

text \<open>The value \<open>None\<close> is the committed answer "expired".\<close>

definition verifyEmail_tx :: "time \<Rightarrow> time \<Rightarrow> string \<Rightarrow> (database, user option) tx" where
  "verifyEmail_tx now dbnow token db =
     (case findEmailVerificationToken token db of
        None \<Rightarrow> Inl (AppError ''Invalid token'' 400)
      | Some r \<Rightarrow>
          if evt_expiresAt r < now then Inr (None, delete_verification_token token db)
          else (case user_update (evt_userId r) (no_user_patch\<lparr>up_isEmailVerified := Some True\<rparr>) now db of
                  Inl e \<Rightarrow> Inl e
                | Inr (u, db1) \<Rightarrow>
                    Inr (Some u, enqueue QUEUE_EMAIL JOB_VERIFICATION_SUCCESS (notice_payload u) dbnow
                           (delete_verification_token token db1))))"

definition verifyEmail :: "time \<Rightarrow> time \<Rightarrow> string \<Rightarrow> (database, unit) service" where
  "verifyEmail now dbnow token db =
     (case transaction (verifyEmail_tx now dbnow token) db of
        (Inl e, db') \<Rightarrow> (Inl e, db')
      | (Inr None, db') \<Rightarrow> (Inl (AppError ''Token expired'' 400), db')
      | (Inr (Some u), db') \<Rightarrow> (Inr (), db'))"

section \<open>Password reset\<close>

definition request_reset_tx ::
  "env \<Rightarrow> string \<Rightarrow> string \<Rightarrow> time \<Rightarrow> time \<Rightarrow> user \<Rightarrow> (database, unit) tx" where
  "request_reset_tx E uuid token now dbnow u db =
     (let db1 = snd (deleteUnusedPasswordResetTokens (user_id u) db) in
      case createPasswordResetToken uuid token (user_id u)
             (now + int (PASSWORD_RESET_EXPIRES_MINUTES E) * 60000) dbnow db1 of
        Inl e \<Rightarrow> Inl e
      | Inr db2 \<Rightarrow> Inr ((), enqueue QUEUE_EMAIL JOB_RESET_PASSWORD (token_payload u token) dbnow db2))"

definition requestPasswordReset ::
  "env \<Rightarrow> byte list \<Rightarrow> string \<Rightarrow> time \<Rightarrow> time \<Rightarrow> string \<Rightarrow> (database, unit) service" where
  "requestPasswordReset E rnd uuid now dbnow email db =
     (case findUserByEmail email db of
        None \<Rightarrow> (Inr (), db)
      | Some u \<Rightarrow> transaction (request_reset_tx E uuid (generateToken rnd) now dbnow u) db)"

text \<open>The check of the link takes no lock: \<open>W\<close> is what other transactions commit between it and the first
  write.\<close>

definition resetPassword_between ::
  "crypto \<Rightarrow> (database \<Rightarrow> database) \<Rightarrow> interference \<Rightarrow> time \<Rightarrow> string \<Rightarrow> string \<Rightarrow> (database, nat option) tx" where
  "resetPassword_between C W I now token newPassword db =
     (case findUniqueToken token db of
        None \<Rightarrow> Inl (AppError ''Invalid token'' 400)
      | Some r \<Rightarrow>
          if prt_expiresAt r < now then Inr (None, snd (deletePasswordResetToken token (W db)))
          else if prt_usedAt r \<noteq> None then Inl (AppError ''Token already used'' 400)
          else (case user_update (prt_userId r)
                       (no_user_patch\<lparr>up_password := Some (bcrypt_hash C newPassword)\<rparr>) now (W db) of
                  Inl e \<Rightarrow> Inl e
                | Inr (u, db1) \<Rightarrow>
                    (case updatePasswordResetToken token now db1 of
                       Inl e \<Rightarrow> Inl e
                     | Inr db2 \<Rightarrow>
                         (case deleteRefreshTokensByUserId I (prt_userId r) db2 of
                            Inl e \<Rightarrow> Inl e
                          | Inr (n, db3) \<Rightarrow> Inr (Some (prt_userId r), db3)))))"

definition resetPassword_tx ::
  "crypto \<Rightarrow> interference \<Rightarrow> time \<Rightarrow> string \<Rightarrow> string \<Rightarrow> (database, nat option) tx" where
  "resetPassword_tx C = resetPassword_between C (\<lambda>db. db)"

lemmas resetPassword_alone = resetPassword_tx_def [THEN fun_cong, THEN fun_cong, THEN fun_cong, THEN fun_cong, THEN fun_cong,
  unfolded resetPassword_between_def]

definition resetPassword ::
  "crypto \<Rightarrow> interference \<Rightarrow> time \<Rightarrow> string \<Rightarrow> string \<Rightarrow> (database, unit) service" where
  "resetPassword C I now token newPassword db =
     (case transaction (resetPassword_tx C I now token newPassword) db of
        (Inl e, db') \<Rightarrow> (Inl e, db')
      | (Inr None, db') \<Rightarrow> (Inl (AppError ''Token expired'' 400), db')
      | (Inr (Some userId), db') \<Rightarrow> (Inr (), db'))"

section \<open>Effects of the repository calls\<close>

lemma createUser_Inr:
  assumes "createUser d now db = Inr (u, db')"
  shows "db' = db\<lparr>users := users db @ [u], users_seq := users_seq db + 1\<rparr> \<and> user_id u = users_seq db
    \<and> user_name u = Some (cu_name d) \<and> user_slug u = Some (cu_slug d) \<and> user_email u = Some (cu_email d)
    \<and> user_password u = Some (cu_password d) \<and> user_roleId u = cu_roleId d
    \<and> user_isEmailVerified u = cu_isEmailVerified d \<and> active u"
  using assms by (auto simp: createUser_def Let_def active_def split: if_splits)

lemma createEmailVerificationToken_Inr:
  assumes "createEmailVerificationToken uuid token userId x now db = Inr db'"
  shows "\<exists>t. db' = db\<lparr>email_verification_tokens := email_verification_tokens db @ [t]\<rparr>
    \<and> evt_token t = token \<and> evt_userId t = userId \<and> evt_expiresAt t = x
    \<and> token \<notin> evt_token ` set (email_verification_tokens db)"
  using assms by (auto simp: createEmailVerificationToken_def split: if_splits)

lemma enqueue_one:
  "\<exists>i. outbox (enqueue q j p now db) = outbox db @ [i] \<and> ob_queueName i = q \<and> ob_jobName i = j
     \<and> ob_payload i = p \<and> ob_status i = PENDING"
  using outbox_log.record_adds by blast

lemma user_update_Inr:
  assumes "user_update rowId p now db = Inr (u', db')"
  shows "\<exists>u. find_first (\<lambda>u. user_id u = rowId) (users db) = Some u \<and> u' = apply_user_patch p now u
    \<and> db' = db\<lparr>users := update_where (\<lambda>u. user_id u = rowId) (apply_user_patch p now) (users db)\<rparr>"
  using assms by (auto simp: user_update_def split: option.splits if_splits)

section \<open>Registration by link\<close>

lemma register_account_link:
  assumes "settings_mode E = Link" and "register_account C E rnd uuid now dbnow d db = Inr (su, db')"
  shows "\<exists>u t i. su = safe_user u \<and> users db' = users db @ [u] \<and> users_seq db' = users_seq db + 1
    \<and> user_id u = users_seq db \<and> user_email u = Some (ri_email d) \<and> user_name u = Some (ri_name d)
    \<and> user_password u = Some (bcrypt_hash C (ri_password d)) \<and> \<not> user_isEmailVerified u \<and> active u
    \<and> (\<forall>w \<in> set (users db). active w \<longrightarrow> user_slug w \<noteq> user_slug u)
    \<and> email_verification_tokens db' = email_verification_tokens db @ [t]
    \<and> evt_token t = generateToken rnd \<and> evt_userId t = user_id u
    \<and> evt_expiresAt t = now + int (EMAIL_VERIFICATION_EXPIRES_HOURS E) * 3600000
    \<and> generateToken rnd \<notin> evt_token ` set (email_verification_tokens db)
    \<and> outbox db' = outbox db @ [i] \<and> ob_queueName i = QUEUE_EMAIL \<and> ob_jobName i = JOB_VERIFICATION
    \<and> ob_payload i = token_payload u (generateToken rnd) \<and> ob_status i = PENDING
    \<and> refresh_tokens db' = refresh_tokens db"
proof -
  obtain roleId slug u db1 where slug: "makeUniqueSlug (ri_name d) (user_slug_taken db None) = Some slug"
    and c: "createUser \<lparr>cu_name = ri_name d, cu_slug = slug, cu_email = ri_email d,
        cu_password = bcrypt_hash C (ri_password d), cu_roleId = roleId, cu_isEmailVerified = False\<rparr> dbnow db = Inr (u, db1)"
    and rest: "(case createEmailVerificationToken uuid (generateToken rnd) (user_id u)
        (now + int (EMAIL_VERIFICATION_EXPIRES_HOURS E) * 3600000) dbnow db1 of Inl e \<Rightarrow> Inl e
      | Inr db2 \<Rightarrow> Inr (safe_user u, enqueue QUEUE_EMAIL JOB_VERIFICATION (token_payload u (generateToken rnd)) dbnow db2))
      = Inr (su, db')"
    using assms by (auto simp: register_account_alone Let_def split: sum.splits option.splits)
  note u = createUser_Inr [OF c]
  from rest obtain db2 where v: "createEmailVerificationToken uuid (generateToken rnd) (user_id u)
        (now + int (EMAIL_VERIFICATION_EXPIRES_HOURS E) * 3600000) dbnow db1 = Inr db2"
    and db': "db' = enqueue QUEUE_EMAIL JOB_VERIFICATION (token_payload u (generateToken rnd)) dbnow db2"
    and su: "su = safe_user u" by (auto split: sum.splits)
  obtain t where t: "db2 = db1\<lparr>email_verification_tokens := email_verification_tokens db1 @ [t]\<rparr>"
    "evt_token t = generateToken rnd" "evt_userId t = user_id u"
    "evt_expiresAt t = now + int (EMAIL_VERIFICATION_EXPIRES_HOURS E) * 3600000"
    "generateToken rnd \<notin> evt_token ` set (email_verification_tokens db1)"
    using createEmailVerificationToken_Inr [OF v] by blast
  obtain i where i: "outbox db' = outbox db2 @ [i]" "ob_queueName i = QUEUE_EMAIL" "ob_jobName i = JOB_VERIFICATION"
    "ob_payload i = token_payload u (generateToken rnd)" "ob_status i = PENDING"
    using enqueue_one unfolding db' by blast
  have "user_slug w \<noteq> user_slug u" if "w \<in> set (users db)" "active w" for w
    using user_slugs.unique_slug_fresh_row [OF slug that(1)] that(2) u by (simp add: user_counts_def)
  with u t i su db' show ?thesis by auto
qed

text \<open>C35. Registration by link is all or nothing. If it succeeds there is one new account, not yet
  verified, under an address no active account had, with a slug no active account has and with
  the password only as its hash; one verification token for it; and one email intent, which
  carries that very token. If it fails nothing has changed.\<close>

theorem register_link_atomic:
  assumes "settings_mode E = Link" and "register C E lower rnd uuid now dbnow d db = (result, db')"
  shows "(\<forall>e. result = Inl e \<longrightarrow> db' = db)
    \<and> (\<forall>su. result = Inr su \<longrightarrow> findUserByEmail (ri_email d) db = None \<and>
       (\<exists>u t i. su = safe_user u \<and> users db' = users db @ [u] \<and> user_email u = Some (ri_email d)
          \<and> user_password u = Some (bcrypt_hash C (ri_password d)) \<and> \<not> user_isEmailVerified u
          \<and> (\<forall>w \<in> set (users db). active w \<longrightarrow> user_slug w \<noteq> user_slug u)
          \<and> email_verification_tokens db' = email_verification_tokens db @ [t] \<and> evt_userId t = user_id u
          \<and> outbox db' = outbox db @ [i] \<and> ob_jobName i = JOB_VERIFICATION
          \<and> json_field ''token'' (ob_payload i) = Some (JStr (evt_token t))))"
proof (intro conjI allI impI)
  fix e assume "result = Inl e"
  then show "db' = db" using assms(2) transaction_rollback by (metis register_def)
next
  fix su assume "result = Inr su"
  then have run: "register_tx C E lower rnd uuid now dbnow d db = Inr (su, db')"
    using assms(2) by (simp add: register_def transaction_eq_Inr)
  then show "findUserByEmail (ri_email d) db = None"
    using assms(1) by (auto simp: register_alone email_in_use_def split: if_splits)
  from run have "register_account C E rnd uuid now dbnow d db = Inr (su, db')"
    using assms(1) by (auto simp: register_alone split: if_splits)
  from register_account_link [OF assms(1) this]
  show "\<exists>u t i. su = safe_user u \<and> users db' = users db @ [u] \<and> user_email u = Some (ri_email d)
          \<and> user_password u = Some (bcrypt_hash C (ri_password d)) \<and> \<not> user_isEmailVerified u
          \<and> (\<forall>w \<in> set (users db). active w \<longrightarrow> user_slug w \<noteq> user_slug u)
          \<and> email_verification_tokens db' = email_verification_tokens db @ [t] \<and> evt_userId t = user_id u
          \<and> outbox db' = outbox db @ [i] \<and> ob_jobName i = JOB_VERIFICATION
          \<and> json_field ''token'' (ob_payload i) = Some (JStr (evt_token t))"
    by (elim exE conjE) (intro exI conjI, assumption+, simp add: token_payload_def json_field_def)
qed

text \<open>Registration by link goes through whenever nothing stands in its way.\<close>

lemma register_account_total:
  assumes "settings_mode E = Link" and "settings_defaultRoleSlug E = None"
    and "generateToken rnd \<notin> evt_token ` set (email_verification_tokens db)"
  shows "\<exists>su db'. register_account C E rnd uuid now dbnow d db = Inr (su, db')"
proof -
  obtain slug where "makeUniqueSlug (ri_name d) (user_slug_taken db None) = Some slug"
    using user_slugs.unique_slug_returns by blast
  with assms show ?thesis
    by (simp add: register_account_alone defaultRoleId_def createUser_def createEmailVerificationToken_def Let_def)
qed

definition demo_register :: register_input where
  "demo_register = \<lparr>ri_name = ''Ann Lee'', ri_email = ''ann@x.io'', ri_password = ''pw'', ri_registrationToken = None\<rparr>"

lemma register_demo:
  "\<exists>su db'. register demo_crypto default_env (\<lambda>s. s) rnd ''e1'' 0 0 demo_register empty_db = (Inr su, db')"
proof -
  have m: "settings_mode default_env = Link" "settings_defaultRoleSlug default_env = None"
    by (simp_all add: settings_mode_def settings_defaultRoleSlug_def default_env_def)
  obtain su db' where a: "register_account demo_crypto default_env rnd ''e1'' 0 0 demo_register empty_db = Inr (su, db')"
    using register_account_total [OF m] by (fastforce simp: empty_db_def)
  moreover have "\<not> email_in_use default_env (\<lambda>s. s) (ri_email demo_register) empty_db"
    by (simp add: email_in_use_def findUserByEmail_def findUserByEmailInsensitive_def empty_db_def)
  ultimately have "register_tx demo_crypto default_env (\<lambda>s. s) rnd ''e1'' 0 0 demo_register empty_db = Inr (su, db')"
    using m by (simp add: register_alone)
  then show ?thesis by (auto simp: register_def)
qed

theorem register_link_atomic_witness:
  "\<exists>su db' u. register demo_crypto default_env (\<lambda>s. s) [1] ''e1'' 0 0 demo_register empty_db = (Inr su, db')
     \<and> users db' = [u] \<and> user_email u = Some ''ann@x.io'' \<and> \<not> user_isEmailVerified u"
proof -
  obtain su db' where r: "register demo_crypto default_env (\<lambda>s. s) [1] ''e1'' 0 0 demo_register empty_db = (Inr su, db')"
    using register_demo by blast
  have "settings_mode default_env = Link" by (simp add: settings_mode_def default_env_def)
  from register_link_atomic [OF this r] r show ?thesis by (auto simp: demo_register_def empty_db_def)
qed

section \<open>Sessions\<close>

lemma createRefreshToken_eq:
  assumes "h \<notin> rt_token ` set (refresh_tokens db)" and "uuid \<notin> rt_id ` set (refresh_tokens db)"
    and "userId \<in> user_id ` set (users db)"
  shows "createRefreshToken uuid h userId family x now db = Inr (db\<lparr>refresh_tokens := refresh_tokens db @
    [\<lparr>rt_id = uuid, rt_token = h, rt_userId = userId, rt_familyId = family, rt_expiresAt = x,
      rt_createdAt = now, rt_rotatedAt = None, rt_successorCiphertext = None\<rparr>]\<rparr>)"
  using assms by (simp add: createRefreshToken_def)

lemma findUserByEmail_SomeD:
  "findUserByEmail email db = Some u \<Longrightarrow> u \<in> set (users db) \<and> user_email u = Some email \<and> active u"
  unfolding findUserByEmail_def by (drule find_first_SomeD) simp

lemma login_ok:
  assumes "findUserByEmail email db = Some u" and "user_isEmailVerified u" and "user_password u = Some h"
    and "bcrypt_compare C password h"
    and "hashToken C (generateToken rnd) \<notin> rt_token ` set (refresh_tokens db)"
    and "uuid \<notin> rt_id ` set (refresh_tokens db)"
  shows "login C E rnd uuid family now dbnow email password db
    = (Inr \<lparr>at_accessToken = generateAccessToken C E (user_id u) now, at_refreshToken = generateToken rnd\<rparr>,
       db\<lparr>refresh_tokens := refresh_tokens db @ [\<lparr>rt_id = uuid, rt_token = hashToken C (generateToken rnd),
         rt_userId = user_id u, rt_familyId = family,
         rt_expiresAt = now + int (REFRESH_TOKEN_EXPIRES_DAYS E) * 86400000, rt_createdAt = dbnow,
         rt_rotatedAt = None, rt_successorCiphertext = None\<rparr>]\<rparr>)"
proof -
  have "user_id u \<in> user_id ` set (users db)" using findUserByEmail_SomeD [OF assms(1)] by simp
  then show ?thesis using assms by (simp add: login_def createRefreshToken_eq Let_def)
qed

text \<open>A successful login leads to a usable session: it is granted only to an active account
  with a verified address and the right password, it stores the token only as its hash, and
  presenting the token before it expires is answered with a successor for the same user.\<close>

theorem login_opens_session:
  assumes "rt_inv (refresh_tokens db)" and "random64_ok rnd"
    and "login C E rnd uuid family now dbnow email password db = (Inr tokens, db')"
    and "now2 < now + int (REFRESH_TOKEN_EXPIRES_DAYS E) * 86400000"
    and "hashToken C (generateToken rnd2) \<notin> rt_token ` set (refresh_tokens db')"
    and "uuid2 \<notin> rt_id ` set (refresh_tokens db')"
  shows "\<exists>u h. findUserByEmail email db = Some u \<and> user_isEmailVerified u \<and> user_password u = Some h
    \<and> bcrypt_compare C password h
    \<and> (\<exists>db''. refreshAccessToken C E (\<lambda>t. t) I rnd2 iv uuid2 now2 dbnow2 (at_refreshToken tokens) db'
         = (Inr \<lparr>at_accessToken = generateAccessToken C E (user_id u) now2,
                 at_refreshToken = generateToken rnd2\<rparr>, db''))"
proof -
  obtain u h where u: "findUserByEmail email db = Some u" "user_isEmailVerified u" "user_password u = Some h"
      "bcrypt_compare C password h"
    and c: "\<exists>db1. createRefreshToken uuid (hashToken C (generateToken rnd)) (user_id u) family
        (now + int (REFRESH_TOKEN_EXPIRES_DAYS E) * 86400000) dbnow db = Inr db1"
    using assms(3) by (auto simp: login_def Let_def split: option.splits if_splits sum.splits)
  then have fresh: "hashToken C (generateToken rnd) \<notin> rt_token ` set (refresh_tokens db)"
    "uuid \<notin> rt_id ` set (refresh_tokens db)" by (auto simp: createRefreshToken_def split: if_splits)
  let ?r = "\<lparr>rt_id = uuid, rt_token = hashToken C (generateToken rnd), rt_userId = user_id u,
    rt_familyId = family, rt_expiresAt = now + int (REFRESH_TOKEN_EXPIRES_DAYS E) * 86400000,
    rt_createdAt = dbnow, rt_rotatedAt = None, rt_successorCiphertext = None\<rparr>"
  have tok: "at_refreshToken tokens = generateToken rnd"
    and db': "db' = db\<lparr>refresh_tokens := refresh_tokens db @ [?r]\<rparr>"
    using assms(3) login_ok [OF u fresh, of E family now dbnow] by auto
  have "find_first (\<lambda>r. rt_token r = hashToken C (generateToken rnd)) (refresh_tokens db) = None"
    using fresh(1) by (simp only: find_first_None_iff) (metis image_eqI)
  then have f: "findRefreshToken (hashToken C (generateToken rnd)) db' = Some ?r"
    by (simp add: findRefreshToken_def db' find_first_append)
  have d: "distinct (map rt_id (refresh_tokens db'))"
    using assms(1) fresh(2) by (simp add: db' rt_inv_def rt_keys_def)
  have usr: "user_id u \<in> user_id ` set (users db')" using findUserByEmail_SomeD [OF u(1)] by (simp add: db')
  have live: "now2 < rt_expiresAt ?r" "rt_rotatedAt ?r = None" using assms(4) by simp_all
  have keys: "rt_token ` set (claim_table i ct n (refresh_tokens db')) = rt_token ` set (refresh_tokens db')"
      "rt_id ` set (claim_table i ct n (refresh_tokens db')) = rt_id ` set (refresh_tokens db')" for i ct n
    by (metis claim_table_keys(2) list.set_map, metis claim_table_keys(1) list.set_map)
  have "\<exists>db''. rotateRefreshToken C E (\<lambda>t. t) I rnd2 iv uuid2 dbnow2 (generateToken rnd) now2 db'
      = Inr (Issued (user_id u) (generateToken rnd2), db'')"
    unfolding rotate_claimed [OF f live d]
    using assms(5,6) usr by (simp add: createRefreshToken_def keys)
  then have "\<exists>db''. refreshAccessToken C E (\<lambda>t. t) I rnd2 iv uuid2 now2 dbnow2 (generateToken rnd) db'
      = (Inr \<lparr>at_accessToken = generateAccessToken C E (user_id u) now2,
              at_refreshToken = generateToken rnd2\<rparr>, db'')"
    using generateToken_nonempty [OF assms(2)] by (auto simp: refreshAccessToken_def)
  with u tok show ?thesis by simp
qed

definition demo_random2 :: "byte list" where "demo_random2 = replicate 64 100"

lemma demo_randoms_differ: "generateToken demo_random2 \<noteq> generateToken demo_random"
proof
  assume "generateToken demo_random2 = generateToken demo_random"
  then have "hex_decode (hex_encode demo_random2) = hex_decode (hex_encode demo_random)"
    by (simp add: generateToken_def)
  then show False
    by (simp add: hex_decode_encode demo_random_def demo_random2_def bytes_ok_def list_all_iff
        numeral_eq_Suc)
qed

theorem login_opens_session_witness:
  "\<exists>tokens db' t2 db''. login demo_crypto default_env demo_random ''r2'' ''f2'' 0 0 ''ann@x.io'' ''pw'' demo_token_db
       = (Inr tokens, db')
     \<and> refreshAccessToken demo_crypto default_env (\<lambda>t. t) quiet demo_random2 demo_iv ''r3'' 1000 1000
         (at_refreshToken tokens) db' = (Inr t2, db'')"
proof -
  have u: "findUserByEmail ''ann@x.io'' demo_token_db = Some demo_user" "user_isEmailVerified demo_user"
    "user_password demo_user = Some ''$pw''" "bcrypt_compare demo_crypto ''pw'' ''$pw''"
    by (simp_all add: findUserByEmail_def demo_token_defs active_def demo_crypto_def)
  have fresh: "hashToken demo_crypto (generateToken demo_random) \<notin> rt_token ` set (refresh_tokens demo_token_db)"
    "''r2'' \<notin> rt_id ` set (refresh_tokens demo_token_db)"
    using demo_successor_fresh by (simp_all add: demo_hash demo_token_defs)
  note l = login_ok [OF u fresh, of default_env "''f2''" 0 0]
  have ne: "generateToken demo_random2 \<noteq> ''old''"
    by (rule notI, drule arg_cong [of _ _ length]) (simp add: generateToken_def demo_random2_def)
  obtain tokens db' where r: "login demo_crypto default_env demo_random ''r2'' ''f2'' 0 0 ''ann@x.io'' ''pw'' demo_token_db
      = (Inr tokens, db')" using l by blast
  have h: "1000 < 0 + int (REFRESH_TOKEN_EXPIRES_DAYS default_env) * 86400000"
    "hashToken demo_crypto (generateToken demo_random2) \<notin> rt_token ` set (refresh_tokens db')"
    "''r3'' \<notin> rt_id ` set (refresh_tokens db')"
    using l r ne demo_randoms_differ by (auto simp: demo_hash demo_token_defs default_env_def)
  from login_opens_session [OF demo_token_inv demo_random_ok(1) r h, of quiet demo_iv 1000] r
  show ?thesis by blast
qed

section \<open>Logout\<close>

lemma revoke_autocommit_quiet:
  "revoke_autocommit quiet P db = (Inr (count_where P (refresh_tokens db)),
     db\<lparr>refresh_tokens := delete_where P (refresh_tokens db)\<rparr>)"
  by (simp add: revoke_autocommit_def revokeRefreshTokens_quiet)

text \<open>Logout ends exactly the session of the presented token, whether or not the cache can be
  reached: afterwards every token of that session is refused, every other session is intact,
  and the cached profile is gone when the cache answered.\<close>

theorem logout_ends_session:
  assumes "distinct (map rt_token (refresh_tokens db))"
    and "findRefreshToken (hashToken C token) db = Some r"
    and "logout C quiet token (db, s) = (result, (db', s'))"
  shows "result = Inr ()
    \<and> (\<forall>q. q \<in> set (refresh_tokens db') \<longleftrightarrow>
         q \<in> set (refresh_tokens db) \<and> \<not> in_family (rt_userId r) (rt_familyId r) q)
    \<and> fst (refreshAccessToken C E W I rnd iv uuid now dbnow token db') \<noteq> Inr tokens
    \<and> (redis_up s \<longrightarrow> live_value s' now (profileKey (rt_userId r)) = None)"
proof -
  have db': "db' = db\<lparr>refresh_tokens := delete_where (in_family (rt_userId r) (rt_familyId r)) (refresh_tokens db)\<rparr>"
    and res: "result = Inr ()"
    and s': "redis_up s \<Longrightarrow> cache_del [profileKey (rt_userId r)] s = Inr ((), s')"
    using assms(2,3)
    by (auto simp: logout_def revoke_autocommit_quiet cache_defs split: sum.splits if_splits)
  have "in_family (rt_userId r) (rt_familyId r) p"
    if "p \<in> set (refresh_tokens db)" "rt_token p = hashToken C token" for p
    using find_token [OF assms(1) that(1)] that(2) assms(2) by (simp add: in_family_def)
  then have "findRefreshToken (hashToken C token) db' = None"
    unfolding findRefreshToken_def db' by (simp add: find_first_delete_where_None)
  then have "fst (refreshAccessToken C E W I rnd iv uuid now dbnow token db') \<noteq> Inr tokens"
    by (simp add: refreshAccessToken_def rotateRefreshToken_def Let_def transaction_def)
  moreover have "redis_up s \<longrightarrow> live_value s' now (profileKey (rt_userId r)) = None"
    using s' redis_store.drop_get by (metis list.set_intros(1))
  ultimately show ?thesis using res by (simp add: db')
qed

theorem logout_ends_session_witness:
  "\<exists>db' s'. logout demo_crypto quiet ''old'' (demo_token_db, empty_redis\<lparr>redis_up := False\<rparr>) = (Inr (), (db', s'))
     \<and> refresh_tokens db' = []"
proof -
  obtain result db' s' where r:
    "logout demo_crypto quiet ''old'' (demo_token_db, empty_redis\<lparr>redis_up := False\<rparr>) = (result, (db', s'))"
    by (metis prod.exhaust)
  have "distinct (map rt_token (refresh_tokens demo_token_db))" by (simp add: demo_token_defs)
  note L = logout_ends_session [OF this demo_find r]
  have "q \<notin> set (refresh_tokens db')" for q using L by (auto simp: demo_token_defs in_family_def)
  then have "refresh_tokens db' = []" by (metis list.set_intros(1) neq_Nil_conv)
  moreover have "result = Inr ()" using L by blast
  ultimately show ?thesis using r by blast
qed

section \<open>Email verification\<close>

lemma find_after_delete_token:
  "findEmailVerificationToken token (delete_verification_token token db) = None"
  unfolding findEmailVerificationToken_def delete_verification_token_def
  by (simp add: find_first_delete_where_None)

lemma findEmailVerificationToken_enqueue [simp]:
  "findEmailVerificationToken t (enqueue q j p now db) = findEmailVerificationToken t db"
  by (simp add: findEmailVerificationToken_def)

text \<open>A verification link works once: a valid one marks its user verified, removes the token and
  records exactly one notice; an expired one is removed although the request is refused; in both
  cases the link is invalid from then on, and any other error leaves everything as it was.\<close>

theorem verifyEmail_single_use:
  assumes "findEmailVerificationToken token db = Some t" and "verifyEmail now dbnow token db = (result, db')"
    and "\<And>e. result \<noteq> Inl (DbError e)"
  shows "verifyEmail now2 dbnow2 token db' = (Inl (AppError ''Invalid token'' 400), db')
    \<and> (if evt_expiresAt t < now
       then result = Inl (AppError ''Token expired'' 400) \<and> users db' = users db \<and> outbox db' = outbox db
       else result = Inr ()
         \<and> (\<exists>u i. find_first (\<lambda>u. user_id u = evt_userId t) (users db') = Some u \<and> user_isEmailVerified u
              \<and> outbox db' = outbox db @ [i] \<and> ob_jobName i = JOB_VERIFICATION_SUCCESS
              \<and> ob_payload i = notice_payload u))"
proof (cases "evt_expiresAt t < now")
  case True
  then have "verifyEmail now dbnow token db = (Inl (AppError ''Token expired'' 400), delete_verification_token token db)"
    using assms(1) by (simp add: verifyEmail_def verifyEmail_tx_def transaction_def)
  with True assms(2) show ?thesis
    by (auto simp: verifyEmail_def verifyEmail_tx_def transaction_def find_after_delete_token)
      (simp_all add: delete_verification_token_def)
next
  case False
  let ?p = "no_user_patch\<lparr>up_isEmailVerified := Some True\<rparr>"
  have "\<exists>u' db1. user_update (evt_userId t) ?p now db = Inr (u', db1)"
  proof (cases "user_update (evt_userId t) ?p now db")
    case (Inl e)
    then have "result = Inl e" using assms(1,2) False by (simp add: verifyEmail_def verifyEmail_tx_def transaction_def)
    moreover have "\<exists>m. e = DbError m" using Inl by (auto simp: user_update_def split: option.splits if_splits)
    ultimately show ?thesis using assms(3) by blast
  next
    case (Inr x)
    then show ?thesis by (cases x) auto
  qed
  then obtain u' db1 where up: "user_update (evt_userId t) ?p now db = Inr (u', db1)" by blast
  obtain u where u: "find_first (\<lambda>u. user_id u = evt_userId t) (users db) = Some u" "u' = apply_user_patch ?p now u"
    "db1 = db\<lparr>users := update_where (\<lambda>u. user_id u = evt_userId t) (apply_user_patch ?p now) (users db)\<rparr>"
    using user_update_Inr [OF up] by blast
  let ?db' = "enqueue QUEUE_EMAIL JOB_VERIFICATION_SUCCESS (notice_payload u') dbnow (delete_verification_token token db1)"
  have r: "result = Inr ()" "db' = ?db'"
    using assms(1,2) False up by (auto simp: verifyEmail_def verifyEmail_tx_def transaction_def)
  obtain i where i: "outbox ?db' = outbox (delete_verification_token token db1) @ [i]"
    "ob_jobName i = JOB_VERIFICATION_SUCCESS" "ob_payload i = notice_payload u'"
    using enqueue_one by blast
  have "find_first (\<lambda>u. user_id u = evt_userId t) (users db') = Some u'"
    using u(1,2) find_first_SomeD [OF u(1)]
    by (simp add: r u(3) delete_verification_token_def find_first_update_where)
  moreover have "user_isEmailVerified u'" by (simp add: u(2) apply_user_patch_def)
  moreover have "outbox db' = outbox db @ [i]" using i(1) by (simp add: r u(3) delete_verification_token_def)
  moreover have "verifyEmail now2 dbnow2 token db' = (Inl (AppError ''Invalid token'' 400), db')"
    by (simp add: r verifyEmail_def verifyEmail_tx_def transaction_def find_after_delete_token)
  ultimately show ?thesis using False r(1) i(2,3) by auto
qed

definition demo_verify_db :: database where
  "demo_verify_db = demo_token_db\<lparr>users := [demo_user\<lparr>user_isEmailVerified := False\<rparr>], email_verification_tokens :=
     [\<lparr>evt_id = ''e1'', evt_token = ''tok'', evt_userId = 1, evt_expiresAt = 500, evt_createdAt = 0\<rparr>]\<rparr>"

theorem verifyEmail_single_use_witness:
  "\<exists>db' u. verifyEmail 100 100 ''tok'' demo_verify_db = (Inr (), db')
     \<and> find_first (\<lambda>u. user_id u = 1) (users db') = Some u \<and> user_isEmailVerified u
     \<and> verifyEmail 200 200 ''tok'' db' = (Inl (AppError ''Invalid token'' 400), db')"
proof -
  have f: "findEmailVerificationToken ''tok'' demo_verify_db = Some \<lparr>evt_id = ''e1'', evt_token = ''tok'',
      evt_userId = 1, evt_expiresAt = 500, evt_createdAt = 0\<rparr>"
    by (simp add: findEmailVerificationToken_def demo_verify_db_def)
  obtain db' where r: "verifyEmail 100 100 ''tok'' demo_verify_db = (Inr (), db')"
    using f by (simp add: verifyEmail_def verifyEmail_tx_def transaction_def user_update_def demo_verify_db_def
        demo_token_defs no_user_patch_def)
  from verifyEmail_single_use [OF f r, of 200 200] r show ?thesis by auto
qed

section \<open>Password reset\<close>

text \<open>Asking for a reset never reveals whether an address has an account: an unknown address is
  answered the same way and changes nothing. For a known one, only the newest link works: the
  unused tokens of the user are exactly the new one, whose email intent is recorded with it;
  tokens of other users stay.\<close>

theorem requestPasswordReset_newest_only:
  assumes "requestPasswordReset E rnd uuid now dbnow email db = (result, db')"
  shows "(findUserByEmail email db = None \<longrightarrow> result = Inr () \<and> db' = db)
    \<and> (\<forall>e. result = Inl e \<longrightarrow> db' = db)
    \<and> (\<forall>u. findUserByEmail email db = Some u \<longrightarrow> result = Inr () \<longrightarrow>
        (\<exists>t i. filter (unused_of (user_id u)) (password_reset_tokens db') = [t] \<and> prt_token t = generateToken rnd
           \<and> outbox db' = outbox db @ [i] \<and> ob_jobName i = JOB_RESET_PASSWORD
           \<and> json_field ''token'' (ob_payload i) = Some (JStr (prt_token t))
           \<and> filter (\<lambda>r. prt_userId r \<noteq> user_id u) (password_reset_tokens db')
               = filter (\<lambda>r. prt_userId r \<noteq> user_id u) (password_reset_tokens db)))"
proof (intro conjI allI impI)
  assume "findUserByEmail email db = None"
  with assms show "result = Inr ()" "db' = db" by (simp_all add: requestPasswordReset_def)
next
  fix e assume "result = Inl e"
  with assms show "db' = db"
    by (auto simp: requestPasswordReset_def dest: transaction_rollback split: option.splits)
next
  fix u assume u: "findUserByEmail email db = Some u" and ok: "result = Inr ()"
  let ?id = "user_id u"
  let ?db1 = "db\<lparr>password_reset_tokens := delete_where (unused_of ?id) (password_reset_tokens db)\<rparr>"
  have "request_reset_tx E uuid (generateToken rnd) now dbnow u db = Inr ((), db')"
    using assms u ok by (simp add: requestPasswordReset_def transaction_eq_Inr)
  then obtain db2 where c: "createPasswordResetToken uuid (generateToken rnd) ?id
        (now + int (PASSWORD_RESET_EXPIRES_MINUTES E) * 60000) dbnow ?db1 = Inr db2"
    and db': "db' = enqueue QUEUE_EMAIL JOB_RESET_PASSWORD (token_payload u (generateToken rnd)) dbnow db2"
    by (auto simp: request_reset_tx_def deleteUnusedPasswordResetTokens_def Let_def split: sum.splits)
  then obtain t where t: "db2 = ?db1\<lparr>password_reset_tokens := password_reset_tokens ?db1 @ [t]\<rparr>"
    "prt_token t = generateToken rnd" "prt_userId t = ?id" "prt_usedAt t = None"
    by (auto simp: createPasswordResetToken_def split: if_splits)
  obtain i where i: "outbox db' = outbox db2 @ [i]" "ob_jobName i = JOB_RESET_PASSWORD"
    "ob_payload i = token_payload u (generateToken rnd)" using enqueue_one unfolding db' by blast
  have "filter (unused_of ?id) (password_reset_tokens db') = [t]"
    using t by (simp add: db' delete_where_def filter_empty_conv) (simp add: unused_of_def)
  moreover have "filter (\<lambda>r. prt_userId r \<noteq> ?id) (password_reset_tokens db')
      = filter (\<lambda>r. prt_userId r \<noteq> ?id) (password_reset_tokens db)"
    using t by (auto simp: db' delete_where_def unused_of_def intro: filter_cong)
  ultimately show "\<exists>t i. filter (unused_of ?id) (password_reset_tokens db') = [t] \<and> prt_token t = generateToken rnd
           \<and> outbox db' = outbox db @ [i] \<and> ob_jobName i = JOB_RESET_PASSWORD
           \<and> json_field ''token'' (ob_payload i) = Some (JStr (prt_token t))
           \<and> filter (\<lambda>r. prt_userId r \<noteq> ?id) (password_reset_tokens db')
               = filter (\<lambda>r. prt_userId r \<noteq> ?id) (password_reset_tokens db)"
    using t(1,2) i token_payload_token [of u "generateToken rnd"] by auto
qed

theorem requestPasswordReset_newest_only_witness:
  "\<exists>db' t. requestPasswordReset default_env [1] ''p1'' 0 0 ''ann@x.io'' demo_token_db = (Inr (), db')
     \<and> filter (unused_of 1) (password_reset_tokens db') = [t] \<and> prt_token t = generateToken [1]"
proof -
  have u: "findUserByEmail ''ann@x.io'' demo_token_db = Some demo_user" "user_id demo_user = 1"
    by (simp_all add: findUserByEmail_def demo_token_defs active_def)
  obtain db' where r: "requestPasswordReset default_env [1] ''p1'' 0 0 ''ann@x.io'' demo_token_db = (Inr (), db')"
    using u(1) by (simp add: requestPasswordReset_def transaction_def request_reset_tx_def
        deleteUnusedPasswordResetTokens_def createPasswordResetToken_def demo_token_defs delete_where_def)
  from requestPasswordReset_newest_only [OF r] u r show ?thesis by auto
qed

lemma findUniqueToken_used:
  assumes "findUniqueToken token db = Some r"
  shows "findUniqueToken token (db\<lparr>password_reset_tokens := update_where (\<lambda>r. prt_token r = token)
    (\<lambda>r. r\<lparr>prt_usedAt := Some now\<rparr>) (password_reset_tokens db)\<rparr>) = Some (r\<lparr>prt_usedAt := Some now\<rparr>)"
proof -
  have "prt_token r = token"
    using assms unfolding findUniqueToken_def by (drule_tac find_first_SomeD) simp
  with assms show ?thesis by (simp add: findUniqueToken_def find_first_update_where)
qed

lemma resetPassword_tx_ok:
  fixes C :: crypto and newPassword :: string
  assumes "findUniqueToken token db = Some r" and "\<not> prt_expiresAt r < now" and "prt_usedAt r = None"
    and "find_first (\<lambda>u. user_id u = prt_userId r) (users db) = Some u"
  defines "p \<equiv> no_user_patch\<lparr>up_password := Some (bcrypt_hash C newPassword)\<rparr>"
  shows "resetPassword_tx C quiet now token newPassword db = Inr (Some (prt_userId r),
    db\<lparr>users := update_where (\<lambda>u. user_id u = prt_userId r) (apply_user_patch p now) (users db),
       password_reset_tokens := update_where (\<lambda>r. prt_token r = token) (\<lambda>r. r\<lparr>prt_usedAt := Some now\<rparr>)
         (password_reset_tokens db),
       refresh_tokens := delete_where (of_user (prt_userId r)) (refresh_tokens db)\<rparr>)"
proof -
  have up: "user_update (prt_userId r) p now db = Inr (apply_user_patch p now u,
      db\<lparr>users := update_where (\<lambda>u. user_id u = prt_userId r) (apply_user_patch p now) (users db)\<rparr>)"
    using assms(4) by (simp add: user_update_def p_def no_user_patch_def)
  have "token \<in> prt_token ` set (password_reset_tokens db)"
    using assms(1) find_first_SomeD [of "\<lambda>r. prt_token r = token" "password_reset_tokens db" r]
    unfolding findUniqueToken_def by auto
  then show ?thesis
    using assms(1-3) up
    by (simp add: resetPassword_alone updatePasswordResetToken_def deleteRefreshTokensByUserId_def
        revokeRefreshTokens_quiet flip: p_def)
qed

text \<open>C36. A reset link works once and ends every session: with a valid, unused token the password
  becomes the hash of the new one, every refresh token of the user is gone (the sessions of
  others stay), and using the link again is refused without any change. An expired link is
  removed although the request is refused.\<close>

theorem resetPassword_single_use:
  assumes "findUniqueToken token db = Some r" and "distinct (map user_id (users db))"
    and "u \<in> set (users db)" and "user_id u = prt_userId r"
    and "resetPassword C quiet now token newPassword db = (result, db')"
  shows "(prt_expiresAt r < now \<longrightarrow> result = Inl (AppError ''Token expired'' 400)
        \<and> findUniqueToken token db' = None \<and> users db' = users db \<and> refresh_tokens db' = refresh_tokens db)
    \<and> (\<not> prt_expiresAt r < now \<longrightarrow> prt_usedAt r \<noteq> None \<longrightarrow>
        result = Inl (AppError ''Token already used'' 400) \<and> db' = db)
    \<and> (\<not> prt_expiresAt r < now \<longrightarrow> prt_usedAt r = None \<longrightarrow> result = Inr ()
        \<and> (\<exists>u'. find_first (\<lambda>w. user_id w = user_id u) (users db') = Some u'
             \<and> user_password u' = Some (bcrypt_hash C newPassword) \<and> user_email u' = user_email u)
        \<and> (\<forall>q. q \<in> set (refresh_tokens db') \<longleftrightarrow> q \<in> set (refresh_tokens db) \<and> rt_userId q \<noteq> user_id u)
        \<and> (\<forall>now2 p2. \<not> prt_expiresAt r < now2 \<longrightarrow> resetPassword C quiet now2 token p2 db'
             = (Inl (AppError ''Token already used'' 400), db')))"
proof (intro conjI impI)
  assume "prt_expiresAt r < now"
  then have "resetPassword_tx C quiet now token newPassword db = Inr (None, snd (deletePasswordResetToken token db))"
    using assms(1) by (simp add: resetPassword_alone)
  then have "result = Inl (AppError ''Token expired'' 400)" "db' = snd (deletePasswordResetToken token db)"
    using assms(5) by (simp_all add: resetPassword_def)
  then show "result = Inl (AppError ''Token expired'' 400)" "findUniqueToken token db' = None"
    "users db' = users db" "refresh_tokens db' = refresh_tokens db"
    by (simp_all add: deletePasswordResetToken_def findUniqueToken_def find_first_delete_where_None)
next
  assume "\<not> prt_expiresAt r < now" "prt_usedAt r \<noteq> None"
  then show "result = Inl (AppError ''Token already used'' 400)" "db' = db"
    using assms(1,5) by (auto simp: resetPassword_def resetPassword_alone transaction_def)
next
  assume ok: "\<not> prt_expiresAt r < now" "prt_usedAt r = None"
  let ?p = "no_user_patch\<lparr>up_password := Some (bcrypt_hash C newPassword)\<rparr>"
  have f: "find_first (\<lambda>w. user_id w = prt_userId r) (users db) = Some u"
    using find_user_id [OF assms(2,3)] assms(4) by simp
  have run: "result = Inr ()" "db' = db\<lparr>users := update_where (\<lambda>u. user_id u = prt_userId r) (apply_user_patch ?p now) (users db),
       password_reset_tokens := update_where (\<lambda>r. prt_token r = token) (\<lambda>r. r\<lparr>prt_usedAt := Some now\<rparr>)
         (password_reset_tokens db),
       refresh_tokens := delete_where (of_user (prt_userId r)) (refresh_tokens db)\<rparr>"
    using assms(5) resetPassword_tx_ok [OF assms(1) ok f, of C newPassword] by (simp_all add: resetPassword_def)
  show "result = Inr ()" by (rule run(1))
  have "find_first (\<lambda>w. user_id w = user_id u) (users db') = Some (apply_user_patch ?p now u)"
    using f assms(4) by (simp add: run(2) find_first_update_where)
  then show "\<exists>u'. find_first (\<lambda>w. user_id w = user_id u) (users db') = Some u'
             \<and> user_password u' = Some (bcrypt_hash C newPassword) \<and> user_email u' = user_email u"
    by (simp add: apply_user_patch_def patched_def no_user_patch_def)
  show "\<forall>q. q \<in> set (refresh_tokens db') \<longleftrightarrow> q \<in> set (refresh_tokens db) \<and> rt_userId q \<noteq> user_id u"
    by (simp add: run(2) of_user_def assms(4))
  have "findUniqueToken token db' = Some (r\<lparr>prt_usedAt := Some now\<rparr>)"
    using findUniqueToken_used [OF assms(1), of now] by (simp add: run(2) findUniqueToken_def)
  then show "\<forall>now2 p2. \<not> prt_expiresAt r < now2 \<longrightarrow> resetPassword C quiet now2 token p2 db'
             = (Inl (AppError ''Token already used'' 400), db')"
    by (simp add: resetPassword_def resetPassword_alone transaction_def)
qed

definition demo_reset_db :: database where
  "demo_reset_db = demo_token_db\<lparr>password_reset_tokens := [\<lparr>prt_id = ''p1'', prt_token = ''tok'', prt_userId = 1,
     prt_expiresAt = 500, prt_usedAt = None, prt_createdAt = 0\<rparr>]\<rparr>"

theorem resetPassword_single_use_witness:
  "\<exists>db'. resetPassword demo_crypto quiet 100 ''tok'' ''new'' demo_reset_db = (Inr (), db')
     \<and> (\<forall>q. q \<in> set (refresh_tokens db') \<longleftrightarrow> q \<in> set (refresh_tokens demo_reset_db) \<and> rt_userId q \<noteq> 1)
     \<and> resetPassword demo_crypto quiet 200 ''tok'' ''other'' db' = (Inl (AppError ''Token already used'' 400), db')"
proof -
  let ?r = "\<lparr>prt_id = ''p1'', prt_token = ''tok'', prt_userId = 1, prt_expiresAt = 500, prt_usedAt = None, prt_createdAt = 0\<rparr>"
  obtain result db' where r: "resetPassword demo_crypto quiet 100 ''tok'' ''new'' demo_reset_db = (result, db')"
    by fastforce
  have h: "findUniqueToken ''tok'' demo_reset_db = Some ?r" "distinct (map user_id (users demo_reset_db))"
    "demo_user \<in> set (users demo_reset_db)" "user_id demo_user = prt_userId ?r"
    by (simp_all add: findUniqueToken_def demo_reset_db_def demo_token_defs)
  have v: "\<not> prt_expiresAt ?r < 100" "prt_usedAt ?r = None" "user_id demo_user = 1" "\<not> prt_expiresAt ?r < 200"
    by (simp_all add: demo_user_def)
  from resetPassword_single_use [OF h r] v r show ?thesis by simp
qed

section \<open>Requests that race\<close>

text \<open>The single use of a reset link holds for requests one after the other. Two requests that both check the
  link before either commits both succeed, and the password of the later commit stays: the statement
  that stamps the link does not look at the stamp (\<^verbatim>\<open>auth.service.ts\<close>, \<^verbatim>\<open>resetPassword\<close>).\<close>

lemma racing_resets:
  assumes "findUniqueToken token db = Some r" and "\<not> prt_expiresAt r < now1" and "\<not> prt_expiresAt r < now2"
    and "prt_usedAt r = None" and "find_first (\<lambda>u. user_id u = prt_userId r) (users db) = Some u"
  shows "\<exists>db1 db2 u'. resetPassword_tx C quiet now1 token p1 db = Inr (Some (prt_userId r), db1)
    \<and> resetPassword_between C (\<lambda>_. db1) quiet now2 token p2 db = Inr (Some (prt_userId r), db2)
    \<and> find_first (\<lambda>u. user_id u = prt_userId r) (users db2) = Some u' \<and> user_password u' = Some (bcrypt_hash C p2)"
proof -
  define patch where "patch p = no_user_patch\<lparr>up_password := Some (bcrypt_hash C p)\<rparr>" for p
  define db1 where "db1 = db\<lparr>users := update_where (\<lambda>u. user_id u = prt_userId r) (apply_user_patch (patch p1) now1) (users db),
       password_reset_tokens := update_where (\<lambda>r. prt_token r = token) (\<lambda>r. r\<lparr>prt_usedAt := Some now1\<rparr>) (password_reset_tokens db),
       refresh_tokens := delete_where (of_user (prt_userId r)) (refresh_tokens db)\<rparr>"
  have first: "resetPassword_tx C quiet now1 token p1 db = Inr (Some (prt_userId r), db1)"
    using resetPassword_tx_ok [OF assms(1,2,4,5), of C p1] by (simp add: db1_def patch_def)
  have f: "find_first (\<lambda>u. user_id u = prt_userId r) (users db1) = Some (apply_user_patch (patch p1) now1 u)"
    using assms(5) find_first_SomeD [OF assms(5)] by (simp add: db1_def find_first_update_where)
  let ?t = "update_where (\<lambda>u. user_id u = prt_userId r) (apply_user_patch (patch p2) now2) (users db1)"
  have up: "user_update (prt_userId r) (patch p2) now2 db1
      = Inr (apply_user_patch (patch p2) now2 (apply_user_patch (patch p1) now1 u), db1\<lparr>users := ?t\<rparr>)"
    using f by (simp add: user_update_def patch_def no_user_patch_def)
  have "token \<in> prt_token ` set (password_reset_tokens db)"
    using assms(1) find_first_SomeD [of "\<lambda>r. prt_token r = token" "password_reset_tokens db" r]
    unfolding findUniqueToken_def by auto
  moreover have "map prt_token (password_reset_tokens db1) = map prt_token (password_reset_tokens db)"
    by (simp add: db1_def map_update_where)
  ultimately have "token \<in> prt_token ` set (password_reset_tokens db1)" by (metis set_map)
  then have "\<exists>db2. resetPassword_between C (\<lambda>_. db1) quiet now2 token p2 db = Inr (Some (prt_userId r), db2) \<and> users db2 = ?t"
    using assms(1,3,4) up
    by (simp add: resetPassword_between_def updatePasswordResetToken_def deleteRefreshTokensByUserId_def
        revokeRefreshTokens_quiet flip: patch_def)
  moreover have "find_first (\<lambda>u. user_id u = prt_userId r) ?t
      = Some (apply_user_patch (patch p2) now2 (apply_user_patch (patch p1) now1 u))"
    using f find_first_SomeD [OF f] by (simp add: find_first_update_where)
  moreover have "user_password (apply_user_patch (patch p2) now2 q) = Some (bcrypt_hash C p2)" for q
    by (simp add: patch_def apply_user_patch_def patched_def no_user_patch_def)
  ultimately show ?thesis using first by metis
qed

text \<open>The check for a free email address is no different: two registrations that both look it up before either
  commits both create an account with it, since no unique index stands behind the look-up.\<close>

lemma racing_registrations:
  assumes "settings_mode E = Link" and "register_tx C E lower rnd1 uuid1 now1 dbnow1 d db = Inr (u1, db1)"
    and "generateToken rnd2 \<notin> evt_token ` set (email_verification_tokens db1)"
  shows "\<exists>u2 db2. register_between (\<lambda>_. db1) C E lower rnd2 uuid2 now2 dbnow2 d db = Inr (u2, db2)
    \<and> user_id u2 \<noteq> user_id u1 \<and> user_email u2 = user_email u1"
  using assms
  by (auto simp: register_alone register_account_alone register_between_def register_account_between_def createUser_def
      createEmailVerificationToken_def safe_user_def Let_def split: if_splits option.splits sum.splits)

end
