(* ===== verification/Js_Number.thy ===== *)
theory Js_Number
  imports Encoding
begin

text \<open>
  JavaScript's \<^verbatim>\<open>Number(s)\<close> on strings, which the configuration (\<^verbatim>\<open>z.coerce.number()\<close> in
  \<^verbatim>\<open>src/config/env.ts\<close>) and the user service (\<^verbatim>\<open>Number(data.roleId)\<close>) apply to input.
\<close>

section \<open>Numerals\<close>

text \<open>\<^verbatim>\<open>Number(s)\<close> as mantissa and decimal exponent. \<open>None\<close> stands for NaN and the infinities, which no
  field accepts. Values are exact: the rounding to a double, which only affects numerals of more
  than fifteen digits, is left out.\<close>

definition split_sign :: "string \<Rightarrow> bool \<times> string" where
  "split_sign s = (case s of
     c # r \<Rightarrow> if c = CHR ''-'' then (True, r) else if c = CHR ''+'' then (False, r) else (False, s)
   | [] \<Rightarrow> (False, []))"

definition exponent_part :: "string \<Rightarrow> int option" where
  "exponent_part s = (case s of
     [] \<Rightarrow> Some 0
   | c # r \<Rightarrow> (let (neg, ds) = split_sign r in
       if lower_char c = CHR ''e'' \<and> ds \<noteq> [] \<and> list_all is_digit ds
       then Some (if neg then - int (read_nat ds) else int (read_nat ds)) else None))"

definition unsigned_decimal :: "string \<Rightarrow> (int \<times> int) option" where
  "unsigned_decimal s =
     (let a = takeWhile is_digit s; r = dropWhile is_digit s;
          (b, r1) = (case r of
             c # r' \<Rightarrow> if c = CHR ''.'' then (takeWhile is_digit r', dropWhile is_digit r') else ([], r)
           | [] \<Rightarrow> ([], []))
      in if a = [] \<and> b = [] then None
         else map_option (\<lambda>e. (int (read_nat (a @ b)), e - int (length b))) (exponent_part r1))"

definition radix_value :: "nat \<Rightarrow> string \<Rightarrow> int option" where
  "radix_value base s =
     (if s \<noteq> [] \<and> list_all (\<lambda>c. case hex_value c of None \<Rightarrow> False | Some d \<Rightarrow> d < base) s
      then Some (foldl (\<lambda>n c. int base * n + int (the (hex_value c))) 0 s) else None)"

definition Number :: "string \<Rightarrow> (int \<times> int) option" where
  "Number s =
     (let t = trim s; radix = toLowerCase (take 2 t) in
      if t = [] then Some (0, 0)
      else if radix = ''0x'' then map_option (\<lambda>n. (n, 0)) (radix_value 16 (drop 2 t))
      else if radix = ''0o'' then map_option (\<lambda>n. (n, 0)) (radix_value 8 (drop 2 t))
      else if radix = ''0b'' then map_option (\<lambda>n. (n, 0)) (radix_value 2 (drop 2 t))
      else (let (neg, u) = split_sign t
            in map_option (\<lambda>(m, e). (if neg then - m else m, e)) (unsigned_decimal u)))"

definition decimal_int :: "int \<times> int \<Rightarrow> int option" where
  "decimal_int d = (case d of (m, e) \<Rightarrow>
     if 0 \<le> e then Some (m * 10 ^ nat e)
     else if m mod 10 ^ nat (- e) = 0 then Some (m div 10 ^ nat (- e)) else None)"

section \<open>Decimal numerals are read as numbers\<close>

lemma digit_plain:
  assumes "is_digit c"
  shows "\<not> is_space c" "lower_char c = c" "c \<noteq> CHR ''-''" "c \<noteq> CHR ''+''" "c \<notin> set ''xob''"
  using assms unfolding char_code_inject [symmetric] code_lower_char
  by (auto simp: is_digit_def is_space_def is_upper_alpha_def char_code_def)

lemma trim_digits:
  "list_all is_digit s \<Longrightarrow> trim s = s"
proof -
  assume d: "list_all is_digit s"
  have "dropWhile is_space t = t" if "set t \<subseteq> set s" for t
    using that d digit_plain(1) by (cases t) (auto simp: list_all_iff)
  from this [of s] this [of "rev s"] show ?thesis by (simp add: trim_def)
qed

lemma Number_show_nat: "Number (show_nat n) = Some (int n, 0)"
proof -
  let ?s = "show_nat n"
  have d: "list_all is_digit ?s" and ne: "?s \<noteq> []" using show_nat_digits by (auto simp: list_all_iff)
  have "c \<notin> set ''xob''" if "c \<in> set (toLowerCase (take 2 ?s))" for c
    using that d digit_plain(5) by (fastforce simp: toLowerCase_def list_all_iff digit_plain(2) dest!: in_set_takeD)
  then have r: "toLowerCase (take 2 ?s) \<noteq> CHR ''0'' # [c]" if "c \<in> set ''xob''" for c
    using that by (metis list.set_intros)
  have s: "split_sign ?s = (False, ?s)"
    using d ne by (cases ?s) (auto simp: split_sign_def digit_plain)
  have tw: "takeWhile is_digit ?s = ?s" "dropWhile is_digit ?s = []"
    using d by (auto simp: takeWhile_eq_all_conv dropWhile_eq_Nil_conv list_all_iff)
  have "unsigned_decimal ?s = Some (int n, 0)"
    unfolding unsigned_decimal_def Let_def tw using ne by (simp add: exponent_part_def)
  then show ?thesis using r [of "CHR ''x''"] r [of "CHR ''o''"] r [of "CHR ''b''"] ne
    by (simp add: Number_def trim_digits [OF d] s)
qed

end
