(* ===== verification/User_Service.thy ===== *)
theory User_Service
  imports Role_Service Auth_Service Js_Number
begin

text \<open>
  Administration of users (\<^verbatim>\<open>src/modules/user/user.service.ts\<close>), the client-safe response
  (\<^verbatim>\<open>user.serializer.ts\<close>) and the stored files (\<^verbatim>\<open>src/services/storage.service.ts\<close>). \<open>I\<close> is what other
  transactions commit between the passes of a session revocation.
\<close>

section \<open>Files\<close>

definition deleteFile :: "string \<Rightarrow> string \<Rightarrow> (string \<times> string) list \<Rightarrow> (string \<times> string) list" where
  "deleteFile folder filename files = filter (\<lambda>f. f \<noteq> (folder, filename)) files"

definition fileExists :: "string \<Rightarrow> string \<Rightarrow> (string \<times> string) list \<Rightarrow> bool" where
  "fileExists folder filename files = ((folder, filename) \<in> set files)"

section \<open>Service\<close>

record user_input =
  ui_name :: string
  ui_email :: string
  ui_password :: string
  ui_roleId :: string
  ui_avatar :: "string option"

definition json_nat_opt :: "nat option \<Rightarrow> json" where
  "json_nat_opt n = (case n of None \<Rightarrow> JNull | Some i \<Rightarrow> JNum (int i))"

text \<open>The user as the audit log keeps it, after creation, around an update and before deletion.\<close>

definition created_snapshot :: "user \<Rightarrow> json" where
  "created_snapshot u = JObj [(''email'', json_opt (user_email u)), (''name'', json_opt (user_name u)),
     (''slug'', json_opt (user_slug u)), (''roleId'', json_nat_opt (user_roleId u)),
     (''avatar'', json_opt (user_avatar u))]"

definition deleted_fields :: "user \<Rightarrow> (string \<times> json) list" where
  "deleted_fields u = [(''name'', json_opt (user_name u)), (''email'', json_opt (user_email u)),
     (''slug'', json_opt (user_slug u)), (''roleId'', json_nat_opt (user_roleId u))]"

definition updated_snapshot :: "user \<Rightarrow> json" where
  "updated_snapshot u = JObj (deleted_fields u @ [(''avatar'', json_opt (user_avatar u))])"

definition getUserByEmail :: "string \<Rightarrow> database \<Rightarrow> error + user" where
  "getUserByEmail email db = (case user_findByEmail email db of
     None \<Rightarrow> Inl (AppError ''User not found'' 404) | Some u \<Rightarrow> Inr u)"

definition user_create :: "create_user_data \<Rightarrow> string option \<Rightarrow> time \<Rightarrow> (database, user) tx" where
  "user_create d avatar now db =
     (if cu_roleId d \<noteq> None \<and> the (cu_roleId d) \<notin> role_id ` set (roles db) then Inl (DbError ''P2003'')
      else let u = \<lparr>user_id = users_seq db, user_name = Some (cu_name d), user_slug = Some (cu_slug d),
                    user_email = Some (cu_email d), user_password = Some (cu_password d),
                    user_avatar = avatar, user_roleId = cu_roleId d,
                    user_isEmailVerified = cu_isEmailVerified d, user_createdAt = now,
                    user_updatedAt = now, user_deletedAt = None\<rparr>
           in Inr (u, db\<lparr>users := users db @ [u], users_seq := users_seq db + 1\<rparr>))"

definition name_or_null :: "user \<Rightarrow> string" where
  "name_or_null u = (case user_name u of None \<Rightarrow> ''null'' | Some n \<Rightarrow> n)"

text \<open>\<^verbatim>\<open>Number(data.roleId)\<close> as the value of an integer foreign key: the database client refuses what is
  no integer, and no row has a negative key.\<close>

definition role_key :: "string \<Rightarrow> error + nat" where
  "role_key s = (case Option.bind (Number s) decimal_int of
     None \<Rightarrow> Inl (DbError ''PrismaClientValidationError'')
   | Some i \<Rightarrow> if i < 0 then Inl (DbError ''P2003'') else Inr (nat i))"

text \<open>Neither the email nor the slug has a unique index: \<open>W\<close> is what other transactions commit between the
  look-ups and the write.\<close>

definition admin_createUser_between :: "(database \<Rightarrow> database) \<Rightarrow> crypto \<Rightarrow> user_input \<Rightarrow> nat option \<Rightarrow> time \<Rightarrow> (database, user) tx" where
  "admin_createUser_between W C d createdBy now db =
     (if user_findByEmail (ui_email d) db \<noteq> None then Inl (AppError ''Email already in use'' 400)
      else (case makeUniqueSlug (ui_name d) (user_slug_taken db None) of
              None \<Rightarrow> Inl NoReturn
            | Some slug \<Rightarrow>
                (case role_key (ui_roleId d) of
                   Inl e \<Rightarrow> Inl e
                 | Inr roleId \<Rightarrow>
                     (case user_create \<lparr>cu_name = ui_name d, cu_slug = slug, cu_email = ui_email d,
                             cu_password = bcrypt_hash C (ui_password d), cu_roleId = Some roleId,
                             cu_isEmailVerified = True\<rparr> (ui_avatar d) now (W db) of
                        Inl e \<Rightarrow> Inl e
                      | Inr (u, db1) \<Rightarrow>
                          Inr (u, logActivity createdBy ''CREATE'' ''User'' (Some (user_id u))
                                    (Some (''User created: '' @ name_or_null u)) JNull (created_snapshot u) now db1)))))"

definition admin_createUser_tx :: "crypto \<Rightarrow> user_input \<Rightarrow> nat option \<Rightarrow> time \<Rightarrow> (database, user) tx" where
  "admin_createUser_tx = admin_createUser_between (\<lambda>db. db)"

lemmas admin_createUser_alone = admin_createUser_tx_def [THEN fun_cong, THEN fun_cong, THEN fun_cong, THEN fun_cong, THEN fun_cong,
  unfolded admin_createUser_between_def]

definition admin_createUser :: "crypto \<Rightarrow> user_input \<Rightarrow> nat option \<Rightarrow> time \<Rightarrow> (app, user) service" where
  "admin_createUser C d createdBy now = in_db (transaction (admin_createUser_tx C d createdBy now))"

record user_changes =
  uc_name :: "string option"
  uc_email :: "string option"
  uc_roleId :: "string option"
  uc_avatar :: "string option"
  uc_password :: "string option"

definition user_new_slug :: "user \<Rightarrow> string option \<Rightarrow> database \<Rightarrow> error + string option" where
  "user_new_slug user name db =
     (case truthy_str name of
        None \<Rightarrow> Inr None
      | Some n \<Rightarrow>
          if user_name user = Some n then Inr None
          else (case makeUniqueSlug n (user_slug_taken db (Some (user_id user))) of
                  None \<Rightarrow> Inl NoReturn
                | Some s \<Rightarrow> Inr (truthy_str (Some s))))"

text \<open>The acting user id is used only when it is truthy.\<close>

definition truthy_nat :: "nat option \<Rightarrow> nat option" where
  "truthy_nat n = (case n of None \<Rightarrow> None | Some i \<Rightarrow> if i = 0 then None else Some i)"

definition changed_role :: "user_changes \<Rightarrow> error + nat option" where
  "changed_role d = (case truthy_str (uc_roleId d) of
     None \<Rightarrow> Inr None
   | Some s \<Rightarrow> (case role_key s of Inl e \<Rightarrow> Inl e | Inr r \<Rightarrow> Inr (Some r)))"

definition user_changes_patch :: "crypto \<Rightarrow> user_changes \<Rightarrow> string option \<Rightarrow> nat option \<Rightarrow> user_patch" where
  "user_changes_patch C d newSlug roleId = \<lparr>up_name = truthy_str (uc_name d), up_slug = newSlug,
     up_email = truthy_str (uc_email d), up_roleId = roleId, up_avatar = truthy_str (uc_avatar d),
     up_password = map_option (bcrypt_hash C) (truthy_str (uc_password d)), up_isEmailVerified = None\<rparr>"

definition updateUser_between :: "(database \<Rightarrow> database) \<Rightarrow> crypto \<Rightarrow> user \<Rightarrow> user_changes \<Rightarrow> nat option \<Rightarrow> time \<Rightarrow> (database, user) tx" where
  "updateUser_between W C user d updatedBy now db =
     (case user_new_slug user (uc_name d) db of
        Inl e \<Rightarrow> Inl e
      | Inr newSlug \<Rightarrow>
          (case changed_role d of
             Inl e \<Rightarrow> Inl e
           | Inr roleId \<Rightarrow>
               (case user_update (user_id user) (user_changes_patch C d newSlug roleId) now (W db) of
                  Inl e \<Rightarrow> Inl e
                | Inr (u, db1) \<Rightarrow>
                    Inr (u, logActivity updatedBy ''UPDATE'' ''User'' (Some (user_id user))
                              (Some (''User updated: '' @ name_or_null u)) (updated_snapshot user) (updated_snapshot u) now db1))))"

definition updateUser_tx :: "crypto \<Rightarrow> user \<Rightarrow> user_changes \<Rightarrow> nat option \<Rightarrow> time \<Rightarrow> (database, user) tx" where
  "updateUser_tx = updateUser_between (\<lambda>db. db)"

lemmas updateUser_alone = updateUser_tx_def [THEN fun_cong, THEN fun_cong, THEN fun_cong, THEN fun_cong, THEN fun_cong,
  THEN fun_cong, unfolded updateUser_between_def]

text \<open>The replaced avatar is deleted by the transaction body, before the update.\<close>

definition drop_avatar :: "string option \<Rightarrow> user \<Rightarrow> app \<Rightarrow> app" where
  "drop_avatar new user a =
     (case (truthy_str new, truthy_str (user_avatar user)) of
        (Some _, Some old) \<Rightarrow> a\<lparr>app_files := deleteFile ''avatars'' old (app_files a)\<rparr>
      | _ \<Rightarrow> a)"

definition user_invalidation :: "nat \<Rightarrow> time \<Rightarrow> (redis, unit) tx" where
  "user_invalidation userId now = tx_bind (invalidateAccess now) (\<lambda>_. cache_del [userKey userId])"

definition email_conflict :: "user \<Rightarrow> string option \<Rightarrow> database \<Rightarrow> bool" where
  "email_conflict user email db =
     (case truthy_str email of
        None \<Rightarrow> False
      | Some e \<Rightarrow> user_email user \<noteq> Some e \<and> user_findByEmail e db \<noteq> None)"

definition updateUser :: "crypto \<Rightarrow> string \<Rightarrow> user_changes \<Rightarrow> nat option \<Rightarrow> time \<Rightarrow> (app, user) service" where
  "updateUser C slug d updatedBy now a =
     (case user_find slug (app_db a) of
        None \<Rightarrow> (Inl (AppError ''User not found'' 404), a)
      | Some user \<Rightarrow>
          if email_conflict user (uc_email d) (app_db a) then (Inl (AppError ''Email already in use'' 400), a)
          else then_cache (in_db (transaction (updateUser_tx C user d updatedBy now)))
                 (\<lambda>_. user_invalidation (user_id user) now) (drop_avatar (uc_avatar d) user a))"

definition deleteUser_tx :: "interference \<Rightarrow> user \<Rightarrow> nat option \<Rightarrow> time \<Rightarrow> (database, unit) tx" where
  "deleteUser_tx I user deletedBy now db =
     (case user_delete (user_id user) now db of
        Inl e \<Rightarrow> Inl e
      | Inr (_, db1) \<Rightarrow>
          (case deleteRefreshTokensByUserId I (user_id user) db1 of
             Inl e \<Rightarrow> Inl e
           | Inr (_, db2) \<Rightarrow>
               Inr ((), logActivity deletedBy ''DELETE'' ''User'' (Some (user_id user))
                          (Some (''User deleted: '' @ name_or_null user)) (JObj (deleted_fields user)) JNull now db2)))"

definition deleteUser :: "interference \<Rightarrow> string \<Rightarrow> nat option \<Rightarrow> time \<Rightarrow> (app, unit) service" where
  "deleteUser I slug deletedBy now a =
     (case user_find slug (app_db a) of
        None \<Rightarrow> (Inl (AppError ''User not found'' 404), a)
      | Some user \<Rightarrow>
          then_cache (in_db (transaction (deleteUser_tx I user deletedBy now)))
            (\<lambda>_. user_invalidation (user_id user) now)
            (case truthy_str (user_avatar user) of None \<Rightarrow> a
             | Some f \<Rightarrow> a\<lparr>app_files := deleteFile ''avatars'' f (app_files a)\<rparr>))"

section \<open>Responses\<close>

definition PUBLIC_USER_FIELDS :: "string list" where
  "PUBLIC_USER_FIELDS = [''slug'', ''name'', ''email'', ''avatar'', ''avatarUrl'', ''isEmailVerified'',
     ''createdAt'', ''updatedAt'', ''role'', ''profile'']"

definition toUserResponse :: "json \<Rightarrow> json" where
  "toUserResponse user = (case user of
     JObj fs \<Rightarrow> JObj (concat (map (\<lambda>f. case map_of fs f of None \<Rightarrow> [] | Some v \<Rightarrow> [(f, v)]) PUBLIC_USER_FIELDS))
   | _ \<Rightarrow> JObj [])"

text \<open>A user response shows the public fields that the user carries, unchanged, and nothing
  else: no password hash, no internal id, no column added later.\<close>

theorem toUserResponse_allowlist:
  "json_field k (toUserResponse (JObj fs)) = (if k \<in> set PUBLIC_USER_FIELDS then map_of fs k else None)
   \<and> json_field ''password'' (toUserResponse (JObj fs)) = None"
proof -
  have "map_of (concat (map (\<lambda>f. case map_of fs f of None \<Rightarrow> [] | Some v \<Rightarrow> [(f, v)]) names)) k
      = (if k \<in> set names then map_of fs k else None)" for names k
    by (induction names) (auto simp: map_add_def split: option.splits)
  then have eq: "json_field k (toUserResponse (JObj fs)) = (if k \<in> set PUBLIC_USER_FIELDS then map_of fs k else None)" for k
    by (simp add: toUserResponse_def json_field_def)
  moreover have "''password'' \<notin> set PUBLIC_USER_FIELDS" by (simp add: PUBLIC_USER_FIELDS_def)
  ultimately show ?thesis by simp
qed

section \<open>Deleted users\<close>

lemma user_invalidation_restores:
  assumes "rbac_inv \<lparr>rs_db = db, rs_redis = s, rs_flights = fs, rs_pending = Suc 0\<rparr>"
    and "user_invalidation userId now s = Inr (u, s')"
  shows "rbac_inv \<lparr>rs_db = db, rs_redis = s', rs_flights = fs, rs_pending = 0\<rparr> \<and> redis_up s'"
proof -
  obtain n s1 where b: "invalidateAccess now s = Inr (n, s1)" and d: "cache_del [userKey userId] s1 = Inr (u, s')"
    using assms(2) by (auto simp: user_invalidation_def tx_bind_eq_Inr)
  have "rbac_inv \<lparr>rs_db = db, rs_redis = s1, rs_flights = fs, rs_pending = 0\<rparr>" by (rule bump_restores [OF assms(1) b])
  from drop_keeps [OF this d] show ?thesis using cache_del_up [OF d] invalidateAccess_up [OF b] by simp
qed

lemma then_cache_Inr:
  assumes "then_cache (in_db (transaction m)) f a = (Inr x, a')"
  shows "\<exists>db' u. m (app_db a) = Inr (x, db') \<and> app_db a' = db' \<and> f x (app_redis a) = Inr (u, app_redis a')
    \<and> app_files a' = app_files a"
  using assms by (auto simp: then_cache_def in_db_def transaction_def split: sum.splits prod.splits)

lemma stored_access_deleted:
  assumes "\<And>u. u \<in> set (users db) \<Longrightarrow> user_id u = userId \<Longrightarrow> \<not> active u"
  shows "stored_access userId db = None"
proof -
  have "find_first (\<lambda>u. user_id u = userId \<and> active u) (users db) = None"
    using assms by (simp only: find_first_None_iff) blast
  then show ?thesis by (simp add: stored_access_def)
qed

lemma deleteUser_tx_rows:
  assumes "deleteUser_tx quiet u actor now db = Inr (x, db')"
  shows "users db' = update_where (\<lambda>w. user_id w = user_id u)
      (\<lambda>u. u\<lparr>user_deletedAt := Some now, user_updatedAt := now\<rparr>) (users db)"
    and "refresh_tokens db' = delete_where (of_user (user_id u)) (refresh_tokens db)"
    and "users_seq db' = users_seq db" and "roles db' = roles db"
  using assms
  by (auto simp: deleteUser_tx_def user_delete_def deleteRefreshTokensByUserId_def revokeRefreshTokens_quiet
      split: if_splits option.splits)

text \<open>C6. A deleted user is locked out at once: no refresh token of theirs is left, no login by
  email finds them, and every permission check for them answers 401 although their access may
  have been cached and requests may be in flight; the sessions of others are intact.\<close>

theorem deleted_user_locked_out:
  assumes "rbac_inv \<lparr>rs_db = app_db a, rs_redis = app_redis a, rs_flights = fs, rs_pending = 0\<rparr>"
    and "user_find slug (app_db a) = Some u" and "0 < user_id u"
    and "deleteUser quiet slug actor now a = (Inr (), a')"
  shows "(\<forall>q. q \<in> set (refresh_tokens (app_db a')) \<longleftrightarrow>
        q \<in> set (refresh_tokens (app_db a)) \<and> rt_userId q \<noteq> user_id u)
    \<and> (\<forall>email w. findUserByEmail email (app_db a') = Some w \<longrightarrow> user_id w \<noteq> user_id u)
    \<and> fst (checkPermission permission None (Some (user_id u)) later (app_db a') (app_redis a')) = Inl unauthorized"
proof -
  let ?a = "case truthy_str (user_avatar u) of None \<Rightarrow> a
     | Some f \<Rightarrow> a\<lparr>app_files := deleteFile ''avatars'' f (app_files a)\<rparr>"
  have "then_cache (in_db (transaction (deleteUser_tx quiet u actor now)))
      (\<lambda>_. user_invalidation (user_id u) now) ?a = (Inr (), a')"
    using assms(2,4) by (simp add: deleteUser_def)
  from then_cache_Inr [OF this] obtain w where t: "deleteUser_tx quiet u actor now (app_db a) = Inr ((), app_db a')"
    and inv: "user_invalidation (user_id u) now (app_redis a) = Inr (w, app_redis a')"
    by (auto split: option.splits)
  note us = deleteUser_tx_rows(1) [OF t] and rt = deleteUser_tx_rows(2) [OF t]
  have gone: "\<not> active v" if "v \<in> set (users (app_db a'))" "user_id v = user_id u" for v
    using that by (auto simp: us set_update_where active_def split: if_splits)
  have p: "rbac_inv \<lparr>rs_db = app_db a', rs_redis = app_redis a, rs_flights = fs, rs_pending = Suc 0\<rparr>"
    using commit_pending [OF assms(1)] by simp
  note r = user_invalidation_restores [OF p inv]
  have "fst (resolveRole None (Some (user_id u)) later (app_db a') (app_redis a')) = Inl unauthorized"
    using resolveRole_fresh [OF conjunct1 [OF r], of "user_id u" later] r stored_access_deleted [OF gone] assms(3)
    by simp
  then have "fst (checkPermission permission None (Some (user_id u)) later (app_db a') (app_redis a')) = Inl unauthorized"
    by (simp add: checkPermission_def Let_def case_prod_beta grants_def)
  moreover have "user_id w \<noteq> user_id u" if "findUserByEmail email (app_db a') = Some w" for email w
    using findUserByEmail_SomeD [OF that] gone by blast
  ultimately show ?thesis by (simp add: rt of_user_def)
qed

lemma user_invalidation_demo: "\<exists>s. user_invalidation i now empty_redis = Inr ((), s)"
  by (simp add: user_invalidation_def tx_bind_def cache_defs invalidateAccess_def live_value_def
      empty_redis_def Let_def RBAC_VERSION_KEY_def)

theorem deleted_user_locked_out_witness:
  "\<exists>a'. deleteUser quiet ''ann'' (Some 1) 5 demo_app = (Inr (), a')
     \<and> fst (checkPermission ''module.dashboard.index'' None (Some 1) 6 (app_db a') (app_redis a')) = Inl unauthorized"
proof -
  have i: "rbac_inv \<lparr>rs_db = app_db demo_app, rs_redis = app_redis demo_app, rs_flights = [], rs_pending = 0\<rparr>"
    using rbac_inv_init [of demo_rbac_db] by (simp add: rbac_init_def demo_app_def)
  obtain u where f: "user_find ''ann'' (app_db demo_app) = Some u" "user_id u = 1" "user_avatar u = None"
    by (simp add: user_find_def demo_app_def demo_rbac_db_def active_def)
  have "1 \<in> user_id ` set (users (app_db demo_app))" by (simp add: demo_app_def demo_rbac_db_def)
  then obtain db' where t: "deleteUser_tx quiet u (Some 1) 5 (app_db demo_app) = Inr ((), db')"
    using f(2) by (simp add: deleteUser_tx_def user_delete_def deleteRefreshTokensByUserId_def revokeRefreshTokens_quiet)
  obtain s where "user_invalidation (user_id u) 5 (app_redis demo_app) = Inr ((), s)"
    using user_invalidation_demo by (auto simp: demo_app_def)
  with f t obtain a' where d: "deleteUser quiet ''ann'' (Some 1) 5 demo_app = (Inr (), a')"
    by (simp add: deleteUser_def then_cache_def in_db_def transaction_def truthy_str_def)
  from deleted_user_locked_out [OF i f(1) _ d, of "''module.dashboard.index''" 6] d f(2) show ?thesis by auto
qed

section \<open>Keys and slugs of users\<close>

lemma users_ok_role:
  "users_ok db \<Longrightarrow> u \<in> set (users db) \<Longrightarrow> user_roleId u = Some r \<Longrightarrow> r \<in> role_id ` set (roles db)"
  unfolding users_ok_def by (metis option.distinct(1) option.sel)

lemma users_ok_append:
  assumes "users_ok db" and "user_id u = users_seq db"
    and "\<And>q. q \<in> set (users db) \<Longrightarrow> active q \<Longrightarrow> user_slug q \<noteq> user_slug u"
    and "\<And>r. user_roleId u = Some r \<Longrightarrow> r \<in> role_id ` set (roles db)"
    and "users db' = users db @ [u]" and "users_seq db' = users_seq db + 1" and "roles db' = roles db"
  shows "users_ok db'"
proof -
  have "slug_unique_users (users db @ [u])"
    unfolding slug_unique_users_def
  proof (rule ball_pairs_append)
    show "\<forall>a \<in> set (users db). \<forall>b \<in> set (users db). active a \<longrightarrow> active b \<longrightarrow> user_slug a \<noteq> None
        \<longrightarrow> user_slug a = user_slug b \<longrightarrow> user_id a = user_id b"
      using assms(1) unfolding users_ok_def slug_unique_users_def by blast
  qed (use assms(3) assms(3) [THEN not_sym] in \<open>blast+\<close>)
  moreover have "\<forall>q \<in> set (users db). user_id q < users_seq db" using assms(1) by (simp add: users_ok_def)
  ultimately show ?thesis
    using assms(1,2,4-7) by (auto simp: users_ok_def less_Suc_eq)
qed

lemma users_ok_update:
  assumes "users_ok db" and "\<And>u. user_id (f u) = user_id u"
    and "\<And>u q. u \<in> set (users db) \<Longrightarrow> q \<in> set (users db) \<Longrightarrow> user_id u = i \<Longrightarrow> user_id q \<noteq> i
      \<Longrightarrow> active (f u) \<Longrightarrow> active q \<Longrightarrow> user_slug (f u) \<noteq> None \<Longrightarrow> user_slug (f u) \<noteq> user_slug q"
    and "\<And>u r. u \<in> set (users db) \<Longrightarrow> user_roleId (f u) = Some r \<Longrightarrow> r \<in> role_id ` set (roles db)"
    and "users db' = update_where (\<lambda>u. user_id u = i) f (users db)" and "users_seq db' = users_seq db"
    and "roles db' = roles db"
  shows "users_ok db'"
proof -
  have "slug_unique_users (users db')"
    unfolding slug_unique_users_def
  proof (intro ballI impI)
    fix a b assume ab: "a \<in> set (users db')" "b \<in> set (users db')" "active a" "active b"
      "user_slug a \<noteq> None" "user_slug a = user_slug b"
    obtain x where x: "x \<in> set (users db)" "a = (if user_id x = i then f x else x)"
      using ab(1) by (auto simp: assms(5) set_update_where)
    obtain y where y: "y \<in> set (users db)" "b = (if user_id y = i then f y else y)"
      using ab(2) by (auto simp: assms(5) set_update_where)
    have ids: "user_id a = user_id x" "user_id b = user_id y" using x(2) y(2) assms(2) by auto
    consider "user_id x = i" "user_id y = i" | "user_id x = i" "user_id y \<noteq> i"
      | "user_id x \<noteq> i" "user_id y = i" | "user_id x \<noteq> i" "user_id y \<noteq> i" by blast
    then show "user_id a = user_id b"
    proof cases
      case 1 with ids show ?thesis by simp
    next
      case 2 with assms(3) [OF x(1) y(1)] ab x(2) y(2) show ?thesis by auto
    next
      case 3 with assms(3) [OF y(1) x(1)] ab x(2) y(2) show ?thesis by auto
    next
      case 4
      then have "a = x" "b = y" using x(2) y(2) by simp_all
      with x(1) y(1) ab assms(1) show ?thesis
        unfolding users_ok_def by (intro slug_unique_usersD [of "users db" a b]) simp_all
    qed
  qed
  moreover have "distinct (map user_id (users db'))" "\<forall>u \<in> set (users db'). user_id u < users_seq db'"
    using assms(1,2,5,6) by (auto simp: users_ok_def map_update_where set_update_where)
  moreover have "the (user_roleId u) \<in> role_id ` set (roles db')" if mem: "u \<in> set (users db')" and ref: "user_roleId u \<noteq> None" for u
  proof -
    obtain x where x: "x \<in> set (users db)" "u = (if user_id x = i then f x else x)"
      using mem by (auto simp: assms(5) set_update_where)
    then show ?thesis
      using ref assms(1,7) assms(4) [OF x(1)] by (auto simp: users_ok_def split: if_splits)
  qed
  ultimately show ?thesis unfolding users_ok_def by blast
qed

lemma user_slug_fresh_row:
  assumes "makeUniqueSlug t (user_slug_taken db ex) = Some s" and "q \<in> set (users db)" and "user_counts ex q"
  shows "user_slug q \<noteq> Some s"
  using user_slugs.unique_slug_fresh_row [OF assms] by simp

lemma user_new_slug_free:
  assumes "user_new_slug user name db = Inr (Some s)" and "q \<in> set (users db)" and "active q"
    and "user_id q \<noteq> user_id user"
  shows "user_slug q \<noteq> Some s"
proof -
  obtain t where m: "makeUniqueSlug t (user_slug_taken db (Some (user_id user))) = Some s"
    using assms(1) by (auto simp: user_new_slug_def truthy_str_def split: option.splits if_splits)
  show ?thesis using assms(3,4) by (intro user_slug_fresh_row [OF m assms(2)]) (simp add: user_counts_def)
qed

lemma user_patch_ok:
  assumes "users_ok db" and "user \<in> set (users db)" and "user_new_slug user name db = Inr (up_slug p)"
    and "user_update (user_id user) p now db = Inr (u, db')"
  shows "users_ok db'"
proof -
  have t: "users db' = update_where (\<lambda>u. user_id u = user_id user) (apply_user_patch p now) (users db)"
    "users_seq db' = users_seq db" "roles db' = roles db"
    and ref: "\<And>r. up_roleId p = Some r \<Longrightarrow> r \<in> role_id ` set (roles db)"
    using assms(4) by (auto simp: user_update_def split: option.splits if_splits)
  show ?thesis
  proof (rule users_ok_update [OF assms(1) _ _ _ t])
    fix u q assume u: "u \<in> set (users db)" "user_id u = user_id user" "active (apply_user_patch p now u)"
        "user_slug (apply_user_patch p now u) \<noteq> None"
      and q: "q \<in> set (users db)" "user_id q \<noteq> user_id user" "active q"
    show "user_slug (apply_user_patch p now u) \<noteq> user_slug q"
    proof (cases "up_slug p")
      case None
      then have eq: "user_slug (apply_user_patch p now u) = user_slug u" by (simp add: patched_def)
      have "active u" "user_slug u \<noteq> None" using u(3,4) eq by simp_all
      moreover have "slug_unique_users (users db)" using assms(1) by (simp add: users_ok_def)
      ultimately have "user_slug u = user_slug q \<Longrightarrow> user_id u = user_id q"
        using slug_unique_usersD [OF _ u(1) q(1)] q(3) by blast
      then show ?thesis using u(2) q(2) unfolding eq by metis
    next
      case (Some x)
      with user_new_slug_free [of user name db x q] assms(3) q show ?thesis by (auto simp: patched_def)
    qed
  next
    fix u r assume u: "u \<in> set (users db)" "user_roleId (apply_user_patch p now u) = Some r"
    then have "up_roleId p = Some r \<or> user_roleId u = Some r" by (auto simp: patched_def split: option.splits)
    then show "r \<in> role_id ` set (roles db)" using ref users_ok_role [OF assms(1) u(1)] by blast
  qed simp
qed

lemma users_ok_frame:
  assumes "users db' = users db" and "users_seq db' = users_seq db" and "roles db' = roles db"
  shows "users_ok db' = users_ok db"
  using assms by (simp add: users_ok_def)

lemma admin_createUser_tx_ok:
  assumes "users_ok db" and "admin_createUser_tx C d createdBy now db = Inr (u, db')"
  shows "users_ok db'"
proof -
  obtain slug where s: "makeUniqueSlug (ui_name d) (user_slug_taken db None) = Some slug"
    using assms(2) by (auto simp: admin_createUser_alone split: option.splits if_splits)
  then have u: "users db' = users db @ [u]" "users_seq db' = users_seq db + 1" "roles db' = roles db"
    "user_id u = users_seq db" "user_slug u = Some slug"
    and r: "\<exists>r. user_roleId u = Some r \<and> r \<in> role_id ` set (roles db)"
    using assms(2) by (auto simp: admin_createUser_alone user_create_def Let_def split: if_splits sum.splits)
  have "user_slug q \<noteq> user_slug u" if "q \<in> set (users db)" "active q" for q
    using user_slug_fresh_row [OF s that(1)] that(2) u(5) by (simp add: user_counts_def)
  then show ?thesis using users_ok_append [OF assms(1) u(4) _ _ u(1-3)] r by auto
qed

lemma updateUser_tx_ok:
  assumes "users_ok db" and "user \<in> set (users db)" and "updateUser_tx C user d by' now db = Inr (u, db')"
  shows "users_ok db'"
proof -
  obtain sl role db1 where s: "user_new_slug user (uc_name d) db = Inr sl"
    and p: "user_update (user_id user) (user_changes_patch C d sl role) now db = Inr (u, db1)"
    and f: "users db' = users db1" "users_seq db' = users_seq db1" "roles db' = roles db1"
    using assms(3) by (auto simp: updateUser_alone split: sum.splits)
  have "user_new_slug user (uc_name d) db = Inr (up_slug (user_changes_patch C d sl role))"
    using s by (simp add: user_changes_patch_def)
  from user_patch_ok [OF assms(1,2) this p] show ?thesis by (simp add: users_ok_frame [OF f])
qed

lemma deleteUser_tx_ok:
  assumes "users_ok db" and "deleteUser_tx quiet user by' now db = Inr (x, db')"
  shows "users_ok db'"
  using assms(1)
  by (intro users_ok_update [OF assms(1) _ _ _ deleteUser_tx_rows(1,3,4) [OF assms(2)]])
    (simp_all add: active_def users_ok_role [OF assms(1)])

lemma drop_avatar_db [simp]: "app_db (drop_avatar n u a) = app_db a" "app_redis (drop_avatar n u a) = app_redis a"
  by (simp_all add: drop_avatar_def split: option.splits)

text \<open>C38. User administration keeps the user table well formed: keys stay unique, no two active users
  share a slug and every user's role exists, whatever is created, renamed, moved to another role
  or deleted.\<close>

theorem user_service_keeps_ok:
  assumes "users_ok (app_db a)"
  shows "users_ok (app_db (snd (admin_createUser C input actor now a)))
    \<and> users_ok (app_db (snd (updateUser C slug changes actor now a)))
    \<and> users_ok (app_db (snd (deleteUser quiet slug actor now a)))"
proof (intro conjI)
  have keeps: "users_ok (app_db (snd (in_db (transaction m) b)))"
    if "app_db b = app_db a" "\<And>x db'. m (app_db a) = Inr (x, db') \<Longrightarrow> users_ok db'"
    for b and m :: "(database, 'x) tx"
    using that assms by (auto simp: in_db_def transaction_def split: sum.splits)
  show "users_ok (app_db (snd (admin_createUser C input actor now a)))"
    unfolding admin_createUser_def by (rule keeps) (use admin_createUser_tx_ok [OF assms] in auto)
  show "users_ok (app_db (snd (updateUser C slug changes actor now a)))"
  proof (cases "user_find slug (app_db a)")
    case (Some user)
    have "users_ok (app_db (snd (in_db (transaction (updateUser_tx C user changes actor now))
        (drop_avatar (uc_avatar changes) user a))))"
      by (rule keeps) (use updateUser_tx_ok [OF assms] user_find_SomeD [OF Some] in auto)
    with Some assms show ?thesis by (simp add: updateUser_def then_cache_db)
  qed (simp add: updateUser_def assms)
  show "users_ok (app_db (snd (deleteUser quiet slug actor now a)))"
  proof (cases "user_find slug (app_db a)")
    case (Some user)
    have "users_ok (app_db (snd (in_db (transaction (deleteUser_tx quiet user actor now))
        (case truthy_str (user_avatar user) of None \<Rightarrow> a
         | Some f \<Rightarrow> a\<lparr>app_files := deleteFile ''avatars'' f (app_files a)\<rparr>))))"
      by (rule keeps) (use deleteUser_tx_ok [OF assms] in \<open>auto split: option.splits\<close>)
    with Some show ?thesis by (simp add: deleteUser_def then_cache_db)
  qed (simp add: deleteUser_def assms)
qed

theorem user_service_keeps_ok_witness:
  "users_ok (app_db (snd (updateUser demo_crypto ''ann'' \<lparr>uc_name = Some ''Bo'', uc_email = None,
     uc_roleId = Some ''1'', uc_avatar = None, uc_password = None\<rparr> (Some 1) 5 demo_app)))"
proof -
  have "users_ok (app_db demo_app)"
    by (simp add: demo_app_def demo_rbac_db_def demo_admin_role_def users_ok_def slug_unique_users_def empty_db_def)
  from user_service_keeps_ok [OF this] show ?thesis by blast
qed

text \<open>An update never touches sessions, also when it sets a new password.\<close>

lemma updateUser_keeps_sessions:
  "refresh_tokens (app_db (snd (updateUser C slug d actor now a))) = refresh_tokens (app_db a)"
proof (cases "user_find slug (app_db a)")
  case (Some user)
  have "refresh_tokens (app_db (snd (in_db (transaction (updateUser_tx C user d actor now)) b))) = refresh_tokens (app_db b)" for b
    by (auto simp: in_db_def transaction_def updateUser_alone user_update_def split: sum.splits option.splits if_splits)
  with Some show ?thesis by (simp add: updateUser_def then_cache_db)
qed (simp add: updateUser_def)

section \<open>Requests that race\<close>

text \<open>The checks for a free email address and a free slug hold for requests one after the other. Two
  creations that both check before either commits both succeed, with the same address and the same
  slug: no unique index of the table stands behind the checks.\<close>

lemma racing_creations:
  assumes "admin_createUser_tx C d by1 now1 db = Inr (u1, db1)"
  shows "\<exists>u2 db2. admin_createUser_between (\<lambda>_. db1) C d by2 now2 db = Inr (u2, db2)
    \<and> user_id u2 \<noteq> user_id u1 \<and> user_email u2 = user_email u1 \<and> user_slug u2 = user_slug u1"
  using assms
  by (auto simp: admin_createUser_alone admin_createUser_between_def user_create_def Let_def
      split: if_splits option.splits sum.splits)

end
