(* ===== verification/Sessions.thy ===== *)
theory Sessions
  imports User_Service
begin

text \<open>
  The abstract meaning of the refresh-token table: a set of open sessions, each a user and a token
  family. Login opens a session, a refresh keeps it although it replaces the token, logout and the
  reuse of an old token close one, a password reset and the deletion of a user close all of a
  user. The operations of the program refine these, one request after the other (for requests
  that race see \<^verbatim>\<open>Refresh_Rotation\<close>).
\<close>

section \<open>The abstract sessions\<close>

type_synonym sessions = "(nat \<times> string) set"

datatype session_event = Kept | Opened nat string | Closed nat string | Closed_all nat

fun session_next :: "session_event \<Rightarrow> sessions \<Rightarrow> sessions" where
  "session_next Kept S = S"
| "session_next (Opened u f) S = insert (u, f) S"
| "session_next (Closed u f) S = S - {(u, f)}"
| "session_next (Closed_all u) S = {s \<in> S. fst s \<noteq> u}"

text \<open>A session is open while its family has an unrotated token.\<close>

definition live_sessions :: "refresh_token list \<Rightarrow> sessions" where
  "live_sessions t = (\<lambda>r. (rt_userId r, rt_familyId r)) ` {r \<in> set t. rt_rotatedAt r = None}"

section \<open>The operations\<close>

text \<open>What a refused refresh does to the session of the presented token.\<close>

definition refused_event :: "crypto \<Rightarrow> env \<Rightarrow> time \<Rightarrow> string \<Rightarrow> database \<Rightarrow> session_event" where
  "refused_event C E now token db =
     (if token = [] then Kept
      else (case findRefreshToken (hashToken C token) db of
        None \<Rightarrow> Kept
      | Some r \<Rightarrow>
          if rt_expiresAt r \<le> now
          then (if rt_rotatedAt r = None then Closed (rt_userId r) (rt_familyId r) else Kept)
          else (case rt_rotatedAt r of
                  None \<Rightarrow> Kept
                | Some ra \<Rightarrow> if now - ra > int (REFRESH_GRACE_SECONDS E) * 1000
                             then Closed (rt_userId r) (rt_familyId r) else Kept)))"

inductive auth_step :: "crypto \<Rightarrow> env \<Rightarrow> session_event \<Rightarrow> database \<Rightarrow> database \<Rightarrow> bool" for C E where
  login: "login C E rnd uuid family now dbnow email password db = (Inr tokens, db')
    \<Longrightarrow> findUserByEmail email db = Some u \<Longrightarrow> family \<notin> rt_familyId ` set (refresh_tokens db)
    \<Longrightarrow> auth_step C E (Opened (user_id u) family) db db'"
| login_refused: "login C E rnd uuid family now dbnow email password db = (Inl e, db') \<Longrightarrow> auth_step C E Kept db db'"
| refresh: "refreshAccessToken C E (\<lambda>t. t) quiet rnd iv uuid now dbnow token db = (Inr tokens, db')
    \<Longrightarrow> auth_step C E Kept db db'"
| refresh_refused: "refreshAccessToken C E (\<lambda>t. t) quiet rnd iv uuid now dbnow token db = (Inl e, db')
    \<Longrightarrow> auth_step C E (refused_event C E now token db) db db'"
| logout: "logout C quiet token (db, s) = (Inr (), (db', s')) \<Longrightarrow> findRefreshToken (hashToken C token) db = Some r
    \<Longrightarrow> auth_step C E (Closed (rt_userId r) (rt_familyId r)) db db'"
| logout_refused: "logout C quiet token (db, s) = (Inl e, (db', s')) \<Longrightarrow> auth_step C E Kept db db'"
| reset: "resetPassword C quiet now token password db = (Inr (), db') \<Longrightarrow> findUniqueToken token db = Some p
    \<Longrightarrow> auth_step C E (Closed_all (prt_userId p)) db db'"
| reset_refused: "resetPassword C quiet now token password db = (Inl e, db') \<Longrightarrow> auth_step C E Kept db db'"
| delete: "deleteUser_tx quiet u actor now db = Inr ((), db') \<Longrightarrow> auth_step C E (Closed_all (user_id u)) db db'"

inductive auth_run :: "crypto \<Rightarrow> env \<Rightarrow> session_event list \<Rightarrow> database \<Rightarrow> database \<Rightarrow> bool" for C E where
  start: "auth_run C E [] db db"
| step: "auth_step C E ev db db1 \<Longrightarrow> auth_run C E evs db1 db2 \<Longrightarrow> auth_run C E (ev # evs) db db2"

section \<open>Refinement\<close>

lemma live_sessions_append: "live_sessions (t @ u) = live_sessions t \<union> live_sessions u"
  by (auto simp: live_sessions_def)

lemma live_sessions_fresh [simp]: "live_sessions [fresh_row uuid h r x d] = {(rt_userId r, rt_familyId r)}"
  by (auto simp: live_sessions_def)

lemma live_sessions_delete_family:
  "live_sessions (delete_where (in_family u f) t) = live_sessions t - {(u, f)}"
  by (auto simp: live_sessions_def in_family_def)

lemma live_sessions_delete_user:
  "live_sessions (delete_where (of_user u) t) = {s \<in> live_sessions t. fst s \<noteq> u}"
proof -
  have "{s \<in> f ` A. P s} = f ` {x \<in> A. P (f x)}" for f :: "refresh_token \<Rightarrow> nat \<times> string" and A P
    by blast
  moreover have "{x \<in> {r \<in> set t. rt_rotatedAt r = None}. rt_userId x \<noteq> u}
      = {r \<in> set (delete_where (of_user u) t). rt_rotatedAt r = None}"
    by (simp add: of_user_def conj_ac)
  ultimately show ?thesis by (simp add: live_sessions_def)
qed

text \<open>Claiming a live row and appending its successor keeps its session.\<close>

lemma live_sessions_rotate:
  assumes "rt_inv t" and "r \<in> set t" and "rt_rotatedAt r = None"
  shows "live_sessions (claim_table (rt_id r) ct now t @ [fresh_row uuid h r x d]) = live_sessions t"
proof -
  have same: "q = r" if "q \<in> set t" "rt_id q = rt_id r" for q
    using that assms(1,2) inj_onD [of rt_id "set t" q r] by (simp add: rt_inv_def rt_keys_def distinct_map)
  have "live_sessions t \<subseteq> insert (rt_userId r, rt_familyId r) (live_sessions (claim_table (rt_id r) ct now t))"
  proof
    fix s assume "s \<in> live_sessions t"
    then obtain q where q: "q \<in> set t" "rt_rotatedAt q = None" "s = (rt_userId q, rt_familyId q)"
      by (auto simp: live_sessions_def)
    show "s \<in> insert (rt_userId r, rt_familyId r) (live_sessions (claim_table (rt_id r) ct now t))"
    proof (cases "q = r")
      case False
      then have "\<not> claimable (rt_id r) q" using same q(1) by (auto simp: claimable_def)
      then have "q \<in> set (claim_table (rt_id r) ct now t)" using q(1) by (force simp: claim_table_def set_update_where)
      then show ?thesis using q(2,3) by (auto simp: live_sessions_def)
    qed (simp add: q(3))
  qed
  moreover have "live_sessions (claim_table (rt_id r) ct now t) \<subseteq> live_sessions t"
    using live_claim_table by (fastforce simp: live_sessions_def)
  moreover have "(rt_userId r, rt_familyId r) \<in> live_sessions t" using assms(2,3) by (auto simp: live_sessions_def)
  ultimately show ?thesis by (auto simp: live_sessions_append)
qed

lemma live_sessions_delete_row:
  assumes "rt_inv t" and "r \<in> set t"
  shows "live_sessions (delete_where (\<lambda>q. rt_token q = rt_token r) t)
    = session_next (if rt_rotatedAt r = None then Closed (rt_userId r) (rt_familyId r) else Kept) (live_sessions t)"
proof -
  have same: "q = r" if "q \<in> set t" "rt_token q = rt_token r" for q
    using that assms inj_onD [of rt_token "set t" q r] by (simp add: rt_inv_def rt_keys_def distinct_map)
  have alone: "q = r" if "q \<in> set t" "rt_rotatedAt q = None" "rt_rotatedAt r = None"
      "rt_familyId q = rt_familyId r" for q
    using one_liveD [OF _ that(1) assms(2) that(4) that(2) that(3)] assms(1) by (simp add: rt_inv_def)
  show ?thesis
  proof (cases "rt_rotatedAt r = None")
    case True
    have "live_sessions (delete_where (\<lambda>q. rt_token q = rt_token r) t)
        = (\<lambda>q. (rt_userId q, rt_familyId q)) ` {q \<in> set t. rt_rotatedAt q = None \<and> q \<noteq> r}"
      using same by (auto simp: live_sessions_def)
    moreover have "\<dots> = live_sessions t - {(rt_userId r, rt_familyId r)}"
      using alone True by (fastforce simp: live_sessions_def)
    ultimately show ?thesis using True by simp
  next
    case False
    then have "{q \<in> set t. rt_token q \<noteq> rt_token r \<and> rt_rotatedAt q = None} = {q \<in> set t. rt_rotatedAt q = None}"
      using same by fastforce
    then have "live_sessions (delete_where (\<lambda>q. rt_token q = rt_token r) t) = live_sessions t"
      by (simp add: live_sessions_def conj_ac)
    with False show ?thesis by (simp only: if_False session_next.simps(1))
  qed
qed

lemma exchange_rotated_quiet:
  assumes "exchange_rotated C E quiet token now r ra db = Inr (out, db')"
  shows "refresh_tokens db' = (if now - ra > int (REFRESH_GRACE_SECONDS E) * 1000
      then delete_where (in_family (rt_userId r) (rt_familyId r)) (refresh_tokens db) else refresh_tokens db)
    \<and> ((\<exists>u s. out = Issued u s) \<longrightarrow> \<not> now - ra > int (REFRESH_GRACE_SECONDS E) * 1000)"
  using assms
  by (auto simp: exchange_rotated_def deleteRefreshTokenFamily_def revokeRefreshTokens_quiet split: if_splits)

lemma claim_inv:
  assumes inv: "rt_inv (refresh_tokens db)" and f: "findRefreshToken (hashToken C token) db = Some r"
    and live: "now < rt_expiresAt r" "rt_rotatedAt r = None"
    and run: "rotateRefreshToken C E (\<lambda>t. t) I rnd iv uuid dbnow token now db = Inr (out, db')"
  shows "rt_inv (refresh_tokens db')"
proof -
  have d: "distinct (map rt_id (refresh_tokens db))" using inv by (simp add: rt_inv_def rt_keys_def)
  have r: "r \<in> set (refresh_tokens db)" using findRefreshToken_SomeD [OF f] by simp
  obtain ct h x db1 where c: "createRefreshToken uuid h (rt_userId r) (rt_familyId r) x dbnow
      (db\<lparr>refresh_tokens := claim_table (rt_id r) ct now (refresh_tokens db)\<rparr>) = Inr db1" and "db' = db1"
    using run unfolding rotate_claimed [OF f live d] by (auto split: sum.splits)
  have cl: "claimable (rt_id r) r" using live(2) by (simp add: claimable_def)
  note row = createRefreshToken_Inr [OF c]
  have "rt_inv (claim_table (rt_id r) ct now (refresh_tokens db) @ [fresh_row uuid h r x dbnow])"
    by (rule rt_inv_append [OF rt_inv_claim [OF inv]])
      (use row family_dead_after_claim [OF inv r cl] in simp_all)
  then show ?thesis using row \<open>db' = db1\<close> by simp
qed

lemma rotate_sessions:
  assumes inv: "rt_inv (refresh_tokens db)" and "token \<noteq> []"
    and run: "rotateRefreshToken C E (\<lambda>t. t) quiet rnd iv uuid dbnow token now db = Inr (out, db')"
  shows "rt_inv (refresh_tokens db') \<and> live_sessions (refresh_tokens db')
    = session_next (if \<exists>u s. out = Issued u s then Kept else refused_event C E now token db)
        (live_sessions (refresh_tokens db))"
proof (cases "findRefreshToken (hashToken C token) db")
  case None
  with assms show ?thesis by (simp add: rotateRefreshToken_def Let_def refused_event_def)
next
  case (Some r)
  have r: "r \<in> set (refresh_tokens db)" "rt_token r = hashToken C token"
    using findRefreshToken_SomeD [OF Some] by simp_all
  have d: "distinct (map rt_id (refresh_tokens db))" using inv by (simp add: rt_inv_def rt_keys_def)
  consider (expired) "rt_expiresAt r \<le> now"
    | (rotated) ra where "\<not> rt_expiresAt r \<le> now" "rt_rotatedAt r = Some ra"
    | (claim) "now < rt_expiresAt r" "rt_rotatedAt r = None"
    by fastforce
  then show ?thesis
  proof cases
    case expired
    have rows: "refresh_tokens db' = delete_where (\<lambda>q. rt_token q = rt_token r) (refresh_tokens db)" "out = Expired"
      using run expired Some r(2) by (auto simp: rotateRefreshToken_def Let_def deleteRefreshToken_def)
    show ?thesis unfolding rows live_sessions_delete_row [OF inv r(1)]
      using expired Some assms(2) rt_inv_delete_where [OF inv] by (simp add: refused_event_def)
  next
    case rotated
    then have "exchange_rotated C E quiet token now r ra db = Inr (out, db')"
      using run Some by (simp add: rotateRefreshToken_def Let_def)
    note q = exchange_rotated_quiet [OF this]
    show ?thesis using q rotated Some assms(2) inv rt_inv_delete_where [OF inv]
      by (auto simp: refused_event_def live_sessions_delete_family)
  next
    case claim
    note c = claimed_state [OF Some claim d run]
    obtain ct h x where rows: "refresh_tokens db' = claim_table (rt_id r) ct now (refresh_tokens db)
        @ [fresh_row uuid h r x dbnow]" using c by blast
    have "\<exists>u s. out = Issued u s" using c by blast
    then show ?thesis using live_sessions_rotate [OF inv r(1) claim(2)] claim_inv [OF inv Some claim run] 
      by (simp add: rows)
  qed
qed

lemma login_sessions:
  assumes inv: "rt_inv (refresh_tokens db)" and u: "findUserByEmail email db = Some u"
    and new: "family \<notin> rt_familyId ` set (refresh_tokens db)"
    and run: "login C E rnd uuid family now dbnow email password db = (Inr tokens, db')"
  shows "rt_inv (refresh_tokens db')
    \<and> live_sessions (refresh_tokens db') = insert (user_id u, family) (live_sessions (refresh_tokens db))"
proof -
  let ?x = "now + int (REFRESH_TOKEN_EXPIRES_DAYS E) * 86400000"
  let ?h = "hashToken C (generateToken rnd)"
  define r where "r = \<lparr>rt_id = uuid, rt_token = ?h, rt_userId = user_id u, rt_familyId = family,
    rt_expiresAt = ?x, rt_createdAt = dbnow, rt_rotatedAt = None, rt_successorCiphertext = None\<rparr>"
  have "createRefreshToken uuid ?h (rt_userId r) (rt_familyId r) ?x dbnow db = Inr db'"
    using run u by (auto simp: login_def Let_def r_def split: option.splits if_splits sum.splits)
  note row = createRefreshToken_Inr [OF this]
  have "rt_familyId r \<notin> rt_familyId ` set (refresh_tokens db)" using new by (simp add: r_def)
  then have "rt_inv (refresh_tokens db @ [fresh_row uuid ?h r ?x dbnow])"
    by (intro rt_inv_append [OF inv]) (use row in \<open>auto simp: image_iff\<close>)
  then show ?thesis using row by (simp add: live_sessions_append r_def)
qed

lemma reset_sessions:
  assumes inv: "rt_inv (refresh_tokens db)" and p: "findUniqueToken token db = Some p"
    and run: "resetPassword C quiet now token password db = (Inr (), db')"
  shows "refresh_tokens db' = delete_where (of_user (prt_userId p)) (refresh_tokens db)"
proof -
  obtain i where "resetPassword_tx C quiet now token password db = Inr (Some i, db')"
    using run by (auto simp: resetPassword_def transaction_def split: sum.splits option.splits)
  then show ?thesis using p
    by (auto simp: resetPassword_alone user_update_def updatePasswordResetToken_def deleteRefreshTokensByUserId_def
        revokeRefreshTokens_quiet split: if_splits option.splits sum.splits)
qed

lemma reset_refused_sessions:
  assumes "resetPassword C quiet now token password db = (Inl e, db')"
  shows "refresh_tokens db' = refresh_tokens db"
proof (cases "resetPassword_tx C quiet now token password db")
  case (Inl e)
  with assms show ?thesis by (simp add: resetPassword_def transaction_def)
next
  case (Inr x)
  with assms show ?thesis
    by (auto simp: resetPassword_def transaction_def resetPassword_alone deletePasswordResetToken_def
        split: if_splits option.splits sum.splits)
qed

lemma logout_sessions:
  assumes "logout C quiet token (db, s) = (result, (db', s'))"
  shows "case findRefreshToken (hashToken C token) db of
      None \<Rightarrow> db' = db \<and> (\<exists>e. result = Inl e)
    | Some r \<Rightarrow> db' = db\<lparr>refresh_tokens := delete_where (in_family (rt_userId r) (rt_familyId r)) (refresh_tokens db)\<rparr>
        \<and> result = Inr ()"
  using assms by (auto simp: logout_def revoke_autocommit_quiet split: option.splits sum.splits)

lemma refresh_sessions:
  assumes inv: "rt_inv (refresh_tokens db)"
    and run: "refreshAccessToken C E (\<lambda>t. t) quiet rnd iv uuid now dbnow token db = (result, db')"
  shows "rt_inv (refresh_tokens db') \<and> live_sessions (refresh_tokens db') = session_next
    (case result of Inr tokens \<Rightarrow> Kept | Inl e \<Rightarrow> refused_event C E now token db) (live_sessions (refresh_tokens db))"
proof (cases "token = []")
  case True
  with run inv show ?thesis by (auto simp: refreshAccessToken_def refused_event_def)
next
  case False
  show ?thesis
  proof (cases "rotateRefreshToken C E (\<lambda>t. t) quiet rnd iv uuid dbnow token now db")
    case (Inl e)
    have "refused_event C E now token db = Kept"
      using Inl False by (auto simp: rotateRefreshToken_def Let_def refused_event_def exchange_rotated_def
          deleteRefreshTokenFamily_def revokeRefreshTokens_quiet split: option.splits if_splits)
    with Inl False run inv show ?thesis by (auto simp: refreshAccessToken_def transaction_def)
  next
    case (Inr x)
    obtain out db1 where x: "x = (out, db1)" by fastforce
    note rot = rotate_sessions [OF inv False, OF Inr [unfolded x]]
    have "db' = db1" "(\<exists>u s. out = Issued u s) \<longleftrightarrow> (\<exists>tokens. result = Inr tokens)"
      using run Inr x False by (auto simp: refreshAccessToken_def transaction_def split: rotation_outcome.splits)
    with rot show ?thesis by (cases result) simp_all
  qed
qed

text \<open>Every operation does to the sessions what its event says.\<close>

lemma auth_step_refines:
  assumes "auth_step C E ev db db'" and "rt_inv (refresh_tokens db)"
  shows "rt_inv (refresh_tokens db')
    \<and> live_sessions (refresh_tokens db') = session_next ev (live_sessions (refresh_tokens db))"
  using assms
proof cases
  case login
  from login_sessions [OF assms(2) login(3,4,2)] login(1) show ?thesis by simp
next
  case login_refused
  then have "refresh_tokens db' = refresh_tokens db"
    by (auto simp: login_def Let_def split: option.splits if_splits sum.splits)
  with login_refused(1) assms(2) show ?thesis by simp
next
  case refresh
  from refresh_sessions [OF assms(2) refresh(2)] refresh(1) show ?thesis by simp
next
  case refresh_refused
  from refresh_sessions [OF assms(2) refresh_refused(2)] refresh_refused(1) show ?thesis by simp
next
  case logout
  from logout_sessions [OF logout(2)] logout(1,3) assms(2) show ?thesis
    by (simp add: live_sessions_delete_family rt_inv_delete_where)
next
  case logout_refused
  from logout_sessions [OF logout_refused(2)] logout_refused(1) assms(2) show ?thesis
    by (auto split: option.splits)
next
  case reset
  from reset_sessions [OF assms(2) reset(3,2)] reset(1) assms(2) show ?thesis
    by (simp add: live_sessions_delete_user rt_inv_delete_where)
next
  case reset_refused
  from reset_refused_sessions [OF reset_refused(2)] reset_refused(1) assms(2) show ?thesis by simp
next
  case delete
  from deleteUser_tx_rows(2) [OF delete(2)] delete(1) assms(2) show ?thesis
    by (simp add: live_sessions_delete_user rt_inv_delete_where)
qed

text \<open>C4. The token table implements a set of sessions. Over any sequence of logins, refreshes,
  logouts, password resets and account deletions, the sessions left open are those of the abstract
  machine: a login opens one for its user, a refresh keeps it although the token changes, a logout
  closes that one only, a reset or a deletion closes all of the user, and a refused refresh closes
  its own session when the token had expired or had been replaced too long ago, and otherwise none;
  the invariant of the table holds at the end.\<close>

theorem sessions_refined:
  assumes "auth_run C E evs db db'" and "rt_inv (refresh_tokens db)"
  shows "live_sessions (refresh_tokens db') = fold session_next evs (live_sessions (refresh_tokens db))
    \<and> rt_inv (refresh_tokens db')"
  using assms
proof (induction rule: auth_run.induct)
  case (step ev db db1 evs db2)
  from auth_step_refines [OF step.hyps(1) step.prems] step.IH show ?case by simp
qed simp

text \<open>A refresh, then a logout with the token it replaced.\<close>

lemma demo_session_run:
  "\<exists>db. auth_run demo_crypto default_env [Kept, Closed 1 ''f1''] demo_token_db db"
proof -
  obtain db1 where r: "rotateRefreshToken demo_crypto default_env (\<lambda>t. t) quiet demo_random demo_iv ''r2'' 1000
     ''old'' 1000 demo_token_db = Inr (Issued 1 (generateToken demo_random), db1)" using demo_rotation by blast
  have live: "1000 < rt_expiresAt demo_live" "rt_rotatedAt demo_live = None"
    "distinct (map rt_id (refresh_tokens demo_token_db))" by (simp_all add: demo_token_defs)
  obtain ct where f: "findRefreshToken (hashToken demo_crypto ''old'') db1 = Some (claim_row ct 1000 demo_live)"
    using claimed_state [OF demo_find live r] by blast
  obtain tokens where "refreshAccessToken demo_crypto default_env (\<lambda>t. t) quiet demo_random demo_iv ''r2'' 1000 1000
      ''old'' demo_token_db = (Inr tokens, db1)" using r by (auto simp: refreshAccessToken_def transaction_def)
  then have one: "auth_step demo_crypto default_env Kept demo_token_db db1" by (rule refresh)
  obtain result db2 s where l: "logout demo_crypto quiet ''old'' (db1, empty_redis) = (result, (db2, s))"
    by (metis prod.exhaust)
  with logout_sessions [OF l] f have "logout demo_crypto quiet ''old'' (db1, empty_redis) = (Inr (), (db2, s))" by simp
  from logout [OF this f] have two: "auth_step demo_crypto default_env (Closed 1 ''f1'') db1 db2"
    by (simp add: demo_live_def)
  show ?thesis by (rule exI, rule auth_run.step [OF one auth_run.step [OF two auth_run.start]])
qed

theorem sessions_refined_witness:
  "\<exists>db. auth_run demo_crypto default_env [Kept, Closed 1 ''f1''] demo_token_db db
     \<and> live_sessions (refresh_tokens demo_token_db) = {(1, ''f1'')} \<and> live_sessions (refresh_tokens db) = {}"
proof -
  obtain db where r: "auth_run demo_crypto default_env [Kept, Closed 1 ''f1''] demo_token_db db"
    using demo_session_run by blast
  have row: "refresh_tokens demo_token_db = [fresh_row ''r1'' ''hold'' demo_live 604800000 0]"
    by (simp add: demo_token_defs fresh_row_def)
  have "live_sessions (refresh_tokens demo_token_db) = {(1, ''f1'')}"
    unfolding row by (simp add: demo_live_def)
  with sessions_refined [OF r demo_token_inv] r show ?thesis by auto
qed

end
