(* ===== verification/Email_Template.thy ===== *)
theory Email_Template
  imports User_Service
begin

text \<open>
  The editable transactional emails (\<^verbatim>\<open>src/modules/email-template\<close>): the catalogue of built-in texts
  with their variables, the substitution of placeholders with escaped values, the shared layout
  (\<^verbatim>\<open>src/email/templates/layout/base.template.ts\<close>) and the service that renders and edits templates.
  \<open>APP_NAME\<close> is the configured application name. Sanitizing of saved bodies (js-xss) happens before
  the service and is not part of the model.
\<close>

section \<open>Placeholders\<close>

datatype segment = Lit char | Hole string string

text \<open>A match of \<^verbatim>\<open>\{\{\s*([a-zA-Z0-9_]+)\s*\}\}\<close> at the start of a text: the name, the matched text and
  what follows it.\<close>

definition match_placeholder :: "string \<Rightarrow> (string \<times> string \<times> string) option" where
  "match_placeholder s =
     (if \<not> startsWith s ''{{'' then None
      else let t = dropWhile is_space (drop 2 s); name = takeWhile is_word t;
               u = dropWhile is_space (drop (length name) t)
           in if name = [] \<or> \<not> startsWith u ''}}'' then None
              else Some (name, take (length s - length (drop 2 u)) s, drop 2 u))"

lemma match_placeholder_shorter: "match_placeholder s = Some (n, raw, rest) \<Longrightarrow> length rest < length s"
proof -
  assume a: "match_placeholder s = Some (n, raw, rest)"
  then have p: "startsWith s ''{{''" by (auto simp: match_placeholder_def split: if_splits)
  let ?t = "dropWhile is_space (drop 2 s)"
  let ?u = "dropWhile is_space (drop (length (takeWhile is_word ?t)) ?t)"
  have r: "rest = drop 2 ?u" using a p by (auto simp: match_placeholder_def Let_def split: if_splits)
  have "length ?u \<le> length (drop (length (takeWhile is_word ?t)) ?t)" by (rule length_dropWhile_le)
  also have "\<dots> \<le> length ?t" by simp
  also have "\<dots> \<le> length (drop 2 s)" by (rule length_dropWhile_le)
  finally show ?thesis using p r by (cases s) (auto simp: startsWith_def)
qed

function segments :: "string \<Rightarrow> segment list" where
  "segments [] = []"
| "segments (c # s) = (case match_placeholder (c # s) of
     None \<Rightarrow> Lit c # segments s
   | Some (name, raw, rest) \<Rightarrow> Hole name raw # segments rest)"
  by pat_completeness auto
termination by (relation "measure length") (auto dest: match_placeholder_shorter)

definition hole_names :: "string \<Rightarrow> string list" where
  "hole_names text = concat (map (\<lambda>g. case g of Lit c \<Rightarrow> [] | Hole n raw \<Rightarrow> [n]) (segments text))"

definition in_order :: "'a list \<Rightarrow> 'a list" where
  "in_order xs = rev (remdups (rev xs))"

definition placeholdersIn :: "string \<Rightarrow> string list" where
  "placeholdersIn text = in_order (hole_names text)"

lemma set_placeholdersIn [simp]: "set (placeholdersIn text) = set (hole_names text)"
  by (simp add: placeholdersIn_def in_order_def)

section \<open>Rendering\<close>

definition replace_char :: "char \<Rightarrow> string \<Rightarrow> string \<Rightarrow> string" where
  "replace_char c r s = concat (map (\<lambda>x. if x = c then r else [x]) s)"

definition escapeHtml :: "string \<Rightarrow> string" where
  "escapeHtml v = replace_char (CHR 0x27) ''&#39;'' (replace_char (CHR 0x22) ''&quot;''
     (replace_char (CHR ''>'') ''&gt;'' (replace_char (CHR ''<'') ''&lt;'' (replace_char (CHR ''&'') ''&amp;'' v))))"

type_synonym variables = "(string \<times> string) list"

definition fill :: "variables \<Rightarrow> (string \<Rightarrow> string) \<Rightarrow> segment \<Rightarrow> string" where
  "fill vs encode g = (case g of
     Lit c \<Rightarrow> [c]
   | Hole name raw \<Rightarrow> (case map_of vs name of None \<Rightarrow> raw | Some v \<Rightarrow> encode v))"

definition substitute :: "string \<Rightarrow> variables \<Rightarrow> (string \<Rightarrow> string) \<Rightarrow> string" where
  "substitute text vs encode = concat (map (fill vs encode) (segments text))"

text \<open>\<^verbatim>\<open>s.replace(/\s*[\r\n]+\s*/g, ' ')\<close>: every run of white space that holds a line break.\<close>

definition line_break :: "char \<Rightarrow> bool" where
  "line_break c = (char_code c = 10 \<or> char_code c = 13)"

function one_line :: "string \<Rightarrow> string" where
  "one_line [] = []"
| "one_line (c # s) =
     (if is_space c
      then (let run = takeWhile is_space (c # s); rest = dropWhile is_space s
            in if list_ex line_break run then CHR '' '' # one_line rest else run @ one_line rest)
      else c # one_line s)"
  by pat_completeness auto
termination by (relation "measure length") (auto simp: le_imp_less_Suc length_dropWhile_le)

definition layout_head :: "string \<Rightarrow> string list" where
  "layout_head APP_NAME =
       [''<!DOCTYPE html>'',
        ''    <html lang=\"en\">'',
        ''    <head>'',
        ''      <meta charset=\"UTF-8\" />'',
        ''      <meta name=\"viewport\" content=\"width=device-width, initial-scale=1.0\" />'',
        ''      <title>'' @ APP_NAME @ ''</title>'',
        ''    </head>'',
        ''    <body style=\"margin:0;padding:0;background:#f4f4f5;font-family:Arial,Helvetica,sans-serif;\">'',
        ''      <table width=\"100%\" cellpadding=\"0\" cellspacing=\"0\" style=\"padding:40px 0;\">'',
        ''        <tr>'',
        ''          <td align=\"center\">'',
        ''            <table width=\"600\" cellpadding=\"0\" cellspacing=\"0\"'',
        ''              style=\"background:#ffffff;border-radius:8px;overflow:hidden;box-shadow:0 2px 8px rgba(0,0,0,0.08);\">'',
        ''              <tr>'',
        ''                <td style=\"background:#4f46e5;padding:24px 40px;\">'',
        ''                  <h1 style=\"margin:0;color:#ffffff;font-size:22px;\">'' @ APP_NAME @ ''</h1>'',
        ''                </td>'',
        ''              </tr>'',
        ''              <tr>'',
        ''                <td style=\"padding:36px 40px;\">'']"

definition layout_foot :: "string list" where
  "layout_foot =
       [''                </td>'',
        ''              </tr>'',
        ''              <tr>'',
        ''                <td style=\"background:#f9fafb;padding:16px 40px;border-top:1px solid #e5e7eb;\">'',
        ''                  <p style=\"margin:0;color:#9ca3af;font-size:12px;\">'',
        ''                    This is an automated email, please do not reply.'',
        ''                  </p>'',
        ''                </td>'',
        ''              </tr>'',
        ''            </table>'',
        ''          </td>'',
        ''        </tr>'',
        ''      </table>'',
        ''    </body>'',
        ''    </html>'',
        ''  '']"

definition baseTemplate :: "string \<Rightarrow> string \<Rightarrow> string" where
  "baseTemplate APP_NAME content =
     join_with [CHR 0x0A] (layout_head APP_NAME @ [''                  '' @ content] @ layout_foot)"

record template_text =
  tt_subject :: string
  tt_body :: string

record rendered =
  rd_subject :: string
  rd_html :: string

definition renderTemplate :: "string \<Rightarrow> template_text \<Rightarrow> variables \<Rightarrow> rendered" where
  "renderTemplate APP_NAME t vs =
     \<lparr>rd_subject = trim (one_line (substitute (tt_subject t) vs (\<lambda>v. v))),
      rd_html = baseTemplate APP_NAME (substitute (tt_body t) vs escapeHtml)\<rparr>"

section \<open>Catalogue\<close>

definition KEY_VERIFY_EMAIL :: string where "KEY_VERIFY_EMAIL = ''verify-email''"
definition KEY_EMAIL_VERIFIED :: string where "KEY_EMAIL_VERIFIED = ''email-verified''"
definition KEY_RESET_PASSWORD :: string where "KEY_RESET_PASSWORD = ''reset-password''"
definition KEY_REGISTRATION_CODE :: string where "KEY_REGISTRATION_CODE = ''registration-code''"

lemmas template_key_defs = KEY_VERIFY_EMAIL_def KEY_EMAIL_VERIFIED_def KEY_RESET_PASSWORD_def
  KEY_REGISTRATION_CODE_def

record template_variable =
  tv_name :: string
  tv_description :: string

record template_definition =
  td_title :: string
  td_text :: template_text
  td_variables :: "template_variable list"
  td_required :: "string list"

definition tvar :: "string \<Rightarrow> string \<Rightarrow> template_variable" where
  "tvar n d = \<lparr>tv_name = n, tv_description = d\<rparr>"

definition GLOBAL_TEMPLATE_VARIABLES :: "template_variable list" where
  "GLOBAL_TEMPLATE_VARIABLES = [tvar ''app_name'' ''Application name (APP_NAME)'']"

definition BUTTON :: string where
  "BUTTON = ''display:inline-block;background:#4f46e5;color:#ffffff;text-decoration:none;padding:14px 28px;border-radius:6px;font-size:15px;font-weight:bold;''"
definition GREETING :: string where "GREETING = ''color:#374151;font-size:16px;''"
definition TEXT :: string where "TEXT = ''color:#6b7280;font-size:15px;line-height:1.6;''"
definition NOTE :: string where "NOTE = ''color:#9ca3af;font-size:13px;''"

definition para :: "string \<Rightarrow> string \<Rightarrow> string" where
  "para style inner = ''<p style=\"'' @ style @ ''\">'' @ inner @ ''</p>''"

definition verify_email_template :: template_definition where
  "verify_email_template = \<lparr>td_title = ''Email verification link'',
     td_text = \<lparr>tt_subject = ''Verify Your Email Address'', tt_body = join_with [CHR 0x0A]
       [para GREETING ''Hello, <strong>{{name}}</strong>!'',
        para TEXT ''Thank you for registering. Click the button below to verify your email address and activate your account.'',
        ''<div style=\"margin:32px 0;\"><a href=\"{{link}}\" style=\"'' @ BUTTON @ ''\">Verify Email</a></div>'',
        para NOTE ''This link is valid for <strong>{{expires_hours}} hours</strong>.<br />If you did not register at {{app_name}}, please ignore this email.'']\<rparr>,
     td_variables = [tvar ''name'' ''Recipient name'', tvar ''link'' ''Verification link'',
       tvar ''expires_hours'' ''Hours the link stays valid''],
     td_required = [''link'']\<rparr>"

definition email_verified_template :: template_definition where
  "email_verified_template = \<lparr>td_title = ''Email verified notice'',
     td_text = \<lparr>tt_subject = ''Email Verified Successfully'', tt_body = join_with [CHR 0x0A]
       [para GREETING ''Hello, <strong>{{name}}</strong>!'',
        para TEXT ''Your email address has been successfully verified. You can now log in to your account and start using our services.'',
        para NOTE ''If you did not perform this action, please contact our support team immediately.'']\<rparr>,
     td_variables = [tvar ''name'' ''Recipient name''],
     td_required = []\<rparr>"

definition reset_password_template :: template_definition where
  "reset_password_template = \<lparr>td_title = ''Password reset link'',
     td_text = \<lparr>tt_subject = ''Reset Your Password'', tt_body = join_with [CHR 0x0A]
       [para GREETING ''Hello, <strong>{{name}}</strong>!'',
        para TEXT ''We received a request to reset your account password. Click the button below to create a new password.'',
        ''<div style=\"margin:32px 0;\"><a href=\"{{link}}\" style=\"'' @ BUTTON @ ''\">Reset Password</a></div>'',
        para NOTE ''This link is valid for <strong>{{expires_minutes}} minutes</strong>.<br />If you did not request a password reset, please ignore this email. Your account remains safe.'']\<rparr>,
     td_variables = [tvar ''name'' ''Recipient name'', tvar ''link'' ''Password reset link'',
       tvar ''expires_minutes'' ''Minutes the link stays valid''],
     td_required = [''link'']\<rparr>"

definition registration_code_template :: template_definition where
  "registration_code_template = \<lparr>td_title = ''Registration code'',
     td_text = \<lparr>tt_subject = ''Your Verification Code'', tt_body = join_with [CHR 0x0A]
       [para GREETING ''Hello!'',
        para TEXT ''Use the verification code below to confirm your email address and continue your registration.'',
        ''<div style=\"margin:32px 0;text-align:center;\"><span style=\"display:inline-block;background:#f4f4f5;color:#111827;padding:16px 32px;border-radius:6px;font-size:32px;font-weight:bold;letter-spacing:8px;font-family:'' @ [CHR 0x27] @ ''Courier New'' @ [CHR 0x27] @ '',Courier,monospace;\">{{code}}</span></div>'',
        para NOTE ''This code is valid for <strong>{{expires_minutes}} minutes</strong>.<br />If you did not request this code at {{app_name}}, please ignore this email.'']\<rparr>,
     td_variables = [tvar ''code'' ''Six-digit registration code'',
       tvar ''expires_minutes'' ''Minutes the code stays valid''],
     td_required = [''code'']\<rparr>"

definition EMAIL_TEMPLATE_CATALOG :: "(string \<times> template_definition) list" where
  "EMAIL_TEMPLATE_CATALOG =
     [(KEY_VERIFY_EMAIL, verify_email_template), (KEY_EMAIL_VERIFIED, email_verified_template),
      (KEY_RESET_PASSWORD, reset_password_template), (KEY_REGISTRATION_CODE, registration_code_template)]"

definition isTemplateKey :: "string \<Rightarrow> bool" where
  "isTemplateKey key = (map_of EMAIL_TEMPLATE_CATALOG key \<noteq> None)"

definition allowed_names :: "template_definition \<Rightarrow> string list" where
  "allowed_names d = map tv_name (td_variables d @ GLOBAL_TEMPLATE_VARIABLES)"

definition unknown_problems :: "template_definition \<Rightarrow> string \<Rightarrow> string \<Rightarrow> (string \<times> string) list" where
  "unknown_problems d field text =
     map (\<lambda>n. (field, ''Unknown variable {{'' @ n @ ''}}''))
       (filter (\<lambda>n. n \<notin> set (allowed_names d)) (placeholdersIn text))"

definition problems_of :: "template_definition \<Rightarrow> template_text \<Rightarrow> (string \<times> string) list" where
  "problems_of d t =
     unknown_problems d ''subject'' (tt_subject t) @ unknown_problems d ''body'' (tt_body t)
     @ map (\<lambda>n. (''body'', ''Body must contain {{'' @ n @ ''}}''))
         (filter (\<lambda>n. n \<notin> set (placeholdersIn (tt_body t))) (td_required d))"

definition templateProblems :: "string \<Rightarrow> template_text \<Rightarrow> (string \<times> string) list" where
  "templateProblems key t = problems_of (the (map_of EMAIL_TEMPLATE_CATALOG key)) t"

section \<open>Service\<close>

definition et_findByKey :: "string \<Rightarrow> database \<Rightarrow> email_template option" where
  "et_findByKey key db = find_first (\<lambda>t. et_key t = key) (email_templates db)"

definition et_text :: "email_template \<Rightarrow> template_text" where
  "et_text t = \<lparr>tt_subject = et_subject t, tt_body = et_body t\<rparr>"

definition render :: "string \<Rightarrow> string \<Rightarrow> variables \<Rightarrow> database \<Rightarrow> rendered" where
  "render APP_NAME key vs db =
     (let row = et_findByKey key db;
          source = (case row of
             Some t \<Rightarrow> if et_isActive t then et_text t else td_text (the (map_of EMAIL_TEMPLATE_CATALOG key))
           | None \<Rightarrow> td_text (the (map_of EMAIL_TEMPLATE_CATALOG key)))
      in renderTemplate APP_NAME source (vs @ [(''app_name'', APP_NAME)]))"

record template_changes =
  tc_title :: "string option"
  tc_subject :: "string option"
  tc_body :: "string option"
  tc_isActive :: "bool option"

definition apply_template :: "template_changes \<Rightarrow> time \<Rightarrow> email_template \<Rightarrow> email_template" where
  "apply_template d now t = t\<lparr>et_title := or_else (tc_title d) (et_title t),
     et_subject := or_else (tc_subject d) (et_subject t), et_body := or_else (tc_body d) (et_body t),
     et_isActive := or_else (tc_isActive d) (et_isActive t), et_updatedAt := now\<rparr>"

definition et_update :: "string \<Rightarrow> template_changes \<Rightarrow> time \<Rightarrow> (database, email_template) tx" where
  "et_update key d now db =
     (case et_findByKey key db of
        None \<Rightarrow> Inl (DbError ''P2025'')
      | Some t \<Rightarrow> Inr (apply_template d now t,
          db\<lparr>email_templates := update_where (\<lambda>t. et_key t = key) (apply_template d now) (email_templates db)\<rparr>))"

definition template_not_found :: error where
  "template_not_found = AppError ''Email template not found'' 404"

definition template_find :: "string \<Rightarrow> database \<Rightarrow> error + email_template" where
  "template_find key db = (case (if isTemplateKey key then et_findByKey key db else None) of
     None \<Rightarrow> Inl template_not_found | Some t \<Rightarrow> Inr t)"

definition variable_json :: "template_variable \<Rightarrow> json" where
  "variable_json v = JObj [(''name'', JStr (tv_name v)), (''description'', JStr (tv_description v))]"

definition toTemplateResponse :: "email_template \<Rightarrow> json" where
  "toTemplateResponse t = (let d = map_of EMAIL_TEMPLATE_CATALOG (et_key t) in
     JObj [(''key'', JStr (et_key t)), (''title'', JStr (et_title t)), (''subject'', JStr (et_subject t)),
       (''body'', JStr (et_body t)), (''isActive'', JBool (et_isActive t)),
       (''updatedAt'', JStr (toISOString (et_updatedAt t))),
       (''variables'', JArr (map variable_json ((case d of None \<Rightarrow> [] | Some x \<Rightarrow> td_variables x) @ GLOBAL_TEMPLATE_VARIABLES))),
       (''requiredVariables'', JArr (map JStr (case d of None \<Rightarrow> [] | Some x \<Rightarrow> td_required x)))])"

definition template_show :: "string \<Rightarrow> database \<Rightarrow> error + json" where
  "template_show key db = (case template_find key db of Inl e \<Rightarrow> Inl e | Inr t \<Rightarrow> Inr (toTemplateResponse t))"

definition template_snapshot :: "email_template \<Rightarrow> json" where
  "template_snapshot t = JObj [(''title'', JStr (et_title t)), (''subject'', JStr (et_subject t)),
     (''isActive'', JBool (et_isActive t))]"

definition template_update_tx ::
  "email_template \<Rightarrow> template_changes \<Rightarrow> nat option \<Rightarrow> time \<Rightarrow> (database, email_template) tx" where
  "template_update_tx template d updatedBy now db =
     (case et_update (et_key template) d now db of
        Inl e \<Rightarrow> Inl e
      | Inr (row, db1) \<Rightarrow>
          Inr (row, logActivity updatedBy ''UPDATE'' ''EmailTemplate'' (Some (et_id row))
                      (Some (''Email template updated: '' @ et_key row)) (template_snapshot template)
                      (template_snapshot row) now db1))"

definition template_update ::
  "string \<Rightarrow> template_changes \<Rightarrow> nat option \<Rightarrow> time \<Rightarrow> (database, json) service" where
  "template_update key d updatedBy now db =
     (case template_find key db of
        Inl e \<Rightarrow> (Inl e, db)
      | Inr template \<Rightarrow>
          (let problems = templateProblems (et_key template)
                 \<lparr>tt_subject = or_else (tc_subject d) (et_subject template),
                  tt_body = or_else (tc_body d) (et_body template)\<rparr>
           in if problems \<noteq> [] then (Inl (AppErrorFields ''Validation failed'' 400 problems), db)
              else (case transaction (template_update_tx template d updatedBy now) db of
                      (Inl e, db') \<Rightarrow> (Inl e, db')
                    | (Inr row, db') \<Rightarrow> (Inr (toTemplateResponse row), db'))))"

section \<open>Escaping\<close>

definition escape_char :: "char \<Rightarrow> string" where
  "escape_char c =
     (if c = CHR ''&'' then ''&amp;'' else if c = CHR ''<'' then ''&lt;'' else if c = CHR ''>'' then ''&gt;''
      else if c = CHR 0x22 then ''&quot;'' else if c = CHR 0x27 then ''&#39;'' else [c])"

lemma replace_char_append [simp]: "replace_char c r (s @ t) = replace_char c r s @ replace_char c r t"
  by (simp add: replace_char_def)

lemma replace_char_simps [simp]:
  "replace_char c r [] = []" "replace_char c r (x # s) = (if x = c then r else [x]) @ replace_char c r s"
  by (simp_all add: replace_char_def)

text \<open>The five passes are one pass: no replacement is replaced again.\<close>

lemma escapeHtml_single_pass: "escapeHtml v = concat (map escape_char v)"
proof (induction v)
  case (Cons c v)
  have "escapeHtml (c # v) = escapeHtml [c] @ escapeHtml v"
    by (simp only: escapeHtml_def replace_char_append [symmetric] append_Cons append_Nil)
  moreover have "escapeHtml [c] = escape_char c" by (simp add: escapeHtml_def escape_char_def)
  ultimately show ?case using Cons.IH by simp
qed (simp add: escapeHtml_def)

definition markup_char :: "char \<Rightarrow> bool" where
  "markup_char c = (c \<in> {CHR ''<'', CHR ''>'', CHR 0x22, CHR 0x27})"

lemma escapeHtml_plain: "filter markup_char (escapeHtml v) = []"
proof -
  have "filter markup_char (escape_char c) = []" for c by (simp add: escape_char_def markup_char_def)
  then show ?thesis by (simp add: escapeHtml_single_pass filter_concat comp_def)
qed

text \<open>What a mail client shows for an escaped value.\<close>

fun unescape :: "string \<Rightarrow> string" where
  "unescape [] = []"
| "unescape (c # s) =
     (if startsWith (c # s) ''&amp;'' then CHR ''&'' # unescape (drop 4 s)
      else if startsWith (c # s) ''&lt;'' then CHR ''<'' # unescape (drop 3 s)
      else if startsWith (c # s) ''&gt;'' then CHR ''>'' # unescape (drop 3 s)
      else if startsWith (c # s) ''&quot;'' then CHR 0x22 # unescape (drop 5 s)
      else if startsWith (c # s) ''&#39;'' then CHR 0x27 # unescape (drop 4 s)
      else c # unescape s)"

lemma unescape_escape [simp]: "unescape (escapeHtml v) = v"
proof -
  have "unescape (escape_char c @ s) = c # unescape s" for c s
    by (auto simp: escape_char_def startsWith_def)
  then have "unescape (concat (map escape_char v)) = v" by (induction v) auto
  then show ?thesis by (simp add: escapeHtml_single_pass)
qed

section \<open>Substitution\<close>

definition blank :: "variables \<Rightarrow> variables" where
  "blank vs = map (\<lambda>(k, v). (k, [])) vs"

lemma map_of_blank: "map_of (blank vs) k = map_option (\<lambda>_. []) (map_of vs k)"
  unfolding blank_def by (induction vs) auto

lemma fill_markup: "filter markup_char (fill vs escapeHtml g) = filter markup_char (fill (blank vs) escapeHtml g)"
  by (cases g) (simp_all add: fill_def map_of_blank escapeHtml_plain escapeHtml_single_pass [of "[]"] split: option.split)

lemma substitute_markup:
  "filter markup_char (substitute text vs escapeHtml) = filter markup_char (substitute text (blank vs) escapeHtml)"
proof -
  have "(\<lambda>g. filter markup_char (fill vs escapeHtml g)) = (\<lambda>g. filter markup_char (fill (blank vs) escapeHtml g))"
    by (rule ext) (rule fill_markup)
  then show ?thesis by (simp add: substitute_def filter_concat comp_def)
qed

lemma hole_names_iff: "n \<in> set (hole_names text) \<longleftrightarrow> (\<exists>raw. Hole n raw \<in> set (segments text))"
  by (auto simp: hole_names_def split: segment.splits)

lemma sublist_concat: "x \<in> set xs \<Longrightarrow> sublist x (concat xs)"
proof -
  assume "x \<in> set xs"
  then obtain ys zs where "xs = ys @ x # zs" by (meson split_list)
  then show ?thesis by (auto simp: sublist_def)
qed

lemma substitute_contains:
  assumes "n \<in> set (hole_names text)" and "map_of vs n = Some v"
  shows "sublist (encode v) (substitute text vs encode)"
proof -
  obtain raw where "Hole n raw \<in> set (segments text)" using assms(1) by (auto simp: hole_names_iff)
  moreover have "fill vs encode (Hole n raw) = encode v" using assms(2) by (simp add: fill_def)
  ultimately have "encode v \<in> set (map (fill vs encode) (segments text))" by force
  then show ?thesis unfolding substitute_def by (rule sublist_concat)
qed

lemma baseTemplate_contains: "\<exists>pre post. \<forall>content. baseTemplate APP_NAME content = pre @ content @ post"
proof -
  have "\<exists>pre post. \<forall>w. join_with sep (xs @ w # ys) = pre @ w @ post" for sep :: string and xs ys
  proof (induction xs)
    case Nil
    then show ?case by (cases ys) (auto intro: exI [of _ "[]"])
  next
    case (Cons x xs)
    then obtain pre post where e: "\<And>w. join_with sep (xs @ w # ys) = pre @ w @ post" by blast
    have "join_with sep ((x # xs) @ w # ys) = (x @ sep @ pre) @ w @ post" for w
      using e [of w] by (cases xs) simp_all
    then show ?case by blast
  qed
  then obtain pre post where e: "\<And>w. join_with [CHR 0x0A] (layout_head APP_NAME @ w # layout_foot) = pre @ w @ post"
    by blast
  have "baseTemplate APP_NAME content = (pre @ ''                  '') @ content @ post" for content
    using e [of "''                  '' @ content"] by (simp add: baseTemplate_def)
  then show ?thesis by blast
qed

lemma one_line_clean: "c \<in> set (one_line s) \<Longrightarrow> \<not> line_break c"
proof (induction s rule: one_line.induct)
  case (2 x s)
  show ?case
  proof (cases "is_space x")
    case False
    then have "\<not> line_break x" by (auto simp: is_space_def line_break_def)
    with 2 False show ?thesis by auto
  next
    case True
    have sp: "\<not> line_break (CHR '' '')" by (simp add: line_break_def char_code_def)
    show ?thesis
      using 2 True sp by (auto simp: Let_def list_ex_iff split: if_splits dest: set_takeWhileD)
  qed
qed simp

lemma set_trim: "set (trim s) \<subseteq> set s"
  by (auto simp: trim_def dest!: set_dropWhileD)

text \<open>C39. A variable cannot inject anything into an email: every markup character of the document
  (angle brackets and both quotes) comes from the template or the layout and is the same for all
  values, the subject is a single line, and each escaped value is shown as the value itself.\<close>

theorem render_no_injection:
  "filter markup_char (rd_html (renderTemplate APP_NAME t vs))
     = filter markup_char (rd_html (renderTemplate APP_NAME t (blank vs)))
   \<and> (\<nexists>c. c \<in> set (rd_subject (renderTemplate APP_NAME t vs)) \<and> line_break c)
   \<and> unescape (escapeHtml v) = v"
proof -
  obtain pre post where b: "\<And>content. baseTemplate APP_NAME content = pre @ content @ post"
    using baseTemplate_contains by blast
  have "filter markup_char (rd_html (renderTemplate APP_NAME t vs))
     = filter markup_char (rd_html (renderTemplate APP_NAME t (blank vs)))"
    using substitute_markup [of "tt_body t" vs] by (simp add: renderTemplate_def b)
  moreover have "\<nexists>c. c \<in> set (rd_subject (renderTemplate APP_NAME t vs)) \<and> line_break c"
    using set_trim one_line_clean by (fastforce simp: renderTemplate_def)
  ultimately show ?thesis by simp
qed

section \<open>Saved templates\<close>

text \<open>Every stored template of the catalogue is sendable.\<close>

definition templates_ok :: "database \<Rightarrow> bool" where
  "templates_ok db = (distinct (map et_key (email_templates db))
     \<and> (\<forall>t \<in> set (email_templates db). isTemplateKey (et_key t) \<longrightarrow> templateProblems (et_key t) (et_text t) = []))"

text \<open>Evaluation of \<open>hole_names\<close> on literal text.\<close>

lemma hole_names_Nil: "hole_names [] = []"
  by (simp add: hole_names_def)

lemma hole_names_skip: "c \<noteq> CHR ''{'' \<Longrightarrow> hole_names (c # s) = hole_names s"
  by (simp add: hole_names_def match_placeholder_def startsWith_def)

lemma hole_names_braces:
  "hole_names (CHR ''{'' # CHR ''{'' # s) =
     (let t = dropWhile is_space s; name = takeWhile is_word t; u = dropWhile is_space (drop (length name) t)
      in if name \<noteq> [] \<and> startsWith u ''}}'' then name # hole_names (drop 2 u) else hole_names (CHR ''{'' # s))"
  by (simp add: hole_names_def match_placeholder_def startsWith_def Let_def)

lemmas hole_names_eval = hole_names_Nil hole_names_skip hole_names_braces Let_def is_word_def is_space_def
  is_lower_alpha_def is_upper_alpha_def is_digit_def char_code_def startsWith_def para_def GREETING_def TEXT_def
  NOTE_def BUTTON_def

lemma catalog_holes:
  "hole_names (tt_body (td_text verify_email_template)) = [''name'', ''link'', ''expires_hours'', ''app_name'']"
  "hole_names (tt_body (td_text email_verified_template)) = [''name'']"
  "hole_names (tt_body (td_text reset_password_template)) = [''name'', ''link'', ''expires_minutes'']"
  "hole_names (tt_body (td_text registration_code_template)) = [''code'', ''expires_minutes'', ''app_name'']"
  "hole_names (tt_subject (td_text verify_email_template)) = []"
  "hole_names (tt_subject (td_text email_verified_template)) = []"
  "hole_names (tt_subject (td_text reset_password_template)) = []"
  "hole_names (tt_subject (td_text registration_code_template)) = []"
  by (simp_all add: verify_email_template_def email_verified_template_def reset_password_template_def
      registration_code_template_def hole_names_eval)

lemma catalog_sendable:
  "problems_of verify_email_template (td_text verify_email_template) = []"
  "problems_of email_verified_template (td_text email_verified_template) = []"
  "problems_of reset_password_template (td_text reset_password_template) = []"
  "problems_of registration_code_template (td_text registration_code_template) = []"
  unfolding problems_of_def unknown_problems_def placeholdersIn_def catalog_holes
  by (simp_all add: in_order_def allowed_names_def GLOBAL_TEMPLATE_VARIABLES_def tvar_def verify_email_template_def
      email_verified_template_def reset_password_template_def registration_code_template_def)

lemma catalog_ok: "map_of EMAIL_TEMPLATE_CATALOG key = Some d \<Longrightarrow> problems_of d (td_text d) = []"
  by (auto simp: EMAIL_TEMPLATE_CATALOG_def catalog_sendable split: if_splits)

lemma no_problems:
  assumes "problems_of d t = []"
  shows "set (hole_names (tt_body t)) \<subseteq> set (allowed_names d)" and "set (hole_names (tt_subject t)) \<subseteq> set (allowed_names d)"
    and "set (td_required d) \<subseteq> set (hole_names (tt_body t))"
  using assms by (auto simp: problems_of_def unknown_problems_def filter_empty_conv)

lemma et_findByKey_SomeD: "et_findByKey key db = Some t \<Longrightarrow> t \<in> set (email_templates db) \<and> et_key t = key"
  unfolding et_findByKey_def by (drule find_first_SomeD) simp

text \<open>The text that a render uses.\<close>

definition source_text :: "string \<Rightarrow> database \<Rightarrow> template_text" where
  "source_text key db = (case et_findByKey key db of
     Some t \<Rightarrow> if et_isActive t then et_text t else td_text (the (map_of EMAIL_TEMPLATE_CATALOG key))
   | None \<Rightarrow> td_text (the (map_of EMAIL_TEMPLATE_CATALOG key)))"

lemma render_source: "render APP_NAME key vs db = renderTemplate APP_NAME (source_text key db) (vs @ [(''app_name'', APP_NAME)])"
  by (simp add: render_def source_text_def Let_def)

lemma source_text_ok:
  assumes "templates_ok db" and "map_of EMAIL_TEMPLATE_CATALOG key = Some d"
  shows "problems_of d (source_text key db) = []"
proof (cases "et_findByKey key db")
  case (Some t)
  with et_findByKey_SomeD [OF Some] assms have "problems_of d (et_text t) = []"
    by (auto simp: templates_ok_def isTemplateKey_def templateProblems_def)
  with Some assms(2) catalog_ok [OF assms(2)] show ?thesis by (simp add: source_text_def)
qed (use assms(2) catalog_ok [OF assms(2)] in \<open>simp add: source_text_def\<close>)

lemma render_contains:
  assumes "templates_ok db" and "map_of EMAIL_TEMPLATE_CATALOG key = Some d"
    and "n \<in> set (td_required d)" and "map_of vs n = Some v"
  shows "sublist (escapeHtml v) (rd_html (render APP_NAME key vs db))"
proof -
  let ?t = "source_text key db" and ?vs = "vs @ [(''app_name'', APP_NAME)]"
  note ok = no_problems [OF source_text_ok [OF assms(1,2)]]
  have "map_of ?vs n = Some v" using assms(4) by (simp add: map_add_def)
  moreover have "n \<in> set (hole_names (tt_body ?t))" using ok(3) assms(3) by blast
  ultimately have "sublist (escapeHtml v) (substitute (tt_body ?t) ?vs escapeHtml)" by (intro substitute_contains)
  then show ?thesis
    using baseTemplate_contains [of APP_NAME]
    by (auto simp: render_source renderTemplate_def sublist_def) (metis append.assoc)
qed

text \<open>The names of a template's placeholders that have no value.\<close>

definition unfilled :: "template_text \<Rightarrow> variables \<Rightarrow> string list" where
  "unfilled t vs = filter (\<lambda>n. map_of vs n = None) (hole_names (tt_subject t) @ hole_names (tt_body t))"

text \<open>An email always carries what its recipient must act on: whatever administrators saved,
  rendering a catalogue template with values for its variables leaves no placeholder unfilled, and
  the document contains every required value (the link or the code) in escaped form.\<close>

theorem render_delivers:
  assumes "templates_ok db" and "map_of EMAIL_TEMPLATE_CATALOG key = Some d"
    and "set (map tv_name (td_variables d)) \<subseteq> fst ` set vs"
    and "n \<in> set (td_required d)" and "map_of vs n = Some v"
  shows "unfilled (source_text key db) (vs @ [(''app_name'', APP_NAME)]) = []
    \<and> sublist (escapeHtml v) (rd_html (render APP_NAME key vs db))"
proof
  let ?t = "source_text key db" and ?vs = "vs @ [(''app_name'', APP_NAME)]"
  note ok = no_problems [OF source_text_ok [OF assms(1,2)]]
  have dom: "map_of ?vs m \<noteq> None" if "m \<in> set (allowed_names d)" for m
    using that assms(3) by (auto simp: allowed_names_def GLOBAL_TEMPLATE_VARIABLES_def tvar_def map_of_eq_None_iff)
  have "map_of ?vs m \<noteq> None" if "m \<in> set (hole_names (tt_subject ?t) @ hole_names (tt_body ?t))" for m
  proof (rule dom)
    show "m \<in> set (allowed_names d)" using that ok(1,2) by (simp only: set_append) blast
  qed
  then show "unfilled ?t ?vs = []" unfolding unfilled_def filter_empty_conv by blast
  show "sublist (escapeHtml v) (rd_html (render APP_NAME key vs db))" by (rule render_contains [OF assms(1,2,4,5)])
qed

lemma apply_template_text: "et_text (apply_template d now t)
    = \<lparr>tt_subject = or_else (tc_subject d) (et_subject t), tt_body = or_else (tc_body d) (et_body t)\<rparr>"
  and apply_template_key [simp]: "et_key (apply_template d now t) = et_key t"
  by (simp_all add: apply_template_def et_text_def)

lemma logActivity_templates [simp]: "email_templates (logActivity a b c d e f g now db) = email_templates db"
  by (auto simp: logActivity_def activity_create_def Let_def split: option.splits)

text \<open>Editing never stores a template that cannot be sent: an update with an unknown variable or
  without a required one is refused and changes nothing, and every accepted update keeps all
  stored templates sendable.\<close>

theorem template_update_keeps_ok:
  assumes "templates_ok db" and "template_update key d updatedBy now db = (r, db')"
  shows "templates_ok db' \<and> (\<forall>problems. r = Inl (AppErrorFields ''Validation failed'' 400 problems) \<longrightarrow> db' = db)"
proof -
  have keep: "templates_ok db'"
    if t: "template_find key db = Inr t" and p: "templateProblems (et_key t)
        \<lparr>tt_subject = or_else (tc_subject d) (et_subject t), tt_body = or_else (tc_body d) (et_body t)\<rparr> = []"
      and u: "template_update_tx t d updatedBy now db = Inr (row, db')" for t row
  proof -
    have rows: "email_templates db' = update_where (\<lambda>x. et_key x = et_key t) (apply_template d now) (email_templates db)"
      using u by (auto simp: template_update_tx_def et_update_def split: option.splits)
    have tin: "t \<in> set (email_templates db)" using t et_findByKey_SomeD
      by (auto simp: template_find_def split: option.splits if_splits)
    have "templateProblems (et_key x) (et_text x) = []" if "x \<in> set (email_templates db')" "isTemplateKey (et_key x)" for x
    proof -
      obtain y where y: "y \<in> set (email_templates db)" "x = (if et_key y = et_key t then apply_template d now y else y)"
        using \<open>x \<in> set (email_templates db')\<close> by (auto simp: rows set_update_where)
      show ?thesis
      proof (cases "et_key y = et_key t")
        case True
        with y(1) tin assms(1) have "y = t" by (auto simp: templates_ok_def distinct_map inj_on_def)
        with y(2) p show ?thesis by (simp add: apply_template_text)
      next
        case False
        with y that(2) assms(1) show ?thesis by (simp add: templates_ok_def)
      qed
    qed
    moreover have "distinct (map et_key (email_templates db'))"
      using assms(1) by (simp add: rows map_update_where templates_ok_def)
    ultimately show ?thesis by (simp add: templates_ok_def)
  qed
  have "templates_ok db' \<and> (r = Inl (AppErrorFields ''Validation failed'' 400 problems) \<longrightarrow> db' = db)" for problems
    using assms keep
    by (auto simp: template_update_def transaction_def Let_def split: sum.splits if_splits prod.splits)
  then show ?thesis by blast
qed

definition demo_link_vars :: variables where
  "demo_link_vars = [(''name'', ''Ann''), (''link'', ''http://x/?token=t''), (''expires_hours'', ''24'')]"

theorem render_delivers_witness:
  "sublist (escapeHtml ''http://x/?token=t'') (rd_html (render ''App'' KEY_VERIFY_EMAIL demo_link_vars empty_db))"
proof -
  have "templates_ok empty_db" by (simp add: templates_ok_def empty_db_def)
  moreover have "map_of EMAIL_TEMPLATE_CATALOG KEY_VERIFY_EMAIL = Some verify_email_template"
    by (simp add: EMAIL_TEMPLATE_CATALOG_def)
  moreover have "set (map tv_name (td_variables verify_email_template)) \<subseteq> fst ` set demo_link_vars"
    by (simp add: verify_email_template_def demo_link_vars_def tvar_def)
  moreover have "''link'' \<in> set (td_required verify_email_template)" by (simp add: verify_email_template_def)
  moreover have "map_of demo_link_vars ''link'' = Some ''http://x/?token=t''" by (simp add: demo_link_vars_def)
  ultimately show ?thesis using render_delivers [of empty_db KEY_VERIFY_EMAIL verify_email_template demo_link_vars] by blast
qed

definition demo_template_db :: database where
  "demo_template_db = empty_db\<lparr>email_templates := [\<lparr>et_id = 1, et_key = KEY_EMAIL_VERIFIED, et_title = ''T'',
     et_subject = ''S'', et_body = ''Hi'', et_isActive = True, et_updatedAt = 0\<rparr>]\<rparr>"

theorem template_update_keeps_ok_witness:
  "\<exists>r db'. template_update KEY_EMAIL_VERIFIED \<lparr>tc_title = None, tc_subject = Some ''{{nme}}'', tc_body = None,
       tc_isActive = None\<rparr> (Some 1) 5 demo_template_db = (r, db') \<and> templates_ok db'"
proof -
  have "templates_ok demo_template_db"
    by (simp add: templates_ok_def demo_template_db_def templateProblems_def EMAIL_TEMPLATE_CATALOG_def template_key_defs
        problems_of_def unknown_problems_def placeholdersIn_def et_text_def hole_names_eval in_order_def
        email_verified_template_def)
  then show ?thesis using template_update_keeps_ok by (metis prod.collapse)
qed

end
