(* ===== verification/Url.thy ===== *)
theory Url
  imports Encoding
begin

text \<open>
  Links and query strings: the form encoding of \<^verbatim>\<open>URLSearchParams\<close>, its decoding on the receiving
  side, and the links of \<^verbatim>\<open>src/utils/url.ts\<close> (\<open>appUrl\<close>, \<open>with_query\<close>). A character is sent as its UTF-8
  bytes; characters of the model are below U+0100, so there are one or two of them.
\<close>

section \<open>Form encoding\<close>

definition utf8_char :: "char \<Rightarrow> byte list" where
  "utf8_char c = (let n = char_code c in if n < 128 then [n] else [192 + n div 64, 128 + n mod 64])"

definition hex_upper :: "nat \<Rightarrow> char" where
  "hex_upper d = (if d < 10 then char_of (48 + d) else char_of (55 + d))"

definition percent :: "byte \<Rightarrow> string" where
  "percent b = [CHR ''%'', hex_upper (b div 16), hex_upper (b mod 16)]"

definition form_safe :: "char \<Rightarrow> bool" where
  "form_safe c = (is_lower_alpha c \<or> is_upper_alpha c \<or> is_digit c \<or> c \<in> set ''*-._'')"

definition form_char :: "char \<Rightarrow> string" where
  "form_char c = (if form_safe c then [c] else if c = CHR '' '' then ''+'' else concat (map percent (utf8_char c)))"

definition form_encode :: "string \<Rightarrow> string" where
  "form_encode s = concat (map form_char s)"

definition URLSearchParams :: "(string \<times> string) list \<Rightarrow> string" where
  "URLSearchParams ps = join_with ''&'' (map (\<lambda>(k, v). form_encode k @ ''='' @ form_encode v) ps)"

section \<open>Form decoding\<close>

text \<open>The bytes of a form-encoded text, and the characters of UTF-8 bytes. Bytes that are not the
  UTF-8 of a character of the model end the text.\<close>

fun form_bytes :: "string \<Rightarrow> byte list" where
  "form_bytes [] = []"
| "form_bytes (c # s) =
     (if c = CHR ''+'' then 32 # form_bytes s
      else if c = CHR ''%'' then
        (case s of
           h # l # s' \<Rightarrow> (case (hex_value h, hex_value l) of
               (Some a, Some b) \<Rightarrow> (16 * a + b) # form_bytes s'
             | _ \<Rightarrow> 37 # form_bytes s)
         | _ \<Rightarrow> 37 # form_bytes s)
      else char_code c # form_bytes s)"

fun utf8_decode :: "byte list \<Rightarrow> string" where
  "utf8_decode [] = []"
| "utf8_decode (b # bs) =
     (if b < 128 then char_of b # utf8_decode bs
      else (case bs of
              d # bs' \<Rightarrow> if 194 \<le> b \<and> b < 196 \<and> 128 \<le> d \<and> d < 192
                         then char_of ((b - 192) * 64 + (d - 128)) # utf8_decode bs' else []
            | [] \<Rightarrow> []))"

definition form_decode :: "string \<Rightarrow> string" where
  "form_decode s = utf8_decode (form_bytes s)"

definition split_pair :: "string \<Rightarrow> string \<times> string" where
  "split_pair w = (let k = takeWhile (\<lambda>c. c \<noteq> CHR ''='') w
     in (form_decode k, form_decode (drop (Suc (length k)) w)))"

definition parse_query :: "string \<Rightarrow> (string \<times> string) list" where
  "parse_query q = map split_pair (filter (\<lambda>w. w \<noteq> []) (split_on CHR ''&'' q))"

section \<open>Decoding inverts encoding\<close>

lemma hex_value_upper [simp]: "d < 16 \<Longrightarrow> hex_value (hex_upper d) = Some d"
  by (auto simp: hex_value_def hex_upper_def is_digit_def)

lemma form_bytes_percent: "b < 256 \<Longrightarrow> form_bytes (percent b @ s) = b # form_bytes s"
  by (simp add: percent_def)

lemma form_bytes_percents:
  "list_all (\<lambda>b. b < 256) bs \<Longrightarrow> form_bytes (concat (map percent bs) @ s) = bs @ form_bytes s"
  by (induction bs) (simp_all add: form_bytes_percent)

lemma utf8_char_bytes: "list_all (\<lambda>b. b < 256) (utf8_char c)"
proof -
  have "char_code c div 64 < 4" using code_lt_256 [of c] by (intro less_mult_imp_div_less) simp
  moreover have "char_code c mod 64 < 64" by simp
  then have "char_code c mod 64 < 128" by linarith
  ultimately show ?thesis by (simp add: utf8_char_def Let_def)
qed

lemma form_safe_ascii:
  assumes "form_safe c"
  shows "char_code c < 128" and "c \<noteq> CHR ''+''" and "c \<noteq> CHR ''%''" and "c \<noteq> CHR ''&''" and "c \<noteq> CHR ''=''"
  using assms by (auto simp: form_safe_def is_lower_alpha_def is_upper_alpha_def is_digit_def char_code_def)

lemma form_bytes_char: "form_bytes (form_char c @ s) = utf8_char c @ form_bytes s"
proof (cases "form_safe c")
  case True
  then show ?thesis using form_safe_ascii [OF True] by (simp add: form_char_def utf8_char_def Let_def)
next
  case False
  show ?thesis
  proof (cases "c = CHR '' ''")
    case True
    with False show ?thesis by (simp add: form_char_def utf8_char_def char_code_def)
  next
    case False
    with \<open>\<not> form_safe c\<close> show ?thesis by (simp add: form_char_def form_bytes_percents utf8_char_bytes)
  qed
qed

lemma utf8_decode_char: "utf8_decode (utf8_char c @ bs) = c # utf8_decode bs"
proof (cases "char_code c < 128")
  case True
  then show ?thesis by (simp add: utf8_char_def) (simp add: char_code_def)
next
  case False
  have "char_code c < 256" by simp
  with False have d: "2 \<le> char_code c div 64" "char_code c div 64 < 4"
    by (simp_all add: div_le_mono [of 128 "char_code c" 64, simplified] less_mult_imp_div_less)
  have "(char_code c div 64) * 64 + char_code c mod 64 = char_code c" by simp
  then have "char_of ((192 + char_code c div 64 - 192) * 64 + (128 + char_code c mod 64 - 128)) = c"
    by (simp add: char_code_def)
  with False d show ?thesis by (simp add: utf8_char_def Let_def)
qed

lemma form_decode_encode [simp]: "form_decode (form_encode s) = s"
proof -
  have "form_bytes (form_encode s) = concat (map utf8_char s)"
    by (induction s) (simp_all add: form_encode_def form_bytes_char)
  moreover have "utf8_decode (concat (map utf8_char s)) = s"
    by (induction s) (simp_all add: utf8_decode_char)
  ultimately show ?thesis by (simp add: form_decode_def)
qed

lemma hex_upper_plain:
  assumes "d < 16"
  shows "hex_upper d \<noteq> CHR ''&''" and "hex_upper d \<noteq> CHR ''=''"
proof -
  have "hex_value (CHR ''&'') = None" "hex_value (CHR ''='') = None"
    by (simp_all add: hex_value_def is_digit_def char_code_def)
  with hex_value_upper [OF assms] show "hex_upper d \<noteq> CHR ''&''" "hex_upper d \<noteq> CHR ''=''" by auto
qed

lemma form_encode_plain: "c \<in> set (form_encode s) \<Longrightarrow> c \<noteq> CHR ''&'' \<and> c \<noteq> CHR ''=''"
proof -
  have "c \<noteq> CHR ''&'' \<and> c \<noteq> CHR ''=''" if "c \<in> set (form_char x)" for x
  proof (cases "form_safe x")
    case True
    with that form_safe_ascii [OF True] show ?thesis by (simp add: form_char_def)
  next
    case False
    have p: "c \<noteq> CHR ''&'' \<and> c \<noteq> CHR ''=''" if "c \<in> set (percent b)" "b < 256" for b
      using that hex_upper_plain [of "b div 16"] hex_upper_plain [of "b mod 16"]
      by (auto simp: percent_def less_mult_imp_div_less)
    from False that show ?thesis
      using utf8_char_bytes [of x] p by (auto simp: form_char_def list_all_iff split: if_splits)
  qed
  then show "c \<in> set (form_encode s) \<Longrightarrow> c \<noteq> CHR ''&'' \<and> c \<noteq> CHR ''=''"
    by (auto simp: form_encode_def)
qed

lemma split_pair_encode [simp]: "split_pair (form_encode k @ CHR ''='' # form_encode v) = (k, v)"
proof -
  have "takeWhile (\<lambda>c. c \<noteq> CHR ''='') (form_encode k @ CHR ''='' # form_encode v) = form_encode k"
    using form_encode_plain by (subst takeWhile_append2) auto
  then show ?thesis by (simp add: split_pair_def Let_def)
qed

lemma split_on_single: "sep \<notin> set w \<Longrightarrow> split_on sep w = [w]"
  by (induction w) auto

lemma split_on_append: "sep \<notin> set w \<Longrightarrow> split_on sep (w @ sep # s) = w # split_on sep s"
  by (induction w) auto

lemma split_on_join:
  assumes "ws \<noteq> []" and "\<And>w. w \<in> set ws \<Longrightarrow> sep \<notin> set w"
  shows "split_on sep (join_with [sep] ws) = ws"
  using assms by (induction "[sep]" ws rule: join_with.induct) (auto simp: split_on_single split_on_append)

lemma parse_query_roundtrip: "parse_query (URLSearchParams ps) = ps"
proof (cases "ps = []")
  case False
  let ?enc = "\<lambda>(k, v). form_encode k @ ''='' @ form_encode v"
  have no: "CHR ''&'' \<notin> set (?enc p)" for p using form_encode_plain by (cases p) auto
  have "split_on CHR ''&'' (URLSearchParams ps) = map ?enc ps"
    unfolding URLSearchParams_def by (rule split_on_join) (use False no in auto)
  moreover have "filter (\<lambda>w. w \<noteq> []) (map ?enc ps) = map ?enc ps"
    by (auto simp: filter_id_conv)
  moreover have "map split_pair (map ?enc ps) = ps" by (induction ps) auto
  ultimately show ?thesis by (simp add: parse_query_def)
qed (simp add: URLSearchParams_def parse_query_def)

section \<open>Application links\<close>

definition strip_trailing :: "char \<Rightarrow> string \<Rightarrow> string" where
  "strip_trailing c s = rev (dropWhile (\<lambda>x. x = c) (rev s))"

definition appUrl :: "string \<Rightarrow> (string \<times> string) list \<Rightarrow> string \<Rightarrow> string" where
  "appUrl pathname query baseUrl =
     (let base = strip_trailing (CHR ''/'') baseUrl; search = URLSearchParams query
      in base @ pathname @ (if search \<noteq> [] then ''?'' @ search else []))"

definition query_of :: "string \<Rightarrow> (string \<times> string) list" where
  "query_of url = parse_query (drop 1 (dropWhile (\<lambda>c. c \<noteq> CHR ''?'') url))"

lemma appUrl_query:
  assumes "CHR ''?'' \<notin> set baseUrl" and "CHR ''?'' \<notin> set pathname"
  shows "query_of (appUrl pathname query baseUrl) = query"
proof -
  have n: "CHR ''?'' \<notin> set (strip_trailing (CHR ''/'') baseUrl @ pathname)"
    using assms by (auto simp: strip_trailing_def dest: set_dropWhileD)
  show ?thesis
  proof (cases "URLSearchParams query = []")
    case True
    then have "query = []" using parse_query_roundtrip [of query] by (simp add: parse_query_def)
    moreover have "dropWhile (\<lambda>c. c \<noteq> CHR ''?'') (strip_trailing (CHR ''/'') baseUrl @ pathname) = []"
      using n by (simp only: dropWhile_eq_Nil_conv) auto
    moreover have "appUrl pathname query baseUrl = strip_trailing (CHR ''/'') baseUrl @ pathname"
      using True by (simp add: appUrl_def)
    ultimately show ?thesis by (simp only: query_of_def) (simp add: parse_query_def)
  next
    case False
    have "dropWhile (\<lambda>c. c \<noteq> CHR ''?'') (appUrl pathname query baseUrl) = ''?'' @ URLSearchParams query"
      using n False unfolding appUrl_def Let_def append_assoc [symmetric]
      by (subst dropWhile_append2) auto
    then show ?thesis by (simp add: query_of_def parse_query_roundtrip)
  qed
qed

section \<open>Links with added parameters\<close>

text \<open>\<^verbatim>\<open>searchParams.set\<close> replaces the first parameter of that name and removes the others, or appends one.\<close>

fun params_set :: "string \<Rightarrow> string \<Rightarrow> (string \<times> string) list \<Rightarrow> (string \<times> string) list" where
  "params_set k v [] = [(k, v)]"
| "params_set k v (p # ps) = (if fst p = k then (k, v) # filter (\<lambda>q. fst q \<noteq> k) ps else p # params_set k v ps)"

text \<open>A serialized URL: what precedes the query, the query, and the fragment with its \<open>#\<close>.\<close>

definition split_url :: "string \<Rightarrow> string \<times> string \<times> string" where
  "split_url u = (let body = takeWhile (\<lambda>c. c \<noteq> CHR ''#'') u
     in (takeWhile (\<lambda>c. c \<noteq> CHR ''?'') body, drop 1 (dropWhile (\<lambda>c. c \<noteq> CHR ''?'') body), dropWhile (\<lambda>c. c \<noteq> CHR ''#'') u))"

text \<open>\<open>href\<close> is the URL parser: the normalized form of an absolute URL, or none. With no parameter to
  set the URL is only normalized.\<close>

definition with_query :: "(string \<Rightarrow> string option) \<Rightarrow> string \<Rightarrow> (string \<times> string) list \<Rightarrow> string option" where
  "with_query href baseUrl query = (case href baseUrl of
     None \<Rightarrow> None
   | Some u \<Rightarrow>
       if query = [] then Some u
       else (case split_url u of (base, q, hash) \<Rightarrow>
         Some (base @ ''?'' @ URLSearchParams (fold (\<lambda>(k, v). params_set k v) query (parse_query q)) @ hash)))"

lemma form_encode_url: "c \<in> set (form_encode s) \<Longrightarrow> c \<noteq> CHR ''#'' \<and> c \<noteq> CHR ''?''"
proof -
  have hex: "hex_upper d \<noteq> CHR ''#'' \<and> hex_upper d \<noteq> CHR ''?''" if "d < 16" for d
  proof -
    have "hex_value (CHR ''#'') = None" "hex_value (CHR ''?'') = None"
      by (simp_all add: hex_value_def is_digit_def char_code_def)
    with hex_value_upper [OF that] show ?thesis by auto
  qed
  have percent: "c \<noteq> CHR ''#'' \<and> c \<noteq> CHR ''?''" if "c \<in> set (percent b)" "b < 256" for b c
    using that hex [of "b div 16"] hex [of "b mod 16"] by (auto simp: percent_def less_mult_imp_div_less)
  have "c \<noteq> CHR ''#'' \<and> c \<noteq> CHR ''?''" if "c \<in> set (form_char x)" for x
  proof (cases "form_safe x")
    case True
    moreover have "\<not> form_safe (CHR ''#'')" "\<not> form_safe (CHR ''?'')"
      by (simp_all add: form_safe_def is_lower_alpha_def is_upper_alpha_def is_digit_def char_code_def)
    ultimately show ?thesis using that by (auto simp: form_char_def)
  next
    case False
    with that show ?thesis
      using utf8_char_bytes [of x] percent by (auto simp: form_char_def list_all_iff split: if_splits)
  qed
  then show "c \<in> set (form_encode s) \<Longrightarrow> c \<noteq> CHR ''#'' \<and> c \<noteq> CHR ''?''"
    by (auto simp: form_encode_def)
qed

lemma set_join_with: "set (join_with sep ws) \<subseteq> set sep \<union> \<Union> (set ` set ws)"
  by (induction sep ws rule: join_with.induct) auto

lemma URLSearchParams_url: "c \<in> set (URLSearchParams ps) \<Longrightarrow> c \<noteq> CHR ''#'' \<and> c \<noteq> CHR ''?''"
proof -
  assume "c \<in> set (URLSearchParams ps)"
  then have "c \<in> set ''&'' \<union> \<Union> (set ` set (map (\<lambda>(k, v). form_encode k @ ''='' @ form_encode v) ps))"
    unfolding URLSearchParams_def using set_join_with by (rule subsetD [rotated])
  then show ?thesis using form_encode_url by (auto split: prod.splits)
qed

lemma split_url_of:
  assumes "CHR ''?'' \<notin> set base" and "CHR ''#'' \<notin> set base" and "CHR ''#'' \<notin> set q"
    and "hash = [] \<or> hd hash = CHR ''#''"
  shows "split_url (base @ CHR ''?'' # q @ hash) = (base, q, hash)"
proof -
  have h: "takeWhile (\<lambda>c. c \<noteq> CHR ''#'') hash = []" "dropWhile (\<lambda>c. c \<noteq> CHR ''#'') hash = hash"
    using assms(4) by (cases hash; simp)+
  have b: "\<And>c. c \<in> set (base @ CHR ''?'' # q) \<Longrightarrow> c \<noteq> CHR ''#''" using assms(2,3) by auto
  have "takeWhile (\<lambda>c. c \<noteq> CHR ''#'') ((base @ CHR ''?'' # q) @ hash) = base @ CHR ''?'' # q"
    using b h(1) by (subst takeWhile_append2) auto
  moreover have "dropWhile (\<lambda>c. c \<noteq> CHR ''#'') ((base @ CHR ''?'' # q) @ hash) = hash"
    using b h(2) by (subst dropWhile_append2) auto
  moreover have "takeWhile (\<lambda>c. c \<noteq> CHR ''?'') (base @ CHR ''?'' # q) = base"
    using assms(1) by (subst takeWhile_append2) auto
  moreover have "dropWhile (\<lambda>c. c \<noteq> CHR ''?'') (base @ CHR ''?'' # q) = CHR ''?'' # q"
    using assms(1) by (subst dropWhile_append2) auto
  ultimately show ?thesis by (simp add: split_url_def Let_def)
qed

text \<open>Path and fragment stay, the query becomes the old one with the parameters set.\<close>

lemma with_query_parts:
  assumes "href baseUrl = Some u" and "split_url u = (base, q, hash)" and "query \<noteq> []"
  shows "\<exists>r s. with_query href baseUrl query = Some r \<and> split_url r = (base, s, hash)
    \<and> parse_query s = fold (\<lambda>(k, v). params_set k v) query (parse_query q)"
proof -
  let ?s = "URLSearchParams (fold (\<lambda>(k, v). params_set k v) query (parse_query q))"
  have body: "base = takeWhile (\<lambda>c. c \<noteq> CHR ''?'') (takeWhile (\<lambda>c. c \<noteq> CHR ''#'') u)"
      and hash: "hash = dropWhile (\<lambda>c. c \<noteq> CHR ''#'') u"
    using assms(2) by (simp_all add: split_url_def Let_def)
  have "split_url (base @ CHR ''?'' # ?s @ hash) = (base, ?s, hash)"
  proof (rule split_url_of)
    show "CHR ''?'' \<notin> set base" "CHR ''#'' \<notin> set base"
      unfolding body by (auto dest: set_takeWhileD)
    show "CHR ''#'' \<notin> set ?s" using URLSearchParams_url by blast
    show "hash = [] \<or> hd hash = CHR ''#''"
      unfolding hash using hd_dropWhile [of "\<lambda>c. c \<noteq> CHR ''#''" u] by blast
  qed
  moreover have "with_query href baseUrl query = Some (base @ CHR ''?'' # ?s @ hash)"
    using assms by (simp add: with_query_def)
  ultimately show ?thesis using parse_query_roundtrip by blast
qed

lemma params_set_found: "filter (\<lambda>p. fst p = k) (params_set k v ps) = [(k, v)]"
  by (induction ps) (auto simp: filter_empty_conv)

lemma params_set_others: "filter (\<lambda>p. fst p \<noteq> k) (params_set k v ps) = filter (\<lambda>p. fst p \<noteq> k) ps"
  by (induction ps) auto

text \<open>The reset link: the token exactly once, everything else of the configured URL as it was.\<close>

lemma with_query_token:
  assumes "href baseUrl = Some u" and "split_url u = (base, q, hash)"
  shows "\<exists>r s. with_query href baseUrl [(''token'', token)] = Some r \<and> split_url r = (base, s, hash)
    \<and> filter (\<lambda>p. fst p = ''token'') (parse_query s) = [(''token'', token)]
    \<and> filter (\<lambda>p. fst p \<noteq> ''token'') (parse_query s) = filter (\<lambda>p. fst p \<noteq> ''token'') (parse_query q)"
  using with_query_parts [where href = href, OF assms, of "[(''token'', token)]"]
  by (auto simp: params_set_found params_set_others)

end
