(* ===== verification/Email_Delivery.thy ===== *)
theory Email_Delivery
  imports Email_Template Url
begin

text \<open>
  Sending emails: the mail transports and their failure classes (\<^verbatim>\<open>src/email/mailer.ts\<close>), the email
  service (\<^verbatim>\<open>src/services/email.service.ts\<close>) and the processor of email jobs with its sent markers
  (\<^verbatim>\<open>src/jobs/workers/email.processor.ts\<close>). What the network answers to an attempt is an argument; an
  attempt that fails may still have been accepted. The state of a worker is its Redis store and the
  messages that transports accepted. \<open>withQuery\<close> (the WHATWG URL parser) is a parameter.
\<close>

section \<open>Transports\<close>

type_synonym ('s, 'a, 'e) outcome = "'s \<Rightarrow> ('e + 'a) \<times> 's"

record mail_message =
  mm_to :: string
  mm_subject :: string
  mm_html :: string

datatype job_error = UnrecoverableError string | PermanentMailError string | OtherError string

datatype mail_driver = smtp | zeptomail

record mail_config =
  MAIL_DRIVER :: mail_driver
  SMTP_HOST :: "string option"
  SMTP_FROM :: "string option"
  ZEPTOMAIL_KEY :: "string option"
  ZEPTOMAIL_FROM_ADDRESS :: "string option"
  ZEPTOMAIL_FROM_NAME :: "string option"
  ZEPTOMAIL_API_URL :: string
  APP_NAME :: string

datatype smtp_reply =
    Smtp_ok
  | Smtp_error (smtp_responseCode: "int option") (smtp_code: "string option") (smtp_reason: string) (smtp_accepted: bool)

datatype http_reply =
    Http_response (http_status: nat) (http_text: string)
  | Http_failure (http_reason: string) (http_accepted: bool)

record zepto_request =
  zr_url :: string
  zr_authorization :: string
  zr_body :: json

record network =
  net_smtp :: smtp_reply
  net_http :: "zepto_request \<Rightarrow> http_reply"

definition isPermanentSmtpError :: "int option \<Rightarrow> string option \<Rightarrow> bool" where
  "isPermanentSmtpError responseCode ec =
     ((case responseCode of None \<Rightarrow> False | Some n \<Rightarrow> 500 \<le> n \<and> n < 600) \<or> ec = Some ''EENVELOPE'')"

definition isPermanentHttpStatus :: "nat \<Rightarrow> bool" where
  "isPermanentHttpStatus status = (400 \<le> status \<and> status < 500 \<and> status \<noteq> 408 \<and> status \<noteq> 429)"

definition validateMailConfig :: "mail_config \<Rightarrow> string list" where
  "validateMailConfig config =
     (if MAIL_DRIVER config = smtp
      then (if \<not> truthy (SMTP_HOST config) then [''SMTP_HOST is not set''] else [])
           @ (if \<not> truthy (SMTP_FROM config) then [''SMTP_FROM is not set''] else []) else [])
     @ (if MAIL_DRIVER config = zeptomail
        then (if \<not> truthy (ZEPTOMAIL_KEY config) then [''ZEPTOMAIL_KEY is not set''] else [])
             @ (if \<not> truthy (ZEPTOMAIL_FROM_ADDRESS config) then [''ZEPTOMAIL_FROM_ADDRESS is not set''] else []) else [])"

definition not_configured :: "string list \<Rightarrow> job_error" where
  "not_configured problems = PermanentMailError (''Mail is not configured: '' @ join_with '', '' problems)"

definition sendViaSmtp :: "mail_config \<Rightarrow> smtp_reply \<Rightarrow> mail_message \<Rightarrow> (mail_message list, unit, job_error) outcome" where
  "sendViaSmtp config reply m sent =
     (let problems = validateMailConfig config in
      if problems \<noteq> [] then (Inl (not_configured problems), sent)
      else (case reply of
              Smtp_ok \<Rightarrow> (Inr (), sent @ [m])
            | Smtp_error rc ec reason accepted \<Rightarrow>
                (Inl (if isPermanentSmtpError rc ec then PermanentMailError (''SMTP rejected the message: '' @ reason)
                      else OtherError reason),
                 if accepted then sent @ [m] else sent)))"

definition ZEPTOMAIL_TIMEOUT_MS :: nat where "ZEPTOMAIL_TIMEOUT_MS = 15000"

text \<open>\<^verbatim>\<open>key.replace(/^Zoho-enczapikey\s+/i, '')\<close>.\<close>

definition zepto_token :: "string \<Rightarrow> string" where
  "zepto_token key =
     (let rest = drop 15 key in
      if toLowerCase (take 15 key) = ''zoho-enczapikey'' \<and> rest \<noteq> [] \<and> is_space (hd rest)
      then dropWhile is_space rest else key)"

definition zepto_request_of :: "mail_config \<Rightarrow> mail_message \<Rightarrow> zepto_request" where
  "zepto_request_of config m =
     \<lparr>zr_url = ZEPTOMAIL_API_URL config,
      zr_authorization = ''Zoho-enczapikey '' @ zepto_token (the (ZEPTOMAIL_KEY config)),
      zr_body = JObj
        [(''from'', JObj [(''address'', json_opt (ZEPTOMAIL_FROM_ADDRESS config)),
            (''name'', JStr (case ZEPTOMAIL_FROM_NAME config of None \<Rightarrow> APP_NAME config | Some n \<Rightarrow> n))]),
         (''to'', JArr [JObj [(''email_address'', JObj [(''address'', JStr (mm_to m))])]]),
         (''subject'', JStr (mm_subject m)), (''htmlbody'', JStr (mm_html m))]\<rparr>"

text \<open>The request is answered by \<open>reply\<close>, which may depend on it.\<close>

definition sendViaZeptoMail ::
  "mail_config \<Rightarrow> (zepto_request \<Rightarrow> http_reply) \<Rightarrow> mail_message \<Rightarrow> (mail_message list, unit, job_error) outcome" where
  "sendViaZeptoMail config reply m sent =
     (let problems = validateMailConfig (config\<lparr>MAIL_DRIVER := zeptomail\<rparr>) in
      if problems \<noteq> [] then (Inl (not_configured problems), sent)
      else (case reply (zepto_request_of config m) of
              Http_failure reason accepted \<Rightarrow> (Inl (OtherError reason), if accepted then sent @ [m] else sent)
            | Http_response status text \<Rightarrow>
                if 200 \<le> status \<and> status < 300 then (Inr (), sent @ [m])
                else (Inl (if isPermanentHttpStatus status
                           then PermanentMailError (''ZeptoMail rejected the message: '' @ show_nat status @ '' '' @ take 500 text)
                           else OtherError (''ZeptoMail is unavailable: '' @ show_nat status @ '' '' @ take 500 text)), sent)))"

definition sendMail :: "mail_config \<Rightarrow> network \<Rightarrow> mail_message \<Rightarrow> (mail_message list, unit, job_error) outcome" where
  "sendMail config net m = (case MAIL_DRIVER config of
     smtp \<Rightarrow> sendViaSmtp config (net_smtp net) m
   | zeptomail \<Rightarrow> sendViaZeptoMail config (net_http net) m)"

section \<open>Email service\<close>

definition send ::
  "mail_config \<Rightarrow> network \<Rightarrow> database \<Rightarrow> string \<Rightarrow> string \<Rightarrow> variables \<Rightarrow> (mail_message list, unit, job_error) outcome" where
  "send config net db to key vs =
     (let r = render (APP_NAME config) key vs db
      in sendMail config net \<lparr>mm_to = to, mm_subject = rd_subject r, mm_html = rd_html r\<rparr>)"

definition verification_vars :: "env \<Rightarrow> string \<Rightarrow> string \<Rightarrow> variables" where
  "verification_vars E name link =
     [(''name'', name), (''link'', link), (''expires_hours'', show_nat (EMAIL_VERIFICATION_EXPIRES_HOURS E))]"

definition reset_vars :: "env \<Rightarrow> string \<Rightarrow> string \<Rightarrow> variables" where
  "reset_vars E name link =
     [(''name'', name), (''link'', link), (''expires_minutes'', show_nat (PASSWORD_RESET_EXPIRES_MINUTES E))]"

definition otp_vars :: "string \<Rightarrow> int \<Rightarrow> variables" where
  "otp_vars code' minutes = [(''code'', code'), (''expires_minutes'', show_int minutes)]"

definition sendVerificationEmail ::
  "env \<Rightarrow> mail_config \<Rightarrow> network \<Rightarrow> database \<Rightarrow> string \<Rightarrow> string \<Rightarrow> string \<Rightarrow> (mail_message list, unit, job_error) outcome" where
  "sendVerificationEmail E config net db to name link =
     send config net db to KEY_VERIFY_EMAIL (verification_vars E name link)"

definition sendResetPasswordEmail ::
  "env \<Rightarrow> mail_config \<Rightarrow> network \<Rightarrow> database \<Rightarrow> string \<Rightarrow> string \<Rightarrow> string \<Rightarrow> (mail_message list, unit, job_error) outcome" where
  "sendResetPasswordEmail E config net db to name link =
     send config net db to KEY_RESET_PASSWORD (reset_vars E name link)"

definition sendVerificationSuccessEmail ::
  "mail_config \<Rightarrow> network \<Rightarrow> database \<Rightarrow> string \<Rightarrow> string \<Rightarrow> (mail_message list, unit, job_error) outcome" where
  "sendVerificationSuccessEmail config net db to name = send config net db to KEY_EMAIL_VERIFIED [(''name'', name)]"

definition sendOtpEmail ::
  "mail_config \<Rightarrow> network \<Rightarrow> database \<Rightarrow> string \<Rightarrow> string \<Rightarrow> int \<Rightarrow> (mail_message list, unit, job_error) outcome" where
  "sendOtpEmail config net db to code' minutes = send config net db to KEY_REGISTRATION_CODE (otp_vars code' minutes)"

section \<open>Processing a job\<close>

text \<open>Job data is the payload of the intent; a missing or null name is the empty text.\<close>

definition text_of :: "string \<Rightarrow> json \<Rightarrow> string" where
  "text_of field data = (case json_field field data of Some (JStr s) \<Rightarrow> s | _ \<Rightarrow> [])"

record mail_settings =
  set_env :: env
  set_mail :: mail_config
  APP_URL :: string
  PASSWORD_RESET_URL :: string
  withQuery :: "string \<Rightarrow> (string \<times> string) list \<Rightarrow> string"

definition required :: "string \<Rightarrow> string \<Rightarrow> json \<Rightarrow> string \<Rightarrow> job_error + string" where
  "required name jobId data field =
     (let v = text_of field data in
      if v = [] then Inl (UnrecoverableError (''Missing '' @ field @ '' for '' @ name @ '' job '' @ jobId)) else Inr v)"

definition verification_link :: "mail_settings \<Rightarrow> string \<Rightarrow> string" where
  "verification_link S token = appUrl ''/api/v1/auth/verify-email'' [(''token'', token)] (APP_URL S)"

definition job_minutes :: "env \<Rightarrow> json \<Rightarrow> int" where
  "job_minutes E data = (case json_field ''expiresMinutes'' data of Some (JNum n) \<Rightarrow> n | _ \<Rightarrow> int (OTP_EXPIRES_MINUTES E))"

definition dispatch ::
  "mail_settings \<Rightarrow> network \<Rightarrow> database \<Rightarrow> string \<Rightarrow> string \<Rightarrow> json \<Rightarrow> (mail_message list, unit, job_error) outcome" where
  "dispatch S net db name jobId data sent =
     (let to = text_of ''email'' data; who = text_of ''name'' data; config = set_mail S; E = set_env S in
      if name = JOB_VERIFICATION then
        (case required name jobId data ''token'' of
           Inl e \<Rightarrow> (Inl e, sent)
         | Inr token \<Rightarrow> sendVerificationEmail E config net db to who (verification_link S token) sent)
      else if name = JOB_RESET_PASSWORD then
        (case required name jobId data ''token'' of
           Inl e \<Rightarrow> (Inl e, sent)
         | Inr token \<Rightarrow> sendResetPasswordEmail E config net db to who
                           (withQuery S (PASSWORD_RESET_URL S) [(''token'', token)]) sent)
      else if name = JOB_VERIFICATION_SUCCESS then sendVerificationSuccessEmail config net db to who sent
      else if name = JOB_OTP_CODE then
        (case required name jobId data ''code'' of
           Inl e \<Rightarrow> (Inl e, sent)
         | Inr code' \<Rightarrow> sendOtpEmail config net db to code' (job_minutes E data) sent)
      else (Inl (UnrecoverableError (''Unknown job name: '' @ name)), sent))"

definition SENT_MARKER_TTL_SECONDS :: nat where "SENT_MARKER_TTL_SECONDS = 86400"

definition marker :: "string \<Rightarrow> string" where
  "marker jobId = ''email:sent:'' @ jobId"

record worker_state =
  ws_redis :: redis
  ws_sent :: "mail_message list"

definition redis_error :: "error \<Rightarrow> job_error" where
  "redis_error e = OtherError (case e of ThrownError m \<Rightarrow> m | _ \<Rightarrow> [])"

definition marked :: "json option \<Rightarrow> bool" where
  "marked v = (case v of None \<Rightarrow> False | Some JNull \<Rightarrow> False | Some (JBool b) \<Rightarrow> b | Some (JNum n) \<Rightarrow> n \<noteq> 0
     | Some (JStr s) \<Rightarrow> s \<noteq> [] | Some _ \<Rightarrow> True)"

text \<open>Every queued job has an id.\<close>

definition processEmailJob ::
  "mail_settings \<Rightarrow> network \<Rightarrow> database \<Rightarrow> job \<Rightarrow> time \<Rightarrow> (worker_state, unit, job_error) outcome" where
  "processEmailJob S net db j now st =
     (case cache_get (marker (job_id j)) now (ws_redis st) of
        Inl e \<Rightarrow> (Inl (redis_error e), st)
      | Inr (v, _) \<Rightarrow>
          if marked v then (Inr (), st)
          else (case dispatch S net db (job_name j) (job_id j) (job_data j) (ws_sent st) of
                  (Inl e, sent) \<Rightarrow>
                    (Inl (case e of PermanentMailError m \<Rightarrow> UnrecoverableError m | _ \<Rightarrow> e), st\<lparr>ws_sent := sent\<rparr>)
                | (Inr _, sent) \<Rightarrow>
                    (case cache_set (marker (job_id j)) (JBool True) SENT_MARKER_TTL_SECONDS now (ws_redis st) of
                       Inl e \<Rightarrow> (Inl (redis_error e), st\<lparr>ws_sent := sent\<rparr>)
                     | Inr (_, s) \<Rightarrow> (Inr (), st\<lparr>ws_sent := sent, ws_redis := s\<rparr>))))"

section \<open>What a job sends\<close>

text \<open>The template and the values of a well-formed job.\<close>

definition mail_for :: "mail_settings \<Rightarrow> string \<Rightarrow> json \<Rightarrow> (string \<times> variables) option" where
  "mail_for S name data =
     (let who = text_of ''name'' data; token = text_of ''token'' data; code' = text_of ''code'' data; E = set_env S in
      if name = JOB_VERIFICATION \<and> token \<noteq> []
      then Some (KEY_VERIFY_EMAIL, verification_vars E who (verification_link S token))
      else if name = JOB_RESET_PASSWORD \<and> token \<noteq> []
      then Some (KEY_RESET_PASSWORD, reset_vars E who (withQuery S (PASSWORD_RESET_URL S) [(''token'', token)]))
      else if name = JOB_VERIFICATION_SUCCESS then Some (KEY_EMAIL_VERIFIED, [(''name'', who)])
      else if name = JOB_OTP_CODE \<and> code' \<noteq> []
      then Some (KEY_REGISTRATION_CODE, otp_vars code' (job_minutes E data)) else None)"

definition message_for :: "mail_settings \<Rightarrow> database \<Rightarrow> json \<Rightarrow> string \<times> variables \<Rightarrow> mail_message" where
  "message_for S db data tv = (let r = render (APP_NAME (set_mail S)) (fst tv) (snd tv) db
     in \<lparr>mm_to = text_of ''email'' data, mm_subject = rd_subject r, mm_html = rd_html r\<rparr>)"

lemma sendMail_Inr: "sendMail config net m sent = (Inr u, sent') \<Longrightarrow> sent' = sent @ [m]"
  by (auto simp: sendMail_def sendViaSmtp_def sendViaZeptoMail_def Let_def
      split: mail_driver.splits if_splits smtp_reply.splits http_reply.splits)

lemma sendMail_sent: "snd (sendMail config net m sent) = sent \<or> snd (sendMail config net m sent) = sent @ [m]"
  by (auto simp: sendMail_def sendViaSmtp_def sendViaZeptoMail_def Let_def
      split: mail_driver.splits smtp_reply.splits http_reply.splits)

lemma job_names_distinct [simp]:
  "JOB_RESET_PASSWORD \<noteq> JOB_VERIFICATION" "JOB_VERIFICATION_SUCCESS \<noteq> JOB_VERIFICATION" "JOB_OTP_CODE \<noteq> JOB_VERIFICATION"
  "JOB_VERIFICATION_SUCCESS \<noteq> JOB_RESET_PASSWORD" "JOB_OTP_CODE \<noteq> JOB_RESET_PASSWORD"
  "JOB_OTP_CODE \<noteq> JOB_VERIFICATION_SUCCESS"
  by (simp_all add: job_name_defs)

lemmas job_names_distinct_sym [simp] = job_names_distinct [THEN not_sym]

lemma dispatch_Some:
  "mail_for S name data = Some tv \<Longrightarrow> dispatch S net db name jobId data = sendMail (set_mail S) net (message_for S db data tv)"
  by (rule ext)
    (auto simp: mail_for_def dispatch_def message_for_def required_def sendVerificationEmail_def sendResetPasswordEmail_def
      sendVerificationSuccessEmail_def sendOtpEmail_def send_def Let_def split: if_splits)

lemma dispatch_None:
  "mail_for S name data = None \<Longrightarrow> \<exists>m. dispatch S net db name jobId data sent = (Inl (UnrecoverableError m), sent)"
  by (auto simp: mail_for_def dispatch_def required_def Let_def split: if_splits)

section \<open>At most one email per job\<close>

type_synonym run = "job \<times> time \<times> network \<times> database"

definition run_job :: "mail_settings \<Rightarrow> run \<Rightarrow> worker_state \<Rightarrow> worker_state" where
  "run_job S r st = (case r of (j, t, net, db) \<Rightarrow> snd (processEmailJob S net db j t st))"

definition is_marked :: "string \<Rightarrow> time \<Rightarrow> worker_state \<Rightarrow> bool" where
  "is_marked jobId until st = (redis_up (ws_redis st)
     \<and> kv (ws_redis st) (marker jobId) = Some (JBool True, Some until))"

lemma marker_inject [simp]: "marker a = marker b \<longleftrightarrow> a = b"
  by (simp add: marker_def)

lemma marked_skips:
  assumes "is_marked (job_id j) until st" and "t < until"
  shows "processEmailJob S net db j t st = (Inr (), st)"
  using assms by (simp add: is_marked_def processEmailJob_def cache_defs live_value_def marked_def)

lemma run_job_marked:
  assumes "is_marked i until st" and "fst (snd r) < until"
  shows "is_marked i until (run_job S r st)"
proof -
  obtain j t net db where r: "r = (j, t, net, db)" by (cases r) auto
  show ?thesis
  proof (cases "job_id j = i")
    case True
    with assms r show ?thesis by (simp add: run_job_def marked_skips [of j until])
  next
    case False
    with assms r show ?thesis
      by (auto simp: run_job_def processEmailJob_def is_marked_def cache_defs live_value_def
          split: sum.splits prod.splits if_splits option.splits)
  qed
qed

lemma runs_marked:
  assumes "is_marked i until st" and "\<And>r. r \<in> set rs \<Longrightarrow> fst (snd r) < until"
  shows "is_marked i until (fold (run_job S) rs st)"
  using assms by (induction rs arbitrary: st) (auto simp: run_job_marked)

lemma processEmailJob_Inr:
  assumes "processEmailJob S net db j now st = (Inr (), st')" and "live_value (ws_redis st) now (marker (job_id j)) = None"
  obtains tv where "mail_for S (job_name j) (job_data j) = Some tv"
    and "ws_sent st' = ws_sent st @ [message_for S db (job_data j) tv]"
    and "is_marked (job_id j) (now + 86400000) st'"
proof (cases "mail_for S (job_name j) (job_data j)")
  case None
  from dispatch_None [OF None, of net db "job_id j" "ws_sent st"] assms show thesis
    by (auto simp: processEmailJob_def cache_defs marked_def split: if_splits)
next
  case (Some tv)
  obtain r sent where d: "sendMail (set_mail S) net (message_for S db (job_data j) tv) (ws_sent st) = (r, sent)"
    by fastforce
  with assms Some have "is_marked (job_id j) (now + 86400000) st'" "r = Inr ()" "ws_sent st' = sent"
    by (auto simp: processEmailJob_def cache_defs marked_def dispatch_Some is_marked_def SENT_MARKER_TTL_SECONDS_def
        split: if_splits sum.splits)
  with d sendMail_Inr [of "set_mail S" net _ "ws_sent st"] show thesis using that [OF Some] by blast
qed

text \<open>C34. A job that was processed successfully has sent exactly one email, the one its name and data
  call for, and sends none again for a day: however many other jobs and re-runs the worker handles
  meanwhile (retries, stalled recovery, an outbox row published twice), processing it again
  succeeds without sending.\<close>

theorem email_sent_once:
  assumes "processEmailJob S net db j now st = (Inr (), st')"
    and "live_value (ws_redis st) now (marker (job_id j)) = None"
    and "\<And>r. r \<in> set runs \<Longrightarrow> fst (snd r) < now + 86400000" and "later < now + 86400000"
  shows "(\<exists>tv. mail_for S (job_name j) (job_data j) = Some tv
        \<and> ws_sent st' = ws_sent st @ [message_for S db (job_data j) tv])
    \<and> processEmailJob S net' db' j later (fold (run_job S) runs st') = (Inr (), fold (run_job S) runs st')"
proof -
  obtain tv where tv: "mail_for S (job_name j) (job_data j) = Some tv"
      "ws_sent st' = ws_sent st @ [message_for S db (job_data j) tv]" and m: "is_marked (job_id j) (now + 86400000) st'"
    by (rule processEmailJob_Inr [OF assms(1,2)])
  have "is_marked (job_id j) (now + 86400000) (fold (run_job S) runs st')"
    by (rule runs_marked [OF m assms(3)])
  from marked_skips [OF this assms(4)] tv show ?thesis by blast
qed

definition demo_settings :: mail_settings where
  "demo_settings = \<lparr>set_env = default_env, set_mail = \<lparr>MAIL_DRIVER = smtp, SMTP_HOST = Some ''mx'', SMTP_FROM = Some ''a@x.io'',
     ZEPTOMAIL_KEY = None, ZEPTOMAIL_FROM_ADDRESS = None, ZEPTOMAIL_FROM_NAME = None, ZEPTOMAIL_API_URL = [], APP_NAME = ''App''\<rparr>,
     APP_URL = ''http://x'', PASSWORD_RESET_URL = ''http://x/reset'', withQuery = (\<lambda>u q. u @ ''?'' @ URLSearchParams q)\<rparr>"

definition demo_net :: network where
  "demo_net = \<lparr>net_smtp = Smtp_ok, net_http = (\<lambda>r. Http_response 200 [])\<rparr>"

definition demo_email_job :: job where
  "demo_email_job = \<lparr>job_id = ''outbox-1'', job_queue = QUEUE_EMAIL, job_name = JOB_VERIFICATION_SUCCESS,
     job_data = JObj [(''email'', JStr ''ann@x.io''), (''name'', JStr ''Ann'')]\<rparr>"

theorem email_sent_once_witness:
  "\<exists>st'. processEmailJob demo_settings demo_net empty_db demo_email_job 0 \<lparr>ws_redis = empty_redis, ws_sent = []\<rparr> = (Inr (), st')
     \<and> processEmailJob demo_settings demo_net empty_db demo_email_job 10 (fold (run_job demo_settings) [] st')
         = (Inr (), fold (run_job demo_settings) [] st')"
proof -
  let ?st = "\<lparr>ws_redis = empty_redis, ws_sent = []\<rparr>"
  have n: "mail_for demo_settings JOB_VERIFICATION_SUCCESS (job_data demo_email_job) = Some (KEY_EMAIL_VERIFIED, [(''name'', ''Ann'')])"
    by (simp add: mail_for_def demo_email_job_def text_of_def json_field_def Let_def)
  have s: "sendMail (set_mail demo_settings) demo_net m [] = (Inr (), [m])" for m
    by (simp add: sendMail_def demo_settings_def demo_net_def sendViaSmtp_def validateMailConfig_def Let_def)
  have "job_name demo_email_job = JOB_VERIFICATION_SUCCESS" by (simp add: demo_email_job_def)
  with n s obtain st' where p: "processEmailJob demo_settings demo_net empty_db demo_email_job 0 ?st = (Inr (), st')"
    by (simp add: processEmailJob_def cache_defs live_value_def empty_redis_def marked_def dispatch_Some)
  have "live_value (ws_redis ?st) 0 (marker (job_id demo_email_job)) = None" by (simp add: live_value_def empty_redis_def)
  from email_sent_once [OF p this, of "[]" 10] p show ?thesis by auto
qed

section \<open>Failures\<close>

text \<open>A failed job is retried unless retrying cannot help, and failing leaves no sent marker:
  malformed jobs and rejections that the same message cannot overcome (SMTP 5xx or envelope
  errors, HTTP 4xx other than 408 and 429, missing configuration) are unrecoverable, every other
  transport failure is not.\<close>

theorem email_failure_classes:
  assumes "redis_up (ws_redis st)" and "live_value (ws_redis st) now (marker (job_id j)) = None"
    and "processEmailJob S net db j now st = (Inl e, st')"
  shows "ws_redis st' = ws_redis st
    \<and> ((\<exists>m. e = UnrecoverableError m) \<longleftrightarrow>
        mail_for S (job_name j) (job_data j) = None \<or> validateMailConfig (set_mail S) \<noteq> []
        \<or> (MAIL_DRIVER (set_mail S) = smtp \<and> isPermanentSmtpError (smtp_responseCode (net_smtp net)) (smtp_code (net_smtp net)))
        \<or> (MAIL_DRIVER (set_mail S) = zeptomail \<and> (\<exists>status text. isPermanentHttpStatus status
            \<and> net_http net (zepto_request_of (set_mail S) (message_for S db (job_data j)
                 (the (mail_for S (job_name j) (job_data j))))) = Http_response status text)))"
proof (cases "mail_for S (job_name j) (job_data j)")
  case None
  from dispatch_None [OF None, of net db "job_id j" "ws_sent st"] assms None show ?thesis
    by (auto simp: processEmailJob_def cache_defs marked_def)
next
  case (Some tv)
  let ?m = "message_for S db (job_data j) tv"
  have drv: "(set_mail S)\<lparr>MAIL_DRIVER := zeptomail\<rparr> = set_mail S" if "MAIL_DRIVER (set_mail S) = zeptomail"
    using that by (metis mail_config.surjective mail_config.update_convs(1) mail_config.select_convs(1))
  obtain r sent where d: "sendMail (set_mail S) net ?m (ws_sent st) = (r, sent)" by fastforce
  with assms Some obtain e' where r: "r = Inl e'" and e: "e = (case e' of PermanentMailError m \<Rightarrow> UnrecoverableError m | _ \<Rightarrow> e')"
    and st': "ws_redis st' = ws_redis st"
    by (auto simp: processEmailJob_def cache_defs marked_def dispatch_Some split: sum.splits)
  show ?thesis
    using d [unfolded r] e st' Some drv
    by (cases "MAIL_DRIVER (set_mail S)")
      (auto simp: sendMail_def sendViaSmtp_def sendViaZeptoMail_def not_configured_def Let_def
        isPermanentHttpStatus_def split: if_splits smtp_reply.splits http_reply.splits)
qed

definition demo_reject :: network where
  "demo_reject = \<lparr>net_smtp = Smtp_error (Some 550) None ''no such user'' False, net_http = (\<lambda>r. Http_response 200 [])\<rparr>"

theorem email_failure_classes_witness:
  "\<exists>m st'. processEmailJob demo_settings demo_reject empty_db demo_email_job 0 \<lparr>ws_redis = empty_redis, ws_sent = []\<rparr>
     = (Inl (UnrecoverableError m), st') \<and> ws_redis st' = empty_redis"
proof -
  let ?st = "\<lparr>ws_redis = empty_redis, ws_sent = []\<rparr>"
  have n: "mail_for demo_settings JOB_VERIFICATION_SUCCESS (job_data demo_email_job) = Some (KEY_EMAIL_VERIFIED, [(''name'', ''Ann'')])"
    by (simp add: mail_for_def demo_email_job_def text_of_def json_field_def Let_def)
  have s: "\<exists>e. sendMail (set_mail demo_settings) demo_reject m [] = (Inl e, [])" for m
    by (simp add: sendMail_def demo_settings_def demo_reject_def sendViaSmtp_def validateMailConfig_def Let_def)
  have "job_name demo_email_job = JOB_VERIFICATION_SUCCESS" by (simp add: demo_email_job_def)
  with n s [of "message_for demo_settings empty_db (job_data demo_email_job) (KEY_EMAIL_VERIFIED, [(''name'', ''Ann'')])"]
  obtain e st' where p: "processEmailJob demo_settings demo_reject empty_db demo_email_job 0 ?st = (Inl e, st')"
    by (auto simp: processEmailJob_def cache_defs live_value_def empty_redis_def marked_def dispatch_Some)
  have h: "redis_up (ws_redis ?st)" "live_value (ws_redis ?st) 0 (marker (job_id demo_email_job)) = None"
    by (simp_all add: live_value_def empty_redis_def)
  have "isPermanentSmtpError (smtp_responseCode (net_smtp demo_reject)) (smtp_code (net_smtp demo_reject))"
    "MAIL_DRIVER (set_mail demo_settings) = smtp"
    by (simp_all add: isPermanentSmtpError_def demo_reject_def demo_settings_def)
  with email_failure_classes [OF h p] p show ?thesis by auto
qed

end
