(* ===== verification/Journey.thy ===== *)
theory Journey
  imports Email_Delivery
begin

text \<open>
  The way of a new account across components: from registration by link through the outbox and the
  email worker to the link in the mail, its verification and the first login.
\<close>

section \<open>From registration to login\<close>

lemma verify_email_required:
  "map_of EMAIL_TEMPLATE_CATALOG KEY_VERIFY_EMAIL = Some verify_email_template"
  "''link'' \<in> set (td_required verify_email_template)"
  by (simp_all add: EMAIL_TEMPLATE_CATALOG_def verify_email_template_def)

text \<open>A token is its own form encoding, so the link is written out: the address of the application without
  trailing slashes, the path of the verification route of the API, and the token.\<close>

lemma form_encode_hex: "hex_string s \<Longrightarrow> form_encode s = s"
proof -
  have "form_char c = [c]" if "is_hex_digit c" for c
    using that by (auto simp: form_char_def form_safe_def is_hex_digit_def is_lower_alpha_def)
  moreover assume "hex_string s"
  ultimately have "list_all (\<lambda>c. form_char c = [c]) s" by (simp add: hex_string_def list_all_iff)
  then show ?thesis by (induction s) (simp_all add: form_encode_def)
qed

lemma verification_link_text:
  assumes "random64_ok rnd"
  shows "verification_link S (generateToken rnd)
    = strip_trailing (CHR ''/'') (APP_URL S) @ ''/api/v1/auth/verify-email?token='' @ generateToken rnd"
proof -
  have h: "form_encode (generateToken rnd) = generateToken rnd"
    using assms by (simp add: form_encode_hex generateToken_hex random64_ok_def)
  have t: "form_encode ''token'' = ''token''" by code_simp
  have "URLSearchParams [(''token'', generateToken rnd)] = ''token='' @ generateToken rnd"
    by (simp add: URLSearchParams_def t h)
  then show ?thesis by (simp add: verification_link_def appUrl_def)
qed

text \<open>The email sent for a verification intent contains the link, which carries the token.\<close>

lemma verification_mail:
  assumes "templates_ok db" and "json_field ''token'' data = Some (JStr token)" and "token \<noteq> []"
    and "mail_for S JOB_VERIFICATION data = Some tv"
  shows "sublist (escapeHtml (verification_link S token)) (mm_html (message_for S db data tv))"
proof -
  let ?link = "verification_link S token"
  have tok: "text_of ''token'' data = token" using assms(2) by (simp add: text_of_def)
  then have tv: "tv = (KEY_VERIFY_EMAIL, verification_vars (set_env S) (text_of ''name'' data) ?link)"
    using assms(3,4) by (simp add: mail_for_def Let_def)
  have "map_of (snd tv) ''link'' = Some ?link" by (simp add: tv verification_vars_def)
  from render_contains [OF assms(1) verify_email_required this, of "APP_NAME (set_mail S)"]
  show "sublist (escapeHtml ?link) (mm_html (message_for S db data tv))"
    by (simp add: message_for_def tv Let_def)
qed

lemma register_Inr:
  assumes "settings_mode E = Link" and "register C E lower rnd uuid now dbnow d db = (Inr su, db')"
  shows "findUserByEmail (ri_email d) db = None \<and> register_account C E rnd uuid now dbnow d db = Inr (su, db')"
  using assms by (auto simp: register_def transaction_eq_Inr register_alone email_in_use_def split: if_splits)

text \<open>A new account is verified by its token and can then log in.\<close>

lemma verify_then_login:
  assumes "users_ok db" and "findUserByEmail email db = None" and "bcrypt_correct C"
    and "users db1 = users db @ [u]" and "user_id u = users_seq db" and "user_email u = Some email"
    and "user_password u = Some (bcrypt_hash C password)" and "active u"
    and "findEmailVerificationToken token db1 = Some t" and "evt_userId t = user_id u" and "\<not> evt_expiresAt t < now"
    and "hashToken C (generateToken rnd) \<notin> rt_token ` set (refresh_tokens db1)"
    and "uuid \<notin> rt_id ` set (refresh_tokens db1)"
  shows "\<exists>db2 tokens db3. verifyEmail now dbnow token db1 = (Inr (), db2)
    \<and> users db2 = users db @ [u\<lparr>user_isEmailVerified := True, user_updatedAt := now\<rparr>]
    \<and> login C E rnd uuid family now2 dbnow2 email password db2 = (Inr tokens, db3)"
proof -
  let ?p = "no_user_patch\<lparr>up_isEmailVerified := Some True\<rparr>" and ?P = "\<lambda>w. user_id w = user_id u"
  have other: "user_id w \<noteq> user_id u" if "w \<in> set (users db)" for w
    using assms(1,5) that by (auto simp: users_ok_def)
  then have f: "find_first ?P (users db1) = Some u"
    by (simp add: assms(4) find_first_append find_first_None_iff [THEN iffD2])
  let ?users = "update_where ?P (apply_user_patch ?p now) (users db1)"
  have up: "user_update (evt_userId t) ?p now db1 = Inr (apply_user_patch ?p now u, db1\<lparr>users := ?users\<rparr>)"
    using f by (simp add: user_update_def assms(10) no_user_patch_def)
  let ?db2 = "enqueue QUEUE_EMAIL JOB_VERIFICATION_SUCCESS (notice_payload (apply_user_patch ?p now u)) dbnow
    (delete_verification_token token (db1\<lparr>users := ?users\<rparr>))"
  have v: "verifyEmail now dbnow token db1 = (Inr (), ?db2)"
    using assms(11) by (simp add: verifyEmail_def verifyEmail_tx_def assms(9) up)
  have rows: "users ?db2 = users db @ [apply_user_patch ?p now u]" "refresh_tokens ?db2 = refresh_tokens db1"
    using update_where_id [of "users db" ?P, OF other]
    by (simp_all add: delete_verification_token_def assms(4) update_where_def)
  have "findUserByEmail email ?db2 = Some (apply_user_patch ?p now u)"
    using assms(2,6,8) unfolding findUserByEmail_def rows
    by (simp add: find_first_append apply_user_patch_def patched_def no_user_patch_def active_def)
  from login_ok [OF this, of "bcrypt_hash C password" C password rnd uuid E family now2 dbnow2] assms(3,7,12,13)
  have "\<exists>tokens db3. login C E rnd uuid family now2 dbnow2 email password ?db2 = (Inr tokens, db3)"
    unfolding rows by (simp add: bcrypt_correct_def apply_user_patch_def patched_def no_user_patch_def)
  moreover have "apply_user_patch ?p now u = u\<lparr>user_isEmailVerified := True, user_updatedAt := now\<rparr>"
    by (simp add: apply_user_patch_def no_user_patch_def patched_def)
  ultimately show ?thesis using v rows(1) by auto
qed

text \<open>C12. Registering by link leads into the account. A successful registration adds one account, not
  verified, and changes no other. The email that the worker sends for its intent goes to the new
  address and shows the link, which is APP_URL followed by the path of the verification route and the
  token. Until the link is used the password opens no session. Verifying the token of the link in time
  sets exactly this account to verified and leaves every other account as it was, and then the password
  chosen at registration opens a session. Templates may have been edited in between.\<close>

theorem registration_journey:
  assumes "settings_mode (set_env S) = Link" and "users_ok db" and "bcrypt_correct C" and "random64_ok rnd"
    and "register C (set_env S) lower rnd uuid now dbnow d db = (Inr su, db1)"
    and "templates_ok mdb"
    and "job_name j = ob_jobName (last (outbox db1))" and "job_data j = ob_payload (last (outbox db1))"
    and "live_value (ws_redis st) sent_at (marker (job_id j)) = None"
    and "processEmailJob S net mdb j sent_at st = (Inr (), st')"
    and "clicked \<le> now + int (EMAIL_VERIFICATION_EXPIRES_HOURS (set_env S)) * 3600000"
    and "hashToken C (generateToken rnd2) \<notin> rt_token ` set (refresh_tokens db1)"
    and "uuid2 \<notin> rt_id ` set (refresh_tokens db1)"
  shows "\<exists>m u link db2 tokens db3. users db1 = users db @ [u] \<and> user_email u = Some (ri_email d) \<and> \<not> user_isEmailVerified u
    \<and> ws_sent st' = ws_sent st @ [m] \<and> mm_to m = ri_email d \<and> sublist (escapeHtml link) (mm_html m)
    \<and> link = strip_trailing (CHR ''/'') (APP_URL S) @ ''/api/v1/auth/verify-email?token='' @ generateToken rnd
    \<and> (\<exists>e. login C (set_env S) rnd2 uuid2 family early dbnow2 (ri_email d) (ri_password d) db1 = (Inl e, db1))
    \<and> verifyEmail clicked dbnow3 (generateToken rnd) db1 = (Inr (), db2)
    \<and> users db2 = users db @ [u\<lparr>user_isEmailVerified := True, user_updatedAt := clicked\<rparr>]
    \<and> login C (set_env S) rnd2 uuid2 family late dbnow4 (ri_email d) (ri_password d) db2 = (Inr tokens, db3)"
proof -
  let ?token = "generateToken rnd" and ?link = "verification_link S (generateToken rnd)"
  note r = register_Inr [OF assms(1,5)]
  from register_account_link [OF assms(1) conjunct2 [OF r]] obtain u t i where
    u: "users db1 = users db @ [u]" "user_id u = users_seq db" "user_email u = Some (ri_email d)"
      "user_password u = Some (bcrypt_hash C (ri_password d))" "\<not> user_isEmailVerified u" "active u"
    and t: "email_verification_tokens db1 = email_verification_tokens db @ [t]" "evt_token t = ?token"
      "evt_userId t = user_id u" "evt_expiresAt t = now + int (EMAIL_VERIFICATION_EXPIRES_HOURS (set_env S)) * 3600000"
      "?token \<notin> evt_token ` set (email_verification_tokens db)"
    and i: "outbox db1 = outbox db @ [i]" "ob_jobName i = JOB_VERIFICATION" "ob_payload i = token_payload u ?token"
    by blast
  have j: "job_name j = JOB_VERIFICATION" "job_data j = token_payload u ?token" using assms(7,8) i by simp_all
  obtain tv where tv: "mail_for S (job_name j) (job_data j) = Some tv"
    and sent: "ws_sent st' = ws_sent st @ [message_for S mdb (job_data j) tv]"
    by (rule processEmailJob_Inr [OF assms(10,9)])
  note mail = verification_mail [OF assms(6) token_payload_token generateToken_nonempty [OF assms(4)] tv [unfolded j]]
  have to: "mm_to (message_for S mdb (job_data j) tv) = ri_email d"
    by (simp add: message_for_def Let_def j(2) text_of_def token_payload_def json_field_def u(3) json_opt_def)
  have "findUserByEmail (ri_email d) db1 = Some u"
    using conjunct1 [OF r] u(3,6) by (simp add: findUserByEmail_def u(1) find_first_append)
  then have early: "\<exists>e. login C (set_env S) rnd2 uuid2 family early dbnow2 (ri_email d) (ri_password d) db1 = (Inl e, db1)"
    using u(5) by (simp add: login_def)
  have "evt_token x \<noteq> ?token" if "x \<in> set (email_verification_tokens db)" for x
    using t(5) imageI [OF that, of evt_token] by metis
  then have "find_first (\<lambda>x. evt_token x = ?token) (email_verification_tokens db) = None"
    unfolding find_first_None_iff by blast
  then have "findEmailVerificationToken ?token db1 = Some t"
    by (simp add: findEmailVerificationToken_def t(1,2) find_first_append)
  note found = this
  have "\<not> evt_expiresAt t < clicked" using t(4) assms(11) by simp
  from verify_then_login [OF assms(2) conjunct1 [OF r] assms(3) u(1-4,6) found t(3) this assms(12,13)]
  obtain db2 tokens db3 where "verifyEmail clicked dbnow3 ?token db1 = (Inr (), db2)"
    "users db2 = users db @ [u\<lparr>user_isEmailVerified := True, user_updatedAt := clicked\<rparr>]"
    "login C (set_env S) rnd2 uuid2 family late dbnow4 (ri_email d) (ri_password d) db2 = (Inr tokens, db3)"
    by blast
  with sent to mail early u(1,3,5) verification_link_text [OF assms(4), of S] show ?thesis unfolding j by blast
qed

lemma sendMail_demo: "sendMail (set_mail demo_settings) demo_net m sent = (Inr (), sent @ [m])"
  by (simp add: sendMail_def demo_settings_def demo_net_def sendViaSmtp_def validateMailConfig_def Let_def)

theorem registration_journey_witness:
  "\<exists>su db1 db2 tokens db3. register demo_crypto default_env (\<lambda>s. s) demo_random ''e1'' 0 0 demo_register empty_db = (Inr su, db1)
     \<and> verifyEmail 100 100 (generateToken demo_random) db1 = (Inr (), db2)
     \<and> login demo_crypto default_env demo_random2 ''r1'' ''f1'' 200 200 ''ann@x.io'' ''pw'' db2 = (Inr tokens, db3)"
proof -
  obtain su db1 where r: "register demo_crypto default_env (\<lambda>s. s) demo_random ''e1'' 0 0 demo_register empty_db = (Inr su, db1)"
    using register_demo by blast
  have m: "settings_mode default_env = Link" by (simp add: settings_mode_def default_env_def)
  from register_account_link [OF m conjunct2 [OF register_Inr [OF m r]]] obtain u i where
    i: "outbox db1 = outbox empty_db @ [i]" "ob_jobName i = JOB_VERIFICATION" "ob_payload i = token_payload u (generateToken demo_random)"
    and rt: "refresh_tokens db1 = refresh_tokens empty_db" by blast
  define j where "j = \<lparr>job_id = ''outbox-1'', job_queue = QUEUE_EMAIL, job_name = ob_jobName i, job_data = ob_payload i\<rparr>"
  let ?st = "\<lparr>ws_redis = empty_redis, ws_sent = []\<rparr>"
  have se: "set_env demo_settings = default_env" "APP_URL demo_settings = ''http://x''" by (simp_all add: demo_settings_def)
  have "text_of ''token'' (job_data j) \<noteq> []"
    using generateToken_nonempty [OF demo_random_ok(1)] by (simp add: j_def i(3) text_of_def)
  then obtain tv where "mail_for demo_settings (job_name j) (job_data j) = Some tv"
    by (simp add: mail_for_def j_def i(2) Let_def)
  then obtain st' where p: "processEmailJob demo_settings demo_net empty_db j 50 ?st = (Inr (), st')"
    by (cases tv) (simp add: processEmailJob_def cache_defs live_value_def empty_redis_def marked_def dispatch_Some sendMail_demo)
  have "users_ok empty_db" "templates_ok empty_db"
    by (simp_all add: users_ok_def slug_unique_users_def templates_ok_def empty_db_def)
  moreover have "live_value (ws_redis ?st) 50 (marker (job_id j)) = None" by (simp add: live_value_def empty_redis_def)
  moreover have "job_name j = ob_jobName (last (outbox db1))" "job_data j = ob_payload (last (outbox db1))"
    by (simp_all add: j_def i(1))
  ultimately show ?thesis
    using registration_journey [of demo_settings empty_db demo_crypto demo_random "\<lambda>s. s" "''e1''" 0 0 demo_register su db1
        empty_db j ?st 50 demo_net st' 100 demo_random2 "''r1''"] r m p rt
    by (simp add: se demo_bcrypt_correct demo_random_ok(1) default_env_def demo_register_def empty_db_def) blast
qed

end
