(* ===== verification/Env.thy ===== *)
theory Env
  imports Email_Delivery Js_Number
begin

text \<open>
  Runtime configuration (\<^verbatim>\<open>src/config/env.ts\<close>): the process environment is parsed once against a
  schema of typed fields with defaults and bounds, and start-up fails when a field is refused. The
  URL parser and the table of language tags are parameters. A refusal is modelled by the keys of the
  fields whose own schema refuses, and by the key of the secret when the production rule is the
  only one to refuse; the texts of the problems are left out, and so is whether zod still runs that
  rule, and names the secret too, once a field has been refused.
\<close>

type_synonym environment = "string \<Rightarrow> string option"

section \<open>Field schemas\<close>

text \<open>A schema maps the raw value to the parsed one; \<open>None\<close> is a refusal.\<close>

definition blankToUndefined :: "string option \<Rightarrow> string option" where
  "blankToUndefined v = (case v of None \<Rightarrow> None | Some s \<Rightarrow> if trim s = [] then None else Some s)"

definition text_field :: "string option \<Rightarrow> string option option" where
  "text_field v = Some (map_option trim (blankToUndefined v))"

definition secret_field :: "string option \<Rightarrow> string option option" where
  "secret_field v = Some (blankToUndefined v)"

definition required_field :: "string option \<Rightarrow> string option" where
  "required_field v = blankToUndefined v"

definition text_or :: "string \<Rightarrow> string option \<Rightarrow> string option" where
  "text_or fallback v = Some (case blankToUndefined v of None \<Rightarrow> fallback | Some s \<Rightarrow> trim s)"

definition integer_field :: "int \<times> int \<times> int \<Rightarrow> string option \<Rightarrow> int option" where
  "integer_field spec v = (case spec of (fallback, lo, hi) \<Rightarrow>
     case blankToUndefined v of
       None \<Rightarrow> Some fallback
     | Some s \<Rightarrow> Option.bind (Option.bind (Number s) decimal_int) (\<lambda>n. if lo \<le> n \<and> n \<le> hi then Some n else None))"

definition TRUE_VALUES :: "string list" where "TRUE_VALUES = [''true'', ''1'', ''yes'', ''on'']"
definition FALSE_VALUES :: "string list" where "FALSE_VALUES = [''false'', ''0'', ''no'', ''off'']"

definition flag :: "bool \<Rightarrow> string option \<Rightarrow> bool option" where
  "flag fallback v =
     (case map_option (\<lambda>s. toLowerCase (trim s)) (blankToUndefined v) of
        None \<Rightarrow> Some fallback
      | Some s \<Rightarrow> if s \<in> set (TRUE_VALUES @ FALSE_VALUES) then Some (s \<in> set TRUE_VALUES) else None)"

definition choice :: "(string \<times> 'a) list \<Rightarrow> 'a \<Rightarrow> string option \<Rightarrow> 'a option" where
  "choice alternatives fallback v =
     (case blankToUndefined v of None \<Rightarrow> Some fallback | Some s \<Rightarrow> map_of alternatives s)"

text \<open>\<^verbatim>\<open>/^\d+(\.\d+)?\s*(unit)$/i\<close>.\<close>

definition quantity :: "string list \<Rightarrow> string \<Rightarrow> bool" where
  "quantity units s =
     (let r = dropWhile is_digit s;
          (ok, r1) = (case r of
             c # r' \<Rightarrow> if c = CHR ''.'' then (takeWhile is_digit r' \<noteq> [], dropWhile is_digit r') else (True, r)
           | [] \<Rightarrow> (True, []))
      in takeWhile is_digit s \<noteq> [] \<and> ok \<and> toLowerCase (dropWhile is_space r1) \<in> set units)"

definition DURATION :: "string list" where
  "DURATION = [''ms'', ''msec'', ''msecs'', ''millisecond'', ''milliseconds'', ''s'', ''sec'', ''secs'', ''second'',
     ''seconds'', ''m'', ''min'', ''mins'', ''minute'', ''minutes'', ''h'', ''hr'', ''hrs'', ''hour'', ''hours'', ''d'',
     ''day'', ''days'', ''w'', ''week'', ''weeks'', ''y'', ''yr'', ''yrs'', ''year'', ''years'']"

definition BYTE_SIZE :: "string list" where "BYTE_SIZE = [[], ''b'', ''kb'', ''mb'', ''gb'']"

definition quantity_field :: "string list \<Rightarrow> string \<Rightarrow> string option \<Rightarrow> string option" where
  "quantity_field units fallback v =
     (case blankToUndefined v of
        None \<Rightarrow> Some fallback
      | Some s \<Rightarrow> if quantity units (trim s) then Some (trim s) else None)"

text \<open>\<open>url\<close> gives protocol and origin of an absolute URL, \<open>locale\<close> the canonical form of a language tag.\<close>

record platform =
  pf_url :: "string \<Rightarrow> (string \<times> string) option"
  pf_locale :: "string \<Rightarrow> string option"

definition isHttpUrl :: "platform \<Rightarrow> string \<Rightarrow> bool" where
  "isHttpUrl P v = (case pf_url P v of None \<Rightarrow> False | Some (protocol, _) \<Rightarrow> protocol \<in> {''http:'', ''https:''})"

definition isOrigin :: "platform \<Rightarrow> string \<Rightarrow> bool" where
  "isOrigin P v = (isHttpUrl P v \<and> (case pf_url P v of None \<Rightarrow> False | Some (_, origin) \<Rightarrow> origin = v))"

definition canonicalLocale :: "platform \<Rightarrow> string \<Rightarrow> string option" where
  "canonicalLocale P v = pf_locale P (trim v)"

definition http_url_field :: "platform \<Rightarrow> string option \<Rightarrow> string option" where
  "http_url_field P v = Option.bind (required_field v) (\<lambda>s. if isHttpUrl P (trim s) then Some (trim s) else None)"

definition https_url_or :: "platform \<Rightarrow> string \<Rightarrow> string option \<Rightarrow> string option" where
  "https_url_or P fallback v =
     (let s = (case blankToUndefined v of None \<Rightarrow> fallback | Some s \<Rightarrow> trim s)
      in if isHttpUrl P s \<and> map_option fst (pf_url P s) = Some ''https:'' then Some s else None)"

definition comma_list :: "string \<Rightarrow> string list" where
  "comma_list s = filter (\<lambda>t. t \<noteq> []) (map trim (split_on CHR '','' s))"

definition origins_field :: "platform \<Rightarrow> string option \<Rightarrow> string list option" where
  "origins_field P v =
     (let origins = comma_list (case blankToUndefined v of None \<Rightarrow> [] | Some s \<Rightarrow> s)
      in if list_all (isOrigin P) origins then Some origins else None)"

definition locales_field :: "platform \<Rightarrow> string option \<Rightarrow> string list option" where
  "locales_field P v =
     (let tags = comma_list (case blankToUndefined v of None \<Rightarrow> ''en,id'' | Some s \<Rightarrow> s)
      in if tags \<noteq> [] \<and> list_all (\<lambda>t. canonicalLocale P t \<noteq> None) tags
         then Some (in_order (map (\<lambda>t. the (canonicalLocale P t)) tags)) else None)"

definition database_url_field :: "string option \<Rightarrow> string option" where
  "database_url_field v = Option.bind (required_field v)
     (\<lambda>s. if startsWith s ''postgres://'' \<or> startsWith s ''postgresql://'' then Some s else None)"

section \<open>The schema\<close>

text \<open>Every integer field with its default and bounds.\<close>

definition INTEGERS :: "(string \<times> int \<times> int \<times> int) list" where
  "INTEGERS = [(''PORT'', 3001, 1, 65535), (''REDIS_PORT'', 6379, 1, 65535),
     (''REFRESH_TOKEN_EXPIRES_DAYS'', 7, 1, 3650), (''REFRESH_GRACE_SECONDS'', 30, 1, 300),
     (''EMAIL_VERIFICATION_EXPIRES_HOURS'', 24, 1, 8760), (''PASSWORD_RESET_EXPIRES_MINUTES'', 60, 1, 10080),
     (''BCRYPT_ROUNDS'', 10, 4, 31), (''OTP_EXPIRES_MINUTES'', 10, 1, 60),
     (''OTP_RESEND_COOLDOWN_SECONDS'', 60, 10, 3600), (''OTP_MAX_ATTEMPTS'', 5, 1, 20),
     (''OTP_VERIFIED_WINDOW_MINUTES'', 30, 1, 1440), (''SMTP_PORT'', 587, 1, 65535),
     (''OUTBOX_RELAY_INTERVAL_MS'', 2000, 100, 60000), (''OUTBOX_RELAY_BATCH'', 50, 1, 500),
     (''OUTBOX_LEASE_SECONDS'', 60, 10, 3600), (''OUTBOX_MAX_PUBLISH_ATTEMPTS'', 5, 1, 50),
     (''OUTBOX_RETENTION_PUBLISHED_DAYS'', 7, 1, 3650), (''OUTBOX_RETENTION_FAILED_DAYS'', 30, 1, 3650),
     (''DLQ_RETENTION_DAYS'', 90, 1, 3650)]"

definition registration_field :: "string option \<Rightarrow> registration_mode option" where
  "registration_field = choice [(''link'', Link), (''otp'', Otp)] Link"

definition driver_field :: "string option \<Rightarrow> mail_driver option" where
  "driver_field = choice [(''smtp'', smtp), (''zeptomail'', zeptomail)] smtp"

definition ZEPTOMAIL_DEFAULT :: string where "ZEPTOMAIL_DEFAULT = ''https://api.zeptomail.com/v1.1/email''"

text \<open>The fields that can refuse a value, with whether they accept the given one.\<close>

definition field_checks :: "platform \<Rightarrow> environment \<Rightarrow> (string \<times> bool) list" where
  "field_checks P src =
     [(''APP_URL'', http_url_field P (src ''APP_URL'') \<noteq> None),
      (''FORMLIMIT'', quantity_field BYTE_SIZE ''52428800'' (src ''FORMLIMIT'') \<noteq> None),
      (''ENABLELOG'', flag False (src ''ENABLELOG'') \<noteq> None),
      (''LOG_TO_FILES'', flag False (src ''LOG_TO_FILES'') \<noteq> None),
      (''ALLOWED_ORIGINS'', origins_field P (src ''ALLOWED_ORIGINS'') \<noteq> None),
      (''DATABASE_URL'', database_url_field (src ''DATABASE_URL'') \<noteq> None),
      (''JWT_ACCESS_SECRET'', required_field (src ''JWT_ACCESS_SECRET'') \<noteq> None),
      (''JWT_ACCESS_EXPIRES'', quantity_field DURATION ''15m'' (src ''JWT_ACCESS_EXPIRES'') \<noteq> None),
      (''PASSWORD_RESET_URL'', http_url_field P (src ''PASSWORD_RESET_URL'') \<noteq> None),
      (''REGISTRATION_VERIFICATION'', registration_field (src ''REGISTRATION_VERIFICATION'') \<noteq> None),
      (''SUPPORTED_LOCALES'', locales_field P (src ''SUPPORTED_LOCALES'') \<noteq> None),
      (''MAIL_DRIVER'', driver_field (src ''MAIL_DRIVER'') \<noteq> None),
      (''ZEPTOMAIL_API_URL'', https_url_or P ZEPTOMAIL_DEFAULT (src ''ZEPTOMAIL_API_URL'') \<noteq> None)]
     @ map (\<lambda>(k, spec). (k, integer_field spec (src k) \<noteq> None)) INTEGERS"

record config =
  NODE_ENV :: "string option"
  PORT :: nat
  APP_URL :: string
  FORMLIMIT :: string
  ENABLELOG :: bool
  LOG_TO_FILES :: bool
  ALLOWED_ORIGINS :: "string list"
  STORAGE_ROOT :: "string option"
  DATABASE_URL :: string
  REDIS_HOST :: string
  REDIS_PORT :: nat
  REDIS_PASSWORD :: "string option"
  JWT_ACCESS_EXPIRES :: string
  BCRYPT_ROUNDS :: nat
  PASSWORD_RESET_URL :: string
  SUPPORTED_LOCALES :: "string list"
  SMTP_PORT :: nat
  SMTP_USER :: "string option"
  SMTP_PASS :: "string option"
  OUTBOX_RELAY_INTERVAL_MS :: nat
  cfg_env :: env
  cfg_mail :: mail_config

text \<open>The parsed value of an accepted integer field.\<close>

definition int_value :: "environment \<Rightarrow> string \<Rightarrow> nat" where
  "int_value src k = nat (the (integer_field (the (map_of INTEGERS k)) (src k)))"

definition parsed_env :: "environment \<Rightarrow> env" where
  "parsed_env src =
     \<lparr>JWT_ACCESS_SECRET = the (required_field (src ''JWT_ACCESS_SECRET'')),
      REFRESH_TOKEN_EXPIRES_DAYS = int_value src ''REFRESH_TOKEN_EXPIRES_DAYS'',
      REFRESH_GRACE_SECONDS = int_value src ''REFRESH_GRACE_SECONDS'',
      EMAIL_VERIFICATION_EXPIRES_HOURS = int_value src ''EMAIL_VERIFICATION_EXPIRES_HOURS'',
      PASSWORD_RESET_EXPIRES_MINUTES = int_value src ''PASSWORD_RESET_EXPIRES_MINUTES'',
      REGISTRATION_VERIFICATION = the (registration_field (src ''REGISTRATION_VERIFICATION'')),
      REGISTRATION_DEFAULT_ROLE = the (text_field (src ''REGISTRATION_DEFAULT_ROLE'')),
      OTP_EXPIRES_MINUTES = int_value src ''OTP_EXPIRES_MINUTES'',
      OTP_RESEND_COOLDOWN_SECONDS = int_value src ''OTP_RESEND_COOLDOWN_SECONDS'',
      OTP_MAX_ATTEMPTS = int_value src ''OTP_MAX_ATTEMPTS'',
      OTP_VERIFIED_WINDOW_MINUTES = int_value src ''OTP_VERIFIED_WINDOW_MINUTES'',
      OUTBOX_RELAY_BATCH = int_value src ''OUTBOX_RELAY_BATCH'',
      OUTBOX_LEASE_SECONDS = int_value src ''OUTBOX_LEASE_SECONDS'',
      OUTBOX_MAX_PUBLISH_ATTEMPTS = int_value src ''OUTBOX_MAX_PUBLISH_ATTEMPTS'',
      OUTBOX_RETENTION_PUBLISHED_DAYS = int_value src ''OUTBOX_RETENTION_PUBLISHED_DAYS'',
      OUTBOX_RETENTION_FAILED_DAYS = int_value src ''OUTBOX_RETENTION_FAILED_DAYS'',
      DLQ_RETENTION_DAYS = int_value src ''DLQ_RETENTION_DAYS''\<rparr>"

definition parsed_mail :: "platform \<Rightarrow> environment \<Rightarrow> mail_config" where
  "parsed_mail P src =
     \<lparr>MAIL_DRIVER = the (driver_field (src ''MAIL_DRIVER'')), SMTP_HOST = the (text_field (src ''SMTP_HOST'')),
      SMTP_FROM = the (text_field (src ''SMTP_FROM'')), ZEPTOMAIL_KEY = the (secret_field (src ''ZEPTOMAIL_KEY'')),
      ZEPTOMAIL_FROM_ADDRESS = the (text_field (src ''ZEPTOMAIL_FROM_ADDRESS'')),
      ZEPTOMAIL_FROM_NAME = the (text_field (src ''ZEPTOMAIL_FROM_NAME'')),
      ZEPTOMAIL_API_URL = the (https_url_or P ZEPTOMAIL_DEFAULT (src ''ZEPTOMAIL_API_URL'')),
      APP_NAME = the (text_or ''App'' (src ''APP_NAME''))\<rparr>"

definition parsed_config :: "platform \<Rightarrow> environment \<Rightarrow> config" where
  "parsed_config P src =
     \<lparr>NODE_ENV = the (text_field (src ''NODE_ENV'')), PORT = int_value src ''PORT'',
      APP_URL = the (http_url_field P (src ''APP_URL'')),
      FORMLIMIT = the (quantity_field BYTE_SIZE ''52428800'' (src ''FORMLIMIT'')),
      ENABLELOG = the (flag False (src ''ENABLELOG'')), LOG_TO_FILES = the (flag False (src ''LOG_TO_FILES'')),
      ALLOWED_ORIGINS = the (origins_field P (src ''ALLOWED_ORIGINS'')),
      STORAGE_ROOT = the (text_field (src ''STORAGE_ROOT'')),
      DATABASE_URL = the (database_url_field (src ''DATABASE_URL'')),
      REDIS_HOST = the (text_or ''127.0.0.1'' (src ''REDIS_HOST'')), REDIS_PORT = int_value src ''REDIS_PORT'',
      REDIS_PASSWORD = the (secret_field (src ''REDIS_PASSWORD'')),
      JWT_ACCESS_EXPIRES = the (quantity_field DURATION ''15m'' (src ''JWT_ACCESS_EXPIRES'')),
      BCRYPT_ROUNDS = int_value src ''BCRYPT_ROUNDS'',
      PASSWORD_RESET_URL = the (http_url_field P (src ''PASSWORD_RESET_URL'')),
      SUPPORTED_LOCALES = the (locales_field P (src ''SUPPORTED_LOCALES'')),
      SMTP_PORT = int_value src ''SMTP_PORT'', SMTP_USER = the (text_field (src ''SMTP_USER'')),
      SMTP_PASS = the (secret_field (src ''SMTP_PASS'')),
      OUTBOX_RELAY_INTERVAL_MS = int_value src ''OUTBOX_RELAY_INTERVAL_MS'',
      cfg_env = parsed_env src, cfg_mail = parsed_mail P src\<rparr>"

definition PLACEHOLDER_SECRETS :: "string list" where
  "PLACEHOLDER_SECRETS = [''change_this_to_a_secure_random_string'']"
definition MIN_PRODUCTION_SECRET_LENGTH :: nat where "MIN_PRODUCTION_SECRET_LENGTH = 32"

definition weak_secret :: "config \<Rightarrow> bool" where
  "weak_secret cfg = (NODE_ENV cfg = Some ''production''
     \<and> (JWT_ACCESS_SECRET (cfg_env cfg) \<in> set PLACEHOLDER_SECRETS
        \<or> length (JWT_ACCESS_SECRET (cfg_env cfg)) < MIN_PRODUCTION_SECRET_LENGTH))"

text \<open>A refusal names the keys. The production rule applies once every field is accepted.\<close>

definition parseEnv :: "platform \<Rightarrow> environment \<Rightarrow> string list + config" where
  "parseEnv P src =
     (let refused = map fst (filter (\<lambda>(k, ok). \<not> ok) (field_checks P src)); cfg = parsed_config P src
      in if refused \<noteq> [] then Inl refused
         else if weak_secret cfg then Inl [''JWT_ACCESS_SECRET''] else Inr cfg)"

section \<open>An accepted configuration is well typed\<close>

definition config_bounds :: "config \<Rightarrow> (nat \<times> nat \<times> nat) list" where
  "config_bounds cfg =
     [(PORT cfg, 1, 65535), (REDIS_PORT cfg, 1, 65535), (SMTP_PORT cfg, 1, 65535), (BCRYPT_ROUNDS cfg, 4, 31),
      (OUTBOX_RELAY_INTERVAL_MS cfg, 100, 60000),
      (REFRESH_TOKEN_EXPIRES_DAYS (cfg_env cfg), 1, 3650), (REFRESH_GRACE_SECONDS (cfg_env cfg), 1, 300),
      (EMAIL_VERIFICATION_EXPIRES_HOURS (cfg_env cfg), 1, 8760),
      (PASSWORD_RESET_EXPIRES_MINUTES (cfg_env cfg), 1, 10080),
      (OTP_EXPIRES_MINUTES (cfg_env cfg), 1, 60), (OTP_RESEND_COOLDOWN_SECONDS (cfg_env cfg), 10, 3600),
      (OTP_MAX_ATTEMPTS (cfg_env cfg), 1, 20), (OTP_VERIFIED_WINDOW_MINUTES (cfg_env cfg), 1, 1440),
      (OUTBOX_RELAY_BATCH (cfg_env cfg), 1, 500), (OUTBOX_LEASE_SECONDS (cfg_env cfg), 10, 3600),
      (OUTBOX_MAX_PUBLISH_ATTEMPTS (cfg_env cfg), 1, 50), (OUTBOX_RETENTION_PUBLISHED_DAYS (cfg_env cfg), 1, 3650),
      (OUTBOX_RETENTION_FAILED_DAYS (cfg_env cfg), 1, 3650), (DLQ_RETENTION_DAYS (cfg_env cfg), 1, 3650)]"

text \<open>A trimmed non-empty text, an optional one, an optional secret (kept as written, never blank), a
  PostgreSQL connection string.\<close>

definition filled :: "string \<Rightarrow> bool" where
  "filled s = (s \<noteq> [] \<and> trim s = s)"

definition filled_option :: "string option \<Rightarrow> bool" where
  "filled_option v = (case v of None \<Rightarrow> True | Some s \<Rightarrow> filled s)"

definition secret_option :: "string option \<Rightarrow> bool" where
  "secret_option v = (case v of None \<Rightarrow> True | Some s \<Rightarrow> trim s \<noteq> [])"

definition postgres_url :: "string \<Rightarrow> bool" where
  "postgres_url s = (startsWith s ''postgres://'' \<or> startsWith s ''postgresql://'')"

definition config_texts :: "config \<Rightarrow> string option list" where
  "config_texts cfg = [NODE_ENV cfg, STORAGE_ROOT cfg, SMTP_USER cfg, SMTP_HOST (cfg_mail cfg), SMTP_FROM (cfg_mail cfg),
     ZEPTOMAIL_FROM_ADDRESS (cfg_mail cfg), ZEPTOMAIL_FROM_NAME (cfg_mail cfg), REGISTRATION_DEFAULT_ROLE (cfg_env cfg),
     Some (REDIS_HOST cfg), Some (APP_NAME (cfg_mail cfg))]"

definition config_secrets :: "config \<Rightarrow> string option list" where
  "config_secrets cfg = [REDIS_PASSWORD cfg, SMTP_PASS cfg, ZEPTOMAIL_KEY (cfg_mail cfg), Some (JWT_ACCESS_SECRET (cfg_env cfg))]"

definition config_ok :: "platform \<Rightarrow> config \<Rightarrow> bool" where
  "config_ok P cfg =
     (list_all (\<lambda>(v, lo, hi). lo \<le> v \<and> v \<le> hi) (config_bounds cfg)
      \<and> isHttpUrl P (APP_URL cfg) \<and> isHttpUrl P (PASSWORD_RESET_URL cfg)
      \<and> list_all (\<lambda>origin. isOrigin P origin \<and> origin \<noteq> []) (ALLOWED_ORIGINS cfg)
      \<and> SUPPORTED_LOCALES cfg \<noteq> [] \<and> distinct (SUPPORTED_LOCALES cfg)
      \<and> list_all (\<lambda>l. \<exists>tag. canonicalLocale P tag = Some l) (SUPPORTED_LOCALES cfg)
      \<and> quantity DURATION (JWT_ACCESS_EXPIRES cfg) \<and> quantity BYTE_SIZE (FORMLIMIT cfg)
      \<and> postgres_url (DATABASE_URL cfg)
      \<and> map_option fst (pf_url P (ZEPTOMAIL_API_URL (cfg_mail cfg))) = Some ''https:''
      \<and> list_all filled_option (config_texts cfg) \<and> list_all secret_option (config_secrets cfg)
      \<and> \<not> weak_secret cfg)"

lemma blankToUndefined_SomeD: "blankToUndefined v = Some s \<Longrightarrow> v = Some s \<and> trim s \<noteq> []"
  by (auto simp: blankToUndefined_def split: option.splits if_splits)

lemma integer_field_bounds:
  "integer_field (d, lo, hi) v = Some n \<Longrightarrow> lo \<le> d \<Longrightarrow> d \<le> hi \<Longrightarrow> lo \<le> n \<and> n \<le> hi"
  by (auto simp: integer_field_def split: option.splits Option.bind_splits if_splits)

lemma int_value_bounds:
  assumes "\<forall>x\<in>set (field_checks P src). snd x" and "map_of INTEGERS k = Some (d, lo, hi)"
    and "0 \<le> lo" and "lo \<le> d" and "d \<le> hi"
  shows "nat lo \<le> int_value src k \<and> int_value src k \<le> nat hi"
proof -
  from assms(2) have "(k, d, lo, hi) \<in> set INTEGERS" by (rule map_of_SomeD)
  then have "(k, integer_field (d, lo, hi) (src k) \<noteq> None) \<in> set (field_checks P src)"
    unfolding field_checks_def set_append set_map by (intro UnI2 image_eqI) auto
  with assms(1) obtain n where n: "integer_field (d, lo, hi) (src k) = Some n" by fastforce
  from integer_field_bounds [OF n assms(4,5)] show ?thesis by (simp add: int_value_def assms(2) n nat_mono)
qed

lemma parseEnv_Inr:
  assumes "parseEnv P src = Inr cfg"
  shows "\<forall>x\<in>set (field_checks P src). snd x" "cfg = parsed_config P src" "\<not> weak_secret cfg"
  using assms by (auto simp: parseEnv_def Let_def filter_empty_conv split: if_splits)

lemma config_bounds_ok:
  assumes "\<forall>x\<in>set (field_checks P src). snd x"
  shows "list_all (\<lambda>(v, lo, hi). lo \<le> v \<and> v \<le> hi) (config_bounds (parsed_config P src))"
proof -
  note b = int_value_bounds [OF assms]
  show ?thesis
    using b [of "''PORT''"] b [of "''REDIS_PORT''"] b [of "''SMTP_PORT''"] b [of "''BCRYPT_ROUNDS''"]
      b [of "''OUTBOX_RELAY_INTERVAL_MS''"] b [of "''REFRESH_TOKEN_EXPIRES_DAYS''"] b [of "''REFRESH_GRACE_SECONDS''"]
      b [of "''EMAIL_VERIFICATION_EXPIRES_HOURS''"] b [of "''PASSWORD_RESET_EXPIRES_MINUTES''"]
      b [of "''OTP_EXPIRES_MINUTES''"] b [of "''OTP_RESEND_COOLDOWN_SECONDS''"] b [of "''OTP_MAX_ATTEMPTS''"]
      b [of "''OTP_VERIFIED_WINDOW_MINUTES''"] b [of "''OUTBOX_RELAY_BATCH''"] b [of "''OUTBOX_LEASE_SECONDS''"]
      b [of "''OUTBOX_MAX_PUBLISH_ATTEMPTS''"] b [of "''OUTBOX_RETENTION_PUBLISHED_DAYS''"]
      b [of "''OUTBOX_RETENTION_FAILED_DAYS''"] b [of "''DLQ_RETENTION_DAYS''"]
    by (simp add: config_bounds_def parsed_config_def parsed_env_def INTEGERS_def)
qed

lemma filled_trim [simp]: "trim s \<noteq> [] \<Longrightarrow> filled (trim s)"
  by (simp add: filled_def trim_idem)

lemma text_field_filled: "filled_option (the (text_field v))"
  by (auto simp: text_field_def filled_option_def split: option.splits dest: blankToUndefined_SomeD)

lemma text_or_filled: "filled fallback \<Longrightarrow> filled_option (Some (the (text_or fallback v)))"
  by (auto simp: text_or_def filled_option_def split: option.splits dest: blankToUndefined_SomeD)

lemma secret_field_blank: "secret_option (the (secret_field v))"
  by (auto simp: secret_field_def secret_option_def split: option.splits dest: blankToUndefined_SomeD)

lemma config_texts_ok: "list_all filled_option (config_texts (parsed_config P src))"
proof -
  have "filled ''127.0.0.1''" "filled ''App''" by code_simp+
  then show ?thesis
    by (simp add: config_texts_def parsed_config_def parsed_env_def parsed_mail_def text_field_filled text_or_filled)
qed

lemma comma_list_nonempty [simp]: "[] \<notin> set (comma_list s)"
  by (simp add: comma_list_def)

section \<open>Decimal numerals are read as numbers\<close>

lemma integer_field_show_nat:
  "integer_field (d, lo, hi) (Some (show_nat n)) = (if lo \<le> int n \<and> int n \<le> hi then Some (int n) else None)"
proof -
  have "trim (show_nat n) = show_nat n" using show_nat_digits by (intro trim_digits) (auto simp: list_all_iff)
  then show ?thesis by (simp add: integer_field_def blankToUndefined_def Number_show_nat decimal_int_def)
qed

text \<open>C29. Start-up yields only well-typed configurations: whatever the process environment contains,
  an accepted configuration has every number within its bounds, absolute http(s) URLs, exact
  origins, at least one supported locale, all canonical and without repetition, a token lifetime
  with a unit, a body limit that is a byte size, a PostgreSQL connection string, an https mail
  endpoint, texts trimmed and absent rather than blank, and a non-blank secret that in production is
  neither the published placeholder nor shorter than 32 characters. A number written in decimal is
  taken as that number exactly when it lies within the bounds of its field.\<close>

theorem parseEnv_typed:
  assumes "parseEnv P src = Inr cfg"
  shows "config_ok P cfg
    \<and> integer_field (d, lo, hi) (Some (show_nat n)) = (if lo \<le> int n \<and> int n \<le> hi then Some (int n) else None)"
proof -
  note ok = parseEnv_Inr [OF assms]
  obtain app reset origins locales expires zepto secret formlimit database where f:
    "http_url_field P (src ''APP_URL'') = Some app" "http_url_field P (src ''PASSWORD_RESET_URL'') = Some reset"
    "origins_field P (src ''ALLOWED_ORIGINS'') = Some origins" "locales_field P (src ''SUPPORTED_LOCALES'') = Some locales"
    "quantity_field DURATION ''15m'' (src ''JWT_ACCESS_EXPIRES'') = Some expires"
    "https_url_or P ZEPTOMAIL_DEFAULT (src ''ZEPTOMAIL_API_URL'') = Some zepto"
    "required_field (src ''JWT_ACCESS_SECRET'') = Some secret"
    "quantity_field BYTE_SIZE ''52428800'' (src ''FORMLIMIT'') = Some formlimit"
    "database_url_field (src ''DATABASE_URL'') = Some database"
    using ok(1) by (auto simp: field_checks_def)
  have m: "quantity DURATION ''15m''" "quantity BYTE_SIZE ''52428800''" by code_simp+
  have "isHttpUrl P app" "isHttpUrl P reset" using f(1,2)
    by (auto simp: http_url_field_def split: Option.bind_splits if_splits)
  moreover have "list_all (\<lambda>origin. isOrigin P origin \<and> origin \<noteq> []) origins" using f(3)
    by (auto simp: origins_field_def Let_def list_all_iff split: if_splits)
  moreover have "locales \<noteq> []" "distinct locales" "list_all (\<lambda>l. \<exists>tag. canonicalLocale P tag = Some l) locales" using f(4)
    by (force simp: locales_field_def Let_def in_order_def list_all_iff split: if_splits)+
  moreover have "quantity BYTE_SIZE formlimit" using f(8) m(2)
    by (auto simp: quantity_field_def split: option.splits if_splits)
  moreover have "postgres_url database" using f(9)
    by (auto simp: database_url_field_def postgres_url_def split: Option.bind_splits if_splits)
  moreover have "quantity DURATION expires" using f(5) m(1)
    by (auto simp: quantity_field_def split: option.splits if_splits)
  moreover have "map_option fst (pf_url P zepto) = Some ''https:''" using f(6)
    by (auto simp: https_url_or_def Let_def split: if_splits)
  moreover have "trim secret \<noteq> []" using f(7) blankToUndefined_SomeD by (simp add: required_field_def)
  ultimately have "config_ok P cfg"
    using ok(3) config_bounds_ok [OF ok(1)] config_texts_ok [of P src] unfolding ok(2)
    by (simp add: config_ok_def config_secrets_def secret_option_def [of "Some secret"] secret_field_blank f parsed_config_def
        parsed_env_def parsed_mail_def)
  then show ?thesis using integer_field_show_nat by blast
qed

definition demo_platform :: platform where
  "demo_platform = \<lparr>pf_url = (\<lambda>s. if startsWith s ''https:'' then Some (''https:'', s) else None), pf_locale = Some\<rparr>"

definition demo_environment :: environment where
  "demo_environment = map_of [(''APP_URL'', ''https://x.io''), (''PASSWORD_RESET_URL'', ''https://x.io/r''),
     (''DATABASE_URL'', ''postgres://db''), (''JWT_ACCESS_SECRET'', ''secret''), (''PORT'', '' 8080''),
     (''OTP_MAX_ATTEMPTS'', ''3e0''), (''ENABLELOG'', ''YES''), (''ALLOWED_ORIGINS'', ''https://a.io, https://b.io'')]"

theorem parseEnv_typed_witness:
  "\<exists>cfg. parseEnv demo_platform demo_environment = Inr cfg \<and> config_ok demo_platform cfg
     \<and> integer_field (3001, 1, 65535) (Some (show_nat 8080)) = Some 8080"
proof -
  have "filter (\<lambda>(k, ok). \<not> ok) (field_checks demo_platform demo_environment) = []" by code_simp
  moreover have "NODE_ENV (parsed_config demo_platform demo_environment) = None" by code_simp
  ultimately obtain cfg where c: "parseEnv demo_platform demo_environment = Inr cfg"
    by (simp add: parseEnv_def Let_def weak_secret_def)
  from parseEnv_typed [OF c, of 3001 1 65535 8080] c show ?thesis by auto
qed

text \<open>The defaults of the schema are those of \<open>default_env\<close>.\<close>

lemma parseEnv_defaults:
  assumes "src ''JWT_ACCESS_SECRET'' = Some secret" and "trim secret \<noteq> []"
    and "\<And>k. k \<noteq> ''JWT_ACCESS_SECRET'' \<Longrightarrow> k \<noteq> ''APP_URL'' \<Longrightarrow> k \<noteq> ''DATABASE_URL'' \<Longrightarrow> k \<noteq> ''PASSWORD_RESET_URL''
           \<Longrightarrow> src k = None"
    and "parseEnv P src = Inr cfg"
  shows "cfg_env cfg = default_env\<lparr>JWT_ACCESS_SECRET := secret\<rparr>"
  unfolding parseEnv_Inr(2) [OF assms(4)]
  by (simp add: parsed_config_def parsed_env_def default_env_def assms(1-3) int_value_def INTEGERS_def integer_field_def
      blankToUndefined_def required_field_def registration_field_def choice_def text_field_def)

end
