(* ===== verification/Seeders.thy ===== *)
theory Seeders
  imports Email_Template
begin

text \<open>
  Initial data (\<^verbatim>\<open>src/seeders\<close>, \<^verbatim>\<open>src/scripts/seed.ts\<close>): the super-administrator role, the first
  administrator account and the email templates, each added only where missing, and the runner
  with its exit code. Console output is left out.
\<close>

type_synonym seeder = "(database, string) service"

section \<open>Role\<close>

definition SUPER_ADMIN_SLUG :: string where "SUPER_ADMIN_SLUG = ''super-admin''"

definition findSuperAdminRole :: "database \<Rightarrow> role option" where
  "findSuperAdminRole db = role_findBySlug SUPER_ADMIN_SLUG db"

text \<open>PostgreSQL's \<^verbatim>\<open>access ? value\<close> and \<^verbatim>\<open>access || array\<close>.\<close>

definition jsonb_exists :: "json \<Rightarrow> string \<Rightarrow> bool" where
  "jsonb_exists j v = (case j of
     JArr vs \<Rightarrow> JStr v \<in> set vs | JObj fs \<Rightarrow> v \<in> fst ` set fs | JStr s \<Rightarrow> s = v | _ \<Rightarrow> False)"

definition jsonb_append :: "json \<Rightarrow> json list \<Rightarrow> json" where
  "jsonb_append j xs = (case j of JArr vs \<Rightarrow> JArr (vs @ xs) | _ \<Rightarrow> JArr (j # xs))"

definition grant_row :: "string list \<Rightarrow> time \<Rightarrow> role \<Rightarrow> role" where
  "grant_row missing now r =
     r\<lparr>role_access := jsonb_append (role_access r) (map JStr (filter (\<lambda>v. \<not> jsonb_exists (role_access r) v) missing)),
       role_updatedAt := now\<rparr>"

text \<open>\<open>W\<close> is what other transactions commit to the roles between the read and the update.\<close>

definition grantPermissions ::
  "(role list \<Rightarrow> role list) \<Rightarrow> role \<Rightarrow> string list \<Rightarrow> time \<Rightarrow> database \<Rightarrow> string list \<times> database" where
  "grantPermissions W role permissions now db =
     (let current = (case role_access role of JArr vs \<Rightarrow> vs | _ \<Rightarrow> []);
          missing = filter (\<lambda>v. JStr v \<notin> set current) permissions
      in if missing = [] then ([], db)
         else (missing, db\<lparr>roles := update_where (\<lambda>r. role_id r = role_id role) (grant_row missing now) (W (roles db))\<rparr>))"

definition role_seeder :: "(role list \<Rightarrow> role list) \<Rightarrow> time \<Rightarrow> seeder" where
  "role_seeder W now db =
     (case findSuperAdminRole db of
        None \<Rightarrow>
          (Inr (''created '' @ SUPER_ADMIN_SLUG @ '' with '' @ show_nat (length ALL_PERMISSIONS) @ '' permissions''),
           snd (role_create SUPER_ADMIN_SLUG ''Super Administrator'' ''Administrator''
                  (Some ''Full access to all modules'') (JArr (map JStr ALL_PERMISSIONS)) now db))
      | Some role \<Rightarrow>
          (let (granted, db') = grantPermissions W role ALL_PERMISSIONS now db in
           (Inr (if granted \<noteq> []
                 then ''granted '' @ show_nat (length granted) @ '' new permission(s) to '' @ SUPER_ADMIN_SLUG @ '': ''
                        @ join_with '', '' granted
                 else SUPER_ADMIN_SLUG @ '' already holds every permission; left unchanged''), db')))"

section \<open>Administrator\<close>

definition ADMIN_EMAIL :: string where "ADMIN_EMAIL = ''admin@admin.com''"
definition ADMIN_NAME :: string where "ADMIN_NAME = ''Administrator''"
definition ADMIN_PASSWORD :: string where "ADMIN_PASSWORD = ''password''"

definition admin_user_seeder :: "crypto \<Rightarrow> time \<Rightarrow> seeder" where
  "admin_user_seeder C now db =
     (if user_findByEmail ADMIN_EMAIL db \<noteq> None then (Inr (ADMIN_EMAIL @ '' already exists; left unchanged''), db)
      else (case findSuperAdminRole db of
              None \<Rightarrow> (Inl (ThrownError (''Role '' @ [CHR 0x22] @ SUPER_ADMIN_SLUG @ [CHR 0x22] @ '' not found; run the ''
                        @ [CHR 0x22] @ ''role'' @ [CHR 0x22] @ '' seeder first'')), db)
            | Some role \<Rightarrow>
                (case makeUniqueSlug ADMIN_NAME (user_slug_taken db None) of
                   None \<Rightarrow> (Inl NoReturn, db)
                 | Some slug \<Rightarrow>
                     (case createUser \<lparr>cu_name = ADMIN_NAME, cu_slug = slug, cu_email = ADMIN_EMAIL,
                             cu_password = bcrypt_hash C ADMIN_PASSWORD, cu_roleId = Some (role_id role),
                             cu_isEmailVerified = True\<rparr> now db of
                        Inl e \<Rightarrow> (Inl e, db)
                      | Inr (_, db') \<Rightarrow>
                          (Inr (''created '' @ ADMIN_EMAIL @ '' (password: '' @ ADMIN_PASSWORD
                                  @ ''); change it after the first login''), db')))))"

section \<open>Templates\<close>

text \<open>One entry of \<^verbatim>\<open>createMany\<close> with \<^verbatim>\<open>skipDuplicates\<close>: a conflicting row is not inserted, but its id
  is drawn from the sequence.\<close>

definition template_insert :: "time \<Rightarrow> string \<times> template_definition \<Rightarrow> database \<Rightarrow> database" where
  "template_insert now entry db =
     (let (key, d) = entry;
          row = \<lparr>et_id = email_templates_seq db, et_key = key, et_title = td_title d,
                 et_subject = tt_subject (td_text d), et_body = tt_body (td_text d), et_isActive = True, et_updatedAt = now\<rparr>
      in db\<lparr>email_templates_seq := email_templates_seq db + 1,
            email_templates := (if et_findByKey key db = None then email_templates db @ [row] else email_templates db)\<rparr>)"

definition template_createMany :: "time \<Rightarrow> (string \<times> template_definition) list \<Rightarrow> database \<Rightarrow> nat \<times> database" where
  "template_createMany now entries db =
     (let db' = fold (template_insert now) entries db
      in (length (email_templates db') - length (email_templates db), db'))"

definition email_template_seeder :: "time \<Rightarrow> seeder" where
  "email_template_seeder now db =
     (let (count, db') = template_createMany now EMAIL_TEMPLATE_CATALOG db;
          kept = length EMAIL_TEMPLATE_CATALOG - count
      in (Inr (''created '' @ show_nat count @ '' template(s)''
               @ (if kept \<noteq> 0 then ''; '' @ show_nat kept @ '' already present, left unchanged'' else [])), db'))"

section \<open>The runner\<close>

definition SEEDERS :: "crypto \<Rightarrow> (role list \<Rightarrow> role list) \<Rightarrow> time \<Rightarrow> (string \<times> seeder) list" where
  "SEEDERS C W now = [(''role'', role_seeder W now), (''admin-user'', admin_user_seeder C now),
     (''email-template'', email_template_seeder now)]"

fun run_seeders :: "(string \<times> seeder) list \<Rightarrow> database \<Rightarrow> nat \<times> database" where
  "run_seeders [] db = (0, db)"
| "run_seeders ((name, seed) # rest) db =
     (case seed db of (Inl e, db') \<Rightarrow> (1, db') | (Inr message, db') \<Rightarrow> run_seeders rest db')"

definition seed_run :: "crypto \<Rightarrow> (role list \<Rightarrow> role list) \<Rightarrow> time \<Rightarrow> string list \<Rightarrow> database \<Rightarrow> nat \<times> database" where
  "seed_run C W now argv db =
     (let seeders = SEEDERS C W now in
      if ''--help'' \<in> set argv \<or> ''-h'' \<in> set argv then (0, db)
      else if filter (\<lambda>name. name \<notin> set (map fst seeders)) argv \<noteq> [] then (1, db)
      else run_seeders (if argv \<noteq> [] then filter (\<lambda>s. fst s \<in> set argv) seeders else seeders) db)"

section \<open>Seeding completes the data and leaves it alone afterwards\<close>

text \<open>The super-administrator role holds every permission.\<close>

definition super_admin_complete :: "database \<Rightarrow> bool" where
  "super_admin_complete db = (\<exists>r vs. findSuperAdminRole db = Some r \<and> role_access r = JArr vs
     \<and> JStr ` set ALL_PERMISSIONS \<subseteq> set vs)"

definition access_arrays :: "database \<Rightarrow> bool" where
  "access_arrays db = (\<forall>r \<in> set (roles db). \<exists>vs. role_access r = JArr vs)"

lemma grant_row_simps [simp]:
  "role_id (grant_row m now r) = role_id r" "role_slug (grant_row m now r) = role_slug r"
  "role_active (grant_row m now r) = role_active r"
  by (simp_all add: grant_row_def role_active_def)

lemma grantPermissions_complete:
  assumes "super_admin_complete db" and "findSuperAdminRole db = Some role"
  shows "grantPermissions W role ALL_PERMISSIONS now db = ([], db)"
  using assms by (auto simp: super_admin_complete_def grantPermissions_def Let_def filter_empty_conv)

lemma role_seeder_again:
  assumes "super_admin_complete db"
  shows "\<exists>m. role_seeder W now db = (Inr m, db)"
  using assms grantPermissions_complete [OF assms] by (auto simp: role_seeder_def super_admin_complete_def)

lemma jsonb_append_complete:
  assumes "role_access r = JArr vs" and "p \<in> set missing \<or> JStr p \<in> set vs"
  shows "\<exists>ws. role_access (grant_row missing now r) = JArr ws \<and> JStr p \<in> set ws \<and> set vs \<subseteq> set ws"
  using assms by (auto simp: grant_row_def jsonb_append_def jsonb_exists_def)

lemma role_seeder_creates:
  assumes "roles_ok db" and "users_ok db" and "findSuperAdminRole db = None"
  shows "\<exists>m db'. role_seeder W now db = (Inr m, db') \<and> super_admin_complete db' \<and> roles_ok db' \<and> users_ok db'
    \<and> users db' = users db \<and> email_templates db' = email_templates db"
proof -
  let ?c = "role_create SUPER_ADMIN_SLUG ''Super Administrator'' ''Administrator''
    (Some ''Full access to all modules'') (JArr (map JStr ALL_PERMISSIONS)) now db"
  obtain r where c: "?c = (r, db\<lparr>roles := roles db @ [r], roles_seq := roles_seq db + 1\<rparr>)"
      "role_id r = roles_seq db" "role_slug r = SUPER_ADMIN_SLUG" "role_active r"
      "role_access r = JArr (map JStr ALL_PERMISSIONS)"
    by (simp add: role_create_def Let_def role_active_def)
  let ?db' = "db\<lparr>roles := roles db @ [r], roles_seq := roles_seq db + 1\<rparr>"
  have free: "role_slug q \<noteq> role_slug r" if "q \<in> set (roles db)" "role_active q" for q
    using that assms(3) by (auto simp: findSuperAdminRole_def role_findBySlug_def find_first_None_iff c(3))
  have "findSuperAdminRole ?db' = Some r"
    using assms(3) by (simp add: findSuperAdminRole_def role_findBySlug_def find_first_append c(3,4))
  then have "super_admin_complete ?db'" by (simp add: super_admin_complete_def c(5))
  moreover have "roles_ok ?db'" by (rule roles_ok_append [OF assms(1) c(2) free]) simp_all
  moreover have "users_ok ?db'" using assms(2) by (auto simp: users_ok_def)
  moreover have "\<exists>m. role_seeder W now db = (Inr m, ?db')" by (simp add: role_seeder_def assms(3) c(1))
  ultimately show ?thesis by fastforce
qed

lemma role_seeder_grants:
  assumes "roles_ok db" and "users_ok db" and "access_arrays db" and "findSuperAdminRole db = Some role"
  shows "\<exists>m db'. role_seeder id now db = (Inr m, db') \<and> super_admin_complete db' \<and> roles_ok db' \<and> users_ok db'
    \<and> users db' = users db \<and> email_templates db' = email_templates db"
proof -
  obtain g db' where g: "grantPermissions id role ALL_PERMISSIONS now db = (g, db')" by fastforce
  then obtain m where s: "role_seeder id now db = (Inr m, db')" by (simp add: role_seeder_def assms(4))
  have r: "role \<in> set (roles db)" "role_slug role = SUPER_ADMIN_SLUG" "role_active role"
    using role_findBySlug_SomeD assms(4) unfolding findSuperAdminRole_def by blast+
  obtain vs where vs: "role_access role = JArr vs" using assms(3) r(1) by (auto simp: access_arrays_def)
  let ?m = "filter (\<lambda>v. JStr v \<notin> set vs) ALL_PERMISSIONS"
  have "super_admin_complete db' \<and> roles_ok db' \<and> users_ok db' \<and> users db' = users db \<and> email_templates db' = email_templates db"
  proof (cases "?m = []")
    case True
    then have "db' = db" using g by (simp add: grantPermissions_def vs)
    moreover from True have "JStr ` set ALL_PERMISSIONS \<subseteq> set vs" by (auto simp: filter_empty_conv)
    ultimately show ?thesis using assms vs by (auto simp: super_admin_complete_def)
  next
    case False
    let ?f = "grant_row ?m now"
    have db': "db' = db\<lparr>roles := update_where (\<lambda>r. role_id r = role_id role) ?f (roles db)\<rparr>"
      using g False by (auto simp: grantPermissions_def vs Let_def)
    then have "findSuperAdminRole db' = Some (?f role)"
      using assms(4) by (simp add: findSuperAdminRole_def role_findBySlug_def find_first_update_where)
    moreover have "\<exists>ws. role_access (?f role) = JArr ws \<and> JStr ` set ALL_PERMISSIONS \<subseteq> set ws"
      using vs by (auto simp: grant_row_def jsonb_append_def jsonb_exists_def)
    ultimately have "super_admin_complete db'" by (auto simp: super_admin_complete_def)
    moreover have "roles_ok db'"
    proof (rule roles_ok_update [OF assms(1), where i = "role_id role"])
      fix a b assume h: "a \<in> set (roles db)" "b \<in> set (roles db)" "role_id a = role_id role" "role_id b \<noteq> role_id role"
        "role_active (?f a)" "role_active b"
      then show "role_slug (?f a) \<noteq> role_slug b"
        using slug_unique_rolesD [of "roles db" a b] assms(1) by (auto simp: roles_ok_def)
    qed (simp_all add: db')
    moreover have "role_id ` set (roles db') = role_id ` set (roles db)"
      unfolding set_map [symmetric] by (simp add: db' map_update_where del: set_map)
    then have "users_ok db'" using assms(2) by (simp add: users_ok_def db')
    ultimately show ?thesis by (simp add: db')
  qed
  with s show ?thesis by blast
qed

lemma admin_user_seeder_step:
  assumes "users_ok db" and "super_admin_complete db"
  shows "\<exists>m db'. admin_user_seeder C now db = (Inr m, db') \<and> users_ok db' \<and> user_findByEmail ADMIN_EMAIL db' \<noteq> None
    \<and> (\<exists>new. users db' = users db @ new) \<and> roles db' = roles db \<and> roles_seq db' = roles_seq db
    \<and> email_templates db' = email_templates db"
proof (cases "user_findByEmail ADMIN_EMAIL db")
  case (Some u)
  then show ?thesis using assms(1) by (simp add: admin_user_seeder_def)
next
  case None
  obtain role where role: "findSuperAdminRole db = Some role" using assms(2) by (auto simp: super_admin_complete_def)
  then have rin: "role_id role \<in> role_id ` set (roles db)"
    using role_findBySlug_SomeD unfolding findSuperAdminRole_def by blast
  obtain slug where slug: "makeUniqueSlug ADMIN_NAME (user_slug_taken db None) = Some slug"
    using user_slugs.unique_slug_returns by blast
  let ?d = "\<lparr>cu_name = ADMIN_NAME, cu_slug = slug, cu_email = ADMIN_EMAIL, cu_password = bcrypt_hash C ADMIN_PASSWORD,
    cu_roleId = Some (role_id role), cu_isEmailVerified = True\<rparr>"
  obtain u db' where c: "createUser ?d now db = Inr (u, db')" using rin by (auto simp: createUser_def Let_def)
  note u = createUser_Inr [OF c]
  have "users_ok db'"
  proof (rule users_ok_append [OF assms(1), of u])
    show "user_slug q \<noteq> user_slug u" if "q \<in> set (users db)" "active q" for q
      using user_slug_fresh_row [OF slug that(1)] that(2) u by (simp add: user_counts_def)
  qed (use u rin in auto)
  moreover have "user_findByEmail ADMIN_EMAIL db' = Some u"
    using None u by (simp add: user_findByEmail_def find_first_append)
  moreover have "\<exists>m. admin_user_seeder C now db = (Inr m, db')"
    by (simp add: admin_user_seeder_def None role slug c)
  ultimately show ?thesis using u by auto
qed

lemma template_insert_rows:
  "email_templates (template_insert now (key, d) db) = email_templates db
     @ (if et_findByKey key db = None
        then [\<lparr>et_id = email_templates_seq db, et_key = key, et_title = td_title d, et_subject = tt_subject (td_text d),
               et_body = tt_body (td_text d), et_isActive = True, et_updatedAt = now\<rparr>] else [])"
  by (simp add: template_insert_def)

lemma template_insert_frame [simp]:
  "roles (template_insert now e db) = roles db" "users (template_insert now e db) = users db"
  "roles_seq (template_insert now e db) = roles_seq db" "users_seq (template_insert now e db) = users_seq db"
  by (simp_all add: template_insert_def split: prod.splits)

lemma templates_fold_frame [simp]:
  "roles (fold (template_insert now) es db) = roles db \<and> users (fold (template_insert now) es db) = users db
   \<and> roles_seq (fold (template_insert now) es db) = roles_seq db \<and> users_seq (fold (template_insert now) es db) = users_seq db"
  by (induction es arbitrary: db) auto

lemma template_insert_ok:
  assumes "templates_ok db" and "map_of EMAIL_TEMPLATE_CATALOG key = Some d"
  shows "templates_ok (template_insert now (key, d) db)"
proof (cases "et_findByKey key db")
  case None
  then have "key \<notin> et_key ` set (email_templates db)" by (auto simp: et_findByKey_def find_first_None_iff)
  moreover have "problems_of d \<lparr>tt_subject = tt_subject (td_text d), tt_body = tt_body (td_text d)\<rparr> = []"
    using catalog_ok [OF assms(2)] by (cases "td_text d") simp
  ultimately show ?thesis using assms None
    by (simp add: templates_ok_def template_insert_rows et_text_def templateProblems_def)
next
  case (Some t)
  then show ?thesis using assms(1) by (simp add: templates_ok_def template_insert_rows)
qed

lemma templates_fold_ok:
  assumes "templates_ok db" and "\<And>k d. (k, d) \<in> set es \<Longrightarrow> map_of EMAIL_TEMPLATE_CATALOG k = Some d"
  shows "templates_ok (fold (template_insert now) es db)"
  using assms by (induction es arbitrary: db) (auto intro: template_insert_ok)

lemma templates_fold_keys:
  "et_key ` set (email_templates (fold (template_insert now) es db)) = fst ` set es \<union> et_key ` set (email_templates db)"
proof (induction es arbitrary: db)
  case (Cons e es)
  have "et_key ` set (email_templates (template_insert now e db)) = insert (fst e) (et_key ` set (email_templates db))"
  proof (cases "et_findByKey (fst e) db")
    case None
    then show ?thesis by (cases e) (simp add: template_insert_rows)
  next
    case (Some t)
    then have "fst e \<in> et_key ` set (email_templates db)"
      using find_first_SomeD [OF Some [unfolded et_findByKey_def]] by force
    with Some show ?thesis by (cases e) (auto simp: template_insert_rows)
  qed
  with Cons show ?case by simp
qed simp

lemma templates_fold_kept:
  assumes "fst ` set es \<subseteq> et_key ` set (email_templates db)"
  shows "email_templates (fold (template_insert now) es db) = email_templates db"
  using assms
proof (induction es arbitrary: db)
  case (Cons e es)
  then have "et_findByKey (fst e) db \<noteq> None" by (auto simp: et_findByKey_def find_first_None_iff)
  then have "email_templates (template_insert now e db) = email_templates db"
    by (cases e) (simp add: template_insert_rows del: not_None_eq)
  with Cons show ?case by simp
qed simp

lemma catalog_entries: "(k, d) \<in> set EMAIL_TEMPLATE_CATALOG \<Longrightarrow> map_of EMAIL_TEMPLATE_CATALOG k = Some d"
proof (rule map_of_is_SomeI)
  show "distinct (map fst EMAIL_TEMPLATE_CATALOG)"
    by (simp add: EMAIL_TEMPLATE_CATALOG_def KEY_VERIFY_EMAIL_def KEY_EMAIL_VERIFIED_def KEY_RESET_PASSWORD_def
        KEY_REGISTRATION_CODE_def)
qed

lemma email_template_seeder_step:
  "\<exists>m. email_template_seeder now db = (Inr m, fold (template_insert now) EMAIL_TEMPLATE_CATALOG db)"
  by (simp add: email_template_seeder_def template_createMany_def Let_def)

text \<open>C30. Seeding completes the initial data and can be repeated: on well-formed tables a full run
  succeeds, afterwards the super-administrator role holds every permission, the administrator
  account exists and every template of the catalogue is stored and sendable, existing users and
  templates are unchanged, and a second run changes no row.\<close>

theorem seeding_idempotent:
  assumes "roles_ok db" and "users_ok db" and "access_arrays db" and "templates_ok db"
    and "seed_run C id now [] db = (result, db')" and "seed_run C id later [] db' = (result', db'')"
  shows "result = 0 \<and> super_admin_complete db' \<and> user_findByEmail ADMIN_EMAIL db' \<noteq> None
    \<and> fst ` set EMAIL_TEMPLATE_CATALOG \<subseteq> et_key ` set (email_templates db')
    \<and> roles_ok db' \<and> users_ok db' \<and> templates_ok db' \<and> (\<exists>new. users db' = users db @ new)
    \<and> result' = 0 \<and> roles db'' = roles db' \<and> users db'' = users db' \<and> email_templates db'' = email_templates db'"
proof -
  obtain m1 db1 where s1: "role_seeder id now db = (Inr m1, db1)" "super_admin_complete db1" "roles_ok db1" "users_ok db1"
      "users db1 = users db" "email_templates db1 = email_templates db"
    using role_seeder_creates [OF assms(1,2)] role_seeder_grants [OF assms(1-3)]
    by (cases "findSuperAdminRole db") metis+
  obtain m2 db2 new where s2: "admin_user_seeder C now db1 = (Inr m2, db2)" "users_ok db2"
      "user_findByEmail ADMIN_EMAIL db2 \<noteq> None" "users db2 = users db1 @ new" "roles db2 = roles db1"
      "roles_seq db2 = roles_seq db1" "email_templates db2 = email_templates db1"
    using admin_user_seeder_step [OF s1(4,2), of C now] by metis
  let ?db3 = "fold (template_insert now) EMAIL_TEMPLATE_CATALOG db2"
  obtain m3 where s3: "email_template_seeder now db2 = (Inr m3, ?db3)" using email_template_seeder_step by blast
  have run: "result = 0" "db' = ?db3" using assms(5) by (simp_all add: seed_run_def SEEDERS_def s1(1) s2(1) s3)
  have rows: "roles db' = roles db1" "users db' = users db2" "roles_seq db' = roles_seq db1" "users_seq db' = users_seq db2"
    by (simp_all add: run(2) s2)
  have keys: "fst ` set EMAIL_TEMPLATE_CATALOG \<subseteq> et_key ` set (email_templates db')"
    unfolding run(2) templates_fold_keys by blast
  have sa: "super_admin_complete db'" and ro: "roles_ok db'" using s1(2,3)
    by (simp_all add: super_admin_complete_def findSuperAdminRole_def role_findBySlug_def roles_ok_def rows)
  have uo: "users_ok db'" using s2(2) by (simp add: users_ok_def rows s2(5))
  have em: "user_findByEmail ADMIN_EMAIL db' \<noteq> None" using s2(3) by (simp add: user_findByEmail_def rows)
  have "templates_ok db2" using assms(4) by (simp add: templates_ok_def s2(7) s1(6))
  then have tp: "templates_ok db'" unfolding run(2) by (rule templates_fold_ok) (rule catalog_entries)
  obtain m4 where s4: "role_seeder id later db' = (Inr m4, db')" using role_seeder_again [OF sa] by blast
  obtain m5 where s5: "admin_user_seeder C later db' = (Inr m5, db')" using em by (simp add: admin_user_seeder_def)
  obtain m6 where s6: "email_template_seeder later db' = (Inr m6, fold (template_insert later) EMAIL_TEMPLATE_CATALOG db')"
    using email_template_seeder_step by blast
  have "result' = 0" "db'' = fold (template_insert later) EMAIL_TEMPLATE_CATALOG db'"
    using assms(6) by (simp_all add: seed_run_def SEEDERS_def s4 s5 s6)
  then show ?thesis using run(1) sa em keys ro uo tp templates_fold_kept [OF keys, of later] s1(5) s2(4) rows(2) by simp
qed

theorem seeding_idempotent_witness:
  "\<exists>db' db''. seed_run demo_crypto id 5 [] demo_rbac_db = (0, db') \<and> super_admin_complete db'
     \<and> seed_run demo_crypto id 9 [] db' = (0, db'') \<and> users db'' = users db'"
proof -
  obtain c db' where r: "seed_run demo_crypto id 5 [] demo_rbac_db = (c, db')" by fastforce
  obtain c' db'' where r': "seed_run demo_crypto id 9 [] db' = (c', db'')" by fastforce
  have "users_ok demo_rbac_db"
    by (simp add: users_ok_def slug_unique_users_def demo_rbac_db_def demo_admin_role_def)
  moreover have "access_arrays demo_rbac_db" by (simp add: access_arrays_def demo_rbac_db_def demo_admin_role_def)
  moreover have "templates_ok demo_rbac_db" by (simp add: templates_ok_def demo_rbac_db_def empty_db_def)
  ultimately show ?thesis
    using seeding_idempotent [OF demo_roles_ok [unfolded demo_app_def, simplified] _ _ _ r r'] r r' by auto
qed

end
