(* ===== verification/Profile.thy ===== *)
theory Profile
  imports User_Service Url
begin

text \<open>
  The user's own profile (\<^verbatim>\<open>src/modules/profile\<close>): validation and response shape of the extended
  fields (\<^verbatim>\<open>profile.fields.ts\<close>), data access (\<^verbatim>\<open>profile.repository.ts\<close>) and the service
  (\<^verbatim>\<open>profile.service.ts\<close>), with the admin detail view of a user that shares the response shape.
  A field is \<open>None\<close> when absent, \<open>Some None\<close> when it is to be cleared. ISO dates, canonical
  language tags and the reading of a date are parameters (zod, Intl and Date).
\<close>

section \<open>Fields\<close>

definition PROFILE_FIELDS :: "string list" where
  "PROFILE_FIELDS = [''phone'', ''birthDate'', ''gender'', ''locale'']"

definition GENDERS :: "string list" where
  "GENDERS = [''male'', ''female'', ''other'', ''undisclosed'']"

text \<open>\<^verbatim>\<open>/^\+[1-9]\d{6,14}$/\<close>.\<close>

definition E164 :: "string \<Rightarrow> bool" where
  "E164 s = (case s of
     p # d # ds \<Rightarrow> p = CHR ''+'' \<and> is_digit d \<and> d \<noteq> CHR ''0'' \<and> list_all is_digit ds
                 \<and> 6 \<le> length ds \<and> length ds \<le> 14
   | _ \<Rightarrow> False)"

text \<open>A field is checked by a schema on strings, which gives the messages of its problems or the parsed
  value; \<open>clearable\<close> is in \<^verbatim>\<open>Schemas\<close>, where the request bodies are.\<close>

definition phone_separator :: "char \<Rightarrow> bool" where
  "phone_separator c = (is_space c \<or> c \<in> set ''().-'')"

definition phone_schema :: "string \<Rightarrow> string list + string" where
  "phone_schema v = (let t = keep_only (\<lambda>c. \<not> phone_separator c) v in
     if E164 t then Inr t else Inl [''Phone must be in international format, e.g. +628123456789''])"

text \<open>Strings compare by code unit.\<close>

fun string_le :: "string \<Rightarrow> string \<Rightarrow> bool" where
  "string_le [] t = True"
| "string_le (c # s) [] = False"
| "string_le (c # s) (d # t) = (char_code c < char_code d \<or> (c = d \<and> string_le s t))"

text \<open>The three checks of a birth date all run, so one value can have several problems.\<close>

definition birthDate_schema :: "(string \<Rightarrow> bool) \<Rightarrow> string \<Rightarrow> string \<Rightarrow> string list + string" where
  "birthDate_schema isoDate today v =
     (let problems = (if isoDate v then [] else [''Birth date must be a date in YYYY-MM-DD format''])
            @ (if string_le v today then [] else [''Birth date cannot be in the future''])
            @ (if string_le ''1900-01-01'' v then [] else [''Birth date must be 1900-01-01 or later''])
      in if problems = [] then Inr v else Inl problems)"

definition gender_schema :: "string \<Rightarrow> string list + string" where
  "gender_schema v = (if v \<in> set GENDERS then Inr v
     else Inl [''Gender must be one of: '' @ join_with '', '' GENDERS])"

definition locale_schema :: "(string \<Rightarrow> string option) \<Rightarrow> string list \<Rightarrow> string \<Rightarrow> string list + string" where
  "locale_schema canonicalLocale supported v =
     (case canonicalLocale v of
        None \<Rightarrow> Inl [''Locale must be one of: '' @ join_with '', '' supported]
      | Some tag \<Rightarrow> if tag \<noteq> [] \<and> tag \<in> set supported then Inr tag
                    else Inl [''Locale must be one of: '' @ join_with '', '' supported])"

text \<open>Phone numbers are stored without separators, so validating again changes nothing.\<close>

lemma E164_plain:
  assumes "E164 t" and "c \<in> set t"
  shows "\<not> phone_separator c"
proof -
  have "\<not> phone_separator c" if "is_digit c \<or> c = CHR ''+''"
    using that by (auto simp: phone_separator_def is_digit_def is_space_def char_code_def)
  moreover have "is_digit c \<or> c = CHR ''+''"
    using assms by (auto simp: E164_def list_all_iff split: list.splits)
  ultimately show ?thesis by blast
qed

lemma phone_schema_idem: "phone_schema v = Inr t \<Longrightarrow> phone_schema t = Inr t"
proof -
  assume a: "phone_schema v = Inr t"
  then have e: "E164 t" by (auto simp: phone_schema_def Let_def split: if_splits)
  then have "filter (\<lambda>c. \<not> phone_separator c) t = t" using E164_plain by (auto simp: filter_id_conv)
  with e show ?thesis by (simp add: phone_schema_def keep_only_def)
qed

section \<open>Response shape\<close>

definition iso_day :: "time \<Rightarrow> string" where
  "iso_day t = take 10 (toISOString t)"

definition toProfileResponse :: "user_profile option \<Rightarrow> json" where
  "toProfileResponse row = (case row of
     None \<Rightarrow> JNull
   | Some r \<Rightarrow> JObj [(''phone'', json_opt (prof_phone r)),
                 (''birthDate'', json_opt (map_option iso_day (prof_birthDate r))),
                 (''gender'', json_opt (prof_gender r)), (''locale'', json_opt (prof_locale r))])"

section \<open>Data access\<close>

definition find_profile :: "nat \<Rightarrow> database \<Rightarrow> user_profile option" where
  "find_profile userId db = find_first (\<lambda>p. prof_userId p = userId) (user_profiles db)"

definition profile_user :: "nat \<Rightarrow> database \<Rightarrow> user option" where
  "profile_user userId db = find_first (\<lambda>u. user_id u = userId \<and> active u) (users db)"

text \<open>\<open>profileRepository.getProfile\<close> followed by the response shape of the details.\<close>

definition profile_json :: "database \<Rightarrow> user \<Rightarrow> (string \<times> json) list" where
  "profile_json db u =
     [(''id'', JNum (int (user_id u))), (''slug'', json_opt (user_slug u)), (''name'', json_opt (user_name u)),
      (''email'', json_opt (user_email u)), (''avatar'', json_opt (user_avatar u)),
      (''isEmailVerified'', JBool (user_isEmailVerified u)), (''roleId'', json_nat_opt (user_roleId u)),
      (''createdAt'', JStr (toISOString (user_createdAt u))),
      (''role'', case Option.bind (user_roleId u) (\<lambda>i. role_findById i db) of
          None \<Rightarrow> JNull | Some r \<Rightarrow> JObj [(''title'', JStr (role_title r)), (''access'', role_access r)]),
      (''profile'', toProfileResponse (find_profile (user_id u) db))]"

definition getPublicUrl :: "string \<Rightarrow> string \<Rightarrow> string \<Rightarrow> string" where
  "getPublicUrl APP_URL folder filename =
     appUrl (''/storage/'' @ strip_char (CHR ''/'') folder @ ''/'' @ filename) [] APP_URL"

definition with_avatar_url :: "string \<Rightarrow> string \<Rightarrow> string option \<Rightarrow> (string \<times> json) list \<Rightarrow> json" where
  "with_avatar_url APP_URL folder avatar fs = JObj (fs @
     (case truthy_str avatar of None \<Rightarrow> [] | Some f \<Rightarrow> [(''avatarUrl'', JStr (getPublicUrl APP_URL folder f))]))"

definition stored_profile :: "string \<Rightarrow> nat \<Rightarrow> database \<Rightarrow> json option" where
  "stored_profile APP_URL userId db = map_option
     (\<lambda>u. with_avatar_url APP_URL ''uploads/avatars'' (user_avatar u) (profile_json db u)) (profile_user userId db)"

definition profile_not_found :: error where
  "profile_not_found = AppError ''Profile not found'' 404"

definition PROFILE_TTL :: nat where "PROFILE_TTL = 900"

definition getProfile :: "string \<Rightarrow> nat \<Rightarrow> time \<Rightarrow> database \<Rightarrow> (redis, json) service" where
  "getProfile APP_URL userId now db s =
     (case cache_get (profileKey userId) now s of
        Inl e \<Rightarrow> (Inl e, s)
      | Inr (cached, _) \<Rightarrow>
          (case cached of
             Some j \<Rightarrow> (Inr j, s)
           | None \<Rightarrow>
               (case stored_profile APP_URL userId db of
                  None \<Rightarrow> (Inl profile_not_found, s)
                | Some j \<Rightarrow>
                    (case cache_set (profileKey userId) j PROFILE_TTL now s of
                       Inl e \<Rightarrow> (Inl e, s) | Inr (_, s') \<Rightarrow> (Inr j, s')))))"

record profile_input =
  pi_name :: "string option"
  pi_email :: "string option"
  pi_avatar :: "string option"
  pi_password :: "string option"
  pi_phone :: "string option option"
  pi_birthDate :: "string option option"
  pi_gender :: "string option option"
  pi_locale :: "string option option"

definition sent_fields :: "profile_input \<Rightarrow> string list" where
  "sent_fields d = filter (\<lambda>f.
     (f = ''phone'' \<and> pi_phone d \<noteq> None) \<or> (f = ''birthDate'' \<and> pi_birthDate d \<noteq> None)
     \<or> (f = ''gender'' \<and> pi_gender d \<noteq> None) \<or> (f = ''locale'' \<and> pi_locale d \<noteq> None)) PROFILE_FIELDS"

text \<open>\<open>midnight\<close> reads \<^verbatim>\<open>YYYY-MM-DDT00:00:00Z\<close>.\<close>

definition apply_details :: "(string \<Rightarrow> time) \<Rightarrow> profile_input \<Rightarrow> user_profile \<Rightarrow> user_profile" where
  "apply_details midnight d p = p\<lparr>prof_phone := or_else (pi_phone d) (prof_phone p),
     prof_birthDate := or_else (map_option (map_option midnight) (pi_birthDate d)) (prof_birthDate p),
     prof_gender := or_else (pi_gender d) (prof_gender p),
     prof_locale := or_else (pi_locale d) (prof_locale p)\<rparr>"

definition no_details :: "nat \<Rightarrow> user_profile" where
  "no_details userId = \<lparr>prof_userId = userId, prof_phone = None, prof_birthDate = None,
     prof_gender = None, prof_locale = None\<rparr>"

definition upsertDetails :: "(string \<Rightarrow> time) \<Rightarrow> nat \<Rightarrow> profile_input \<Rightarrow> database \<Rightarrow> database" where
  "upsertDetails midnight userId d db =
     (case find_profile userId db of
        None \<Rightarrow> db\<lparr>user_profiles := user_profiles db @ [apply_details midnight d (no_details userId)]\<rparr>
      | Some _ \<Rightarrow> db\<lparr>user_profiles := update_where (\<lambda>p. prof_userId p = userId)
                       (apply_details midnight d) (user_profiles db)\<rparr>)"

section \<open>Update\<close>

definition profile_snapshot :: "user \<Rightarrow> (string \<times> json) list" where
  "profile_snapshot u = [(''name'', json_opt (user_name u)), (''email'', json_opt (user_email u)),
     (''avatar'', json_opt (user_avatar u))]"

definition profile_patch :: "crypto \<Rightarrow> profile_input \<Rightarrow> string option \<Rightarrow> user_patch" where
  "profile_patch C d newSlug = \<lparr>up_name = truthy_str (pi_name d), up_slug = newSlug,
     up_email = truthy_str (pi_email d), up_roleId = None, up_avatar = truthy_str (pi_avatar d),
     up_password = map_option (bcrypt_hash C) (truthy_str (pi_password d)), up_isEmailVerified = None\<rparr>"

definition revoke_on_password :: "crypto \<Rightarrow> interference \<Rightarrow> nat \<Rightarrow> profile_input \<Rightarrow> (database, unit) tx" where
  "revoke_on_password C I userId d db =
     (case truthy_str (pi_password d) of
        None \<Rightarrow> Inr ((), db)
      | Some p \<Rightarrow>
          if bcrypt_hash C p = [] then Inr ((), db)
          else (case deleteRefreshTokensByUserId I userId db of
                  Inl e \<Rightarrow> Inl e | Inr (_, db') \<Rightarrow> Inr ((), db')))"

definition updateProfile_tx ::
  "crypto \<Rightarrow> interference \<Rightarrow> (string \<Rightarrow> time) \<Rightarrow> user \<Rightarrow> profile_input \<Rightarrow> time \<Rightarrow> (database, user) tx" where
  "updateProfile_tx C I midnight user d now db =
     (case user_new_slug user (pi_name d) db of
        Inl e \<Rightarrow> Inl e
      | Inr newSlug \<Rightarrow>
          (case user_update (user_id user) (profile_patch C d newSlug) now db of
             Inl e \<Rightarrow> Inl e
           | Inr (u, db1) \<Rightarrow>
               (let fields = sent_fields d;
                    db2 = (if fields \<noteq> [] then upsertDetails midnight (user_id user) d db1 else db1)
                in case revoke_on_password C I (user_id user) d db2 of
                     Inl e \<Rightarrow> Inl e
                   | Inr (_, db3) \<Rightarrow>
                       Inr (u, logActivity (Some (user_id user)) ''UPDATE'' ''Profile'' (Some (user_id user))
                          (Some ''User updated their profile'') (JObj (profile_snapshot user))
                          (JObj (profile_snapshot u
                             @ (if fields \<noteq> [] then [(''profileFields'', JArr (map JStr fields))] else [])))
                          now db3))))"

text \<open>After commit the cached profile is dropped, read again and stored.\<close>

definition refresh_profile :: "string \<Rightarrow> nat \<Rightarrow> nat \<Rightarrow> time \<Rightarrow> (app, json) service" where
  "refresh_profile APP_URL userId updatedId now a =
     (case cache_del [profileKey userId] (app_redis a) of
        Inl e \<Rightarrow> (Inl e, a)
      | Inr (_, s1) \<Rightarrow>
          (case getProfile APP_URL updatedId now (app_db a) s1 of
             (Inl e, s2) \<Rightarrow> (Inl e, a\<lparr>app_redis := s2\<rparr>)
           | (Inr j, s2) \<Rightarrow>
               (case cache_set (profileKey userId) j PROFILE_TTL now s2 of
                  Inl e \<Rightarrow> (Inl e, a\<lparr>app_redis := s2\<rparr>)
                | Inr (_, s3) \<Rightarrow> (Inr j, a\<lparr>app_redis := s3\<rparr>))))"

definition updateProfile ::
  "crypto \<Rightarrow> interference \<Rightarrow> (string \<Rightarrow> time) \<Rightarrow> string \<Rightarrow> nat \<Rightarrow> profile_input \<Rightarrow> time \<Rightarrow> (app, json) service" where
  "updateProfile C I midnight APP_URL userId d now a =
     (case profile_user userId (app_db a) of
        None \<Rightarrow> (Inl profile_not_found, a)
      | Some user \<Rightarrow>
          (case in_db (transaction (updateProfile_tx C I midnight user d now)) (drop_avatar (pi_avatar d) user a) of
             (Inl e, a1) \<Rightarrow> (Inl e, a1)
           | (Inr u, a1) \<Rightarrow> refresh_profile APP_URL userId (user_id u) now a1))"

section \<open>Detail view for administrators\<close>

definition user_detail_json :: "database \<Rightarrow> user \<Rightarrow> (string \<times> json) list" where
  "user_detail_json db u =
     [(''id'', JNum (int (user_id u))), (''name'', json_opt (user_name u)), (''slug'', json_opt (user_slug u)),
      (''email'', json_opt (user_email u)), (''isEmailVerified'', JBool (user_isEmailVerified u)),
      (''avatar'', json_opt (user_avatar u)), (''roleId'', json_nat_opt (user_roleId u)),
      (''role'', case Option.bind (user_roleId u) (\<lambda>i. role_findById i db) of
          None \<Rightarrow> JNull
        | Some r \<Rightarrow> JObj [(''id'', JNum (int (role_id r))), (''slug'', JStr (role_slug r)), (''title'', JStr (role_title r))]),
      (''profile'', toProfileResponse (find_profile (user_id u) db))]"

definition getUserBySlug :: "string \<Rightarrow> string \<Rightarrow> database \<Rightarrow> error + json" where
  "getUserBySlug APP_URL slug db = (case user_find slug db of
     None \<Rightarrow> Inl (AppError ''User not found'' 404)
   | Some u \<Rightarrow> Inr (with_avatar_url APP_URL ''/uploads/avatars'' (user_avatar u) (user_detail_json db u)))"

section \<open>What an update does\<close>

lemma prof_userId_apply [simp]: "prof_userId (apply_details midnight d p) = prof_userId p"
  by (simp add: apply_details_def)

lemma find_profile_SomeD: "find_profile i db = Some p \<Longrightarrow> prof_userId p = i"
  unfolding find_profile_def by (drule find_first_SomeD) simp

lemma upsertDetails_same:
  "find_profile i (upsertDetails midnight i d db) = Some (apply_details midnight d
     (case find_profile i db of None \<Rightarrow> no_details i | Some p \<Rightarrow> p))"
proof (cases "find_profile i db")
  case None
  then show ?thesis by (simp add: upsertDetails_def) (simp add: find_profile_def find_first_append no_details_def)
next
  case (Some p)
  have "find_first (\<lambda>p. prof_userId p = i) (update_where (\<lambda>p. prof_userId p = i) (apply_details midnight d) (user_profiles db))
      = map_option (\<lambda>p. if prof_userId p = i then apply_details midnight d p else p)
          (find_first (\<lambda>p. prof_userId p = i) (user_profiles db))"
    by (rule find_first_update_where) simp
  with Some find_profile_SomeD [OF Some] show ?thesis by (simp add: upsertDetails_def find_profile_def)
qed

lemma upsertDetails_other:
  assumes "k \<noteq> i"
  shows "find_profile k (upsertDetails midnight i d db) = find_profile k db"
proof (cases "find_profile i db")
  case None
  with assms show ?thesis
    by (simp add: upsertDetails_def) (simp add: find_profile_def find_first_append no_details_def split: option.splits)
next
  case (Some p)
  have "find_first (\<lambda>p. prof_userId p = k) (update_where (\<lambda>p. prof_userId p = i) (apply_details midnight d) (user_profiles db))
      = find_first (\<lambda>p. prof_userId p = k) (user_profiles db)"
    by (rule find_first_update_other) (use assms in auto)
  with Some show ?thesis by (simp add: upsertDetails_def find_profile_def)
qed

lemma upsertDetails_frame [simp]:
  "users (upsertDetails midnight i d db) = users db" "refresh_tokens (upsertDetails midnight i d db) = refresh_tokens db"
  "roles (upsertDetails midnight i d db) = roles db" "users_seq (upsertDetails midnight i d db) = users_seq db"
  by (simp_all add: upsertDetails_def split: option.splits)

lemma logActivity_profiles [simp]: "user_profiles (logActivity a b c d e f g now db) = user_profiles db"
  by (auto simp: logActivity_def activity_create_def Let_def split: option.splits)

lemma find_profile_cong: "user_profiles db' = user_profiles db \<Longrightarrow> find_profile i db' = find_profile i db"
  by (simp add: find_profile_def)

lemma updateProfile_tx_rows:
  assumes "updateProfile_tx C quiet midnight user d now db = Inr (u, db')" and "\<And>p. bcrypt_hash C p \<noteq> []"
  shows "user_id u = user_id user"
    and "refresh_tokens db' = (if truthy_str (pi_password d) = None then refresh_tokens db
           else delete_where (of_user (user_id user)) (refresh_tokens db))"
    and "find_profile i db' = (if sent_fields d = [] then find_profile i db
           else find_profile i (upsertDetails midnight (user_id user) d db))"
    and "\<exists>p. user_new_slug user (pi_name d) db = Inr (up_slug p) \<and> up_roleId p = None
           \<and> up_password p = map_option (bcrypt_hash C) (truthy_str (pi_password d))
           \<and> users db' = update_where (\<lambda>u. user_id u = user_id user) (apply_user_patch p now) (users db)"
    and "users_seq db' = users_seq db" and "roles db' = roles db"
proof -
  obtain sl db1 where sl: "user_new_slug user (pi_name d) db = Inr sl"
    and up: "user_update (user_id user) (profile_patch C d sl) now db = Inr (u, db1)"
    using assms(1) by (auto simp: updateProfile_tx_def Let_def split: sum.splits)
  let ?db2 = "if sent_fields d \<noteq> [] then upsertDetails midnight (user_id user) d db1 else db1"
  obtain db3 where rv: "revoke_on_password C quiet (user_id user) d ?db2 = Inr ((), db3)"
    and fr: "users db' = users db3" "refresh_tokens db' = refresh_tokens db3" "user_profiles db' = user_profiles db3"
      "users_seq db' = users_seq db3" "roles db' = roles db3"
    using assms(1) sl up by (auto simp: updateProfile_tx_def Let_def split: sum.splits)
  have r3: "users db3 = users ?db2" "user_profiles db3 = user_profiles ?db2" "users_seq db3 = users_seq ?db2"
    "roles db3 = roles ?db2" "refresh_tokens db3 = (if truthy_str (pi_password d) = None then refresh_tokens ?db2
       else delete_where (of_user (user_id user)) (refresh_tokens ?db2))"
    using rv assms(2)
    by (auto simp: revoke_on_password_def deleteRefreshTokensByUserId_def revokeRefreshTokens_quiet split: option.splits)
  obtain q where q: "find_first (\<lambda>u. user_id u = user_id user) (users db) = Some q"
    and u: "u = apply_user_patch (profile_patch C d sl) now q"
    and d1: "db1 = db\<lparr>users := update_where (\<lambda>u. user_id u = user_id user) (apply_user_patch (profile_patch C d sl) now) (users db)\<rparr>"
    using up by (auto simp: user_update_def split: option.splits if_splits)
  show "user_id u = user_id user" using find_first_SomeD [OF q] u by simp
  show "refresh_tokens db' = (if truthy_str (pi_password d) = None then refresh_tokens db
           else delete_where (of_user (user_id user)) (refresh_tokens db))"
    using fr r3 d1 by simp
  have k1: "find_profile k db1 = find_profile k db" for k by (rule find_profile_cong) (simp add: d1)
  have "find_profile k (upsertDetails midnight (user_id user) d db1) = find_profile k (upsertDetails midnight (user_id user) d db)" for k
    by (cases "k = user_id user") (simp_all add: upsertDetails_same upsertDetails_other k1)
  then show "find_profile i db' = (if sent_fields d = [] then find_profile i db
           else find_profile i (upsertDetails midnight (user_id user) d db))"
    using fr(3) r3(2) k1 by (simp add: find_profile_cong [of db' ?db2])
  show "users_seq db' = users_seq db" "roles db' = roles db" using fr r3 d1 by simp_all
  have "users db' = update_where (\<lambda>u. user_id u = user_id user) (apply_user_patch (profile_patch C d sl) now) (users db)"
    using fr r3 d1 by simp
  with sl show "\<exists>p. user_new_slug user (pi_name d) db = Inr (up_slug p) \<and> up_roleId p = None
           \<and> up_password p = map_option (bcrypt_hash C) (truthy_str (pi_password d))
           \<and> users db' = update_where (\<lambda>u. user_id u = user_id user) (apply_user_patch p now) (users db)"
    by (intro exI [of _ "profile_patch C d sl"]) (simp add: profile_patch_def)
qed

lemma refresh_profile_Inr:
  assumes "refresh_profile APP_URL userId userId now a = (Inr j, a')"
  shows "stored_profile APP_URL userId (app_db a) = Some j" and "app_db a' = app_db a"
    and "kv (app_redis a') (profileKey userId) = Some (j, Some (now + 900000))" and "redis_up (app_redis a')"
  using assms
  by (auto simp: refresh_profile_def getProfile_def cache_defs live_value_def PROFILE_TTL_def
      split: if_splits sum.splits option.splits prod.splits)

lemma profile_user_SomeD: "profile_user i db = Some u \<Longrightarrow> u \<in> set (users db) \<and> user_id u = i \<and> active u"
  unfolding profile_user_def by (drule find_first_SomeD) simp

lemma updateProfile_Inr:
  assumes "updateProfile C quiet midnight APP_URL userId d now a = (Inr j, a')" and "\<And>p. bcrypt_hash C p \<noteq> []"
  obtains user u where "profile_user userId (app_db a) = Some user" and "user_id user = userId"
    and "updateProfile_tx C quiet midnight user d now (app_db a) = Inr (u, app_db a')"
    and "stored_profile APP_URL userId (app_db a') = Some j"
    and "kv (app_redis a') (profileKey userId) = Some (j, Some (now + 900000))" and "redis_up (app_redis a')"
proof -
  obtain user where f: "profile_user userId (app_db a) = Some user"
    using assms(1) by (auto simp: updateProfile_def split: option.splits)
  obtain u a1 where t: "in_db (transaction (updateProfile_tx C quiet midnight user d now)) (drop_avatar (pi_avatar d) user a) = (Inr u, a1)"
    and r: "refresh_profile APP_URL userId (user_id u) now a1 = (Inr j, a')"
    using assms(1) f by (auto simp: updateProfile_def split: prod.splits sum.splits)
  from t have t': "updateProfile_tx C quiet midnight user d now (app_db a) = Inr (u, app_db a1)"
    by (auto simp: in_db_Inr)
  have ids: "user_id user = userId" "user_id u = userId"
    using profile_user_SomeD [OF f] updateProfile_tx_rows(1) [OF t' assms(2)] by simp_all
  note rp = refresh_profile_Inr [OF r [unfolded ids(2)]]
  show thesis by (rule that [OF f ids(1)]) (use t' rp in simp_all)
qed

text \<open>A profile update answers with the stored profile and later reads return that answer; the
  details that were sent are stored, cleared ones emptied and absent ones kept, for this user
  only; a new password ends every session of the user and no session of anyone else, and without
  one all sessions survive.\<close>

theorem updateProfile_effect:
  assumes "\<And>p. bcrypt_hash C p \<noteq> []"
    and "updateProfile C quiet midnight APP_URL userId d now a = (Inr j, a')"
    and "now \<le> later" and "later < now + 900000"
  shows "stored_profile APP_URL userId (app_db a') = Some j
    \<and> getProfile APP_URL userId later (app_db a') (app_redis a') = (Inr j, app_redis a')
    \<and> find_profile userId (app_db a') = (if sent_fields d = [] then find_profile userId (app_db a)
         else Some (apply_details midnight d
                (case find_profile userId (app_db a) of None \<Rightarrow> no_details userId | Some p \<Rightarrow> p)))
    \<and> (\<forall>other. other \<noteq> userId \<longrightarrow> find_profile other (app_db a') = find_profile other (app_db a))
    \<and> refresh_tokens (app_db a') = (if truthy_str (pi_password d) = None then refresh_tokens (app_db a)
         else filter (\<lambda>r. rt_userId r \<noteq> userId) (refresh_tokens (app_db a)))"
proof -
  obtain user u where f: "user_id user = userId"
    and t: "updateProfile_tx C quiet midnight user d now (app_db a) = Inr (u, app_db a')"
    and s: "stored_profile APP_URL userId (app_db a') = Some j"
    and c: "kv (app_redis a') (profileKey userId) = Some (j, Some (now + 900000))" "redis_up (app_redis a')"
    by (rule updateProfile_Inr [OF assms(2,1)])
  have "getProfile APP_URL userId later (app_db a') (app_redis a') = (Inr j, app_redis a')"
    using c assms(4) by (simp add: getProfile_def cache_defs live_value_def)
  moreover note p = updateProfile_tx_rows(3) [OF t assms(1)]
  have "find_profile userId (app_db a') = (if sent_fields d = [] then find_profile userId (app_db a)
         else Some (apply_details midnight d
                (case find_profile userId (app_db a) of None \<Rightarrow> no_details userId | Some p \<Rightarrow> p)))"
    by (simp add: p f upsertDetails_same)
  moreover have "find_profile other (app_db a') = find_profile other (app_db a)" if "other \<noteq> userId" for other
    using that by (simp add: p f upsertDetails_other)
  moreover have "refresh_tokens (app_db a') = (if truthy_str (pi_password d) = None then refresh_tokens (app_db a)
         else filter (\<lambda>r. rt_userId r \<noteq> userId) (refresh_tokens (app_db a)))"
    by (simp add: updateProfile_tx_rows(2) [OF t assms(1)] f delete_where_def of_user_def)
  ultimately show ?thesis using s by blast
qed

text \<open>The profile route keeps the user table well formed too.\<close>

lemma updateProfile_keeps_ok:
  assumes "users_ok (app_db a)" and "\<And>p. bcrypt_hash C p \<noteq> []"
    and "updateProfile C quiet midnight APP_URL userId d now a = (Inr j, a')"
  shows "users_ok (app_db a')"
proof -
  obtain user u where f: "profile_user userId (app_db a) = Some user"
    and t: "updateProfile_tx C quiet midnight user d now (app_db a) = Inr (u, app_db a')"
    by (rule updateProfile_Inr [OF assms(3,2)])
  obtain p where sl: "user_new_slug user (pi_name d) (app_db a) = Inr (up_slug p)" and r: "up_roleId p = None"
    and us: "users (app_db a') = update_where (\<lambda>u. user_id u = user_id user) (apply_user_patch p now) (users (app_db a))"
    using updateProfile_tx_rows(4) [OF t assms(2)] by blast
  have user: "user \<in> set (users (app_db a))" using profile_user_SomeD [OF f] by simp
  obtain q where up: "user_update (user_id user) p now (app_db a) = Inr (q, app_db a
      \<lparr>users := update_where (\<lambda>u. user_id u = user_id user) (apply_user_patch p now) (users (app_db a))\<rparr>)"
    using find_user_id [OF _ user] assms(1) r by (simp add: user_update_def users_ok_def)
  from user_patch_ok [OF assms(1) user sl up] show ?thesis
    using us updateProfile_tx_rows(5,6) [OF t assms(2)] by (simp add: users_ok_def)
qed

lemma refresh_profile_demo:
  assumes "app_redis a = empty_redis" and "stored_profile APP_URL i (app_db a) = Some j"
  shows "\<exists>a'. refresh_profile APP_URL i i now a = (Inr j, a')"
  using assms by (simp add: refresh_profile_def getProfile_def cache_defs live_value_def empty_redis_def)

definition demo_profile_input :: profile_input where
  "demo_profile_input = \<lparr>pi_name = None, pi_email = None, pi_avatar = None, pi_password = Some ''New1!'',
     pi_phone = Some (Some ''+628123456789''), pi_birthDate = None, pi_gender = Some None, pi_locale = None\<rparr>"

theorem updateProfile_effect_witness:
  "\<exists>j a'. updateProfile demo_crypto quiet (\<lambda>s. 0) ''http://x'' 1 demo_profile_input 5 demo_app = (Inr j, a')
     \<and> getProfile ''http://x'' 1 6 (app_db a') (app_redis a') = (Inr j, app_redis a')
     \<and> map_option prof_phone (find_profile 1 (app_db a')) = Some (Some ''+628123456789'')"
proof -
  let ?d = demo_profile_input
  obtain user where f: "profile_user 1 (app_db demo_app) = Some user" "user_id user = 1" "user_roleId user = Some 1"
    by (simp add: profile_user_def demo_app_def demo_rbac_db_def active_def)
  have ff: "\<exists>q. find_first (\<lambda>u. user_id u = user_id user) (users (app_db demo_app)) = Some q \<and> user_id q = 1 \<and> active q"
    by (simp add: f(2) demo_app_def demo_rbac_db_def active_def)
  then obtain u db' where t: "updateProfile_tx demo_crypto quiet (\<lambda>s. 0) user ?d 5 (app_db demo_app) = Inr (u, db')"
    by (auto simp: updateProfile_tx_def demo_profile_input_def user_new_slug_def truthy_str_def user_update_def
        profile_patch_def revoke_on_password_def deleteRefreshTokensByUserId_def revokeRefreshTokens_quiet
        demo_crypto_def Let_def)
  have b: "bcrypt_hash demo_crypto p \<noteq> []" for p by (simp add: demo_crypto_def)
  obtain w where w: "profile_user 1 db' = Some w"
  proof -
    obtain p where us: "users db' = update_where (\<lambda>u. user_id u = user_id user) (apply_user_patch p 5) (users (app_db demo_app))"
      using updateProfile_tx_rows(4) [OF t b] by blast
    from ff obtain q where q: "find_first (\<lambda>u. user_id u = user_id user) (users (app_db demo_app)) = Some q"
      "user_id q = 1" "active q" by blast
    with find_first_SomeD [OF q(1)] have "apply_user_patch p 5 q \<in> set (users db')" "user_id (apply_user_patch p 5 q) = 1 \<and> active (apply_user_patch p 5 q)"
      using f(2) by (auto simp: us set_update_where)
    from find_first_exists [where P = "\<lambda>u. user_id u = 1 \<and> active u", OF this]
    show thesis using that by (auto simp: profile_user_def)
  qed
  let ?a = "(drop_avatar (pi_avatar ?d) user demo_app)\<lparr>app_db := db'\<rparr>"
  obtain j where "stored_profile ''http://x'' 1 db' = Some j" using w by (simp add: stored_profile_def)
  then obtain a' where r: "refresh_profile ''http://x'' 1 1 5 ?a = (Inr j, a')"
    using refresh_profile_demo [of ?a "''http://x''" 1 j 5] by (auto simp: demo_app_def)
  have "in_db (transaction (updateProfile_tx demo_crypto quiet (\<lambda>s. 0) user ?d 5)) (drop_avatar (pi_avatar ?d) user demo_app) = (Inr u, ?a)"
    using t by (simp add: in_db_Inr)
  with f(1) r updateProfile_tx_rows(1) [OF t b] f(2)
  have u: "updateProfile demo_crypto quiet (\<lambda>s. 0) ''http://x'' 1 ?d 5 demo_app = (Inr j, a')"
    by (simp add: updateProfile_def)
  from updateProfile_effect [OF b u, of 6]
  have "getProfile ''http://x'' 1 6 (app_db a') (app_redis a') = (Inr j, app_redis a')"
    "find_profile 1 (app_db a') = (if sent_fields ?d = [] then find_profile 1 (app_db demo_app)
       else Some (apply_details (\<lambda>s. 0) ?d (case find_profile 1 (app_db demo_app) of None \<Rightarrow> no_details 1 | Some p \<Rightarrow> p)))"
    by simp_all
  moreover have "sent_fields ?d \<noteq> []" by (simp add: sent_fields_def demo_profile_input_def PROFILE_FIELDS_def)
  ultimately show ?thesis using u by (simp add: apply_details_def demo_profile_input_def or_else_def)
qed

text \<open>The new address is not compared with those of other accounts: afterwards two active accounts can
  share one address.\<close>

definition email_change :: "string \<Rightarrow> profile_input" where
  "email_change e = \<lparr>pi_name = None, pi_email = Some e, pi_avatar = None, pi_password = None,
     pi_phone = None, pi_birthDate = None, pi_gender = None, pi_locale = None\<rparr>"

lemma profile_email_unchecked:
  assumes "distinct (map user_id (users db))" and "user \<in> set (users db)" and "active user"
    and "w \<in> set (users db)" and "w \<noteq> user" and "user_email w = Some e" and "e \<noteq> []"
  shows "\<exists>u db'. updateProfile_tx C quiet midnight user (email_change e) now db = Inr (u, db')
    \<and> w \<in> set (users db') \<and> u \<in> set (users db') \<and> u \<noteq> w \<and> active u \<and> user_email u = user_email w"
proof -
  let ?p = "profile_patch C (email_change e) None"
  have f: "find_first (\<lambda>u. user_id u = user_id user) (users db) = Some user"
    by (rule find_user_id [OF assms(1,2)])
  have id: "user_id w \<noteq> user_id user"
    using assms(1,2,4,5) by (auto simp: distinct_map dest: inj_onD)
  obtain db' where t: "updateProfile_tx C quiet midnight user (email_change e) now db = Inr (apply_user_patch ?p now user, db')"
    and us: "users db' = update_where (\<lambda>u. user_id u = user_id user) (apply_user_patch ?p now) (users db)"
    using f by (simp add: updateProfile_tx_def email_change_def user_new_slug_def truthy_str_def user_update_def
        profile_patch_def revoke_on_password_def sent_fields_def PROFILE_FIELDS_def Let_def)
  have "user_email (apply_user_patch ?p now user) = Some e" "active (apply_user_patch ?p now user)"
    using assms(3,7) by (simp_all add: apply_user_patch_def profile_patch_def email_change_def truthy_str_def patched_def active_def)
  moreover have "w \<in> set (users db')" "apply_user_patch ?p now user \<in> set (users db')"
    using assms(2,4) id by (auto simp: us set_update_where)
  moreover have "apply_user_patch ?p now user \<noteq> w" using id by auto
  ultimately show ?thesis using t assms(6)
    by (intro exI [of _ "apply_user_patch ?p now user"] exI [of _ db']) simp
qed

end
