(* ===== verification/Middleware.thy ===== *)
theory Middleware
  imports Profile
begin

text \<open>
  The request pipeline: authentication by access token (\<^verbatim>\<open>src/middleware/auth.middleware.ts\<close>), the
  origin guard of the cookie routes with its allowlist (\<^verbatim>\<open>origin-check.middleware.ts\<close>,
  \<^verbatim>\<open>src/config/origins.ts\<close>, \<^verbatim>\<open>src/config/cors.ts\<close>), request validation, the HTML filter on request
  bodies, the response envelope and the error handler. Schemas (zod), the \<^verbatim>\<open>xss\<close> filter and the
  origin of a URL are parameters.
\<close>

section \<open>Requests and responses\<close>

record http_request =
  req_method :: string
  req_path :: string
  req_authorization :: "string option"
  req_origin :: "string option"
  req_referer :: "string option"
  req_cookies :: json
  req_body :: json
  req_sub :: "nat option"
  req_query :: "(string \<times> string) list"
  req_params :: "(string \<times> string) list"
  req_ip :: string
  req_protocol :: string
  req_host :: string
  req_filename :: "string option"

text \<open>\<open>req_query\<close> holds the parameters given once as text, \<open>req_params\<close> those of the matched path and
  \<open>req_filename\<close> the name under which an upload was stored.\<close>

definition plain_request :: "string \<Rightarrow> string \<Rightarrow> http_request" where
  "plain_request method path = \<lparr>req_method = method, req_path = path, req_authorization = None, req_origin = None,
     req_referer = None, req_cookies = JObj [], req_body = JNull, req_sub = None, req_query = [], req_params = [],
     req_ip = [], req_protocol = ''http'', req_host = ''localhost'', req_filename = None\<rparr>"

text \<open>A \<^verbatim>\<open>Set-Cookie\<close> header; \<open>None\<close> clears the cookie.\<close>

record cookie =
  ck_name :: string
  ck_value :: "string option"
  ck_httpOnly :: bool
  ck_sameSite :: string
  ck_secure :: bool
  ck_maxAge :: nat

record http_response =
  res_status :: nat
  res_body :: json
  res_cookies :: "cookie list"

text \<open>\<^verbatim>\<open>response(res, data, message, statusCode)\<close>.\<close>

definition response :: "json \<Rightarrow> string \<Rightarrow> nat \<Rightarrow> http_response" where
  "response data message statusCode =
     \<lparr>res_status = statusCode,
      res_body = JObj [(''success'', JBool (statusCode < 400)), (''message'', JStr message), (''data'', data)],
      res_cookies = []\<rparr>"

section \<open>Authentication\<close>

text \<open>\<^verbatim>\<open>Number(sub)\<close>; \<open>None\<close> is not a number. Access tokens are signed for decimal user ids
  (\<open>generateAccessToken\<close>), so other spellings of a number do not occur.\<close>

definition sub_number :: "string \<Rightarrow> nat option" where
  "sub_number s = (if s \<noteq> [] \<and> list_all is_digit s then Some (read_nat s) else None)"

definition bearer_token :: "string option \<Rightarrow> string" where
  "bearer_token header = (case header of
     None \<Rightarrow> []
   | Some h \<Rightarrow> if startsWith h ''Bearer '' then split_on CHR '' '' h ! 1 else [])"

definition authMiddleware :: "crypto \<Rightarrow> env \<Rightarrow> time \<Rightarrow> http_request \<Rightarrow> error + http_request" where
  "authMiddleware C E now req =
     (let token = bearer_token (req_authorization req) in
      if token = [] then Inl (AppError ''Unauthorized'' 401)
      else (case jwt_verify C token (JWT_ACCESS_SECRET E) now of
              None \<Rightarrow> Inl (AppError ''Invalid or expired token'' 401)
            | Some sub \<Rightarrow> Inr (req\<lparr>req_sub := sub_number sub\<rparr>)))"

section \<open>Origins\<close>

definition isAllowedOrigin :: "string list \<Rightarrow> string \<Rightarrow> bool" where
  "isAllowedOrigin allowedOrigins origin = (origin \<in> set allowedOrigins)"

definition SAFE_METHODS :: "string list" where
  "SAFE_METHODS = [''GET'', ''HEAD'', ''OPTIONS'']"

definition checkOrigin ::
  "(string \<Rightarrow> string option) \<Rightarrow> string list \<Rightarrow> http_request \<Rightarrow> error + http_request" where
  "checkOrigin originFromReferer allowed req =
     (if req_method req \<in> set SAFE_METHODS then Inr req
      else if \<not> truthy (req_origin req) \<and> \<not> truthy (req_referer req) then Inr req
      else (let origin = (if truthy (req_origin req) then req_origin req
                          else originFromReferer (the (req_referer req)))
            in if truthy origin \<and> isAllowedOrigin allowed (the origin) then Inr req
               else Inl (AppError ''Request origin not allowed'' 403)))"

definition corsOrigin :: "string list \<Rightarrow> string option \<Rightarrow> error + bool" where
  "corsOrigin allowed origin =
     (if \<not> truthy origin \<or> isAllowedOrigin allowed (the origin) then Inr True
      else Inl (AppError ''Not allowed by CORS'' 403))"

section \<open>Validation\<close>

definition validate :: "(json \<Rightarrow> (string list \<times> string) list + json) \<Rightarrow> http_request \<Rightarrow> error + http_request" where
  "validate schema req =
     (case schema (req_body req) of
        Inl issues \<Rightarrow> Inl (AppErrorFields ''Validation failed'' 400 (map (\<lambda>(path, m). (join_with ''.'' path, m)) issues))
      | Inr data \<Rightarrow> Inr (req\<lparr>req_body := data\<rparr>))"

section \<open>HTML filter\<close>

fun sanitizeInput :: "(string \<Rightarrow> string) \<Rightarrow> json \<Rightarrow> json" where
  "sanitizeInput xss (JStr s) = JStr (xss s)"
| "sanitizeInput xss (JArr js) = JArr (map (sanitizeInput xss) js)"
| "sanitizeInput xss (JObj fs) = JObj (map (\<lambda>f. (fst f, sanitizeInput xss (snd f))) fs)"
| "sanitizeInput xss JNull = JNull"
| "sanitizeInput xss (JBool b) = JBool b"
| "sanitizeInput xss (JNum n) = JNum n"

text \<open>\<^verbatim>\<open>/^\/api\/v1\/email-templates\/[^/]+\/?$/\<close>.\<close>

definition TEMPLATE_PREFIX :: string where "TEMPLATE_PREFIX = ''/api/v1/email-templates/''"

definition template_path :: "string \<Rightarrow> bool" where
  "template_path p =
     (startsWith p TEMPLATE_PREFIX
      \<and> (let rest = drop (length TEMPLATE_PREFIX) p;
             key = (if rest \<noteq> [] \<and> last rest = CHR ''/'' then butlast rest else rest)
         in key \<noteq> [] \<and> CHR ''/'' \<notin> set key))"

definition routeOwnedFields :: "http_request \<Rightarrow> string list" where
  "routeOwnedFields req = (if req_method req = ''PUT'' \<and> template_path (req_path req) then [''body''] else [])"

text \<open>The body and the cookies are rewritten. The parsed query is computed anew at every access and
  the path parameters are not known yet, so they pass unchanged.\<close>

definition sanitize_body :: "(string \<Rightarrow> string) \<Rightarrow> string list \<Rightarrow> json \<Rightarrow> json" where
  "sanitize_body xss exempt body =
     (case body of
        JObj fs \<Rightarrow>
          (let skipped = filter (\<lambda>f. f \<in> set (map fst fs)) exempt in
           if skipped \<noteq> []
           then (case sanitizeInput xss (JObj (filter (\<lambda>f. fst f \<notin> set skipped) fs)) of
                   JObj gs \<Rightarrow> JObj (gs @ map (\<lambda>f. (f, the (map_of fs f))) (remdups skipped))
                 | j \<Rightarrow> j)
           else sanitizeInput xss body)
      | _ \<Rightarrow> sanitizeInput xss body)"

definition xssMiddleware :: "(string \<Rightarrow> string) \<Rightarrow> http_request \<Rightarrow> http_request" where
  "xssMiddleware xss req =
     req\<lparr>req_body := sanitize_body xss (''markdown'' # routeOwnedFields req) (req_body req),
         req_cookies := sanitizeInput xss (req_cookies req)\<rparr>"

section \<open>Errors\<close>

text \<open>What reaches the error handler: an error of the services, a Multer limit, or an error of a
  framework middleware that carries a status.\<close>

datatype raised = Service error | Multer string string | Framework nat string

definition status_or_500 :: "nat \<Rightarrow> nat" where
  "status_or_500 n = (if n = 0 then 500 else n)"

fun statusOf :: "raised \<Rightarrow> nat" where
  "statusOf (Multer c m) = (if c = ''LIMIT_FILE_SIZE'' then 413 else 400)"
| "statusOf (Framework s m) = status_or_500 s"
| "statusOf (Service (AppError m s)) = status_or_500 s"
| "statusOf (Service (AppErrorFields m s fs)) = status_or_500 s"
| "statusOf (Service e) = 500"

text \<open>\<open>dbMessage\<close> is the text of a database error.\<close>

fun error_message :: "(string \<Rightarrow> string) \<Rightarrow> raised \<Rightarrow> string" where
  "error_message dbMessage (Multer c m) = m"
| "error_message dbMessage (Framework s m) = m"
| "error_message dbMessage (Service (AppError m s)) = m"
| "error_message dbMessage (Service (AppErrorFields m s fs)) = m"
| "error_message dbMessage (Service (ThrownError m)) = m"
| "error_message dbMessage (Service (DbError c)) = dbMessage c"
| "error_message dbMessage (Service NoReturn) = []"

fun isAppError :: "raised \<Rightarrow> bool" where
  "isAppError (Service (AppError m s)) = True"
| "isAppError (Service (AppErrorFields m s fs)) = True"
| "isAppError r = False"

fun error_fields :: "raised \<Rightarrow> json option" where
  "error_fields (Service (AppErrorFields m s fs)) =
     Some (JArr (map (\<lambda>f. JObj [(''field'', JStr (fst f)), (''message'', JStr (snd f))]) fs))"
| "error_fields r = None"

definition errorHandler :: "(string \<Rightarrow> string) \<Rightarrow> string option \<Rightarrow> string \<Rightarrow> raised \<Rightarrow> http_response" where
  "errorHandler dbMessage NODE_ENV stack err =
     (let statusCode = statusOf err; isDev = (NODE_ENV = Some ''development'');
          exposeMessage = (isAppError err \<or> statusCode < 500 \<or> isDev);
          message = (if exposeMessage \<and> error_message dbMessage err \<noteq> [] then error_message dbMessage err
                     else ''Internal Server Error'')
      in \<lparr>res_status = statusCode,
          res_body = JObj ([(''success'', JBool False), (''message'', JStr message)]
            @ (if isDev then [(''stack'', JStr stack)] else [])
            @ (case error_fields err of None \<Rightarrow> []
               | Some j \<Rightarrow> if statusCode < 500 \<or> isDev then [(''errors'', j)] else [])),
          res_cookies = []\<rparr>)"

text \<open>Outside development an unexpected server error says nothing about its cause: every thrown or
  database error gets the same 500 response whatever its text, no response carries a stack, and
  field problems are returned only with a client error. Operational errors keep their message,
  status and fields.\<close>

theorem errorHandler_no_leak:
  assumes "NODE_ENV \<noteq> Some ''development''"
  shows "errorHandler dbMessage NODE_ENV stack (Service (ThrownError m))
        = \<lparr>res_status = 500, res_body = JObj [(''success'', JBool False), (''message'', JStr ''Internal Server Error'')],
            res_cookies = []\<rparr>
    \<and> errorHandler dbMessage NODE_ENV stack (Service (DbError c))
        = errorHandler dbMessage NODE_ENV stack (Service (ThrownError m))
    \<and> json_field ''stack'' (res_body (errorHandler dbMessage NODE_ENV stack err)) = None
    \<and> (500 \<le> statusOf err \<longrightarrow> json_field ''errors'' (res_body (errorHandler dbMessage NODE_ENV stack err)) = None)
    \<and> (status \<noteq> 0 \<and> m \<noteq> [] \<longrightarrow>
        res_status (errorHandler dbMessage NODE_ENV stack (Service (AppErrorFields m status fs))) = status
        \<and> json_field ''message'' (res_body (errorHandler dbMessage NODE_ENV stack (Service (AppErrorFields m status fs))))
            = Some (JStr m)
        \<and> (json_field ''errors'' (res_body (errorHandler dbMessage NODE_ENV stack (Service (AppErrorFields m status fs)))) \<noteq> None
            \<longleftrightarrow> status < 500))"
  using assms
  by (simp add: errorHandler_def Let_def json_field_def status_or_500_def split: option.split)

theorem errorHandler_no_leak_witness:
  "errorHandler (\<lambda>c. ''relation users'') (Some ''production'') ''at x.ts:1'' (Service (DbError ''P2003''))
     = errorHandler (\<lambda>c. ''relation users'') (Some ''production'') ''at x.ts:1'' (Service (ThrownError ''boom''))"
  using errorHandler_no_leak [of "Some ''production''" "\<lambda>c. ''relation users''" "''at x.ts:1''" "''boom''" "''P2003''"]
  by simp

section \<open>What the guards let through\<close>

lemma split_on_prefix: "sep \<notin> set w \<Longrightarrow> split_on sep (w @ sep # s) ! 1 = hd (split_on sep s)"
  using split_on_append [of sep w s] by (cases "split_on sep s") simp_all

lemma bearer_token_of:
  assumes "CHR '' '' \<notin> set t"
  shows "bearer_token (Some (''Bearer '' @ t)) = t"
proof -
  have "CHR '' '' \<notin> set ''Bearer''" by simp
  from split_on_prefix [OF this, of t] have "split_on CHR '' '' (''Bearer'' @ CHR '' '' # t) ! 1 = t"
    by (simp add: split_on_single [OF assms])
  then show ?thesis by (simp add: bearer_token_def startsWith_def)
qed

text \<open>The documented behaviour of the token library: within its lifetime a signed token verifies to
  its subject.\<close>

definition jwt_correct :: "crypto \<Rightarrow> bool" where
  "jwt_correct C = (\<forall>sub secret now. jwt_verify C (jwt_sign C sub secret now) secret now = Some sub
     \<and> CHR '' '' \<notin> set (jwt_sign C sub secret now) \<and> jwt_sign C sub secret now \<noteq> [])"

lemma sub_number_show [simp]: "sub_number (show_nat n) = Some n"
  using show_nat_digits by (simp add: sub_number_def list_all_iff)

lemma authMiddleware_accepts:
  assumes "jwt_correct C" and "req_authorization req = Some (''Bearer '' @ generateAccessToken C E userId now)"
  shows "authMiddleware C E now req = Inr (req\<lparr>req_sub := Some userId\<rparr>)"
proof -
  let ?t = "generateAccessToken C E userId now"
  have "CHR '' '' \<notin> set ?t" "?t \<noteq> []" "jwt_verify C ?t (JWT_ACCESS_SECRET E) now = Some (show_nat userId)"
    using assms(1) by (simp_all add: jwt_correct_def generateAccessToken_def)
  moreover have "bearer_token (req_authorization req) = ?t"
    unfolding assms(2) by (rule bearer_token_of) fact
  ultimately show ?thesis by (simp add: authMiddleware_def)
qed

text \<open>Every string of a filtered body outside the exempt fields is an output of the filter.\<close>

fun json_strings :: "json \<Rightarrow> string list" where
  "json_strings (JStr s) = [s]"
| "json_strings (JArr js) = concat (map json_strings js)"
| "json_strings (JObj fs) = concat (map (\<lambda>f. json_strings (snd f)) fs)"
| "json_strings j = []"

lemma sanitizeInput_strings: "json_strings (sanitizeInput xss j) = map xss (json_strings j)"
proof (induction j)
  case (JArr js)
  then show ?case by (simp add: map_concat comp_def cong: map_cong)
next
  case (JObj fs)
  then have "json_strings (sanitizeInput xss (snd f)) = map xss (json_strings (snd f))" if "f \<in> set fs" for f
    using that by (cases f) (auto simp: prod_set_defs)
  then show ?case by (simp add: map_concat comp_def cong: map_cong)
qed simp_all

end
