(* ===== verification/Http.thy ===== *)
theory Http
  imports Middleware
begin

text \<open>
  Controllers and routes: the administration of users and roles behind authentication and
  permission gates (\<^verbatim>\<open>src/modules/user\<close>, \<^verbatim>\<open>src/modules/role\<close>: \<^verbatim>\<open>*.controller.ts\<close>, \<^verbatim>\<open>*.route.ts\<close>), the own
  profile, and authentication with its refresh cookie (\<^verbatim>\<open>src/modules/auth\<close>). Requests arrive with
  validated bodies. A handler that fails hands its error to the error handler.
\<close>

type_synonym 's handler = "('s, http_response) service"

section \<open>Routes behind a permission\<close>

text \<open>\<open>router.use(authMiddleware)\<close> and \<open>checkPermission(permission)\<close> before the controller.\<close>

definition protected ::
  "crypto \<Rightarrow> env \<Rightarrow> time \<Rightarrow> string \<Rightarrow> (http_request \<Rightarrow> app handler) \<Rightarrow> http_request \<Rightarrow> app handler" where
  "protected C E now permission h req a =
     (case authMiddleware C E now req of
        Inl e \<Rightarrow> (Inl e, a)
      | Inr req1 \<Rightarrow>
          (case checkPermission permission None (req_sub req1) now (app_db a) (app_redis a) of
             (Inl e, s) \<Rightarrow> (Inl e, a\<lparr>app_redis := s\<rparr>)
           | (Inr _, s) \<Rightarrow> h req1 (a\<lparr>app_redis := s\<rparr>)))"

definition respond :: "('a \<Rightarrow> http_response) \<Rightarrow> ('s, 'a) service \<Rightarrow> 's handler" where
  "respond f m s = (case m s of (Inl e, s') \<Rightarrow> (Inl e, s') | (Inr x, s') \<Rightarrow> (Inr (f x), s'))"

text \<open>The acting user: \<^verbatim>\<open>req.user?.sub ? Number(req.user.sub) : null\<close>.\<close>

definition actor :: "http_request \<Rightarrow> nat option" where
  "actor req = truthy_nat (req_sub req)"

text \<open>Fields of a validated body: a text, an optional text, and a text that \<^verbatim>\<open>null\<close> clears.\<close>

definition body_text :: "string \<Rightarrow> http_request \<Rightarrow> string" where
  "body_text k req = (case json_field k (req_body req) of Some (JStr s) \<Rightarrow> s | _ \<Rightarrow> [])"

definition body_opt :: "string \<Rightarrow> http_request \<Rightarrow> string option" where
  "body_opt k req = (case json_field k (req_body req) of Some (JStr s) \<Rightarrow> Some s | _ \<Rightarrow> None)"

definition body_clear :: "string \<Rightarrow> http_request \<Rightarrow> string option option" where
  "body_clear k req = (case json_field k (req_body req) of
     Some (JStr s) \<Rightarrow> Some (Some s) | Some JNull \<Rightarrow> Some None | _ \<Rightarrow> None)"

definition body_bool :: "string \<Rightarrow> http_request \<Rightarrow> bool option" where
  "body_bool k req = (case json_field k (req_body req) of Some (JBool b) \<Rightarrow> Some b | _ \<Rightarrow> None)"

definition body_texts :: "string \<Rightarrow> http_request \<Rightarrow> string list option" where
  "body_texts k req = (case json_field k (req_body req) of
     Some (JArr vs) \<Rightarrow> Some (map (\<lambda>v. case v of JStr s \<Rightarrow> s | _ \<Rightarrow> []) vs) | _ \<Rightarrow> None)"

section \<open>Users\<close>

definition user_json :: "user \<Rightarrow> json" where
  "user_json u = JObj [(''id'', JNum (int (user_id u))), (''name'', json_opt (user_name u)),
     (''slug'', json_opt (user_slug u)), (''email'', json_opt (user_email u)),
     (''password'', json_opt (user_password u)), (''avatar'', json_opt (user_avatar u)),
     (''roleId'', json_nat_opt (user_roleId u)), (''isEmailVerified'', JBool (user_isEmailVerified u)),
     (''createdAt'', JStr (toISOString (user_createdAt u))), (''updatedAt'', JStr (toISOString (user_updatedAt u))),
     (''deletedAt'', json_opt (map_option toISOString (user_deletedAt u)))]"

text \<open>\<^verbatim>\<open>{...req.body, ...(req.file && {avatar: req.file.filename})}\<close>.\<close>

definition user_input_of :: "http_request \<Rightarrow> user_input" where
  "user_input_of req = \<lparr>ui_name = body_text ''name'' req, ui_email = body_text ''email'' req,
     ui_password = body_text ''password'' req, ui_roleId = body_text ''roleId'' req, ui_avatar = req_filename req\<rparr>"

definition user_changes_of :: "http_request \<Rightarrow> user_changes" where
  "user_changes_of req = \<lparr>uc_name = body_opt ''name'' req, uc_email = body_opt ''email'' req,
     uc_roleId = body_opt ''roleId'' req, uc_avatar = req_filename req, uc_password = body_opt ''password'' req\<rparr>"

datatype user_call =
    Show_user string
  | Store_user user_input
  | Update_user string user_changes
  | Delete_user string

fun user_permission :: "user_call \<Rightarrow> string" where
  "user_permission (Show_user slug) = ''module.master-data.user.index''"
| "user_permission (Store_user d) = ''module.master-data.user.create''"
| "user_permission (Update_user slug d) = ''module.master-data.user.edit''"
| "user_permission (Delete_user slug) = ''module.master-data.user.delete''"

fun user_controller :: "crypto \<Rightarrow> interference \<Rightarrow> string \<Rightarrow> time \<Rightarrow> user_call \<Rightarrow> http_request \<Rightarrow> app handler" where
  "user_controller C I APP_URL now (Show_user slug) req =
     respond (\<lambda>j. response (toUserResponse j) ''User retrieved successfully'' 200)
       (\<lambda>a. (getUserBySlug APP_URL slug (app_db a), a))"
| "user_controller C I APP_URL now (Store_user d) req =
     respond (\<lambda>u. response (toUserResponse (user_json u)) ''User created successfully'' 201)
       (admin_createUser C d (actor req) now)"
| "user_controller C I APP_URL now (Update_user slug d) req =
     respond (\<lambda>u. response (toUserResponse (user_json u)) ''User updated successfully'' 200)
       (updateUser C slug d (actor req) now)"
| "user_controller C I APP_URL now (Delete_user slug) req =
     respond (\<lambda>_. response JNull ''User deleted successfully'' 200) (deleteUser I slug (actor req) now)"

definition user_router :: "crypto \<Rightarrow> env \<Rightarrow> interference \<Rightarrow> string \<Rightarrow> time \<Rightarrow> user_call \<Rightarrow> http_request \<Rightarrow> app handler" where
  "user_router C E I APP_URL now call = protected C E now (user_permission call) (user_controller C I APP_URL now call)"

section \<open>Roles\<close>

definition full_role_json :: "role \<Rightarrow> json" where
  "full_role_json r = JObj [(''id'', JNum (int (role_id r))), (''slug'', JStr (role_slug r)),
     (''title'', JStr (role_title r)), (''userType'', JStr (role_userType r)),
     (''description'', json_opt (role_description r)), (''access'', role_access r),
     (''createdAt'', JStr (toISOString (role_createdAt r))), (''updatedAt'', JStr (toISOString (role_updatedAt r))),
     (''deletedAt'', json_opt (map_option toISOString (role_deletedAt r)))]"

definition role_input_of :: "http_request \<Rightarrow> role_input" where
  "role_input_of req = \<lparr>in_title = body_text ''title'' req, in_userType = body_text ''userType'' req,
     in_description = body_opt ''description'' req,
     in_access = (case body_texts ''access'' req of None \<Rightarrow> [] | Some vs \<Rightarrow> vs)\<rparr>"

definition role_changes_of :: "http_request \<Rightarrow> role_changes" where
  "role_changes_of req = \<lparr>ch_title = body_opt ''title'' req, ch_userType = body_opt ''userType'' req,
     ch_description = body_clear ''description'' req, ch_access = body_texts ''access'' req\<rparr>"

datatype role_call =
    Show_role string
  | Store_role role_input
  | Update_role string role_changes
  | Destroy_role string

fun role_permission :: "role_call \<Rightarrow> string" where
  "role_permission (Show_role slug) = ''module.master-data.role.index''"
| "role_permission (Store_role d) = ''module.master-data.role.create''"
| "role_permission (Update_role slug d) = ''module.master-data.role.edit''"
| "role_permission (Destroy_role slug) = ''module.master-data.role.delete''"

fun role_controller :: "time \<Rightarrow> role_call \<Rightarrow> http_request \<Rightarrow> app handler" where
  "role_controller now (Show_role slug) req =
     respond (\<lambda>r. response (full_role_json r) ''Role retrieved successfully'' 200) (\<lambda>a. (getRole slug (app_db a), a))"
| "role_controller now (Store_role d) req =
     respond (\<lambda>r. response (full_role_json r) ''Role created successfully'' 201) (createRole d (req_sub req) now)"
| "role_controller now (Update_role slug d) req =
     respond (\<lambda>r. response (full_role_json r) ''Role updated successfully'' 200) (updateRole slug d (req_sub req) now)"
| "role_controller now (Destroy_role slug) req =
     respond (\<lambda>_. response JNull ''Role deleted successfully'' 200) (deleteRole slug (req_sub req) now)"

definition role_router :: "crypto \<Rightarrow> env \<Rightarrow> time \<Rightarrow> role_call \<Rightarrow> http_request \<Rightarrow> app handler" where
  "role_router C E now call = protected C E now (role_permission call) (role_controller now call)"

section \<open>Own profile\<close>

definition refresh_cookie :: "env \<Rightarrow> bool \<Rightarrow> string option \<Rightarrow> cookie" where
  "refresh_cookie E production v = \<lparr>ck_name = ''refreshToken'', ck_value = v, ck_httpOnly = True,
     ck_sameSite = ''lax'', ck_secure = production, ck_maxAge = REFRESH_TOKEN_EXPIRES_DAYS E * 86400000\<rparr>"

text \<open>The database client refuses a key that is not a number.\<close>

definition not_a_key :: error where "not_a_key = DbError ''PrismaClientValidationError''"

definition profile_get :: "string \<Rightarrow> time \<Rightarrow> http_request \<Rightarrow> app handler" where
  "profile_get APP_URL now req a =
     (case req_sub req of
        None \<Rightarrow> (Inl not_a_key, a)
      | Some userId \<Rightarrow>
          respond (\<lambda>j. response (toUserResponse j) ''Profile retrieved successfully'' 200)
            (\<lambda>a. let (r, s) = getProfile APP_URL userId now (app_db a) (app_redis a) in (r, a\<lparr>app_redis := s\<rparr>)) a)"

definition profile_put ::
  "crypto \<Rightarrow> env \<Rightarrow> bool \<Rightarrow> interference \<Rightarrow> (string \<Rightarrow> time) \<Rightarrow> string \<Rightarrow> time \<Rightarrow> profile_input \<Rightarrow> http_request \<Rightarrow> app handler" where
  "profile_put C E production I midnight APP_URL now d req a =
     (case req_sub req of
        None \<Rightarrow> (Inl not_a_key, a)
      | Some userId \<Rightarrow>
          respond (\<lambda>j. (response (toUserResponse j) ''Profile updated successfully'' 200)
              \<lparr>res_cookies := (if truthy (pi_password d) then [refresh_cookie E production None] else [])\<rparr>)
            (updateProfile C I midnight APP_URL userId d now) a)"

definition profile_input_of :: "http_request \<Rightarrow> profile_input" where
  "profile_input_of req = \<lparr>pi_name = body_opt ''name'' req, pi_email = body_opt ''email'' req,
     pi_avatar = req_filename req, pi_password = body_opt ''password'' req, pi_phone = body_clear ''phone'' req,
     pi_birthDate = body_clear ''birthDate'' req, pi_gender = body_clear ''gender'' req,
     pi_locale = body_clear ''locale'' req\<rparr>"

section \<open>Authentication\<close>

definition cookie_token :: "http_request \<Rightarrow> string" where
  "cookie_token req = (case json_field ''refreshToken'' (req_cookies req) of Some (JStr t) \<Rightarrow> t | _ \<Rightarrow> [])"

text \<open>Values drawn while a request is served: random bytes, nonces and identifiers.\<close>

record entropy =
  en_bytes :: "byte list"
  en_iv :: "byte list"
  en_uuid :: string
  en_family :: string

definition token_response :: "env \<Rightarrow> bool \<Rightarrow> string \<Rightarrow> auth_tokens \<Rightarrow> http_response" where
  "token_response E production message tokens =
     (response (JObj [(''accessToken'', JStr (at_accessToken tokens))]) message 200)
       \<lparr>res_cookies := [refresh_cookie E production (Some (at_refreshToken tokens))]\<rparr>"

definition login_controller :: "crypto \<Rightarrow> env \<Rightarrow> bool \<Rightarrow> entropy \<Rightarrow> time \<Rightarrow> time \<Rightarrow> http_request \<Rightarrow> database handler" where
  "login_controller C E production R now dbnow req =
     respond (token_response E production ''Login successful'')
       (login C E (en_bytes R) (en_uuid R) (en_family R) now dbnow (body_text ''email'' req) (body_text ''password'' req))"

definition refresh_controller ::
  "crypto \<Rightarrow> env \<Rightarrow> bool \<Rightarrow> (refresh_token list \<Rightarrow> refresh_token list) \<Rightarrow> interference \<Rightarrow> entropy \<Rightarrow> time \<Rightarrow> time
     \<Rightarrow> http_request \<Rightarrow> database handler" where
  "refresh_controller C E production W I R now dbnow req =
     respond (token_response E production ''Token refreshed successfully'')
       (refreshAccessToken C E W I (en_bytes R) (en_iv R) (en_uuid R) now dbnow (cookie_token req))"

definition logout_controller :: "crypto \<Rightarrow> env \<Rightarrow> bool \<Rightarrow> interference \<Rightarrow> http_request \<Rightarrow> (database \<times> redis) handler" where
  "logout_controller C E production I req =
     respond (\<lambda>_. (response JNull ''Logged out successfully'' 200)\<lparr>res_cookies := [refresh_cookie E production None]\<rparr>)
       (if cookie_token req \<noteq> [] then logout C I (cookie_token req) else (\<lambda>st. (Inr (), st)))"

definition register_input_of :: "http_request \<Rightarrow> register_input" where
  "register_input_of req = \<lparr>ri_name = body_text ''name'' req, ri_email = body_text ''email'' req,
     ri_password = body_text ''password'' req, ri_registrationToken = body_opt ''registrationToken'' req\<rparr>"

definition register_controller ::
  "crypto \<Rightarrow> env \<Rightarrow> (string \<Rightarrow> string) \<Rightarrow> entropy \<Rightarrow> time \<Rightarrow> time \<Rightarrow> http_request \<Rightarrow> database handler" where
  "register_controller C E lower R now dbnow req =
     respond (\<lambda>u. response (JObj [(''user'', toUserResponse (user_json u))])
         (if settings_mode E = Otp then ''User registered successfully. You can now log in.''
          else ''User registered successfully. Please check your email to verify your account.'') 201)
       (register C E lower (en_bytes R) (en_uuid R) now dbnow (register_input_of req))"

text \<open>Without a token in the query the database client refuses the lookup.\<close>

definition verify_email_controller :: "time \<Rightarrow> time \<Rightarrow> http_request \<Rightarrow> database handler" where
  "verify_email_controller now dbnow req =
     respond (\<lambda>_. response JNull ''Email verified successfully'' 200)
       (case map_of (req_query req) ''token'' of
          None \<Rightarrow> (\<lambda>db. (Inl not_a_key, db)) | Some token \<Rightarrow> verifyEmail now dbnow token)"

definition request_reset_controller :: "env \<Rightarrow> entropy \<Rightarrow> time \<Rightarrow> time \<Rightarrow> http_request \<Rightarrow> database handler" where
  "request_reset_controller E R now dbnow req =
     respond (\<lambda>_. response JNull ''If email exists, a reset link has been sent'' 200)
       (requestPasswordReset E (en_bytes R) (en_uuid R) now dbnow (body_text ''email'' req))"

definition reset_controller :: "crypto \<Rightarrow> interference \<Rightarrow> time \<Rightarrow> http_request \<Rightarrow> database handler" where
  "reset_controller C I now req =
     respond (\<lambda>_. response JNull ''Password reset successfully'' 200)
       (resetPassword C I now (body_text ''token'' req) (body_text ''newPassword'' req))"

definition send_otp_controller ::
  "crypto \<Rightarrow> env \<Rightarrow> (string \<Rightarrow> string) \<Rightarrow> nat \<Rightarrow> entropy \<Rightarrow> time \<Rightarrow> http_request \<Rightarrow> database handler" where
  "send_otp_controller C E lower n R now req =
     respond (\<lambda>_. response JNull ''Verification code sent to your email'' 200)
       (sendCode C E lower n (en_uuid R) now (body_text ''email'' req))"

definition verify_otp_controller ::
  "crypto \<Rightarrow> env \<Rightarrow> (email_otp list \<Rightarrow> email_otp list) \<Rightarrow> time \<Rightarrow> time \<Rightarrow> http_request \<Rightarrow> database handler" where
  "verify_otp_controller C E W now jsnow req =
     respond (\<lambda>t. response (JObj [(''registrationToken'', JStr t)])
         (''Email verified. Complete your registration within '' @ show_nat (OTP_VERIFIED_WINDOW_MINUTES E) @ '' minutes.'') 200)
       (verifyCode C E W now jsnow (body_text ''email'' req) (body_text ''code'' req))"

section \<open>Only permitted users have an effect\<close>

lemma respond_Inr: "respond f m s = (Inr x, s') \<longleftrightarrow> (\<exists>y. m s = (Inr y, s') \<and> x = f y)"
  by (auto simp: respond_def split: prod.splits sum.splits)

lemma respond_snd [simp]: "snd (respond f m s) = snd (m s)"
  by (auto simp: respond_def split: prod.splits sum.splits)

lemma checkPermission_passed:
  assumes "rbac_inv \<lparr>rs_db = db, rs_redis = s, rs_flights = fs, rs_pending = 0\<rparr>" and "redis_up s"
    and "checkPermission permission None sub now db s = (Inr u, s')"
  shows "\<exists>userId. sub = Some userId \<and> access_decision permission userId db = Inr ()"
proof -
  obtain userId where u: "sub = Some userId" "userId \<noteq> 0"
    using assms(3) by (auto simp: checkPermission_def resolveRole_def grants_def Let_def split: option.splits if_splits)
  have "fst (resolveRole None (Some userId) now db s)
      = (case stored_access userId db of None \<Rightarrow> Inl unauthorized | Some d \<Rightarrow> role_of d)"
    using resolveRole_fresh [OF assms(1) _ _ u(2), of now] assms(2) by simp
  with assms(3) u have "access_decision permission userId db = Inr ()"
    by (auto simp: checkPermission_def access_decision_def grants_def Let_def case_prod_beta split: option.splits)
  with u(1) show ?thesis by blast
qed

lemma protected_passed:
  assumes "rbac_inv \<lparr>rs_db = app_db a, rs_redis = app_redis a, rs_flights = fs, rs_pending = 0\<rparr>"
    and "redis_up (app_redis a)"
    and "protected C E now permission h req a = (r, a')"
    and "(\<exists>x. r = Inr x) \<or> app_db a' \<noteq> app_db a \<or> app_files a' \<noteq> app_files a"
  shows "\<exists>sub userId. jwt_verify C (bearer_token (req_authorization req)) (JWT_ACCESS_SECRET E) now = Some sub
    \<and> sub_number sub = Some userId \<and> access_decision permission userId (app_db a) = Inr ()"
proof -
  obtain req1 s where au: "authMiddleware C E now req = Inr req1"
    and cp: "checkPermission permission None (req_sub req1) now (app_db a) (app_redis a) = (Inr (), s)"
    using assms(3,4) by (auto simp: protected_def split: sum.splits prod.splits)
  obtain sub where "jwt_verify C (bearer_token (req_authorization req)) (JWT_ACCESS_SECRET E) now = Some sub"
    and "req_sub req1 = sub_number sub"
    using au by (auto simp: authMiddleware_def Let_def split: if_splits option.splits)
  with checkPermission_passed [OF assms(1,2) cp] show ?thesis by auto
qed

definition demo_auditor :: role where
  "demo_auditor = demo_admin_role\<lparr>role_access := JArr [JStr ''module.master-data.role.index'']\<rparr>"

definition demo_audit_app :: app where
  "demo_audit_app = demo_app\<lparr>app_db := demo_rbac_db\<lparr>roles := [demo_auditor]\<rparr>\<rparr>"

definition demo_request :: http_request where
  "demo_request = (plain_request ''GET'' ''/'')\<lparr>req_authorization := Some ''Bearer 1.secret''\<rparr>"

lemma demo_request_authorized:
  "authMiddleware demo_crypto default_env 5 demo_request = Inr (demo_request\<lparr>req_sub := Some 1\<rparr>)"
proof -
  have b: "bearer_token (req_authorization demo_request) = ''1.secret''"
    using bearer_token_of [of "''1.secret''"] by (simp add: demo_request_def)
  have one: "show_nat 1 = ''1''" by code_simp
  have "jwt_verify demo_crypto ''1.secret'' (JWT_ACCESS_SECRET default_env) 5 = Some (show_nat 1)"
    unfolding one by (simp add: demo_crypto_def default_env_def suffix_def)
  then show ?thesis by (simp add: authMiddleware_def b)
qed

end
