(* ===== verification/Routing.thy ===== *)
theory Routing
  imports Http
begin

text \<open>
  Express as the routes use it: middleware run in order, a router that tries its entries in order,
  routers mounted under a path prefix.
  A path is given decoded; matching ignores case and a final slash, a parameter takes one segment.
\<close>

section \<open>Stages\<close>

text \<open>\<open>Next\<close> is \<^verbatim>\<open>next()\<close>, \<open>Next_route\<close> is \<^verbatim>\<open>next('route')\<close>, \<open>Raise\<close> is \<^verbatim>\<open>next(err)\<close>.\<close>

datatype outcome =
    Next http_request
  | Next_route
  | Send http_response
  | Raise raised

type_synonym stage = "http_request \<Rightarrow> app \<Rightarrow> outcome \<times> app"

fun run_stages :: "stage list \<Rightarrow> stage" where
  "run_stages [] req a = (Next req, a)"
| "run_stages (s # ss) req a = (case s req a of (Next req1, a1) \<Rightarrow> run_stages ss req1 a1 | r \<Rightarrow> r)"

definition guard :: "(http_request \<Rightarrow> error + http_request) \<Rightarrow> stage" where
  "guard g req a = (case g req of Inl e \<Rightarrow> (Raise (Service e), a) | Inr req1 \<Rightarrow> (Next req1, a))"

definition handle :: "(http_request \<Rightarrow> app handler) \<Rightarrow> stage" where
  "handle h req a = (case h req a of (Inl e, a1) \<Rightarrow> (Raise (Service e), a1) | (Inr res, a1) \<Rightarrow> (Send res, a1))"

definition handle_db :: "(http_request \<Rightarrow> database handler) \<Rightarrow> stage" where
  "handle_db h = handle (\<lambda>req. in_db (h req))"

section \<open>Routers\<close>

definition path_segments :: "string \<Rightarrow> string list" where
  "path_segments path =
     (let p = (if path \<noteq> [] \<and> hd path = CHR ''/'' then tl path else path)
      in if p = [] then [] else split_on (CHR ''/'') (if last p = CHR ''/'' then butlast p else p))"

text \<open>A pattern is a list of segments; one that begins with a colon is a parameter.\<close>

fun match_path :: "string list \<Rightarrow> string list \<Rightarrow> (string \<times> string) list option" where
  "match_path [] [] = Some []"
| "match_path (p # ps) (s # ss) =
     (if p \<noteq> [] \<and> hd p = CHR '':''
      then (if s = [] then None else map_option (\<lambda>bs. (tl p, s) # bs) (match_path ps ss))
      else if toLowerCase s = toLowerCase p then match_path ps ss else None)"
| "match_path ps ss = None"

text \<open>A router mounted under a path answers the path itself and everything below it; the path is taken
  off before the router sees the request.\<close>

definition mount_path :: "string \<Rightarrow> string \<Rightarrow> string option" where
  "mount_path base path =
     (if toLowerCase (take (length base) path) \<noteq> toLowerCase base then None
      else case drop (length base) path of
             [] \<Rightarrow> Some ''/''
           | c # cs \<Rightarrow> if c = CHR ''/'' then Some (c # cs) else None)"

datatype entry =
    Use stage
  | Route string "string list" "stage list"
  | Mount string stage

text \<open>A GET route also answers HEAD.\<close>

definition answers :: "string \<Rightarrow> http_request \<Rightarrow> bool" where
  "answers method req = (req_method req = method \<or> req_method req = ''HEAD'' \<and> method = ''GET'')"

definition run_entry :: "entry \<Rightarrow> stage" where
  "run_entry en req a = (case en of
     Use s \<Rightarrow> s req a
   | Route method pattern ss \<Rightarrow>
       (case match_path pattern (path_segments (req_path req)) of
          Some bs \<Rightarrow> if answers method req
            then (case run_stages ss (req\<lparr>req_params := bs\<rparr>) a of
                    (Next_route, a1) \<Rightarrow> (Next req, a1) | r \<Rightarrow> r)
            else (Next req, a)
        | None \<Rightarrow> (Next req, a))
   | Mount base s \<Rightarrow>
       (case mount_path base (req_path req) of
          Some rest \<Rightarrow>
            (case s (req\<lparr>req_path := rest\<rparr>) a of
               (Next req1, a1) \<Rightarrow> (Next (req1\<lparr>req_path := req_path req\<rparr>), a1) | r \<Rightarrow> r)
        | None \<Rightarrow> (Next req, a)))"

definition router :: "entry list \<Rightarrow> stage" where
  "router entries = run_stages (map run_entry entries)"

end
