(* ===== verification/Rate_Limit.thy ===== *)
theory Rate_Limit
  imports Routing
begin

text \<open>
  The rate limiters (\<^verbatim>\<open>src/middleware/rate-limit.middleware.ts\<close>): one counter per limiter and client
  address in the shared Redis. The store of the limiter library is a parameter with the contract
  \<open>rate_store\<close>, its documented behaviour: the first request of a window sets the counter to one with
  the expiry of the window, later ones add one and keep the expiry, other keys are not touched, and
  an unreachable server is an error. A request is refused when the counter exceeds the limit.
\<close>

section \<open>The contract of the store\<close>

type_synonym increment = "string \<Rightarrow> nat \<Rightarrow> time \<Rightarrow> (redis, int) tx"

locale rate_store =
  fixes increment :: increment
  assumes unreachable: "\<not> redis_up s \<Longrightarrow> \<exists>e. increment key w now s = Inl e"
    and opens: "redis_up s \<Longrightarrow> live_value s now key = None
      \<Longrightarrow> \<exists>s'. increment key w now s = Inr (1, s') \<and> kv s' key = Some (JNum 1, Some (now + int w))"
    and adds: "redis_up s \<Longrightarrow> kv s key = Some (JNum n, Some e) \<Longrightarrow> now < e
      \<Longrightarrow> \<exists>s'. increment key w now s = Inr (n + 1, s') \<and> kv s' key = Some (JNum (n + 1), Some e)"
    and other_keys: "increment key w now s = Inr (n, s') \<Longrightarrow> k \<noteq> key \<Longrightarrow> kv s' k = kv s k"
    and stays_up: "increment key w now s = Inr (n, s') \<Longrightarrow> redis_up s'"

section \<open>The limiters\<close>

record limiter =
  lim_name :: string
  lim_windowMs :: nat
  lim_max :: nat

text \<open>\<^verbatim>\<open>options.windowMs || 15 * 60 * 1000\<close> and \<^verbatim>\<open>options.max || 100\<close>.\<close>

definition createRateLimiter :: "string \<Rightarrow> nat option \<Rightarrow> nat option \<Rightarrow> limiter" where
  "createRateLimiter name windowMs limit = \<lparr>lim_name = name,
     lim_windowMs = (case truthy_nat windowMs of None \<Rightarrow> 15 * 60 * 1000 | Some w \<Rightarrow> w),
     lim_max = (case truthy_nat limit of None \<Rightarrow> 100 | Some m \<Rightarrow> m)\<rparr>"

definition apiRateLimiter :: limiter where
  "apiRateLimiter = createRateLimiter ''api'' (Some (15 * 60 * 1000)) (Some 1000)"

definition authRateLimiter :: "bool \<Rightarrow> limiter" where
  "authRateLimiter isProduction =
     createRateLimiter ''auth'' (Some (15 * 60 * 1000)) (Some (if isProduction then 50 else 1000))"

definition loginRateLimiter :: "bool \<Rightarrow> limiter" where
  "loginRateLimiter isProduction =
     createRateLimiter ''login'' (Some (15 * 60 * 1000)) (Some (if isProduction then 10 else 1000))"

definition registerRateLimiter :: "bool \<Rightarrow> limiter" where
  "registerRateLimiter isProduction =
     createRateLimiter ''register'' (Some (60 * 60 * 1000)) (Some (if isProduction then 20 else 1000))"

definition requestPasswordResetRateLimiter :: "bool \<Rightarrow> limiter" where
  "requestPasswordResetRateLimiter isProduction =
     createRateLimiter ''password-reset-request'' (Some (15 * 60 * 1000)) (Some (if isProduction then 5 else 1000))"

definition resetPasswordRateLimiter :: "bool \<Rightarrow> limiter" where
  "resetPasswordRateLimiter isProduction =
     createRateLimiter ''password-reset'' (Some (15 * 60 * 1000)) (Some (if isProduction then 10 else 1000))"

definition sendOtpRateLimiter :: "bool \<Rightarrow> limiter" where
  "sendOtpRateLimiter isProduction =
     createRateLimiter ''otp-send'' (Some (15 * 60 * 1000)) (Some (if isProduction then 5 else 1000))"

definition verifyOtpRateLimiter :: "bool \<Rightarrow> limiter" where
  "verifyOtpRateLimiter isProduction =
     createRateLimiter ''otp-verify'' (Some (15 * 60 * 1000)) (Some (if isProduction then 20 else 1000))"

definition rate_limiters :: "bool \<Rightarrow> limiter list" where
  "rate_limiters isProduction = [apiRateLimiter, authRateLimiter isProduction, loginRateLimiter isProduction,
     registerRateLimiter isProduction, requestPasswordResetRateLimiter isProduction,
     resetPasswordRateLimiter isProduction, sendOtpRateLimiter isProduction, verifyOtpRateLimiter isProduction]"

lemmas limiter_defs = createRateLimiter_def apiRateLimiter_def authRateLimiter_def loginRateLimiter_def
  registerRateLimiter_def requestPasswordResetRateLimiter_def resetPasswordRateLimiter_def
  sendOtpRateLimiter_def verifyOtpRateLimiter_def truthy_nat_def

text \<open>The prefix \<^verbatim>\<open>rl:${options.name}:\<close> before the key of the client.\<close>

definition limit_key :: "limiter \<Rightarrow> string \<Rightarrow> string" where
  "limit_key L ip = ''rl:'' @ lim_name L @ '':'' @ ip"

definition too_many_requests :: http_response where
  "too_many_requests = \<lparr>res_status = 429, res_body = JObj [(''success'', JBool False),
     (''message'', JStr ''Too many requests, please try again later.'')], res_cookies = []\<rparr>"

text \<open>\<open>client\<close> is the default key of the library: it counts an IPv4 address by itself and an IPv6 address
  together with its subnet.\<close>

type_synonym client_key = "string \<Rightarrow> string"

definition limited :: "increment \<Rightarrow> client_key \<Rightarrow> limiter \<Rightarrow> time \<Rightarrow> stage" where
  "limited increment client L now req a =
     (case increment (limit_key L (client (req_ip req))) (lim_windowMs L) now (app_redis a) of
        Inl e \<Rightarrow> (Raise (Service e), a)
      | Inr (hits, s) \<Rightarrow>
          (if hits > int (lim_max L) then Send too_many_requests else Next req, a\<lparr>app_redis := s\<rparr>))"

section \<open>Every limiter has its own counters\<close>

lemma limiter_names: "distinct (map lim_name (rate_limiters p))"
  by (simp add: rate_limiters_def limiter_defs)

lemma limiter_name_plain: "L \<in> set (rate_limiters p) \<Longrightarrow> CHR '':'' \<notin> set (lim_name L)"
  by (auto simp: rate_limiters_def limiter_defs)

lemma split_at_sep: "x \<notin> set u \<Longrightarrow> x \<notin> set v \<Longrightarrow> u @ x # s = v @ x # t \<longleftrightarrow> u = v \<and> s = t"
proof (induction u arbitrary: v)
  case Nil
  then show ?case by (cases v) auto
next
  case (Cons y u)
  then show ?case by (cases v) auto
qed

lemma limit_key_inj:
  assumes "L \<in> set (rate_limiters p)" and "M \<in> set (rate_limiters p)"
  shows "limit_key L ip = limit_key M addr \<longleftrightarrow> L = M \<and> ip = addr"
proof -
  have "limit_key L ip = limit_key M addr \<longleftrightarrow> lim_name L = lim_name M \<and> ip = addr"
    using split_at_sep [OF limiter_name_plain [OF assms(1)] limiter_name_plain [OF assms(2)]] by (simp add: limit_key_def)
  moreover have "lim_name L = lim_name M \<longleftrightarrow> L = M"
    using limiter_names [of p] assms by (auto simp: distinct_map inj_on_def)
  ultimately show ?thesis by simp
qed

lemma limiter_window: "L \<in> set (rate_limiters p) \<Longrightarrow> 0 < lim_windowMs L \<and> 0 < lim_max L"
  by (auto simp: rate_limiters_def limiter_defs)

section \<open>Requests in a window\<close>

text \<open>Requests arriving at limiters, each with its time: the outcomes in order.\<close>

type_synonym arrival = "limiter \<times> http_request \<times> time"

fun arrive :: "increment \<Rightarrow> client_key \<Rightarrow> arrival list \<Rightarrow> app \<Rightarrow> outcome list \<times> app" where
  "arrive increment client [] a = ([], a)"
| "arrive increment client ((L, req, now) # es) a =
     (let (r, a1) = limited increment client L now req a; (rs, a2) = arrive increment client es a1 in (r # rs, a2))"

definition at_counter :: "client_key \<Rightarrow> limiter \<Rightarrow> string \<Rightarrow> arrival \<Rightarrow> bool" where
  "at_counter client L ip = (\<lambda>(M, req, t). M = L \<and> client (req_ip req) = ip)"

definition is_next :: "outcome \<Rightarrow> bool" where
  "is_next r = (case r of Next req \<Rightarrow> True | _ \<Rightarrow> False)"

definition let_through :: "increment \<Rightarrow> client_key \<Rightarrow> limiter \<Rightarrow> string \<Rightarrow> arrival list \<Rightarrow> app \<Rightarrow> nat" where
  "let_through increment client L ip es a =
     length (filter (\<lambda>(e, r). at_counter client L ip e \<and> is_next r) (zip es (fst (arrive increment client es a))))"

definition arrivals_at :: "client_key \<Rightarrow> limiter \<Rightarrow> string \<Rightarrow> arrival list \<Rightarrow> nat" where
  "arrivals_at client L ip es = length (filter (at_counter client L ip) es)"

lemma let_through_Cons:
  "let_through increment client L ip ((M, req, now) # es) a =
     (if at_counter client L ip (M, req, now) \<and> is_next (fst (limited increment client M now req a)) then 1 else 0)
       + let_through increment client L ip es (snd (limited increment client M now req a))"
  by (simp add: let_through_def case_prod_beta Let_def)

lemma arrivals_at_Cons: "arrivals_at client L ip (e # es) = (if at_counter client L ip e then 1 else 0) + arrivals_at client L ip es"
  by (simp add: arrivals_at_def)

lemma let_through_Nil [simp]: "let_through increment client L ip [] a = 0" "arrivals_at client L ip [] = 0"
  by (simp_all add: let_through_def arrivals_at_def)

context rate_store
begin

lemma limited_other:
  assumes "limit_key M (client (req_ip req)) \<noteq> key"
  shows "kv (app_redis (snd (limited increment client M now req a))) key = kv (app_redis a) key
    \<and> (redis_up (app_redis a) \<longrightarrow> redis_up (app_redis (snd (limited increment client M now req a))))"
proof (cases "increment (limit_key M (client (req_ip req))) (lim_windowMs M) now (app_redis a)")
  case (Inr p)
  then obtain n s where "increment (limit_key M (client (req_ip req))) (lim_windowMs M) now (app_redis a) = Inr (n, s)" by (cases p) simp
  with other_keys [OF this assms [symmetric]] stays_up [OF this] show ?thesis by (simp add: limited_def)
qed (simp add: limited_def)

lemma limited_open:
  assumes "redis_up (app_redis a)" and "kv (app_redis a) (limit_key L (client (req_ip req))) = Some (JNum (int n), Some e)" and "now < e"
  shows "is_next (fst (limited increment client L now req a)) = (n < lim_max L)
    \<and> redis_up (app_redis (snd (limited increment client L now req a)))
    \<and> kv (app_redis (snd (limited increment client L now req a))) (limit_key L (client (req_ip req))) = Some (JNum (int (Suc n)), Some e)"
proof -
  obtain s where i: "increment (limit_key L (client (req_ip req))) (lim_windowMs L) now (app_redis a) = Inr (int n + 1, s)"
    and k: "kv s (limit_key L (client (req_ip req))) = Some (JNum (int n + 1), Some e)"
    using adds [OF assms] by blast
  with stays_up [OF i] show ?thesis by (auto simp: limited_def is_next_def)
qed

lemma limited_first:
  assumes "redis_up (app_redis a)" and "live_value (app_redis a) now (limit_key L (client (req_ip req))) = None" and "0 < lim_max L"
  shows "is_next (fst (limited increment client L now req a))
    \<and> redis_up (app_redis (snd (limited increment client L now req a)))
    \<and> kv (app_redis (snd (limited increment client L now req a))) (limit_key L (client (req_ip req)))
        = Some (JNum (int 1), Some (now + int (lim_windowMs L)))"
proof -
  obtain s where i: "increment (limit_key L (client (req_ip req))) (lim_windowMs L) now (app_redis a) = Inr (1, s)"
    and k: "kv s (limit_key L (client (req_ip req))) = Some (JNum 1, Some (now + int (lim_windowMs L)))"
    using opens [OF assms(1,2)] by blast
  with stays_up [OF i] assms(3) show ?thesis by (simp add: limited_def is_next_def)
qed

lemma arrive_open:
  assumes "redis_up (app_redis a)" and "kv (app_redis a) (limit_key L ip) = Some (JNum (int n), Some e)"
    and "L \<in> set (rate_limiters p)"
    and "\<forall>(M, req, t) \<in> set es. M \<in> set (rate_limiters p) \<and> t < e"
  shows "let_through increment client L ip es a = min (lim_max L - n) (arrivals_at client L ip es)"
  using assms
proof (induction es arbitrary: a n)
  case (Cons x es)
  obtain M req now where x: "x = (M, req, now)" by (cases x) simp
  let ?a = "snd (limited increment client M now req a)"
  have M: "M \<in> set (rate_limiters p)" "now < e" using Cons.prems(4) x by simp_all
  have es: "\<forall>(M, req, t) \<in> set es. M \<in> set (rate_limiters p) \<and> t < e"
    using Cons.prems(4) by simp
  show ?case
  proof (cases "at_counter client L ip x")
    case True
    then have L: "M = L" "client (req_ip req) = ip" by (simp_all add: at_counter_def x)
    have k: "kv (app_redis a) (limit_key L (client (req_ip req))) = Some (JNum (int n), Some e)" using Cons.prems(2) L by simp
    from limited_open [where client = client, OF Cons.prems(1) k M(2)] L
    have "is_next (fst (limited increment client M now req a)) = (n < lim_max L)" "redis_up (app_redis ?a)"
      "kv (app_redis ?a) (limit_key L ip) = Some (JNum (int (Suc n)), Some e)" by simp_all
    with Cons.IH [OF this(2,3) Cons.prems(3) es] True show ?thesis
      by (auto simp: x let_through_Cons arrivals_at_Cons)
  next
    case False
    then have "limit_key M (client (req_ip req)) \<noteq> limit_key L ip"
      using limit_key_inj [OF M(1) Cons.prems(3)] by (simp add: at_counter_def x)
    from limited_other [where client = client, OF this, of now a] Cons.prems(1,2)
    have "redis_up (app_redis ?a)" "kv (app_redis ?a) (limit_key L ip) = Some (JNum (int n), Some e)" by simp_all
    from Cons.IH [OF this Cons.prems(3) es] False show ?thesis
      by (simp add: x let_through_Cons arrivals_at_Cons)
  qed
qed simp

lemma arrive_window:
  assumes "redis_up (app_redis a)" and "live_value (app_redis a) t0 (limit_key L ip) = None"
    and "L \<in> set (rate_limiters p)"
    and "\<forall>(M, req, t) \<in> set es. M \<in> set (rate_limiters p) \<and> t0 \<le> t \<and> t < t0 + int (lim_windowMs L)"
  shows "let_through increment client L ip es a = min (lim_max L) (arrivals_at client L ip es)"
  using assms
proof (induction es arbitrary: a)
  case (Cons x es)
  obtain M req now where x: "x = (M, req, now)" by (cases x) simp
  let ?a = "snd (limited increment client M now req a)" and ?w = "int (lim_windowMs L)"
  have M: "M \<in> set (rate_limiters p)" "t0 \<le> now" using Cons.prems(4) x by simp_all
  have es: "\<forall>(M, req, t) \<in> set es. M \<in> set (rate_limiters p) \<and> t0 \<le> t \<and> t < t0 + ?w"
    using Cons.prems(4) by simp
  show ?case
  proof (cases "at_counter client L ip x")
    case True
    then have L: "M = L" "client (req_ip req) = ip" by (simp_all add: at_counter_def x)
    have m: "0 < lim_max L" using limiter_window [OF Cons.prems(3)] by simp
    have "live_value (app_redis a) now (limit_key L (client (req_ip req))) = None"
      using Cons.prems(2) M(2) L by (auto simp: live_value_def split: option.splits if_splits)
    from limited_first [where client = client, OF Cons.prems(1) this m] L
    have a: "is_next (fst (limited increment client M now req a))" "redis_up (app_redis ?a)"
      "kv (app_redis ?a) (limit_key L ip) = Some (JNum (int 1), Some (now + ?w))" by simp_all
    have "\<forall>(M, req, t) \<in> set es. M \<in> set (rate_limiters p) \<and> t < now + ?w" using es M(2) by fastforce
    from arrive_open [OF a(2,3) Cons.prems(3) this] a(1) True m show ?thesis
      by (auto simp: x let_through_Cons arrivals_at_Cons)
  next
    case False
    then have "limit_key M (client (req_ip req)) \<noteq> limit_key L ip"
      using limit_key_inj [OF M(1) Cons.prems(3)] by (simp add: at_counter_def x)
    from limited_other [where client = client, OF this, of now a] Cons.prems(1,2)
    have "redis_up (app_redis ?a)" "live_value (app_redis ?a) t0 (limit_key L ip) = None"
      by (simp_all add: live_value_def)
    from Cons.IH [OF this Cons.prems(3) es] False show ?thesis
      by (simp add: x let_through_Cons arrivals_at_Cons)
  qed
qed simp

end

section \<open>The Redis store\<close>

text \<open>A store with this contract on the modelled Redis: one atomic script per request.\<close>

definition redis_increment :: increment where
  "redis_increment key w now s =
     (case cache_incr key now s of
        Inl e \<Rightarrow> Inl e
      | Inr (n, s1) \<Rightarrow> Inr (n, case live_value s now key of
            None \<Rightarrow> s1\<lparr>kv := (kv s1)(key := Some (JNum n, Some (now + int w)))\<rparr> | Some v \<Rightarrow> s1))"

interpretation redis_rate: rate_store redis_increment
proof unfold_locales
  fix s key w now n s' k e
  show "\<not> redis_up s \<Longrightarrow> \<exists>e. redis_increment key w now s = Inl e"
    by (simp add: redis_increment_def cache_incr_def)
  show "redis_up s \<Longrightarrow> live_value s now key = None
      \<Longrightarrow> \<exists>s'. redis_increment key w now s = Inr (1, s') \<and> kv s' key = Some (JNum 1, Some (now + int w))"
    by (simp add: redis_increment_def cache_incr_def)
  show "redis_up s \<Longrightarrow> kv s key = Some (JNum n, Some e) \<Longrightarrow> now < e
      \<Longrightarrow> \<exists>s'. redis_increment key w now s = Inr (n + 1, s') \<and> kv s' key = Some (JNum (n + 1), Some e)"
    by (simp add: redis_increment_def cache_incr_def live_value_def)
  assume i: "redis_increment key w now s = Inr (n, s')"
  show "k \<noteq> key \<Longrightarrow> kv s' k = kv s k" and "redis_up s'"
    using i by (auto simp: redis_increment_def cache_incr_def split: sum.splits option.splits if_splits json.splits)
qed

section \<open>The limit of a window\<close>

text \<open>C22. The limit of a window. Whatever mix of requests arrives at the eight limiters within one window of a
  limiter, of those from one client, whose counter was not running, exactly the first \<^verbatim>\<open>max\<close> on this
  limiter go on, all of them when they are fewer: traffic on other limiters and from other clients
  neither uses up nor extends the limit. A client is what the limiter library counts together: an
  IPv4 address, or the subnet of an IPv6 address. A stopped store lets nothing through.\<close>

theorem rate_limit_bound:
  assumes "rate_store increment" and "L \<in> set (rate_limiters isProduction)"
    and "live_value (app_redis a) t0 (limit_key L ip) = None"
    and "\<forall>(M, req, t) \<in> set arrivals. M \<in> set (rate_limiters isProduction) \<and> t0 \<le> t \<and> t < t0 + int (lim_windowMs L)"
  shows "(redis_up (app_redis a) \<longrightarrow> let_through increment client L ip arrivals a = min (lim_max L) (arrivals_at client L ip arrivals))
    \<and> (\<not> redis_up (app_redis a) \<longrightarrow> (\<exists>e. limited increment client L now req a = (Raise (Service e), a)))"
proof (intro conjI impI)
  assume up: "redis_up (app_redis a)"
  show "let_through increment client L ip arrivals a = min (lim_max L) (arrivals_at client L ip arrivals)"
    by (rule rate_store.arrive_window [OF assms(1) up assms(3,2,4)])
next
  assume "\<not> redis_up (app_redis a)"
  with rate_store.unreachable [OF assms(1)] obtain e
    where "increment (limit_key L (client (req_ip req))) (lim_windowMs L) now (app_redis a) = Inl e" by blast
  then show "\<exists>e. limited increment client L now req a = (Raise (Service e), a)" by (simp add: limited_def)
qed

text \<open>Two addresses of one subnet, a third of another one.\<close>

definition demo_client :: client_key where
  "demo_client ip = take 4 ip"

definition from_ip :: "string \<Rightarrow> string \<Rightarrow> http_request" where
  "from_ip ip path = (plain_request ''POST'' path)\<lparr>req_ip := ip\<rparr>"

definition demo_arrivals :: "arrival list" where
  "demo_arrivals = concat (replicate 7 [(loginRateLimiter True, from_ip ''2001:1'' ''/login'', 5),
     (registerRateLimiter True, from_ip ''2001:1'' ''/register'', 6), (loginRateLimiter True, from_ip ''2001:2'' ''/login'', 7),
     (loginRateLimiter True, from_ip ''2002:1'' ''/login'', 8)])"

lemma filter_rounds: "length (filter P (concat (replicate n xs))) = n * length (filter P xs)"
  by (induction n) simp_all

theorem rate_limit_bound_witness:
  "arrivals_at demo_client (loginRateLimiter True) ''2001'' demo_arrivals = 14
    \<and> let_through redis_increment demo_client (loginRateLimiter True) ''2001'' demo_arrivals demo_app = 10
    \<and> (\<exists>e. limited redis_increment demo_client (loginRateLimiter True) 5 (plain_request ''POST'' ''/login'') (demo_app\<lparr>app_redis := empty_redis\<lparr>redis_up := False\<rparr>\<rparr>)
        = (Raise (Service e), demo_app\<lparr>app_redis := empty_redis\<lparr>redis_up := False\<rparr>\<rparr>))"
proof -
  let ?down = "demo_app\<lparr>app_redis := empty_redis\<lparr>redis_up := False\<rparr>\<rparr>"
  have L: "loginRateLimiter True \<in> set (rate_limiters True)" by (simp add: rate_limiters_def)
  have w: "lim_windowMs (loginRateLimiter True) = 900000" "lim_max (loginRateLimiter True) = 10" by (simp_all add: limiter_defs)
  have es: "\<forall>(M, req, t) \<in> set demo_arrivals.
      M \<in> set (rate_limiters True) \<and> 5 \<le> t \<and> t < 5 + int (lim_windowMs (loginRateLimiter True))"
    by (simp add: demo_arrivals_def w rate_limiters_def)
  have n: "arrivals_at demo_client (loginRateLimiter True) ''2001'' demo_arrivals = 14"
    by (simp add: arrivals_at_def demo_arrivals_def filter_rounds at_counter_def from_ip_def plain_request_def demo_client_def limiter_defs)
  have "live_value (app_redis demo_app) 5 (limit_key (loginRateLimiter True) ''2001'') = None"
    and "live_value (app_redis ?down) 5 (limit_key (loginRateLimiter True) ''2001'') = None"
    and "redis_up (app_redis demo_app)" "\<not> redis_up (app_redis ?down)"
    by (simp_all add: demo_app_def empty_redis_def live_value_def)
  with rate_limit_bound [where client = demo_client and a = demo_app and ip = "''2001''", OF redis_rate.rate_store_axioms L _ es]
    rate_limit_bound [where client = demo_client and a = ?down and ip = "''2001''" and now = 5 and req = "plain_request ''POST'' ''/login''",
      OF redis_rate.rate_store_axioms L _ es] n w
  show ?thesis by simp
qed

end
