(* ===== verification/Paginator.thy ===== *)
theory Paginator
  imports Url "HOL-Library.Multiset"
begin

text \<open>
  Listings (\<^verbatim>\<open>src/utils/paginator.ts\<close>). The rows of a model are JSON objects. What a condition means
  to the database (\<open>matches\<close>), how it ranks the values of a column (\<open>rank\<close>, its collation) and
  Prisma's relation metadata (\<open>dmmf\<close>) are parameters; the clauses themselves are the data that the
  code builds. Numbers are exact, so \<open>page\<close> is the code's value below 2 to the power 53.
\<close>

section \<open>Numbers in a query string\<close>

definition hex_digits_value :: "string \<Rightarrow> nat" where
  "hex_digits_value s = foldl (\<lambda>n c. 16 * n + the (hex_value c)) 0 s"

text \<open>\<^verbatim>\<open>parseInt(s)\<close>; \<open>None\<close> is NaN.\<close>

definition parseInt :: "string \<Rightarrow> int option" where
  "parseInt s =
     (let t = dropWhile is_space s;
          (neg, u) = (case t of
             c # r \<Rightarrow> if c = CHR ''-'' then (True, r) else if c = CHR ''+'' then (False, r) else (False, t)
           | [] \<Rightarrow> (False, []));
          n = (if startsWith u ''0x'' \<or> startsWith u ''0X''
               then (let ds = takeWhile (\<lambda>c. hex_value c \<noteq> None) (drop 2 u)
                     in if ds = [] then None else Some (hex_digits_value ds))
               else (let ds = takeWhile is_digit u in if ds = [] then None else Some (read_nat ds)))
      in map_option (\<lambda>k. if neg then - int k else int k) n)"

text \<open>\<^verbatim>\<open>parseInt(s) || d\<close>.\<close>

definition int_or :: "string \<Rightarrow> int \<Rightarrow> int" where
  "int_or s d = (case parseInt s of None \<Rightarrow> d | Some n \<Rightarrow> if n = 0 then d else n)"

lemma show_nat_plain:
  "dropWhile is_space (show_nat n) = show_nat n" "takeWhile is_digit (show_nat n) = show_nat n"
  "\<not> startsWith (show_nat n) ''0x''" "\<not> startsWith (show_nat n) ''0X''"
  "hd (show_nat n) \<noteq> CHR ''-''" "hd (show_nat n) \<noteq> CHR ''+''"
proof -
  have d: "is_digit c" if "c \<in> set (show_nat n)" for c using show_nat_digits that .
  then have h: "is_digit (hd (show_nat n))" by simp
  have nsp: "\<not> is_space c" if "is_digit c" for c using that by (auto simp: is_digit_def is_space_def)
  from h nsp show "dropWhile is_space (show_nat n) = show_nat n" by (cases "show_nat n") auto
  from d show "takeWhile is_digit (show_nat n) = show_nat n" by (simp add: takeWhile_eq_all_conv)
  have x: "\<not> is_digit CHR ''x''" "\<not> is_digit CHR ''X''" by (simp_all add: is_digit_def char_code_def)
  then show "\<not> startsWith (show_nat n) ''0x''" "\<not> startsWith (show_nat n) ''0X''"
    using d by (auto simp: startsWith_def prefix_def)
  have "\<not> is_digit CHR ''-''" "\<not> is_digit CHR ''+''" by (simp_all add: is_digit_def char_code_def)
  with h show "hd (show_nat n) \<noteq> CHR ''-''" "hd (show_nat n) \<noteq> CHR ''+''" by auto
qed

lemma parseInt_show_nat [simp]: "parseInt (show_nat n) = Some (int n)"
proof -
  have s: "(case show_nat n of c # r \<Rightarrow> if c = CHR ''-'' then (True, r) else if c = CHR ''+'' then (False, r)
      else (False, show_nat n) | [] \<Rightarrow> (False, [])) = (False, show_nat n)"
    using show_nat_plain(5,6) [of n] by (cases "show_nat n") auto
  show ?thesis by (simp add: parseInt_def show_nat_plain s)
qed

section \<open>Conditions and orderings\<close>

datatype where_clause =
    Where json
  | WhereNot json json
  | Contains string string
  | Rel string where_clause
  | Some_rel string where_clause
  | AND "where_clause list"
  | OR "where_clause list"

datatype sort_dir = asc | desc

type_synonym ordering = "(string \<times> sort_dir) list"

record field_meta =
  fm_kind :: string
  fm_isList :: bool
  fm_type :: string

type_synonym dmmf = "string \<Rightarrow> (string \<times> field_meta) list option"

definition modelFields :: "dmmf \<Rightarrow> string \<Rightarrow> error + (string \<times> field_meta) list" where
  "modelFields dmmf modelName = (case dmmf modelName of
     None \<Rightarrow> Inl (ThrownError (''[paginator] Unknown Prisma model \"'' @ modelName @ ''\"''))
   | Some fs \<Rightarrow> Inr fs)"

text \<open>The hops of a path with the model they lead to.\<close>

fun walk_hops :: "dmmf \<Rightarrow> string \<Rightarrow> string \<Rightarrow> string list \<Rightarrow> error + (field_meta list \<times> string)" where
  "walk_hops dmmf path current [] = Inr ([], current)"
| "walk_hops dmmf path current (name # names) =
     (case modelFields dmmf current of
        Inl e \<Rightarrow> Inl e
      | Inr fs \<Rightarrow>
          (case map_of fs name of
             None \<Rightarrow> Inl (ThrownError (''[paginator] \"'' @ name @ ''\" is not a relation of '' @ current
                       @ '' (in \"'' @ path @ ''\")''))
           | Some meta \<Rightarrow>
               if fm_kind meta \<noteq> ''object''
               then Inl (ThrownError (''[paginator] \"'' @ name @ ''\" is not a relation of '' @ current
                       @ '' (in \"'' @ path @ ''\")''))
               else (case walk_hops dmmf path (fm_type meta) names of
                       Inl e \<Rightarrow> Inl e
                     | Inr (hops, last_model) \<Rightarrow> Inr (meta # hops, last_model))))"

definition wrap_hop :: "string \<times> field_meta \<Rightarrow> where_clause \<Rightarrow> where_clause" where
  "wrap_hop h c = (if fm_isList (snd h) then Some_rel (fst h) c else Rel (fst h) c)"

definition relationalCondition :: "dmmf \<Rightarrow> string \<Rightarrow> string \<Rightarrow> string \<Rightarrow> error + where_clause" where
  "relationalCondition dmmf modelName path search =
     (let segments = butlast (split_on CHR ''.'' path); leaf = last (split_on CHR ''.'' path)
      in case walk_hops dmmf path modelName segments of
           Inl e \<Rightarrow> Inl e
         | Inr (hops, current) \<Rightarrow>
             (case modelFields dmmf current of
                Inl e \<Rightarrow> Inl e
              | Inr fs \<Rightarrow>
                  if (case map_of fs leaf of None \<Rightarrow> True
                      | Some m \<Rightarrow> fm_kind m \<noteq> ''scalar'' \<or> fm_type m \<noteq> ''String'')
                  then Inl (ThrownError (''[paginator] \"'' @ leaf @ ''\" is not a String field of '' @ current
                         @ '' (in \"'' @ path @ ''\")''))
                  else Inr (foldr wrap_hop (zip segments hops) (Contains leaf search))))"

definition searchCondition :: "dmmf \<Rightarrow> string \<Rightarrow> string option \<Rightarrow> string \<Rightarrow> error + where_clause" where
  "searchCondition dmmf search modelName field =
     (if \<not> str_includes field ''.'' then Inr (Contains field search)
      else if \<not> truthy modelName
      then Inl (ThrownError (''[paginator] modelName is required for relational search field \"'' @ field @ ''\"''))
      else relationalCondition dmmf (the modelName) field search)"

fun searchConditions :: "dmmf \<Rightarrow> string list \<Rightarrow> string \<Rightarrow> string option \<Rightarrow> error + where_clause list" where
  "searchConditions dmmf [] search modelName = Inr []"
| "searchConditions dmmf (field # fs) search modelName =
     (case searchCondition dmmf search modelName field of
        Inl e \<Rightarrow> Inl e
      | Inr c \<Rightarrow> (case searchConditions dmmf fs search modelName of
                    Inl e \<Rightarrow> Inl e
                  | Inr cs \<Rightarrow> Inr (c # cs)))"

section \<open>Options and requests\<close>

record paginate_options =
  opt_where :: json
  opt_whereNot :: "json option"
  opt_select :: "json \<Rightarrow> json"
  opt_modelName :: "string option"
  opt_searchFields :: "string list"
  opt_allowedSorts :: "string list"
  opt_defaultSort :: string
  opt_defaultSortDir :: sort_dir
  opt_tieBreaker :: "string option"
  opt_transform :: "json \<Rightarrow> json"

definition default_options :: paginate_options where
  "default_options = \<lparr>opt_where = JObj [], opt_whereNot = None, opt_select = (\<lambda>r. r), opt_modelName = None,
     opt_searchFields = [], opt_allowedSorts = [''createdAt''], opt_defaultSort = ''createdAt'',
     opt_defaultSortDir = desc, opt_tieBreaker = Some ''id'', opt_transform = (\<lambda>r. r)\<rparr>"

text \<open>A query parameter that is repeated or nested is not a string: it is absent from \<open>rq_query\<close>.\<close>

record page_request =
  rq_query :: "(string \<times> string) list"
  rq_protocol :: string
  rq_host :: string
  rq_path :: string

definition param :: "page_request \<Rightarrow> string \<Rightarrow> string \<Rightarrow> string" where
  "param req name dflt = (case map_of (rq_query req) name of None \<Rightarrow> dflt | Some v \<Rightarrow> v)"

definition page_of :: "page_request \<Rightarrow> nat" where
  "page_of req = nat (max 1 (int_or (param req ''page'' ''1'') 1))"

definition perPage_of :: "page_request \<Rightarrow> nat" where
  "perPage_of req = nat (min 100 (max 1 (int_or (param req ''per_page'' ''15'') 15)))"

definition search_of :: "page_request \<Rightarrow> string option" where
  "search_of req = (case map_of (rq_query req) ''search'' of
     None \<Rightarrow> None | Some s \<Rightarrow> if trim s = [] then None else Some (trim s))"

definition sortBy_of :: "paginate_options \<Rightarrow> page_request \<Rightarrow> string" where
  "sortBy_of opts req =
     (let sortByParam = param req ''sort_by'' [] in
      if sortByParam \<in> set (opt_allowedSorts opts) then sortByParam else opt_defaultSort opts)"

definition sortDir_of :: "paginate_options \<Rightarrow> page_request \<Rightarrow> sort_dir" where
  "sortDir_of opts req =
     (let sortDirParam = param req ''sort_dir'' [] in
      if sortDirParam \<noteq> [] then (if sortDirParam = ''asc'' then asc else desc) else opt_defaultSortDir opts)"

definition orderBy_of :: "paginate_options \<Rightarrow> page_request \<Rightarrow> ordering" where
  "orderBy_of opts req =
     (sortBy_of opts req, sortDir_of opts req)
       # (case opt_tieBreaker opts of
            None \<Rightarrow> []
          | Some tb \<Rightarrow> if tb \<noteq> [] \<and> tb \<noteq> sortBy_of opts req then [(tb, sortDir_of opts req)] else [])"

definition baseWhereWithNot :: "paginate_options \<Rightarrow> where_clause" where
  "baseWhereWithNot opts = (case opt_whereNot opts of
     None \<Rightarrow> Where (opt_where opts) | Some w \<Rightarrow> WhereNot (opt_where opts) w)"

definition finalWhere :: "dmmf \<Rightarrow> paginate_options \<Rightarrow> page_request \<Rightarrow> error + where_clause" where
  "finalWhere dmmf opts req =
     (case search_of req of
        None \<Rightarrow> Inr (baseWhereWithNot opts)
      | Some search \<Rightarrow>
          if opt_searchFields opts = [] then Inr (baseWhereWithNot opts)
          else (case searchConditions dmmf (opt_searchFields opts) search (opt_modelName opts) of
                  Inl e \<Rightarrow> Inl e
                | Inr cs \<Rightarrow> Inr (AND [baseWhereWithNot opts, OR cs])))"

section \<open>Rows\<close>

text \<open>\<open>order_rows\<close> is a sort by the listed columns, the first one deciding; \<open>rank\<close> places a row in
  the ascending order of a column.\<close>

definition directed :: "sort_dir \<Rightarrow> int \<Rightarrow> int" where
  "directed d n = (case d of asc \<Rightarrow> n | desc \<Rightarrow> - n)"

fun order_rows :: "(string \<Rightarrow> json \<Rightarrow> int) \<Rightarrow> ordering \<Rightarrow> json list \<Rightarrow> json list" where
  "order_rows rank [] rows = rows"
| "order_rows rank ((f, d) # os) rows = sort_key (\<lambda>r. directed d (rank f r)) (order_rows rank os rows)"

definition findMany ::
  "(where_clause \<Rightarrow> json \<Rightarrow> bool) \<Rightarrow> (string \<Rightarrow> json \<Rightarrow> int) \<Rightarrow> where_clause \<Rightarrow> ordering \<Rightarrow> nat \<Rightarrow> nat
    \<Rightarrow> json list \<Rightarrow> json list" where
  "findMany matches rank w orderBy skip n rows =
     take n (drop skip (order_rows rank orderBy (filter (matches w) rows)))"

section \<open>The page\<close>

record page_meta =
  meta_total :: nat
  meta_per_page :: nat
  meta_current_page :: nat
  meta_last_page :: nat
  meta_from :: "nat option"
  meta_to :: "nat option"
  meta_path :: string
  meta_first_page_url :: string
  meta_last_page_url :: string
  meta_next_page_url :: "string option"
  meta_prev_page_url :: "string option"

record page_link =
  link_url :: "string option"
  link_label :: string
  link_active :: bool

record paginated_result =
  pg_data :: "json list"
  pg_meta :: page_meta
  pg_links :: "page_link list"

definition basePath :: "page_request \<Rightarrow> string" where
  "basePath req = rq_protocol req @ ''://'' @ rq_host req @ rq_path req"

definition buildUrl :: "page_request \<Rightarrow> nat \<Rightarrow> string" where
  "buildUrl req p =
     basePath req @ ''?'' @ URLSearchParams
       ([(''page'', show_nat p)]
        @ (if perPage_of req \<noteq> 15 then [(''per_page'', show_nat (perPage_of req))] else [])
        @ (case search_of req of None \<Rightarrow> [] | Some s \<Rightarrow> [(''search'', s)])
        @ (if param req ''sort_by'' [] \<noteq> [] then [(''sort_by'', param req ''sort_by'' [])] else [])
        @ (if param req ''sort_dir'' [] \<noteq> [] then [(''sort_dir'', param req ''sort_dir'' [])] else []))"

definition lastPage :: "nat \<Rightarrow> nat \<Rightarrow> nat" where
  "lastPage rowCount perPage = max 1 ((rowCount + perPage - 1) div perPage)"

definition page_links :: "page_request \<Rightarrow> nat \<Rightarrow> page_link list" where
  "page_links req lastp =
     (let page = page_of req in
      [\<lparr>link_url = (if 1 < page then Some (buildUrl req (page - 1)) else None),
        link_label = ''&laquo; Previous'', link_active = False\<rparr>]
      @ map (\<lambda>i. \<lparr>link_url = Some (buildUrl req (i + 1)), link_label = show_nat (i + 1),
                  link_active = (i + 1 = page)\<rparr>) [0..<lastp]
      @ [\<lparr>link_url = (if page < lastp then Some (buildUrl req (page + 1)) else None),
          link_label = ''Next &raquo;'', link_active = False\<rparr>])"

definition paginate ::
  "(where_clause \<Rightarrow> json \<Rightarrow> bool) \<Rightarrow> (string \<Rightarrow> json \<Rightarrow> int) \<Rightarrow> dmmf \<Rightarrow> paginate_options \<Rightarrow> page_request
    \<Rightarrow> json list \<Rightarrow> error + paginated_result" where
  "paginate matches rank dmmf opts req rows =
     (case finalWhere dmmf opts req of
        Inl e \<Rightarrow> Inl e
      | Inr w \<Rightarrow>
          (let page = page_of req; perPage = perPage_of req; skip = (page - 1) * perPage;
               data = findMany matches rank w (orderBy_of opts req) skip perPage rows;
               rowCount = count_where (matches w) rows;
               lastp = lastPage rowCount perPage
           in Inr \<lparr>pg_data = map (\<lambda>r. opt_transform opts (opt_select opts r)) data,
                pg_meta = \<lparr>meta_total = rowCount, meta_per_page = perPage, meta_current_page = page,
                  meta_last_page = lastp,
                  meta_from = (if rowCount = 0 then None else Some (skip + 1)),
                  meta_to = (if rowCount = 0 then None else Some (min (skip + perPage) rowCount)),
                  meta_path = basePath req, meta_first_page_url = buildUrl req 1,
                  meta_last_page_url = buildUrl req lastp,
                  meta_next_page_url = (if page < lastp then Some (buildUrl req (page + 1)) else None),
                  meta_prev_page_url = (if 1 < page then Some (buildUrl req (page - 1)) else None)\<rparr>,
                pg_links = page_links req lastp\<rparr>))"

section \<open>Orderings that do not depend on the physical order\<close>

lemma mset_order_rows [simp]: "mset (order_rows rank os rows) = mset rows"
  by (induction os) auto

lemma length_order_rows [simp]: "length (order_rows rank os rows) = length rows"
  by (metis mset_order_rows size_mset)

lemma set_order_rows [simp]: "set (order_rows rank os rows) = set rows"
  by (metis mset_order_rows set_mset_mset)

lemma inj_on_directed: "inj_on (\<lambda>r. directed d (rank f r)) S = inj_on (rank f) S"
  by (cases d) (simp_all add: directed_def inj_on_def)

lemma order_rows_stable:
  assumes "mset t = mset t'" and "os \<noteq> []" and "inj_on (rank (fst (last os))) (set t)"
  shows "order_rows rank os t = order_rows rank os t'"
  using assms(2,3)
proof (induction os)
  case (Cons o1 os)
  obtain f d where o1: "o1 = (f, d)" by (cases o1)
  show ?case
  proof (cases "os = []")
    case True
    with Cons.prems o1 have "inj_on (\<lambda>r. directed d (rank f r)) (set t)" by (simp add: inj_on_directed)
    then have "sort_key (\<lambda>r. directed d (rank f r)) t = sort_key (\<lambda>r. directed d (rank f r)) t'"
      using assms(1) by (intro sort_key_inj_key_eq) simp_all
    with True o1 show ?thesis by simp
  next
    case False
    with Cons o1 show ?thesis by simp
  qed
qed simp

lemma concat_pages: "concat (map (\<lambda>p. take n (drop (p * n) xs)) [0..<k]) = take (k * n) xs"
proof (induction k)
  case (Suc k)
  have "Suc k * n = k * n + n" by simp
  then have "take (Suc k * n) xs = take (k * n) xs @ take n (drop (k * n) xs)" by (simp only: take_add)
  with Suc show ?case by (simp del: mult_Suc)
qed simp

lemma lastPage_covers: "0 < n \<Longrightarrow> rowCount \<le> lastPage rowCount n * n"
proof -
  assume n: "0 < n"
  have "rowCount + n - 1 = (rowCount + n - 1) div n * n + (rowCount + n - 1) mod n" by simp
  moreover have "(rowCount + n - 1) mod n < n" using n by simp
  ultimately have "rowCount \<le> (rowCount + n - 1) div n * n" by linarith
  also have "\<dots> \<le> lastPage rowCount n * n" by (simp add: lastPage_def)
  finally show ?thesis .
qed

section \<open>Pages of one listing\<close>

text \<open>The request of a client for page \<open>p\<close> of a listing: the listing's own address and query, with this page number.\<close>

definition at_page :: "page_request \<Rightarrow> nat \<Rightarrow> page_request" where
  "at_page req p = req\<lparr>rq_query := (''page'', show_nat p) # filter (\<lambda>(k, _). k \<noteq> ''page'') (rq_query req)\<rparr>"

text \<open>The listing asked with the query of a link. A link also names an address, which inside a mounted
  router is not that of the listing: see \<open>listing_links_lead_away\<close> in the theory \<open>Api\<close>.\<close>

definition with_link_query :: "page_request \<Rightarrow> string \<Rightarrow> page_request" where
  "with_link_query req url = req\<lparr>rq_query := query_of url\<rparr>"

lemma map_of_filter_key: "k \<noteq> k' \<Longrightarrow> map_of (filter (\<lambda>(x, _). x \<noteq> k') ps) k = map_of ps k"
  by (induction ps) auto

lemma at_page_same:
  assumes "0 < p"
  shows "page_of (at_page req p) = p" and "perPage_of (at_page req p) = perPage_of req"
    and "orderBy_of opts (at_page req p) = orderBy_of opts req"
    and "finalWhere dmmf opts (at_page req p) = finalWhere dmmf opts req"
proof -
  have q: "map_of (rq_query (at_page req p)) k = (if k = ''page'' then Some (show_nat p) else map_of (rq_query req) k)" for k
    by (simp add: at_page_def map_of_filter_key)
  show "page_of (at_page req p) = p" using assms by (simp add: page_of_def param_def q int_or_def)
  show "perPage_of (at_page req p) = perPage_of req" by (simp add: perPage_of_def param_def q)
  have "sortBy_of opts (at_page req p) = sortBy_of opts req" "sortDir_of opts (at_page req p) = sortDir_of opts req"
    by (simp_all add: sortBy_of_def sortDir_of_def param_def q)
  then show "orderBy_of opts (at_page req p) = orderBy_of opts req" by (simp only: orderBy_of_def)
  have "search_of (at_page req p) = search_of req" by (simp add: search_of_def q)
  then show "finalWhere dmmf opts (at_page req p) = finalWhere dmmf opts req" by (simp only: finalWhere_def)
qed

lemma perPage_of_bounds: "0 < perPage_of req" "perPage_of req \<le> 100"
  by (auto simp: perPage_of_def)

lemma trim_trim [simp]: "trim (trim s) = trim s"
proof -
  have d: "dropWhile is_space (rev (trim s)) = rev (trim s)" by (simp add: trim_def)
  have "dropWhile is_space (trim s) = trim s"
  proof (cases "dropWhile is_space s")
    case Nil
    then have "trim s = []" by (simp only: trim_def) simp
    then show ?thesis by simp
  next
    case (Cons c cs)
    then have c: "\<not> is_space c" by (metis hd_dropWhile list.distinct(1) list.sel(1))
    have "dropWhile is_space (rev cs @ [c]) = dropWhile is_space (rev cs) @ [c]"
      using c by (simp add: dropWhile_append3)
    with Cons have "trim s = c # rev (dropWhile is_space (rev cs))" by (simp add: trim_def)
    with c show ?thesis by simp
  qed
  with d show ?thesis by (simp add: trim_def)
qed

lemma query_of_buildUrl:
  assumes "CHR ''?'' \<notin> set (basePath req)"
  shows "query_of (buildUrl req p) =
    [(''page'', show_nat p)]
      @ (if perPage_of req \<noteq> 15 then [(''per_page'', show_nat (perPage_of req))] else [])
      @ (case search_of req of None \<Rightarrow> [] | Some s \<Rightarrow> [(''search'', s)])
      @ (if param req ''sort_by'' [] \<noteq> [] then [(''sort_by'', param req ''sort_by'' [])] else [])
      @ (if param req ''sort_dir'' [] \<noteq> [] then [(''sort_dir'', param req ''sort_dir'' [])] else [])"
    (is "_ = ?ps")
proof -
  have "dropWhile (\<lambda>c. c \<noteq> CHR ''?'') (buildUrl req p) = ''?'' @ URLSearchParams ?ps"
    unfolding buildUrl_def using assms by (subst dropWhile_append2) auto
  then show ?thesis by (simp only: query_of_def) (simp add: parse_query_roundtrip)
qed

lemma link_query_same:
  assumes "CHR ''?'' \<notin> set (basePath req)" and "0 < p"
  shows "page_of (with_link_query req (buildUrl req p)) = p"
    and "perPage_of (with_link_query req (buildUrl req p)) = perPage_of req"
    and "search_of (with_link_query req (buildUrl req p)) = search_of req"
    and "param (with_link_query req (buildUrl req p)) ''sort_by'' [] = param req ''sort_by'' []"
    and "param (with_link_query req (buildUrl req p)) ''sort_dir'' [] = param req ''sort_dir'' []"
    and "basePath (with_link_query req (buildUrl req p)) = basePath req"
proof -
  let ?f = "with_link_query req (buildUrl req p)"
  have q: "map_of (rq_query ?f) ''page'' = Some (show_nat p)"
    "map_of (rq_query ?f) ''per_page'' = (if perPage_of req \<noteq> 15 then Some (show_nat (perPage_of req)) else None)"
    "map_of (rq_query ?f) ''search'' = search_of req"
    "map_of (rq_query ?f) ''sort_by'' = (if param req ''sort_by'' [] \<noteq> [] then Some (param req ''sort_by'' []) else None)"
    "map_of (rq_query ?f) ''sort_dir'' = (if param req ''sort_dir'' [] \<noteq> [] then Some (param req ''sort_dir'' []) else None)"
    by (simp_all add: with_link_query_def query_of_buildUrl [OF assms(1)] map_add_def split: option.splits)
  show "page_of ?f = p"
    using assms(2) by (simp add: page_of_def param_def q int_or_def)
  have "show_nat 15 = ''15''" by code_simp
  then have "parseInt ''15'' = Some 15" using parseInt_show_nat [of 15] by simp
  then show "perPage_of ?f = perPage_of req"
    using perPage_of_bounds [of req] by (simp add: perPage_of_def [of ?f] param_def q int_or_def)
  have "trim s = s" "s \<noteq> []" if "search_of req = Some s" for s
    using that by (auto simp: search_of_def split: option.splits if_splits)
  then show "search_of ?f = search_of req" by (auto simp: search_of_def [of ?f] q split: option.splits)
  show "param ?f ''sort_by'' [] = param req ''sort_by'' []" "param ?f ''sort_dir'' [] = param req ''sort_dir'' []"
    by (simp_all add: param_def [of ?f] q)
  show "basePath (with_link_query req (buildUrl req p)) = basePath req" by (simp add: with_link_query_def basePath_def)
qed

lemma link_query_listing:
  assumes "CHR ''?'' \<notin> set (basePath req)" and "0 < p"
  shows "orderBy_of opts (with_link_query req (buildUrl req p)) = orderBy_of opts req"
    and "finalWhere dmmf opts (with_link_query req (buildUrl req p)) = finalWhere dmmf opts req"
proof -
  have "sortBy_of opts (with_link_query req (buildUrl req p)) = sortBy_of opts req"
    "sortDir_of opts (with_link_query req (buildUrl req p)) = sortDir_of opts req"
    by (simp_all add: sortBy_of_def sortDir_of_def link_query_same [OF assms])
  then show "orderBy_of opts (with_link_query req (buildUrl req p)) = orderBy_of opts req" by (simp only: orderBy_of_def)
  show "finalWhere dmmf opts (with_link_query req (buildUrl req p)) = finalWhere dmmf opts req"
    by (simp add: finalWhere_def link_query_same [OF assms])
qed

lemma orderBy_last:
  assumes "opt_tieBreaker opts = Some tb" and "tb \<noteq> []"
  shows "fst (last (orderBy_of opts req)) = tb" and "orderBy_of opts req \<noteq> []"
  using assms by (simp_all add: orderBy_of_def)

definition rows_of :: "error + paginated_result \<Rightarrow> json list" where
  "rows_of r = (case r of Inl e \<Rightarrow> [] | Inr p \<Rightarrow> pg_data p)"

text \<open>C24. Requesting the pages of a listing one after the other, from the first to the last one that the
  answers name, gives every matching row exactly once and in order, at most a page size of rows (itself
  at most 100) at a time, although the sort column may have duplicates and the database may hold the rows
  in a different order at every request: the unique tie-breaker decides. \<open>tables p\<close> is the table as the
  request for page \<open>p\<close> finds it. The pages are requested by number at the address of the listing; the
  links in the answers are not used.\<close>

theorem pages_partition:
  assumes "finalWhere dmmf opts req = Inr w"
    and "opt_tieBreaker opts = Some tb" and "tb \<noteq> []" and "inj_on (rank tb) (set rows)"
    and "\<And>p. mset (tables p) = mset rows"
  shows "concat (map (\<lambda>p. rows_of (paginate matches rank dmmf opts (at_page req p) (tables p)))
           [1..<Suc (lastPage (count_where (matches w) rows) (perPage_of req))])
       = map (\<lambda>r. opt_transform opts (opt_select opts r))
           (order_rows rank (orderBy_of opts req) (filter (matches w) rows))
    \<and> (\<forall>p > 0. case paginate matches rank dmmf opts (at_page req p) (tables p) of
          Inl e \<Rightarrow> False
        | Inr r \<Rightarrow> meta_current_page (pg_meta r) = p \<and> meta_total (pg_meta r) = count_where (matches w) rows
            \<and> meta_last_page (pg_meta r) = lastPage (count_where (matches w) rows) (perPage_of req)
            \<and> length (pg_data r) \<le> perPage_of req)
    \<and> perPage_of req \<le> 100"
proof -
  let ?n = "perPage_of req" and ?v = "\<lambda>r. opt_transform opts (opt_select opts r)"
  let ?all = "order_rows rank (orderBy_of opts req) (filter (matches w) rows)"
  let ?k = "lastPage (count_where (matches w) rows) ?n"
  have same: "mset (filter (matches w) (tables p)) = mset (filter (matches w) rows)" for p
    using assms(5) by simp
  then have count: "count_where (matches w) (tables p) = count_where (matches w) rows" for p
    unfolding count_where_def by (metis size_mset)
  have page: "rows_of (paginate matches rank dmmf opts (at_page req (Suc p)) (tables (Suc p)))
      = map ?v (take ?n (drop (p * ?n) ?all))" for p
  proof -
    have "order_rows rank (orderBy_of opts req) (filter (matches w) (tables (Suc p))) = ?all"
    proof (rule order_rows_stable [OF same])
      have "set (tables (Suc p)) = set rows" using assms(5) by (rule mset_eq_setD)
      then show "inj_on (rank (fst (last (orderBy_of opts req)))) (set (filter (matches w) (tables (Suc p))))"
        using assms(4) by (auto simp: orderBy_last [OF assms(2,3)] intro: inj_on_subset)
    qed (rule orderBy_last [OF assms(2,3)])
    then show ?thesis by (simp add: rows_of_def paginate_def at_page_same assms(1) findMany_def Let_def)
  qed
  have up: "[1..<Suc ?k] = map Suc [0..<?k]" by (simp add: map_Suc_upt)
  have "concat (map (\<lambda>p. rows_of (paginate matches rank dmmf opts (at_page req p) (tables p))) [1..<Suc ?k])
      = map ?v (concat (map (\<lambda>p. take ?n (drop (p * ?n) ?all)) [0..<?k]))"
    unfolding up by (simp add: page comp_def map_concat)
  also have "\<dots> = map ?v ?all"
    using lastPage_covers [OF perPage_of_bounds(1) [of req], of "count_where (matches w) rows"]
    by (simp add: concat_pages count_where_def)
  finally show ?thesis
    using perPage_of_bounds(2) [of req]
    by (simp add: paginate_def at_page_same assms(1) findMany_def Let_def count)
qed

definition demo_role_row :: "int \<Rightarrow> string \<Rightarrow> json" where
  "demo_role_row i userType = JObj [(''id'', JNum i), (''userType'', JStr userType)]"

definition demo_rank :: "string \<Rightarrow> json \<Rightarrow> int" where
  "demo_rank f r = (case json_field f r of Some (JNum n) \<Rightarrow> n | Some (JStr s) \<Rightarrow> int (length s) | _ \<Rightarrow> 0)"

theorem pages_partition_witness:
  "concat (map (\<lambda>p. rows_of (paginate (\<lambda>w r. True) demo_rank (\<lambda>m. None) default_options
        (at_page \<lparr>rq_query = [(''per_page'', ''2'')], rq_protocol = ''http'', rq_host = ''x.io'', rq_path = ''/''\<rparr> p)
        (if p = 2 then [demo_role_row 3 ''a'', demo_role_row 1 ''a'', demo_role_row 2 ''a'']
         else [demo_role_row 1 ''a'', demo_role_row 2 ''a'', demo_role_row 3 ''a''])))
      [1..<3]) = [demo_role_row 3 ''a'', demo_role_row 2 ''a'', demo_role_row 1 ''a'']"
proof -
  let ?req = "\<lparr>rq_query = [(''per_page'', ''2'')], rq_protocol = ''http'', rq_host = ''x.io'', rq_path = ''/''\<rparr>"
  let ?rows = "[demo_role_row 1 ''a'', demo_role_row 2 ''a'', demo_role_row 3 ''a'']"
  have n: "perPage_of ?req = 2"
  proof -
    have "show_nat 2 = ''2''" by code_simp
    then have "parseInt ''2'' = Some 2" using parseInt_show_nat [of 2] by simp
    then show ?thesis by (simp add: perPage_of_def param_def int_or_def)
  qed
  have o: "orderBy_of default_options ?req = [(''createdAt'', desc), (''id'', desc)]"
    by (simp add: orderBy_of_def default_options_def sortBy_of_def sortDir_of_def param_def)
  have all: "order_rows demo_rank [(''createdAt'', desc), (''id'', desc)] ?rows
      = [demo_role_row 3 ''a'', demo_role_row 2 ''a'', demo_role_row 1 ''a'']"
    by (simp add: demo_rank_def demo_role_row_def json_field_def directed_def)
  have "concat (map (\<lambda>p. rows_of (paginate (\<lambda>w r. True) demo_rank (\<lambda>m. None) default_options
        (at_page ?req p) (if p = 2 then [demo_role_row 3 ''a'', demo_role_row 1 ''a'', demo_role_row 2 ''a''] else ?rows)))
      [1..<Suc (lastPage (count_where (\<lambda>r. True) ?rows) (perPage_of ?req))])
    = map (\<lambda>r. opt_transform default_options (opt_select default_options r))
        (order_rows demo_rank (orderBy_of default_options ?req) (filter (\<lambda>r. True) ?rows))"
    by (rule conjunct1 [OF pages_partition [where w = "baseWhereWithNot default_options" and tb = "''id''"]])
      (simp_all add: basePath_def finalWhere_def search_of_def default_options_def demo_rank_def
        demo_role_row_def json_field_def inj_on_def)
  moreover have "opt_transform default_options r = r" "opt_select default_options r = r" for r
    by (simp_all add: default_options_def)
  ultimately show ?thesis by (simp add: n o all lastPage_def numeral_3_eq_3 del: order_rows.simps)
qed

section \<open>Columns\<close>

text \<open>The column paths a condition searches.\<close>

fun searched :: "where_clause \<Rightarrow> string list list" where
  "searched (Contains f s) = [[f]]"
| "searched (Rel n c) = map ((#) n) (searched c)"
| "searched (Some_rel n c) = map ((#) n) (searched c)"
| "searched (AND cs) = concat (map searched cs)"
| "searched (OR cs) = concat (map searched cs)"
| "searched (Where w) = []"
| "searched (WhereNot w n) = []"

lemma walk_hops_length: "walk_hops dmmf path m names = Inr (hops, l) \<Longrightarrow> length hops = length names"
  by (induction dmmf path m names arbitrary: hops rule: walk_hops.induct)
    (auto split: sum.splits option.splits if_splits)

lemma searched_wrap:
  "length names = length hops \<Longrightarrow> searched (foldr wrap_hop (zip names hops) (Contains f s)) = [names @ [f]]"
  by (induction names hops rule: list_induct2) (simp_all add: wrap_hop_def)

lemma searched_relational:
  assumes "relationalCondition dmmf m path search = Inr c"
  shows "searched c = [split_on CHR ''.'' path]"
proof -
  have "butlast (split_on CHR ''.'' path) @ [last (split_on CHR ''.'' path)] = split_on CHR ''.'' path"
    by simp
  with assms show ?thesis
    by (auto simp: relationalCondition_def Let_def searched_wrap walk_hops_length split: sum.splits if_splits)
qed

lemma searched_conditions:
  "searchConditions dmmf fs search m = Inr cs \<Longrightarrow> map (join_with ''.'') (concat (map searched cs)) = fs"
proof (induction fs arbitrary: cs)
  case (Cons f fs)
  from Cons.prems obtain c cs' where c: "searchCondition dmmf search m f = Inr c"
    and r: "searchConditions dmmf fs search m = Inr cs'" "cs = c # cs'"
    by (auto split: sum.splits)
  have "map (join_with ''.'') (searched c) = [f]"
    using c by (auto simp: searchCondition_def searched_relational join_split_on split: if_splits)
  with Cons.IH [OF r(1)] r(2) show ?case by simp
qed simp

text \<open>A listing searches and sorts by columns of its own options only, whatever the request
  names: a search covers exactly the configured search fields, and every ordering column is an
  allowed sort, the default sort or the tie-breaker.\<close>

theorem listing_columns_whitelisted:
  assumes "finalWhere dmmf opts req = Inr w"
  shows "map (join_with ''.'') (searched w) =
      (if search_of req = None then [] else opt_searchFields opts)
    \<and> fst ` set (orderBy_of opts req)
        \<subseteq> insert (opt_defaultSort opts) (set (opt_allowedSorts opts) \<union> set_option (opt_tieBreaker opts))"
proof
  have b: "searched (baseWhereWithNot opts) = []" by (simp add: baseWhereWithNot_def split: option.splits)
  show "map (join_with ''.'') (searched w) = (if search_of req = None then [] else opt_searchFields opts)"
  proof (cases "search_of req = None \<or> opt_searchFields opts = []")
    case True
    with assms b have "searched w = []" by (auto simp: finalWhere_def split: option.splits)
    with True show ?thesis by auto
  next
    case False
    then obtain s cs where "search_of req = Some s"
      and cs: "searchConditions dmmf (opt_searchFields opts) s (opt_modelName opts) = Inr cs"
      and w: "w = AND [baseWhereWithNot opts, OR cs]"
      using assms by (auto simp: finalWhere_def split: sum.splits)
    with searched_conditions [OF cs] b show ?thesis by simp
  qed
  show "fst ` set (orderBy_of opts req)
        \<subseteq> insert (opt_defaultSort opts) (set (opt_allowedSorts opts) \<union> set_option (opt_tieBreaker opts))"
    by (auto simp: orderBy_of_def sortBy_of_def Let_def split: option.splits)
qed

theorem listing_columns_whitelisted_witness:
  "fst ` set (orderBy_of default_options \<lparr>rq_query = [(''sort_by'', ''password'')], rq_protocol = [], rq_host = [], rq_path = []\<rparr>)
    \<subseteq> {''createdAt'', ''id''}"
proof -
  let ?req = "\<lparr>rq_query = [(''sort_by'', ''password'')], rq_protocol = [], rq_host = [], rq_path = []\<rparr>"
  have "finalWhere (\<lambda>m. None) default_options ?req = Inr (baseWhereWithNot default_options)"
    by (simp add: finalWhere_def search_of_def)
  note conjunct2 [OF listing_columns_whitelisted [OF this]]
  also have "insert (opt_defaultSort default_options) (set (opt_allowedSorts default_options)
      \<union> set_option (opt_tieBreaker default_options)) = {''createdAt'', ''id''}"
    by (auto simp: default_options_def)
  finally show ?thesis .
qed

end
