(* ===== verification/Listings.thy ===== *)
theory Listings
  imports Paginator Http Email_Template
begin

text \<open>
  Listings and read-only endpoints: users, roles, email templates and activity logs page by page
  (the \<^verbatim>\<open>paginate\<close> calls of the repositories under \<^verbatim>\<open>src/modules\<close>), the details of an activity log, role options
  and the catalogues of the role editor, with their permission gates. How PostgreSQL orders a
  column (\<open>rank\<close>), its lower-casing in searches (\<open>lower\<close>) and the localized dates (\<open>localeDate\<close>) are
  parameters.
\<close>

section \<open>Conditions\<close>

text \<open>A condition evaluated on a row with its relations.\<close>

definition fields_match :: "json \<Rightarrow> json \<Rightarrow> bool" where
  "fields_match w r = (case w of JObj fs \<Rightarrow> list_all (\<lambda>f. json_field (fst f) r = Some (snd f)) fs | _ \<Rightarrow> False)"

fun matches_row :: "(string \<Rightarrow> string) \<Rightarrow> where_clause \<Rightarrow> json \<Rightarrow> bool" where
  "matches_row lower (Where w) r = fields_match w r"
| "matches_row lower (WhereNot w n) r = (fields_match w r \<and> \<not> fields_match n r)"
| "matches_row lower (Contains f s) r =
     (case json_field f r of Some (JStr v) \<Rightarrow> str_includes (lower v) (lower s) | _ \<Rightarrow> False)"
| "matches_row lower (Rel f c) r = (case json_field f r of None \<Rightarrow> False | Some v \<Rightarrow> matches_row lower c v)"
| "matches_row lower (Some_rel f c) r =
     (case json_field f r of Some (JArr vs) \<Rightarrow> list_ex (matches_row lower c) vs | _ \<Rightarrow> False)"
| "matches_row lower (AND cs) r = list_all (\<lambda>c. matches_row lower c r) cs"
| "matches_row lower (OR cs) r = list_ex (\<lambda>c. matches_row lower c r) cs"

text \<open>A select of scalar columns.\<close>

definition pick :: "string list \<Rightarrow> json \<Rightarrow> (string \<times> json) list" where
  "pick ks r = map (\<lambda>k. (k, case json_field k r of None \<Rightarrow> JNull | Some v \<Rightarrow> v)) ks"

text \<open>A selected to-one relation.\<close>

definition pick_one :: "string list \<Rightarrow> string \<Rightarrow> json \<Rightarrow> json" where
  "pick_one ks rel r = (case json_field rel r of None \<Rightarrow> JNull | Some JNull \<Rightarrow> JNull | Some v \<Rightarrow> JObj (pick ks v))"

text \<open>The localized form of the row's \<^verbatim>\<open>createdAt\<close>.\<close>

definition locale_createdAt :: "(string \<Rightarrow> string) \<Rightarrow> json \<Rightarrow> json" where
  "locale_createdAt localeDate r = (case json_field ''createdAt'' r of Some (JStr s) \<Rightarrow> JStr (localeDate s) | _ \<Rightarrow> JNull)"

definition object_fields :: "json \<Rightarrow> (string \<times> json) list" where
  "object_fields r = (case r of JObj fs \<Rightarrow> fs | _ \<Rightarrow> [])"

section \<open>Users\<close>

definition json_append :: "json \<Rightarrow> (string \<times> json) list \<Rightarrow> json" where
  "json_append r fs = JObj (object_fields r @ fs)"

definition user_row :: "database \<Rightarrow> user \<Rightarrow> json" where
  "user_row db u = json_append (user_json u)
     [(''role'', case Option.bind (user_roleId u) (\<lambda>i. role_findById i db) of None \<Rightarrow> JNull | Some r \<Rightarrow> full_role_json r)]"

definition USER_LIST_FIELDS :: "string list" where
  "USER_LIST_FIELDS = [''id'', ''name'', ''slug'', ''email'', ''isEmailVerified'', ''createdAt'']"

definition user_list_select :: "json \<Rightarrow> json" where
  "user_list_select r = JObj (pick USER_LIST_FIELDS r
     @ [(''role'', pick_one [''id'', ''title'', ''slug'', ''userType''] ''role'' r)])"

definition user_list_transform :: "(string \<Rightarrow> string) \<Rightarrow> json \<Rightarrow> json" where
  "user_list_transform localeDate r = json_append r
     [(''roleName'', case json_field ''role'' r of
          Some (JObj fs) \<Rightarrow> (case map_of fs ''title'' of None \<Rightarrow> JNull | Some t \<Rightarrow> t) | _ \<Rightarrow> JStr ''-''),
      (''registeredAt'', locale_createdAt localeDate r)]"

definition user_list_options :: "(string \<Rightarrow> string) \<Rightarrow> nat \<Rightarrow> paginate_options" where
  "user_list_options localeDate sub =
     default_options\<lparr>opt_where := JObj [(''deletedAt'', JNull)], opt_whereNot := Some (JObj [(''id'', JNum (int sub))]),
       opt_select := user_list_select, opt_searchFields := [''name'', ''email''],
       opt_allowedSorts := [''createdAt'', ''name'', ''email''], opt_transform := user_list_transform localeDate\<rparr>"

record db_order =
  do_lower :: "string \<Rightarrow> string"
  do_rank :: "string \<Rightarrow> json \<Rightarrow> int"

definition getUsers ::
  "db_order \<Rightarrow> (string \<Rightarrow> string) \<Rightarrow> nat \<Rightarrow> page_request \<Rightarrow> database \<Rightarrow> error + paginated_result" where
  "getUsers DO localeDate sub req db =
     paginate (matches_row (do_lower DO)) (do_rank DO) (\<lambda>m. None) (user_list_options localeDate sub) req
       (map (user_row db) (users db))"

section \<open>Roles\<close>

definition role_list_options :: paginate_options where
  "role_list_options =
     default_options\<lparr>opt_where := JObj [(''deletedAt'', JNull)],
       opt_select := (\<lambda>r. JObj (pick [''id'', ''slug'', ''title'', ''description'', ''userType'', ''createdAt'', ''updatedAt''] r)),
       opt_searchFields := [''title'', ''description''], opt_allowedSorts := [''title'', ''userType'', ''createdAt'']\<rparr>"

definition getRoles :: "db_order \<Rightarrow> page_request \<Rightarrow> database \<Rightarrow> error + paginated_result" where
  "getRoles DO req db =
     paginate (matches_row (do_lower DO)) (do_rank DO) (\<lambda>m. None) role_list_options req (map full_role_json (roles db))"

text \<open>\<^verbatim>\<open>helper.repository\<close>: active roles by title.\<close>

definition getRoleOptions :: "db_order \<Rightarrow> database \<Rightarrow> json list" where
  "getRoleOptions DO db =
     map (\<lambda>r. JObj [(''label'', JStr (role_title r)), (''value'', JNum (int (role_id r)))])
       (sort_key (\<lambda>r. do_rank DO ''title'' (full_role_json r)) (filter role_active (roles db)))"

section \<open>Email templates\<close>

definition template_row :: "email_template \<Rightarrow> json" where
  "template_row t = JObj [(''id'', JNum (int (et_id t))), (''key'', JStr (et_key t)), (''title'', JStr (et_title t)),
     (''subject'', JStr (et_subject t)), (''body'', JStr (et_body t)), (''isActive'', JBool (et_isActive t)),
     (''updatedAt'', JStr (toISOString (et_updatedAt t)))]"

definition template_list_options :: paginate_options where
  "template_list_options =
     default_options\<lparr>opt_select := (\<lambda>r. JObj (pick [''key'', ''title'', ''subject'', ''isActive'', ''updatedAt''] r)),
       opt_searchFields := [''key'', ''title'', ''subject''], opt_allowedSorts := [''key'', ''title'', ''updatedAt''],
       opt_defaultSort := ''key'', opt_defaultSortDir := asc\<rparr>"

definition template_paginate :: "db_order \<Rightarrow> page_request \<Rightarrow> database \<Rightarrow> error + paginated_result" where
  "template_paginate DO req db =
     paginate (matches_row (do_lower DO)) (do_rank DO) (\<lambda>m. None) template_list_options req
       (map template_row (email_templates db))"

section \<open>Activity logs\<close>

definition log_row :: "database \<Rightarrow> activity_log \<Rightarrow> json" where
  "log_row db l = JObj [(''id'', JNum (int (log_id l))), (''userId'', JNum (int (log_userId l))),
     (''action'', json_opt (log_action l)), (''description'', json_opt (log_description l)),
     (''subjectType'', json_opt (log_subjectType l)), (''subjectId'', JNum (int (log_subjectId l))),
     (''oldData'', log_oldData l), (''newData'', log_newData l), (''createdAt'', JStr (toISOString (log_createdAt l))),
     (''user'', case find_first (\<lambda>u. user_id u = log_userId l \<and> active u) (users db) of
        None \<Rightarrow> JNull | Some u \<Rightarrow> user_json u)]"

definition LOG_FIELDS :: "string list" where
  "LOG_FIELDS = [''id'', ''userId'', ''action'', ''description'', ''subjectType'', ''oldData'', ''newData'', ''subjectId'', ''createdAt'']"

definition log_select :: "json \<Rightarrow> json" where
  "log_select r = JObj (pick LOG_FIELDS r @ [(''user'', pick_one [''id'', ''name''] ''user'' r)])"

definition log_transform :: "(string \<Rightarrow> string) \<Rightarrow> json \<Rightarrow> json" where
  "log_transform localeDate r = JObj
     ([(''actionType'', case json_field ''action'' r of None \<Rightarrow> JNull | Some a \<Rightarrow> a),
       (''causedAt'', locale_createdAt localeDate r)] @ object_fields r)"

definition log_list_options :: "(string \<Rightarrow> string) \<Rightarrow> json \<Rightarrow> paginate_options" where
  "log_list_options localeDate w =
     default_options\<lparr>opt_where := w, opt_select := log_select, opt_searchFields := [''action'', ''description'', ''subjectType''],
       opt_allowedSorts := [''createdAt'', ''action''], opt_transform := log_transform localeDate\<rparr>"

definition getActivityLogs ::
  "db_order \<Rightarrow> (string \<Rightarrow> string) \<Rightarrow> page_request \<Rightarrow> database \<Rightarrow> error + paginated_result" where
  "getActivityLogs DO localeDate req db =
     paginate (matches_row (do_lower DO)) (do_rank DO) (\<lambda>m. None) (log_list_options localeDate (JObj [])) req
       (map (log_row db) (activity_logs db))"

definition findByUserId ::
  "db_order \<Rightarrow> (string \<Rightarrow> string) \<Rightarrow> int \<Rightarrow> page_request \<Rightarrow> database \<Rightarrow> error + paginated_result" where
  "findByUserId DO localeDate userId req db =
     paginate (matches_row (do_lower DO)) (do_rank DO) (\<lambda>m. None)
       (log_list_options localeDate (JObj [(''userId'', JNum userId)])) req (map (log_row db) (activity_logs db))"

definition getActivityLogById :: "(string \<Rightarrow> string) \<Rightarrow> int \<Rightarrow> database \<Rightarrow> error + json" where
  "getActivityLogById localeDate rowId db =
     (case find_first (\<lambda>l. int (log_id l) = rowId) (activity_logs db) of
        None \<Rightarrow> Inl (AppError ''Activity log not found'' 404)
      | Some l \<Rightarrow> Inr (json_append (log_select (log_row db l))
                    [(''causedAt'', locale_createdAt localeDate (log_row db l))]))"

section \<open>Endpoints\<close>

text \<open>A page as it is sent.\<close>

definition page_json :: "paginated_result \<Rightarrow> json" where
  "page_json p =
     (let m = pg_meta p in
      JObj [(''data'', JArr (pg_data p)),
        (''meta'', JObj [(''total'', JNum (int (meta_total m))), (''per_page'', JNum (int (meta_per_page m))),
           (''current_page'', JNum (int (meta_current_page m))), (''last_page'', JNum (int (meta_last_page m))),
           (''from'', json_nat_opt (meta_from m)), (''to'', json_nat_opt (meta_to m)), (''path'', JStr (meta_path m)),
           (''first_page_url'', JStr (meta_first_page_url m)), (''last_page_url'', JStr (meta_last_page_url m)),
           (''next_page_url'', json_opt (meta_next_page_url m)), (''prev_page_url'', json_opt (meta_prev_page_url m))]),
        (''links'', JArr (map (\<lambda>l. JObj [(''url'', json_opt (link_url l)), (''label'', JStr (link_label l)),
           (''active'', JBool (link_active l))]) (pg_links p)))])"

text \<open>\<^verbatim>\<open>parseInt(s, 10)\<close>.\<close>

definition parseInt10 :: "string \<Rightarrow> int option" where
  "parseInt10 s =
     (let t = dropWhile is_space s;
          (neg, u) = (case t of
             c # r \<Rightarrow> if c = CHR ''-'' then (True, r) else if c = CHR ''+'' then (False, r) else (False, t)
           | [] \<Rightarrow> (False, []));
          ds = takeWhile is_digit u
      in if ds = [] then None else Some (if neg then - int (read_nat ds) else int (read_nat ds)))"

datatype read_call =
    List_users
  | List_roles
  | List_templates
  | Show_template string
  | List_logs
  | Show_log string
  | User_logs string

fun read_permission :: "read_call \<Rightarrow> string" where
  "read_permission List_users = ''module.master-data.user.index''"
| "read_permission List_roles = ''module.master-data.role.index''"
| "read_permission List_templates = ''module.master-data.email-template.index''"
| "read_permission (Show_template key) = ''module.master-data.email-template.index''"
| "read_permission List_logs = ''module.activity-log.index''"
| "read_permission (Show_log rowId) = ''module.activity-log.detail''"
| "read_permission (User_logs userId) = ''module.activity-log.index''"

definition by_key :: "int option \<Rightarrow> (int \<Rightarrow> error + 'a) \<Rightarrow> error + 'a" where
  "by_key k f = (case k of None \<Rightarrow> Inl not_a_key | Some i \<Rightarrow> f i)"

definition reply :: "string \<Rightarrow> ('a \<Rightarrow> json) \<Rightarrow> (database \<Rightarrow> error + 'a) \<Rightarrow> app handler" where
  "reply message f m = respond (\<lambda>x. response (f x) message 200) (\<lambda>a. (m (app_db a), a))"

fun read_controller ::
  "db_order \<Rightarrow> (string \<Rightarrow> string) \<Rightarrow> page_request \<Rightarrow> read_call \<Rightarrow> http_request \<Rightarrow> app handler" where
  "read_controller DO localeDate preq List_users req =
     reply ''User list retrieved successfully'' page_json
       (\<lambda>db. by_key (map_option int (req_sub req)) (\<lambda>sub. getUsers DO localeDate (nat sub) preq db))"
| "read_controller DO localeDate preq List_roles req =
     reply ''Roles retrieved successfully'' page_json (getRoles DO preq)"
| "read_controller DO localeDate preq List_templates req =
     reply ''Email templates retrieved'' page_json (template_paginate DO preq)"
| "read_controller DO localeDate preq (Show_template key) req =
     reply ''Email template retrieved'' (\<lambda>j. j) (template_show key)"
| "read_controller DO localeDate preq List_logs req =
     reply ''Activity logs retrieved successfully'' page_json (getActivityLogs DO localeDate preq)"
| "read_controller DO localeDate preq (Show_log rowId) req =
     reply ''Activity log retrieved successfully'' (\<lambda>j. j)
       (\<lambda>db. by_key (parseInt10 rowId) (\<lambda>i. getActivityLogById localeDate i db))"
| "read_controller DO localeDate preq (User_logs userId) req =
     reply ''User activity logs retrieved successfully'' page_json
       (\<lambda>db. by_key (parseInt10 userId) (\<lambda>i. findByUserId DO localeDate i preq db))"

definition read_router ::
  "crypto \<Rightarrow> env \<Rightarrow> db_order \<Rightarrow> (string \<Rightarrow> string) \<Rightarrow> time \<Rightarrow> page_request \<Rightarrow> read_call \<Rightarrow> http_request \<Rightarrow> app handler" where
  "read_router C E DO localeDate now preq call =
     protected C E now (read_permission call) (read_controller DO localeDate preq call)"

definition template_update_route ::
  "crypto \<Rightarrow> env \<Rightarrow> time \<Rightarrow> string \<Rightarrow> template_changes \<Rightarrow> http_request \<Rightarrow> app handler" where
  "template_update_route C E now key d =
     protected C E now ''module.master-data.email-template.edit''
       (\<lambda>req. respond (\<lambda>j. response j ''Email template updated'' 200) (in_db (template_update key d (req_sub req) now)))"

text \<open>Authenticated catalogues without a permission.\<close>

definition authenticated :: "crypto \<Rightarrow> env \<Rightarrow> time \<Rightarrow> (http_request \<Rightarrow> app handler) \<Rightarrow> http_request \<Rightarrow> app handler" where
  "authenticated C E now h req a = (case authMiddleware C E now req of Inl e \<Rightarrow> (Inl e, a) | Inr req1 \<Rightarrow> h req1 a)"

definition access_list_json :: json where
  "access_list_json = JArr (map (\<lambda>m. JObj [(''module'', JStr (pm_module m)), (''sub_module'', JArr (map (\<lambda>s.
     JObj [(''module'', JStr (ps_module s)), (''activities'', JArr (map (\<lambda>v.
       JObj [(''label'', JStr (pa_label v)), (''value'', JStr (pa_value v))]) (ps_activities s)))]) (pm_sub_module m)))])
     ACCESS_LIST)"

definition access_list_route :: "crypto \<Rightarrow> env \<Rightarrow> time \<Rightarrow> http_request \<Rightarrow> app handler" where
  "access_list_route C E now = authenticated C E now
     (\<lambda>req a. (Inr (response access_list_json ''Access list retrieved successfully'' 200), a))"

definition user_types_route :: "crypto \<Rightarrow> env \<Rightarrow> time \<Rightarrow> http_request \<Rightarrow> app handler" where
  "user_types_route C E now = authenticated C E now
     (\<lambda>req a. (Inr (response (JArr (map JStr USER_TYPES)) ''User types retrieved successfully'' 200), a))"

definition role_options_route :: "crypto \<Rightarrow> env \<Rightarrow> db_order \<Rightarrow> time \<Rightarrow> http_request \<Rightarrow> app handler" where
  "role_options_route C E DO now = authenticated C E now
     (\<lambda>req. reply ''Role options retrieved successfully'' JArr (\<lambda>db. Inr (getRoleOptions DO db)))"

section \<open>Only permitted users reach the gated routes\<close>

text \<open>The gated routes work only for users who hold the permission: when a request to the user,
  role, template or activity-log routes succeeds, or changes the database or the stored files, its
  bearer token verifies to a user whose role in the database grants the permission of that very
  operation; whatever roles are cached, nothing else gets through.\<close>

theorem admin_routes_enforced:
  assumes "rbac_inv \<lparr>rs_db = app_db a, rs_redis = app_redis a, rs_flights = fs, rs_pending = 0\<rparr>"
    and "redis_up (app_redis a)"
    and "(user_router C E I APP_URL now ucall req a = (r, a') \<and> permission = user_permission ucall)
         \<or> (role_router C E now rcall req a = (r, a') \<and> permission = role_permission rcall)
         \<or> (read_router C E DO localeDate now preq call req a = (r, a') \<and> permission = read_permission call)
         \<or> (template_update_route C E now key d req a = (r, a') \<and> permission = ''module.master-data.email-template.edit'')"
    and "(\<exists>x. r = Inr x) \<or> app_db a' \<noteq> app_db a \<or> app_files a' \<noteq> app_files a"
  shows "\<exists>sub userId. jwt_verify C (bearer_token (req_authorization req)) (JWT_ACCESS_SECRET E) now = Some sub
    \<and> sub_number sub = Some userId \<and> access_decision permission userId (app_db a) = Inr ()"
proof -
  from assms(3) obtain h where "protected C E now permission h req a = (r, a')"
    unfolding user_router_def role_router_def read_router_def template_update_route_def by blast
  from protected_passed [OF assms(1,2) this assms(4)] show ?thesis .
qed

theorem admin_routes_enforced_witness:
  "\<exists>x a'. role_router demo_crypto default_env 5 (Show_role ''admin'') demo_request demo_audit_app = (Inr x, a')
     \<and> (\<exists>sub userId. jwt_verify demo_crypto (bearer_token (req_authorization demo_request))
            (JWT_ACCESS_SECRET default_env) 5 = Some sub \<and> sub_number sub = Some userId
          \<and> access_decision ''module.master-data.role.index'' userId (app_db demo_audit_app) = Inr ())"
proof -
  let ?db = "app_db demo_audit_app" and ?p = "''module.master-data.role.index''"
  have i: "rbac_inv \<lparr>rs_db = ?db, rs_redis = app_redis demo_audit_app, rs_flights = [], rs_pending = 0\<rparr>"
    using rbac_inv_init [of ?db] by (simp add: rbac_init_def demo_audit_app_def demo_app_def)
  have up: "redis_up (app_redis demo_audit_app)" by (simp add: demo_audit_app_def demo_app_def empty_redis_def)
  have "stored_access 1 ?db = Some (JObj [(''id'', JNum 1), (''role'', role_json demo_auditor)])"
    by (simp add: stored_access_def access_json_def role_findById_def role_active_def active_def
        demo_audit_app_def demo_app_def demo_rbac_db_def demo_auditor_def demo_admin_role_def)
  then have "fst (checkPermission ?p None (Some 1) 5 ?db (app_redis demo_audit_app)) = Inr ()"
    using resolveRole_fresh [OF i, of 1 5] up
    by (simp add: checkPermission_def grants_def granted_access_def role_of_def role_json_def demo_auditor_def
        json_field_def case_prod_beta)
  then obtain s where "checkPermission ?p None (Some 1) 5 ?db (app_redis demo_audit_app) = (Inr (), s)"
    by (metis prod.collapse)
  moreover have "getRole ''admin'' ?db = Inr demo_auditor"
    by (simp add: getRole_def role_findBySlug_def role_active_def demo_audit_app_def demo_app_def demo_rbac_db_def
        demo_auditor_def demo_admin_role_def)
  ultimately obtain x a' where
    r: "role_router demo_crypto default_env 5 (Show_role ''admin'') demo_request demo_audit_app = (Inr x, a')"
    by (simp add: role_router_def protected_def demo_request_authorized respond_def)
  have "role_router demo_crypto default_env 5 (Show_role ''admin'') demo_request demo_audit_app = (Inr x, a')
      \<and> ?p = role_permission (Show_role ''admin'')" using r by simp
  from admin_routes_enforced [OF i up disjI2, OF disjI1, OF this] r show ?thesis by auto
qed

section \<open>What the user listing shows\<close>

lemma matches_base:
  assumes "finalWhere dmmf opts req = Inr w" and "matches_row lower w r"
  shows "matches_row lower (baseWhereWithNot opts) r"
  using assms by (auto simp: finalWhere_def split: option.splits if_splits sum.splits)

lemma user_row_fields:
  "json_field ''deletedAt'' (user_row db u) = Some (json_opt (map_option toISOString (user_deletedAt u)))"
  "json_field ''id'' (user_row db u) = Some (JNum (int (user_id u)))"
  by (simp_all add: user_row_def json_append_def object_fields_def user_json_def json_field_def)

lemma user_row_matches:
  "matches_row lower (baseWhereWithNot (user_list_options localeDate sub)) (user_row db u)
     \<longleftrightarrow> active u \<and> user_id u \<noteq> sub"
  by (simp add: baseWhereWithNot_def user_list_options_def fields_match_def user_row_fields json_opt_def active_def
      split: option.split)

lemma paginate_rows:
  assumes "paginate m rank dmmf opts req rows = Inr p" and "row \<in> set (pg_data p)"
  shows "\<exists>w r. finalWhere dmmf opts req = Inr w \<and> r \<in> set rows \<and> m w r \<and> row = opt_transform opts (opt_select opts r)"
proof -
  obtain w where w: "finalWhere dmmf opts req = Inr w" using assms(1) by (auto simp: paginate_def split: sum.splits)
  with assms(1) have "pg_data p = map (\<lambda>r. opt_transform opts (opt_select opts r))
      (findMany m rank w (orderBy_of opts req) ((page_of req - 1) * perPage_of req) (perPage_of req) rows)"
    by (auto simp: paginate_def Let_def)
  with assms(2) obtain r where r: "row = opt_transform opts (opt_select opts r)"
    "r \<in> set (findMany m rank w (orderBy_of opts req) ((page_of req - 1) * perPage_of req) (perPage_of req) rows)" by auto
  from r(2) have "r \<in> set (order_rows rank (orderBy_of opts req) (filter (m w) rows))"
    unfolding findMany_def by (meson in_set_dropD in_set_takeD)
  with w r(1) show ?thesis by auto
qed

text \<open>The user listing shows exactly the other active accounts and of each only the listed fields
  (never the password hash, the avatar or the deletion date), whatever the request searches or sorts
  by; without a search its total counts exactly those accounts.\<close>

theorem user_listing_rows:
  assumes "getUsers DO localeDate sub req db = Inr p"
  shows "(\<forall>row \<in> set (pg_data p). \<exists>u \<in> set (users db). active u \<and> user_id u \<noteq> sub
        \<and> row = user_list_transform localeDate (user_list_select (user_row db u))
        \<and> map fst (object_fields row) = USER_LIST_FIELDS @ [''role'', ''roleName'', ''registeredAt''])
    \<and> (search_of req = None \<longrightarrow> meta_total (pg_meta p) = count_where (\<lambda>u. active u \<and> user_id u \<noteq> sub) (users db))"
proof (intro conjI ballI impI)
  let ?opts = "user_list_options localeDate sub"
  fix row assume "row \<in> set (pg_data p)"
  from paginate_rows [OF assms [unfolded getUsers_def] this] obtain w u where
    w: "finalWhere (\<lambda>m. None) ?opts req = Inr w" and u: "u \<in> set (users db)" "matches_row (do_lower DO) w (user_row db u)"
    and row: "row = opt_transform ?opts (opt_select ?opts (user_row db u))" by auto
  have "active u \<and> user_id u \<noteq> sub" using matches_base [OF w u(2)] unfolding user_row_matches .
  moreover have r: "row = user_list_transform localeDate (user_list_select (user_row db u))"
    by (simp add: row user_list_options_def)
  moreover have "map fst (object_fields row) = USER_LIST_FIELDS @ [''role'', ''roleName'', ''registeredAt'']"
    by (simp add: r user_list_transform_def user_list_select_def json_append_def object_fields_def pick_def comp_def)
  ultimately show "\<exists>u \<in> set (users db). active u \<and> user_id u \<noteq> sub
      \<and> row = user_list_transform localeDate (user_list_select (user_row db u))
      \<and> map fst (object_fields row) = USER_LIST_FIELDS @ [''role'', ''roleName'', ''registeredAt'']"
    using u(1) by blast
next
  assume "search_of req = None"
  then have "meta_total (pg_meta p) = count_where (matches_row (do_lower DO) (baseWhereWithNot (user_list_options localeDate sub)))
      (map (user_row db) (users db))"
    using assms by (auto simp: getUsers_def paginate_def finalWhere_def Let_def)
  then show "meta_total (pg_meta p) = count_where (\<lambda>u. active u \<and> user_id u \<noteq> sub) (users db)"
    by (simp add: count_where_def filter_map comp_def user_row_matches)
qed

theorem user_listing_rows_witness:
  "\<exists>p. getUsers \<lparr>do_lower = toLowerCase, do_rank = (\<lambda>f r. 0)\<rparr> (\<lambda>s. s) 2
        \<lparr>rq_query = [], rq_protocol = ''http'', rq_host = ''x.io'', rq_path = ''/users''\<rparr> demo_rbac_db = Inr p
     \<and> meta_total (pg_meta p) = 1"
proof -
  let ?req = "\<lparr>rq_query = [], rq_protocol = ''http'', rq_host = ''x.io'', rq_path = ''/users''\<rparr>"
  let ?do = "\<lparr>do_lower = toLowerCase, do_rank = (\<lambda>f r. 0)\<rparr>"
  have s: "search_of ?req = None" by (simp add: search_of_def)
  then obtain p where p: "getUsers ?do (\<lambda>s. s) 2 ?req demo_rbac_db = Inr p"
    by (simp add: getUsers_def paginate_def finalWhere_def Let_def)
  from user_listing_rows [OF p] s have "meta_total (pg_meta p) = count_where (\<lambda>u. active u \<and> user_id u \<noteq> 2) (users demo_rbac_db)"
    by blast
  with p show ?thesis by (auto simp: demo_rbac_db_def active_def)
qed

end
