(* ===== verification/Upload.thy ===== *)
theory Upload
  imports Middleware
begin

text \<open>
  File uploads (\<^verbatim>\<open>src/middleware/upload.middleware.ts\<close>): the filters on type and extension, the names
  under which files are stored and the size limits, for one file field and for several. Multer's
  part (unknown or repeated fields and the size limit are errors, and an error removes what the
  request stored so far) follows its documentation.
\<close>

section \<open>Extensions\<close>

definition after_last :: "char \<Rightarrow> string \<Rightarrow> string" where
  "after_last c s = rev (takeWhile (\<lambda>x. x \<noteq> c) (rev s))"

text \<open>\<^verbatim>\<open>path.extname\<close>: from the last dot of the base name, nothing when no character precedes it or
  when the base name is \<^verbatim>\<open>..\<close>.\<close>

definition extname :: "string \<Rightarrow> string" where
  "extname p =
     (let base = after_last (CHR ''/'') (rev (dropWhile (\<lambda>x. x = CHR ''/'') (rev p)));
          tail = after_last (CHR ''.'') base
      in if length base \<le> length tail + 1 \<or> base = ''..'' then [] else CHR ''.'' # tail)"

definition MIME_EXT_MAP :: "(string \<times> string) list" where
  "MIME_EXT_MAP = [(''image/jpeg'', ''.jpg''), (''image/jpg'', ''.jpg''), (''image/png'', ''.png''),
     (''image/webp'', ''.webp''), (''application/pdf'', ''.pdf'')]"

definition validExt :: "string list \<Rightarrow> string \<Rightarrow> bool" where
  "validExt allowedTypes ext = (Some ext \<in> set (map (map_of MIME_EXT_MAP) allowedTypes))"

section \<open>One field\<close>

record upload =
  file_field :: string
  file_originalname :: string
  file_mimetype :: string
  file_size :: nat

definition fileFilter :: "string list \<Rightarrow> upload \<Rightarrow> error + unit" where
  "fileFilter allowedTypes f =
     (if file_mimetype f \<notin> set allowedTypes then Inl (AppError ''Invalid file type'' 400)
      else if \<not> validExt allowedTypes (toLowerCase (extname (file_originalname f)))
      then Inl (AppError ''Invalid file extension'' 400)
      else Inr ())"

text \<open>\<open>bytes\<close> are the sixteen random bytes of the name.\<close>

definition stored_name :: "byte list \<Rightarrow> upload \<Rightarrow> string" where
  "stored_name bytes f = hex_encode bytes @ extname (file_originalname f)"

definition unexpected_file :: raised where
  "unexpected_file = Multer ''LIMIT_UNEXPECTED_FILE'' ''Unexpected field''"

definition file_too_large :: raised where
  "file_too_large = Multer ''LIMIT_FILE_SIZE'' ''File too large''"

text \<open>\<^verbatim>\<open>createUploader(folder, types, size).single(field)\<close>; the result is \<^verbatim>\<open>req.file.filename\<close>.\<close>

definition createUploader ::
  "string \<Rightarrow> string list \<Rightarrow> nat \<Rightarrow> string \<Rightarrow> byte list \<Rightarrow> upload option \<Rightarrow> (string \<times> string) list
     \<Rightarrow> (raised + string option) \<times> (string \<times> string) list" where
  "createUploader folder allowedTypes maxSize field bytes file files =
     (case file of
        None \<Rightarrow> (Inr None, files)
      | Some f \<Rightarrow>
          if file_field f \<noteq> field then (Inl unexpected_file, files)
          else (case fileFilter allowedTypes f of
                  Inl e \<Rightarrow> (Inl (Service e), files)
                | Inr _ \<Rightarrow>
                    if file_size f > maxSize then (Inl file_too_large, files)
                    else (Inr (Some (stored_name bytes f)), files @ [(folder, stored_name bytes f)])))"

text \<open>The uploader of the avatar routes.\<close>

definition avatarUploader ::
  "byte list \<Rightarrow> upload option \<Rightarrow> (string \<times> string) list \<Rightarrow> (raised + string option) \<times> (string \<times> string) list" where
  "avatarUploader = createUploader ''avatars'' [''image/jpeg'', ''image/png'', ''image/webp''] (2 * 1024 * 1024) ''avatar''"

section \<open>Several fields\<close>

record field_config =
  fc_name :: string
  fc_folder :: string
  fc_allowedTypes :: "string list"
  fc_maxSize :: nat

text \<open>\<^verbatim>\<open>Object.fromEntries\<close>: of two configurations with one name the later counts.\<close>

definition configMap :: "field_config list \<Rightarrow> string \<Rightarrow> field_config option" where
  "configMap cfgs = map_of (rev (map (\<lambda>c. (fc_name c, c)) cfgs))"

definition fields_filter :: "field_config list \<Rightarrow> upload \<Rightarrow> error + field_config" where
  "fields_filter cfgs f =
     (case configMap cfgs (file_field f) of
        None \<Rightarrow> Inl (AppError ''Unexpected field'' 400)
      | Some cfg \<Rightarrow>
          if file_mimetype f \<notin> set (fc_allowedTypes cfg)
          then Inl (AppError (''Invalid file type for field '' @ [CHR 0x22] @ file_field f @ [CHR 0x22]) 400)
          else if \<not> validExt (fc_allowedTypes cfg) (toLowerCase (extname (file_originalname f)))
          then Inl (AppError (''Invalid file extension for field '' @ [CHR 0x22] @ file_field f @ [CHR 0x22]) 400)
          else Inr cfg)"

record stored_file =
  sf_field :: string
  sf_folder :: string
  sf_filename :: string
  sf_size :: nat

definition maxFileSize :: "field_config list \<Rightarrow> nat" where
  "maxFileSize cfgs = Max (set (map fc_maxSize cfgs))"

fun receive_files ::
  "field_config list \<Rightarrow> (upload \<times> byte list) list \<Rightarrow> stored_file list \<Rightarrow> raised + stored_file list" where
  "receive_files cfgs [] received = Inr received"
| "receive_files cfgs ((f, bytes) # fs) received =
     (if file_field f \<notin> set (map fc_name cfgs) \<or> file_field f \<in> set (map sf_field received) then Inl unexpected_file
      else (case fields_filter cfgs f of
              Inl e \<Rightarrow> Inl (Service e)
            | Inr cfg \<Rightarrow>
                if file_size f > maxFileSize cfgs then Inl file_too_large
                else receive_files cfgs fs (received @ [\<lparr>sf_field = file_field f, sf_folder = fc_folder cfg,
                       sf_filename = stored_name bytes f, sf_size = file_size f\<rparr>])))"

definition oversized :: "field_config list \<Rightarrow> stored_file \<Rightarrow> bool" where
  "oversized cfgs s = (case configMap cfgs (sf_field s) of None \<Rightarrow> False | Some cfg \<Rightarrow> sf_size s > fc_maxSize cfg)"

definition stored_path :: "stored_file \<Rightarrow> string \<times> string" where
  "stored_path s = (sf_folder s, sf_filename s)"

text \<open>\<open>megabytes\<close> prints a size in megabytes.\<close>

definition createFieldsUploader ::
  "(nat \<Rightarrow> string) \<Rightarrow> field_config list \<Rightarrow> (upload \<times> byte list) list \<Rightarrow> (string \<times> string) list
     \<Rightarrow> (raised + stored_file list) \<times> (string \<times> string) list" where
  "createFieldsUploader megabytes cfgs uploads files =
     (case receive_files cfgs uploads [] of
        Inl e \<Rightarrow> (Inl e, files)
      | Inr received \<Rightarrow>
          (let files1 = files @ map stored_path received in
           case find_first (oversized cfgs) received of
             None \<Rightarrow> (Inr received, files1)
           | Some s \<Rightarrow>
               (Inl (Service (AppError (''File '' @ [CHR 0x22] @ sf_field s @ [CHR 0x22]
                    @ '' exceeds the maximum allowed size of ''
                    @ megabytes (case configMap cfgs (sf_field s) of None \<Rightarrow> 0 | Some cfg \<Rightarrow> fc_maxSize cfg) @ ''MB'') 413)),
                filter (\<lambda>p. p \<noteq> stored_path s) files1)))"

section \<open>What an upload stores\<close>

lemma after_last_plain: "c \<notin> set (after_last c s)"
  using set_takeWhileD [of c "\<lambda>x. x \<noteq> c" "rev s"] by (auto simp: after_last_def)

lemma takeWhile_none: "c \<notin> set s \<Longrightarrow> takeWhile (\<lambda>x. x \<noteq> c) s = s"
  by (induction s) auto

lemma dropWhile_none: "c \<notin> set s \<Longrightarrow> dropWhile (\<lambda>x. x = c) s = s"
  by (cases s) auto

lemma after_last_append: "c \<notin> set t \<Longrightarrow> after_last c (s @ c # t) = t"
  by (simp add: after_last_def takeWhile_tail takeWhile_none del: takeWhile_eq_all_conv)

lemma after_last_none: "c \<notin> set s \<Longrightarrow> after_last c s = s"
  by (simp add: after_last_def takeWhile_none del: takeWhile_eq_all_conv)

lemma set_after_last: "set (after_last c s) \<subseteq> set s"
  using set_takeWhileD by (fastforce simp: after_last_def)

lemma extname_shape:
  "extname p = [] \<or> (\<exists>t. extname p = CHR ''.'' # t \<and> CHR ''.'' \<notin> set t \<and> CHR ''/'' \<notin> set t)"
proof -
  let ?b = "after_last (CHR ''/'') (rev (dropWhile (\<lambda>x. x = CHR ''/'') (rev p)))"
  have "CHR ''/'' \<notin> set (after_last (CHR ''.'') ?b)"
    using after_last_plain [of "CHR ''/''"] set_after_last [of "CHR ''.''" ?b] by blast
  then show ?thesis using after_last_plain [of "CHR ''.''" ?b] by (simp add: extname_def Let_def)
qed

lemma extname_append:
  assumes "h \<noteq> []" and "CHR ''/'' \<notin> set h" and "CHR ''.'' \<notin> set t" and "CHR ''/'' \<notin> set t" and "h @ CHR ''.'' # t \<noteq> ''..''"
  shows "extname (h @ CHR ''.'' # t) = CHR ''.'' # t"
proof -
  let ?p = "h @ CHR ''.'' # t"
  have ns: "CHR ''/'' \<notin> set ?p" using assms(2,4) by simp
  then have "dropWhile (\<lambda>x. x = CHR ''/'') (rev ?p) = rev ?p"
    by (intro dropWhile_none) (metis set_rev)
  then have "after_last (CHR ''/'') (rev (dropWhile (\<lambda>x. x = CHR ''/'') (rev ?p))) = ?p"
    by (simp only: rev_rev_ident after_last_none [OF ns])
  then show ?thesis using assms(1,5) by (simp add: extname_def after_last_append [OF assms(3)])
qed

lemma hex_encode_plain: "bytes_ok bs \<Longrightarrow> c \<in> set (hex_encode bs) \<Longrightarrow> is_hex_digit c"
  using hex_string_encode [of bs] by (auto simp: hex_string_def list_all_iff)

lemma fileFilter_Inr:
  "fileFilter types f = Inr u \<longleftrightarrow> file_mimetype f \<in> set types
     \<and> validExt types (toLowerCase (extname (file_originalname f)))"
  by (auto simp: fileFilter_def)

lemma fileFilter_Inl: "fileFilter types f = Inl e \<Longrightarrow> statusOf (Service e) = 400"
  by (auto simp: fileFilter_def status_or_500_def split: if_splits)

lemma MIME_EXT_nonempty: "map_of MIME_EXT_MAP t \<noteq> Some []"
  by (simp add: MIME_EXT_MAP_def)

text \<open>The extension of a stored name is the one that was checked.\<close>

lemma stored_name_safe:
  assumes "validExt types (toLowerCase (extname (file_originalname f)))" and "length bytes = 16" and "bytes_ok bytes"
  shows "extname (stored_name bytes f) = extname (file_originalname f) \<and> CHR ''/'' \<notin> set (stored_name bytes f)"
proof -
  let ?h = "hex_encode bytes"
  have "extname (file_originalname f) \<noteq> []"
    using assms(1) MIME_EXT_nonempty by (fastforce simp: validExt_def toLowerCase_def)
  then obtain t where t: "extname (file_originalname f) = CHR ''.'' # t" "CHR ''.'' \<notin> set t" "CHR ''/'' \<notin> set t"
    using extname_shape by blast
  have len: "length ?h = 32" using assms(2) by (simp add: length_hex_encode)
  have "\<not> is_hex_digit (CHR ''/'')" by code_simp
  then have h: "CHR ''/'' \<notin> set ?h" using hex_encode_plain [OF assms(3)] by blast
  have "length (?h @ CHR ''.'' # t) \<noteq> length ''..''" unfolding length_append len by simp
  then have "?h \<noteq> []" "?h @ CHR ''.'' # t \<noteq> ''..''" using len by (metis length_0_conv zero_neq_numeral, metis)
  from extname_append [OF this(1) h t(2,3) this(2)] h t show ?thesis by (simp add: stored_name_def)
qed

text \<open>C28. An upload is stored only if its declared type is allowed, its extension belongs to an allowed
  type and it is within the size limit. It is stored once, in its folder, under a random name that
  stays inside the folder and carries exactly the checked extension, whatever file name the client
  sent. Every refusal is a client error and stores nothing.\<close>

theorem upload_safe:
  assumes "createUploader folder types maxSize field bytes (Some f) files = (r, files')"
    and "length bytes = 16" and "bytes_ok bytes"
  shows "(\<exists>name. r = Inr (Some name) \<and> name = hex_encode bytes @ extname name \<and> CHR ''/'' \<notin> set name
        \<and> file_mimetype f \<in> set types \<and> validExt types (toLowerCase (extname name)) \<and> file_size f \<le> maxSize
        \<and> files' = files @ [(folder, name)])
    \<or> (\<exists>e. r = Inl e \<and> statusOf e \<in> {400, 413} \<and> files' = files)"
proof (cases "fileFilter types f")
  case (Inl e)
  then show ?thesis using assms(1) fileFilter_Inl [OF Inl]
    by (auto simp: createUploader_def unexpected_file_def split: if_splits)
next
  case (Inr u)
  then have f: "file_mimetype f \<in> set types" "validExt types (toLowerCase (extname (file_originalname f)))"
    by (simp_all add: fileFilter_Inr)
  from stored_name_safe [OF f(2) assms(2,3)] have n: "CHR ''/'' \<notin> set (stored_name bytes f)"
    "extname (stored_name bytes f) = extname (file_originalname f)" by simp_all
  show ?thesis
  proof (cases "file_field f = field \<and> file_size f \<le> maxSize")
    case True
    then have "r = Inr (Some (stored_name bytes f))" "files' = files @ [(folder, stored_name bytes f)]"
      using assms(1) Inr by (simp_all add: createUploader_def)
    then show ?thesis using f n True by (intro disjI1) (auto simp: stored_name_def)
  next
    case False
    then show ?thesis using assms(1) Inr
      by (auto simp: createUploader_def unexpected_file_def file_too_large_def split: if_splits)
  qed
qed

theorem upload_safe_witness:
  "\<exists>name files'. avatarUploader (replicate 16 171) (Some \<lparr>file_field = ''avatar'', file_originalname = ''../me.PNG'',
       file_mimetype = ''image/png'', file_size = 1000\<rparr>) [] = (Inr (Some name), files')
     \<and> name = hex_encode (replicate 16 171) @ extname name \<and> CHR ''/'' \<notin> set name \<and> files' = [(''avatars'', name)]"
proof -
  let ?f = "\<lparr>file_field = ''avatar'', file_originalname = ''../me.PNG'', file_mimetype = ''image/png'', file_size = 1000\<rparr>"
  have ff: "fileFilter [''image/jpeg'', ''image/png'', ''image/webp''] ?f = Inr ()" by code_simp
  obtain r files' where u: "avatarUploader (replicate 16 171) (Some ?f) [] = (r, files')" by fastforce
  then have "r = Inr (Some (stored_name (replicate 16 171) ?f))"
    unfolding avatarUploader_def createUploader_def by (simp add: ff)
  moreover have "bytes_ok (replicate 16 171)" by (simp add: bytes_ok_def list_all_iff)
  ultimately show ?thesis using upload_safe [OF u [unfolded avatarUploader_def]] u by auto
qed

text \<open>The type and the extension are checked independently: the common extension \<^verbatim>\<open>.jpeg\<close> is refused for
  JPEG images, and an image of one type is accepted under the extension of another.\<close>

lemma upload_extension_quirks:
  "fileFilter [''image/jpeg''] \<lparr>file_field = ''avatar'', file_originalname = ''a.jpeg'', file_mimetype = ''image/jpeg'', file_size = 1\<rparr>
     = Inl (AppError ''Invalid file extension'' 400)"
  "fileFilter [''image/jpeg'', ''image/png''] \<lparr>file_field = ''avatar'', file_originalname = ''a.jpg'', file_mimetype = ''image/png'', file_size = 1\<rparr>
     = Inr ()"
  by code_simp+

text \<open>With several fields, an accepted request has every file within the limit of its own field. When
  one file is too large only that file is removed: the others stay stored although the request is
  refused.\<close>

lemma fields_upload_limits:
  assumes "createFieldsUploader megabytes cfgs uploads files = (r, files')"
  shows "(\<exists>received. r = Inr received \<and> (\<forall>s\<in>set received. \<not> oversized cfgs s) \<and> files' = files @ map stored_path received)
    \<or> (\<exists>e. r = Inl e \<and> files' = files)
    \<or> (\<exists>e received s. r = Inl e \<and> statusOf e = 413 \<and> s \<in> set received \<and> oversized cfgs s
        \<and> (\<forall>t\<in>set received. stored_path t \<noteq> stored_path s \<longrightarrow> stored_path t \<in> set files'))"
proof (cases "receive_files cfgs uploads []")
  case (Inl e)
  then have "r = Inl e \<and> files' = files" using assms by (simp add: createFieldsUploader_def)
  then show ?thesis by blast
next
  case (Inr received)
  show ?thesis
  proof (cases "find_first (oversized cfgs) received")
    case None
    then have "\<forall>s\<in>set received. \<not> oversized cfgs s" by (simp add: find_first_None_iff)
    moreover have "r = Inr received" "files' = files @ map stored_path received"
      using assms Inr None by (simp_all add: createFieldsUploader_def)
    ultimately show ?thesis by blast
  next
    case (Some s)
    from find_first_SomeD [OF Some] have "s \<in> set received" "oversized cfgs s" by simp_all
    moreover have "\<exists>e. r = Inl e \<and> statusOf e = 413"
      "files' = filter (\<lambda>p. p \<noteq> stored_path s) (files @ map stored_path received)"
      using assms Inr Some by (auto simp: createFieldsUploader_def Let_def status_or_500_def)
    ultimately show ?thesis by (intro disjI2) auto
  qed
qed

end
