(* ===== verification/Schemas.thy ===== *)
theory Schemas
  imports Middleware
begin

text \<open>
  The schemas of the request bodies (\<^verbatim>\<open>auth.validation.ts\<close>, \<^verbatim>\<open>otp.validation.ts\<close>, \<^verbatim>\<open>user.validation.ts\<close>,
  \<^verbatim>\<open>role.validation.ts\<close>, \<^verbatim>\<open>profile.validation.ts\<close>, \<^verbatim>\<open>email-template.validation.ts\<close>), over the part of zod
  they use: a schema gets the raw value, \<open>None\<close> when the key is absent, and gives the problems with
  their paths or the parsed value. The library's own messages, its patterns for emails and dates,
  the canonical form of language tags and the HTML filter of template bodies are parameters.
\<close>

section \<open>Schema combinators\<close>

datatype zod_issue = Invalid_type string | Too_small nat | Too_big nat

record zod =
  zd_message :: "zod_issue \<Rightarrow> string"
  zd_email :: "string \<Rightarrow> bool"
  zd_isoDate :: "string \<Rightarrow> bool"
  zd_locale :: "string \<Rightarrow> string option"
  zd_sanitize :: "string \<Rightarrow> string"

type_synonym issues = "(string list \<times> string) list"
type_synonym schema = "json option \<Rightarrow> issues + json option"

text \<open>The checks of a string run in order; one that fails does not stop the others, and an overwrite
  (\<^verbatim>\<open>trim\<close>) changes what the later ones see.\<close>

datatype string_check = Check "string \<Rightarrow> bool" string | Overwrite "string \<Rightarrow> string"

fun run_checks :: "string_check list \<Rightarrow> string \<Rightarrow> string list \<times> string" where
  "run_checks [] s = ([], s)"
| "run_checks (Check p m # cs) s = (let (problems, t) = run_checks cs s in (if p s then problems else m # problems, t))"
| "run_checks (Overwrite f # cs) s = run_checks cs (f s)"

definition min_length :: "nat \<Rightarrow> string \<Rightarrow> string_check" where
  "min_length n m = Check (\<lambda>s. n \<le> length s) m"

definition max_length :: "zod \<Rightarrow> nat \<Rightarrow> string_check" where
  "max_length Z n = Check (\<lambda>s. length s \<le> n) (zd_message Z (Too_big n))"

text \<open>\<open>wrong\<close> is the message for a value that is no string.\<close>

definition z_string_or :: "string \<Rightarrow> string_check list \<Rightarrow> schema" where
  "z_string_or wrong cs v = (case v of
     Some (JStr s) \<Rightarrow> (let (problems, t) = run_checks cs s in
       if problems = [] then Inr (Some (JStr t)) else Inl (map (Pair []) problems))
   | _ \<Rightarrow> Inl [([], wrong)])"

definition z_string :: "zod \<Rightarrow> string_check list \<Rightarrow> schema" where
  "z_string Z = z_string_or (zd_message Z (Invalid_type ''string''))"

definition z_boolean :: "zod \<Rightarrow> schema" where
  "z_boolean Z v = (case v of Some (JBool b) \<Rightarrow> Inr v | _ \<Rightarrow> Inl [([], zd_message Z (Invalid_type ''boolean''))])"

definition z_enum :: "(json option \<Rightarrow> string) \<Rightarrow> string list \<Rightarrow> schema" where
  "z_enum message xs v = (case v of
     Some (JStr s) \<Rightarrow> if s \<in> set xs then Inr v else Inl [([], message v)] | _ \<Rightarrow> Inl [([], message v)])"

definition z_optional :: "schema \<Rightarrow> schema" where
  "z_optional S v = (case v of None \<Rightarrow> Inr None | Some j \<Rightarrow> S v)"

definition z_nullable :: "schema \<Rightarrow> schema" where
  "z_nullable S v = (if v = Some JNull then Inr v else S v)"

definition z_default :: "json \<Rightarrow> schema \<Rightarrow> schema" where
  "z_default d S v = (case v of None \<Rightarrow> Inr (Some d) | Some j \<Rightarrow> S v)"

definition z_preprocess :: "(json option \<Rightarrow> json option) \<Rightarrow> schema \<Rightarrow> schema" where
  "z_preprocess f S v = S (f v)"

text \<open>\<^verbatim>\<open>pipe\<close>: the second schema sees the output of the first, unless that has problems.\<close>

definition z_pipe :: "schema \<Rightarrow> schema \<Rightarrow> schema" where
  "z_pipe S T v = (case S v of Inl is \<Rightarrow> Inl is | Inr w \<Rightarrow> T w)"

definition z_transform :: "(string \<Rightarrow> string list + string) \<Rightarrow> schema" where
  "z_transform f v = (case v of
     Some (JStr s) \<Rightarrow> (case f s of Inl problems \<Rightarrow> Inl (map (Pair []) problems) | Inr t \<Rightarrow> Inr (Some (JStr t)))
   | _ \<Rightarrow> Inr v)"

fun z_items :: "schema \<Rightarrow> nat \<Rightarrow> json list \<Rightarrow> issues \<times> json list" where
  "z_items S i [] = ([], [])"
| "z_items S i (v # vs) =
     (let (problems, ws) = z_items S (i + 1) vs in
      case S (Some v) of
        Inl is \<Rightarrow> (map (\<lambda>(p, m). (show_nat i # p, m)) is @ problems, ws)
      | Inr w \<Rightarrow> (problems, (case w of None \<Rightarrow> ws | Some x \<Rightarrow> x # ws)))"

definition z_array :: "zod \<Rightarrow> schema \<Rightarrow> schema" where
  "z_array Z S v = (case v of
     Some (JArr vs) \<Rightarrow> (let (problems, ws) = z_items S 0 vs in if problems = [] then Inr (Some (JArr ws)) else Inl problems)
   | _ \<Rightarrow> Inl [([], zd_message Z (Invalid_type ''array''))])"

fun z_fields :: "(string \<times> schema) list \<Rightarrow> json \<Rightarrow> issues \<times> (string \<times> json) list" where
  "z_fields [] j = ([], [])"
| "z_fields ((k, S) # rest) j =
     (let (problems, fs) = z_fields rest j in
      case S (json_field k j) of
        Inl is \<Rightarrow> (map (\<lambda>(p, m). (k # p, m)) is @ problems, fs)
      | Inr w \<Rightarrow> (problems, (case w of None \<Rightarrow> fs | Some x \<Rightarrow> (k, x) # fs)))"

text \<open>Keys outside the schema are dropped.\<close>

definition z_object :: "zod \<Rightarrow> (string \<times> schema) list \<Rightarrow> json \<Rightarrow> issues + json" where
  "z_object Z members j = (case j of
     JObj _ \<Rightarrow> (let (problems, fs) = z_fields members j in if problems = [] then Inr (JObj fs) else Inl problems)
   | _ \<Rightarrow> Inl [([], zd_message Z (Invalid_type ''object''))])"

section \<open>Bodies\<close>

text \<open>\<^verbatim>\<open>/^(?=.*[A-Z])(?=.*\d)(?=.*[@$!%*?&])[A-Za-z\d@$!%*?&]{8,}$/\<close>.\<close>

definition special_char :: "char \<Rightarrow> bool" where
  "special_char c = (c \<in> set ''@$!%*?&'')"

definition strong_password :: "string \<Rightarrow> bool" where
  "strong_password s =
     (8 \<le> length s \<and> list_all (\<lambda>c. is_upper_alpha c \<or> is_lower_alpha c \<or> is_digit c \<or> special_char c) s
      \<and> list_ex is_upper_alpha s \<and> list_ex is_digit s \<and> list_ex special_char s)"

definition PASSWORD_RULE :: string where
  "PASSWORD_RULE = ''Password must be at least 8 characters long and include at least one uppercase letter, one number, and one special character''"

definition email_field :: "zod \<Rightarrow> schema" where
  "email_field Z = z_string Z [Check (zd_email Z) ''Invalid email address'']"

definition new_password :: "zod \<Rightarrow> schema" where
  "new_password Z = z_string Z [Check strong_password PASSWORD_RULE]"

text \<open>An empty password means no change.\<close>

definition changed_password :: "zod \<Rightarrow> schema" where
  "changed_password Z = z_optional (z_string Z [Check (\<lambda>s. s = [] \<or> strong_password s) PASSWORD_RULE])"

definition registerSchema :: "zod \<Rightarrow> json \<Rightarrow> issues + json" where
  "registerSchema Z = z_object Z
     [(''name'', z_string Z [min_length 2 ''Name must be at least 2 characters long'']),
      (''email'', email_field Z),
      (''registrationToken'', z_optional (z_string Z [min_length 1 (zd_message Z (Too_small 1)), max_length Z 200])),
      (''password'', new_password Z)]"

definition loginSchema :: "zod \<Rightarrow> json \<Rightarrow> issues + json" where
  "loginSchema Z = z_object Z
     [(''email'', email_field Z), (''password'', z_string Z [min_length 1 ''Password is required''])]"

definition requestPasswordResetSchema :: "zod \<Rightarrow> json \<Rightarrow> issues + json" where
  "requestPasswordResetSchema Z = z_object Z [(''email'', email_field Z)]"

definition resetPasswordSchema :: "zod \<Rightarrow> json \<Rightarrow> issues + json" where
  "resetPasswordSchema Z = z_object Z
     [(''token'', z_string Z [min_length 1 ''Token is required'']), (''newPassword'', new_password Z)]"

definition otp_email :: "zod \<Rightarrow> schema" where
  "otp_email Z = z_string Z [Overwrite trim, Check (zd_email Z) ''Invalid email address'']"

definition sendOtpSchema :: "zod \<Rightarrow> json \<Rightarrow> issues + json" where
  "sendOtpSchema Z = z_object Z [(''email'', otp_email Z)]"

definition code_shape :: "string \<Rightarrow> bool" where
  "code_shape s = (length s = OTP_DIGITS \<and> list_all is_digit s)"

definition verifyOtpSchema :: "zod \<Rightarrow> json \<Rightarrow> issues + json" where
  "verifyOtpSchema Z = z_object Z
     [(''email'', otp_email Z),
      (''code'', z_string Z [Check code_shape (''Code must be a '' @ show_nat OTP_DIGITS @ ''-digit number'')])]"

definition createUserSchema :: "zod \<Rightarrow> json \<Rightarrow> issues + json" where
  "createUserSchema Z = z_object Z
     [(''name'', z_string Z [min_length 1 ''Name is required'']),
      (''email'', z_string_or ''Invalid email address'' [Check (zd_email Z) ''Invalid email address'']),
      (''password'', new_password Z), (''roleId'', z_string Z [min_length 1 ''Role is required''])]"

definition updateUserSchema :: "zod \<Rightarrow> json \<Rightarrow> issues + json" where
  "updateUserSchema Z = z_object Z
     [(''name'', z_optional (z_string Z [min_length 1 ''Name is required''])),
      (''email'', z_optional (email_field Z)), (''roleId'', z_string Z [min_length 1 ''Role is required'']),
      (''password'', changed_password Z)]"

definition userType_field :: schema where
  "userType_field = z_enum (\<lambda>v. if v = None then ''User type is required''
     else ''User type must be one of: '' @ join_with '', '' USER_TYPES) USER_TYPES"

definition access_field :: "zod \<Rightarrow> schema" where
  "access_field Z = z_array Z (z_string Z [min_length 1 (zd_message Z (Too_small 1))])"

definition createRoleSchema :: "zod \<Rightarrow> json \<Rightarrow> issues + json" where
  "createRoleSchema Z = z_object Z
     [(''title'', z_string Z [min_length 1 ''Title is required'']), (''userType'', userType_field),
      (''description'', z_optional (z_string Z [])), (''access'', z_default (JArr []) (access_field Z))]"

definition updateRoleSchema :: "zod \<Rightarrow> json \<Rightarrow> issues + json" where
  "updateRoleSchema Z = z_object Z
     [(''title'', z_optional (z_string Z [min_length 1 ''Title is required''])),
      (''userType'', z_optional userType_field), (''description'', z_optional (z_nullable (z_string Z []))),
      (''access'', z_optional (access_field Z))]"

text \<open>Fields of the profile: the empty string clears like \<^verbatim>\<open>null\<close>.\<close>

definition clearable :: "schema \<Rightarrow> schema" where
  "clearable S = z_preprocess (\<lambda>v. if v = Some (JStr []) then Some JNull else v) (z_optional (z_nullable S))"

definition profileFieldSchemas :: "zod \<Rightarrow> string list \<Rightarrow> string \<Rightarrow> (string \<times> schema) list" where
  "profileFieldSchemas Z supported today =
     [(''phone'', clearable (z_pipe (z_string Z []) (z_transform phone_schema))),
      (''birthDate'', clearable (z_pipe (z_string_or ''Birth date must be a date in YYYY-MM-DD format'' [])
         (z_transform (birthDate_schema (zd_isoDate Z) today)))),
      (''gender'', clearable (z_enum (\<lambda>v. ''Gender must be one of: '' @ join_with '', '' GENDERS) GENDERS)),
      (''locale'', clearable (z_pipe (z_string Z []) (z_transform (locale_schema (zd_locale Z) supported))))]"

definition updateProfileSchema :: "zod \<Rightarrow> string list \<Rightarrow> string \<Rightarrow> json \<Rightarrow> issues + json" where
  "updateProfileSchema Z supported today = z_object Z
     ([(''name'', z_string Z [min_length 1 ''Name is required'']), (''email'', z_optional (email_field Z)),
       (''avatar'', z_optional (z_string Z [])), (''password'', changed_password Z)]
      @ profileFieldSchemas Z supported today)"

definition updateEmailTemplateSchema :: "zod \<Rightarrow> json \<Rightarrow> issues + json" where
  "updateEmailTemplateSchema Z j =
     (case z_object Z
        [(''title'', z_optional (z_string Z [Overwrite trim, min_length 1 ''Title is required'', max_length Z 255])),
         (''subject'', z_optional (z_string Z [Overwrite trim, min_length 1 ''Subject is required'', max_length Z 255])),
         (''body'', z_optional (z_pipe (z_pipe (z_string Z [max_length Z 100000]) (z_transform (\<lambda>s. Inr (zd_sanitize Z s))))
            (z_string Z [Overwrite trim, min_length 1 ''Body is empty after removing unsafe HTML'']))),
         (''isActive'', z_optional (z_boolean Z))] j of
        Inl is \<Rightarrow> Inl is
      | Inr data \<Rightarrow> if data = JObj [] then Inl [([], ''Provide at least one of title, subject, body or isActive'')]
                    else Inr data)"

section \<open>What an accepted body looks like\<close>

text \<open>A shape lists the keys with whether they are required and what their values satisfy.\<close>

type_synonym shape = "(string \<times> bool \<times> (json \<Rightarrow> bool)) list"

definition text_that :: "(string \<Rightarrow> bool) \<Rightarrow> json \<Rightarrow> bool" where
  "text_that p j = (case j of JStr s \<Rightarrow> p s | _ \<Rightarrow> False)"

definition or_null :: "(json \<Rightarrow> bool) \<Rightarrow> json \<Rightarrow> bool" where
  "or_null p j = (j = JNull \<or> p j)"

definition list_of :: "(json \<Rightarrow> bool) \<Rightarrow> json \<Rightarrow> bool" where
  "list_of p j = (case j of JArr vs \<Rightarrow> list_all p vs | _ \<Rightarrow> False)"

definition is_boolean :: "json \<Rightarrow> bool" where
  "is_boolean j = (case j of JBool b \<Rightarrow> True | _ \<Rightarrow> False)"

definition conforms :: "shape \<Rightarrow> json \<Rightarrow> bool" where
  "conforms spec j = (case j of
     JObj fs \<Rightarrow> distinct (map fst fs)
       \<and> list_all (\<lambda>f. list_ex (\<lambda>(k, r, p). k = fst f \<and> p (snd f)) spec) fs
       \<and> list_all (\<lambda>(k, r, p). r \<longrightarrow> k \<in> fst ` set fs) spec
   | _ \<Rightarrow> False)"

definition field_ok :: "bool \<Rightarrow> (json \<Rightarrow> bool) \<Rightarrow> schema \<Rightarrow> bool" where
  "field_ok r p S = (\<forall>v. case S v of Inl is \<Rightarrow> is \<noteq> [] | Inr None \<Rightarrow> \<not> r | Inr (Some x) \<Rightarrow> p x)"

lemma field_okI:
  assumes "\<And>v. S v \<noteq> Inl []" and "\<And>v. r \<Longrightarrow> S v \<noteq> Inr None" and "\<And>v x. S v = Inr (Some x) \<Longrightarrow> p x"
  shows "field_ok r p S"
  unfolding field_ok_def
proof
  fix v show "case S v of Inl is \<Rightarrow> is \<noteq> [] | Inr None \<Rightarrow> \<not> r | Inr (Some x) \<Rightarrow> p x"
    using assms(1) [of v] assms(2) [of v] assms(3) [of v] by (auto split: sum.split option.split)
qed

lemma field_okD:
  assumes "field_ok r p S"
  shows "S v \<noteq> Inl []" and "r \<Longrightarrow> S v \<noteq> Inr None" and "S v = Inr (Some x) \<Longrightarrow> p x"
  using assms unfolding field_ok_def by (auto dest!: spec [of _ v])

named_theorems field_rules \<open>what the schema combinators accept\<close>

lemma string_field [field_rules]:
  assumes "\<And>s t. run_checks cs s = ([], t) \<Longrightarrow> p t"
  shows "field_ok r (text_that p) (z_string_or wrong cs)"
  by (rule field_okI) (auto simp: z_string_or_def text_that_def Let_def assms split: option.splits json.splits prod.splits if_splits)

lemma z_string_field [field_rules]:
  assumes "\<And>s t. run_checks cs s = ([], t) \<Longrightarrow> p t"
  shows "field_ok r (text_that p) (z_string Z cs)"
  unfolding z_string_def using assms by (rule string_field)

lemma boolean_field [field_rules]: "field_ok r is_boolean (z_boolean Z)"
  by (rule field_okI) (auto simp: z_boolean_def is_boolean_def split: option.splits json.splits)

lemma enum_field [field_rules]: "field_ok r (text_that (\<lambda>s. s \<in> set xs)) (z_enum m xs)"
  by (rule field_okI) (auto simp: z_enum_def text_that_def split: option.splits json.splits if_splits)

lemma optional_field [field_rules]: "field_ok False p S \<Longrightarrow> field_ok False p (z_optional S)"
  by (rule field_okI) (auto simp: z_optional_def dest: field_okD split: option.splits)

lemma nullable_field [field_rules]: "field_ok r p S \<Longrightarrow> field_ok r (or_null p) (z_nullable S)"
  by (rule field_okI) (auto simp: z_nullable_def or_null_def dest: field_okD split: if_splits)

lemma default_field [field_rules]: "p d \<Longrightarrow> field_ok r p S \<Longrightarrow> field_ok r p (z_default d S)"
  by (rule field_okI) (auto simp: z_default_def dest: field_okD split: option.splits)

lemma preprocess_field [field_rules]: "field_ok r p S \<Longrightarrow> field_ok r p (z_preprocess f S)"
  by (rule field_okI) (auto simp: z_preprocess_def dest: field_okD)

lemma pipe_field: "field_ok r p S \<Longrightarrow> field_ok r' q T \<Longrightarrow> field_ok r' q (z_pipe S T)"
  by (rule field_okI) (auto simp: z_pipe_def dest: field_okD split: sum.splits)

lemma transform_field:
  assumes "\<And>s t. f s = Inr t \<Longrightarrow> p t" and "\<And>s. f s \<noteq> Inl []"
  shows "field_ok r (text_that p) (z_pipe (z_string_or wrong cs) (z_transform f))"
  by (rule field_okI) (auto simp: z_pipe_def z_string_or_def z_transform_def text_that_def Let_def assms
      split: option.splits json.splits prod.splits sum.splits if_splits)

lemma z_items_ok:
  assumes "field_ok True p S" and "z_items S i vs = ([], ws)"
  shows "list_all p ws"
  using assms
proof (induction S i vs arbitrary: ws rule: z_items.induct)
  case (2 S i v vs)
  then show ?case
    by (auto simp: Let_def split: prod.splits sum.splits option.splits dest: field_okD)
qed simp

lemma array_field [field_rules]: "field_ok True p S \<Longrightarrow> field_ok r (list_of p) (z_array Z S)"
  by (rule field_okI) (auto simp: z_array_def list_of_def Let_def dest: z_items_ok
      split: option.splits json.splits prod.splits if_splits)

definition members_ok :: "(string \<times> schema) list \<Rightarrow> shape \<Rightarrow> bool" where
  "members_ok ms spec = list_all2 (\<lambda>(k, S) (k', r, p). k = k' \<and> field_ok r p S) ms spec"

lemma members_ok_Nil: "members_ok [] []"
  by (simp add: members_ok_def)

lemma members_ok_Cons: "field_ok r p S \<Longrightarrow> members_ok ms spec \<Longrightarrow> members_ok ((k, S) # ms) ((k, r, p) # spec)"
  by (simp add: members_ok_def)

lemma z_fields_keys: "z_fields ms j = (problems, fs) \<Longrightarrow> fst ` set fs \<subseteq> fst ` set ms
    \<and> (distinct (map fst ms) \<longrightarrow> distinct (map fst fs))"
proof (induction ms j arbitrary: problems fs rule: z_fields.induct)
  case (2 k S rest j)
  obtain ps gs where z: "z_fields rest j = (ps, gs)" by fastforce
  from "2.IH" [OF z] have "fst ` set gs \<subseteq> fst ` set rest" "distinct (map fst rest) \<longrightarrow> distinct (map fst gs)" by simp_all
  moreover have "fs = gs \<or> (\<exists>x. fs = (k, x) # gs)"
    using "2.prems" z by (auto simp: Let_def split: sum.splits option.splits)
  ultimately show ?case by (elim disjE exE) auto
qed simp

lemma z_fields_ok:
  assumes "members_ok ms spec" and "z_fields ms j = ([], fs)"
  shows "list_all (\<lambda>f. list_ex (\<lambda>(k, r, p). k = fst f \<and> p (snd f)) spec) fs
    \<and> list_all (\<lambda>(k, r, p). r \<longrightarrow> k \<in> fst ` set fs) spec"
  using assms
proof (induction ms j arbitrary: spec fs rule: z_fields.induct)
  case (2 k S rest j)
  obtain r p spec' where spec: "spec = (k, r, p) # spec'" "field_ok r p S" "members_ok rest spec'"
    using "2.prems"(1) by (auto simp: members_ok_def list_all2_Cons1)
  obtain problems gs where z: "z_fields rest j = (problems, gs)" by fastforce
  have p: "problems = []" and w: "\<exists>w. S (json_field k j) = Inr w \<and> fs = (case w of None \<Rightarrow> gs | Some x \<Rightarrow> (k, x) # gs)"
    using "2.prems"(2) z field_okD(1) [OF spec(2), of "json_field k j"] by (auto simp: Let_def split: sum.splits)
  then obtain w where w: "S (json_field k j) = Inr w" "fs = (case w of None \<Rightarrow> gs | Some x \<Rightarrow> (k, x) # gs)" by blast
  have IH: "list_all (\<lambda>f. list_ex (\<lambda>(k, r, p). k = fst f \<and> p (snd f)) spec') gs"
      "list_all (\<lambda>(k, r, p). r \<longrightarrow> k \<in> fst ` set gs) spec'"
    using "2.IH" [OF spec(3)] z p by simp_all
  show ?case
  proof (cases w)
    case None
    with IH w spec(1) field_okD(2) [OF spec(2), of "json_field k j"] show ?thesis
      by (auto simp: list_all_iff list_ex_iff)
  next
    case (Some x)
    with w have "p x" using field_okD(3) [OF spec(2)] by simp
    with IH w spec(1) Some show ?thesis by (auto simp: list_all_iff list_ex_iff)
  qed
qed (simp add: members_ok_def)


lemma z_object_conforms:
  assumes "members_ok ms spec" and "distinct (map fst ms)" and "z_object Z ms j = Inr data"
  shows "conforms spec data"
proof -
  obtain fs where "data = JObj fs" "z_fields ms j = ([], fs)"
    using assms(3) by (auto simp: z_object_def Let_def split: json.splits prod.splits if_splits)
  with z_fields_ok [OF assms(1)] z_fields_keys assms(2) show ?thesis
    by (simp add: conforms_def)
qed

lemma z_object_problems: "z_object Z ms j \<noteq> Inl []"
  by (auto simp: z_object_def Let_def split: json.splits prod.splits if_splits)

section \<open>The shapes of the bodies\<close>

definition password_shape :: "json \<Rightarrow> bool" where
  "password_shape = text_that strong_password"

definition changed_password_shape :: "json \<Rightarrow> bool" where
  "changed_password_shape = text_that (\<lambda>s. s = [] \<or> strong_password s)"

definition text_between :: "nat \<Rightarrow> nat \<Rightarrow> json \<Rightarrow> bool" where
  "text_between lo hi = text_that (\<lambda>s. lo \<le> length s \<and> length s \<le> hi)"

definition text_from :: "nat \<Rightarrow> json \<Rightarrow> bool" where
  "text_from lo = text_that (\<lambda>s. lo \<le> length s)"

definition email_shape :: "zod \<Rightarrow> json \<Rightarrow> bool" where
  "email_shape Z = text_that (zd_email Z)"

definition register_shape :: "zod \<Rightarrow> shape" where
  "register_shape Z = [(''name'', True, text_from 2), (''email'', True, email_shape Z),
     (''registrationToken'', False, text_between 1 200), (''password'', True, password_shape)]"

definition login_shape :: "zod \<Rightarrow> shape" where
  "login_shape Z = [(''email'', True, email_shape Z), (''password'', True, text_from 1)]"

definition reset_shape :: "zod \<Rightarrow> shape" where
  "reset_shape Z = [(''token'', True, text_from 1), (''newPassword'', True, password_shape)]"

definition code_body_shape :: "zod \<Rightarrow> shape" where
  "code_body_shape Z = [(''email'', True, email_shape Z), (''code'', True, text_that code_shape)]"

definition create_user_shape :: "zod \<Rightarrow> shape" where
  "create_user_shape Z = [(''name'', True, text_from 1), (''email'', True, email_shape Z),
     (''password'', True, password_shape), (''roleId'', True, text_from 1)]"

definition update_user_shape :: "zod \<Rightarrow> shape" where
  "update_user_shape Z = [(''name'', False, text_from 1), (''email'', False, email_shape Z),
     (''roleId'', True, text_from 1), (''password'', False, changed_password_shape)]"

definition user_type_shape :: "json \<Rightarrow> bool" where
  "user_type_shape = text_that (\<lambda>s. s \<in> set USER_TYPES)"

definition access_shape :: "json \<Rightarrow> bool" where
  "access_shape = list_of (text_from 1)"

definition create_role_shape :: shape where
  "create_role_shape = [(''title'', True, text_from 1), (''userType'', True, user_type_shape),
     (''description'', False, text_from 0), (''access'', True, access_shape)]"

definition update_role_shape :: shape where
  "update_role_shape = [(''title'', False, text_from 1), (''userType'', False, user_type_shape),
     (''description'', False, or_null (text_from 0)), (''access'', False, access_shape)]"

definition birthDate_shape :: "zod \<Rightarrow> string \<Rightarrow> json \<Rightarrow> bool" where
  "birthDate_shape Z today = or_null (text_that (\<lambda>s. zd_isoDate Z s \<and> string_le s today \<and> string_le ''1900-01-01'' s))"

definition profile_shape :: "zod \<Rightarrow> string list \<Rightarrow> string \<Rightarrow> shape" where
  "profile_shape Z supported today =
     [(''name'', True, text_from 1), (''email'', False, email_shape Z), (''avatar'', False, text_from 0),
      (''password'', False, changed_password_shape), (''phone'', False, or_null (text_that E164)),
      (''birthDate'', False, birthDate_shape Z today), (''gender'', False, or_null (text_that (\<lambda>s. s \<in> set GENDERS))),
      (''locale'', False, or_null (text_that (\<lambda>s. s \<in> set supported)))]"

definition template_shape :: shape where
  "template_shape = [(''title'', False, text_between 1 255), (''subject'', False, text_between 1 255),
     (''body'', False, text_from 1), (''isActive'', False, is_boolean)]"

lemmas shape_defs = password_shape_def changed_password_shape_def text_between_def text_from_def email_shape_def
  user_type_shape_def access_shape_def birthDate_shape_def

lemma list_of_Nil [simp]: "list_of p (JArr [])"
  by (simp add: list_of_def)

lemmas check_defs = min_length_def max_length_def

lemma register_conforms: "registerSchema Z j = Inr data \<Longrightarrow> conforms (register_shape Z) data"
  unfolding registerSchema_def register_shape_def shape_defs email_field_def new_password_def
  by (erule z_object_conforms [rotated 2], intro members_ok_Nil members_ok_Cons field_rules)
    (auto simp: check_defs Let_def split: prod.splits if_splits)

lemma login_conforms: "loginSchema Z j = Inr data \<Longrightarrow> conforms (login_shape Z) data"
  unfolding loginSchema_def login_shape_def email_field_def shape_defs
  by (erule z_object_conforms [rotated 2], intro members_ok_Nil members_ok_Cons field_rules)
    (auto simp: check_defs Let_def split: prod.splits if_splits)

lemma request_reset_conforms: "requestPasswordResetSchema Z j = Inr data \<Longrightarrow> conforms [(''email'', True, email_shape Z)] data"
  unfolding requestPasswordResetSchema_def email_field_def shape_defs
  by (erule z_object_conforms [rotated 2], intro members_ok_Nil members_ok_Cons field_rules)
    (auto simp: check_defs Let_def split: prod.splits if_splits)

lemma reset_conforms: "resetPasswordSchema Z j = Inr data \<Longrightarrow> conforms (reset_shape Z) data"
  unfolding resetPasswordSchema_def reset_shape_def new_password_def shape_defs
  by (erule z_object_conforms [rotated 2], intro members_ok_Nil members_ok_Cons field_rules)
    (auto simp: check_defs Let_def split: prod.splits if_splits)

lemma send_otp_conforms: "sendOtpSchema Z j = Inr data \<Longrightarrow> conforms [(''email'', True, email_shape Z)] data"
  unfolding sendOtpSchema_def otp_email_def shape_defs
  by (erule z_object_conforms [rotated 2], intro members_ok_Nil members_ok_Cons field_rules)
    (auto simp: check_defs Let_def split: prod.splits if_splits)

lemma verify_otp_conforms: "verifyOtpSchema Z j = Inr data \<Longrightarrow> conforms (code_body_shape Z) data"
  unfolding verifyOtpSchema_def code_body_shape_def otp_email_def shape_defs
  by (erule z_object_conforms [rotated 2], intro members_ok_Nil members_ok_Cons field_rules)
    (auto simp: check_defs Let_def split: prod.splits if_splits)

lemma create_user_conforms: "createUserSchema Z j = Inr data \<Longrightarrow> conforms (create_user_shape Z) data"
  unfolding createUserSchema_def create_user_shape_def new_password_def shape_defs
  by (erule z_object_conforms [rotated 2], intro members_ok_Nil members_ok_Cons field_rules)
    (auto simp: check_defs Let_def split: prod.splits if_splits)

lemma update_user_conforms: "updateUserSchema Z j = Inr data \<Longrightarrow> conforms (update_user_shape Z) data"
  unfolding updateUserSchema_def update_user_shape_def email_field_def changed_password_def shape_defs
  by (erule z_object_conforms [rotated 2], intro members_ok_Nil members_ok_Cons field_rules)
    (auto simp: check_defs Let_def split: prod.splits if_splits)

lemma create_role_conforms: "createRoleSchema Z j = Inr data \<Longrightarrow> conforms create_role_shape data"
  unfolding createRoleSchema_def create_role_shape_def userType_field_def access_field_def shape_defs
  by (erule z_object_conforms [rotated 2], intro members_ok_Nil members_ok_Cons field_rules)
    (auto simp: check_defs Let_def split: prod.splits if_splits)

lemma update_role_conforms: "updateRoleSchema Z j = Inr data \<Longrightarrow> conforms update_role_shape data"
  unfolding updateRoleSchema_def update_role_shape_def userType_field_def access_field_def shape_defs
  by (erule z_object_conforms [rotated 2], intro members_ok_Nil members_ok_Cons field_rules)
    (auto simp: check_defs Let_def split: prod.splits if_splits)

lemma birthDate_schema_Inr:
  "birthDate_schema isoDate today s = Inr t \<Longrightarrow> t = s \<and> isoDate s \<and> string_le s today \<and> string_le ''1900-01-01'' s"
  by (auto simp: birthDate_schema_def Let_def split: if_splits)

lemma profile_conforms:
  "updateProfileSchema Z supported today j = Inr data \<Longrightarrow> conforms (profile_shape Z supported today) data"
  unfolding updateProfileSchema_def profileFieldSchemas_def append.simps profile_shape_def shape_defs clearable_def
    email_field_def changed_password_def z_string_def
  by (erule z_object_conforms [rotated 2], intro members_ok_Nil members_ok_Cons field_rules transform_field)
    (auto simp: check_defs Let_def phone_schema_def locale_schema_def birthDate_schema_def
      split: prod.splits if_splits option.splits)

lemma template_conforms: "updateEmailTemplateSchema Z j = Inr data \<Longrightarrow> conforms template_shape data \<and> data \<noteq> JObj []"
proof -
  let ?ms = "[(''title'', z_optional (z_string Z [Overwrite trim, min_length 1 ''Title is required'', max_length Z 255])),
         (''subject'', z_optional (z_string Z [Overwrite trim, min_length 1 ''Subject is required'', max_length Z 255])),
         (''body'', z_optional (z_pipe (z_pipe (z_string Z [max_length Z 100000]) (z_transform (\<lambda>s. Inr (zd_sanitize Z s))))
            (z_string Z [Overwrite trim, min_length 1 ''Body is empty after removing unsafe HTML'']))),
         (''isActive'', z_optional (z_boolean Z))]"
  assume "updateEmailTemplateSchema Z j = Inr data"
  then have d: "z_object Z ?ms j = Inr data" "data \<noteq> JObj []"
    by (auto simp: updateEmailTemplateSchema_def split: sum.splits if_splits)
  have inner: "field_ok False (text_that (\<lambda>s. True)) (z_pipe (z_string Z [max_length Z 100000]) (z_transform (\<lambda>s. Inr (zd_sanitize Z s))))"
    unfolding z_string_def by (rule transform_field) simp_all
  have body: "field_ok False (text_that (\<lambda>s. 1 \<le> length s))
      (z_pipe (z_pipe (z_string Z [max_length Z 100000]) (z_transform (\<lambda>s. Inr (zd_sanitize Z s))))
        (z_string Z [Overwrite trim, min_length 1 ''Body is empty after removing unsafe HTML'']))"
    by (rule pipe_field [OF inner], rule z_string_field) (auto simp: check_defs Let_def split: prod.splits if_splits)
  have "members_ok ?ms template_shape"
    unfolding template_shape_def shape_defs
    by (intro members_ok_Nil members_ok_Cons optional_field boolean_field body z_string_field)
      (auto simp: check_defs Let_def split: prod.splits if_splits)
  from z_object_conforms [OF this _ d(1)] d(2) show ?thesis by simp
qed

text \<open>Every schema of a request body with the shape it enforces.\<close>

definition request_schemas :: "zod \<Rightarrow> string list \<Rightarrow> string \<Rightarrow> ((json \<Rightarrow> issues + json) \<times> shape) list" where
  "request_schemas Z supported today =
     [(registerSchema Z, register_shape Z), (loginSchema Z, login_shape Z),
      (requestPasswordResetSchema Z, [(''email'', True, email_shape Z)]), (resetPasswordSchema Z, reset_shape Z),
      (sendOtpSchema Z, [(''email'', True, email_shape Z)]), (verifyOtpSchema Z, code_body_shape Z),
      (createUserSchema Z, create_user_shape Z), (updateUserSchema Z, update_user_shape Z),
      (createRoleSchema Z, create_role_shape), (updateRoleSchema Z, update_role_shape),
      (updateProfileSchema Z supported today, profile_shape Z supported today),
      (updateEmailTemplateSchema Z, template_shape)]"

lemmas schema_conforms = register_conforms login_conforms request_reset_conforms reset_conforms send_otp_conforms
  verify_otp_conforms create_user_conforms update_user_conforms create_role_conforms update_role_conforms
  profile_conforms template_conforms [THEN conjunct1]

lemma request_schemas_ok:
  assumes "(schema, spec) \<in> set (request_schemas Z supported today)"
  shows "(\<forall>j data. schema j = Inr data \<longrightarrow> conforms spec data) \<and> (\<forall>j. schema j \<noteq> Inl [])"
proof -
  have t: "updateEmailTemplateSchema Z j \<noteq> Inl []" for j
    by (auto simp: updateEmailTemplateSchema_def z_object_problems split: sum.splits)
  show ?thesis
    using assms t unfolding request_schemas_def
    by (auto simp: schema_conforms registerSchema_def loginSchema_def requestPasswordResetSchema_def resetPasswordSchema_def
        sendOtpSchema_def verifyOtpSchema_def createUserSchema_def updateUserSchema_def createRoleSchema_def
        updateRoleSchema_def updateProfileSchema_def z_object_problems)
qed

text \<open>C23. Validated bodies are well typed. Whatever a client sends, a body that passes a schema is an object
  with known keys only, each once, the required ones among them, and every value in the shape of its
  key: new passwords are strong, codes have their digits, user types come from the catalogue, profile
  fields are normalized or null. Nothing else of the request changes. A refused body is answered 400
  and names at least one problem.\<close>

theorem validated_bodies_typed:
  assumes "(schema, spec) \<in> set (request_schemas Z supported today)"
  shows "(\<forall>req'. validate schema req = Inr req' \<longrightarrow> conforms spec (req_body req') \<and> req' = req\<lparr>req_body := req_body req'\<rparr>)
    \<and> (\<forall>e. validate schema req = Inl e \<longrightarrow> (\<exists>problems. e = AppErrorFields ''Validation failed'' 400 problems \<and> problems \<noteq> []))"
  using request_schemas_ok [OF assms] by (auto simp: validate_def split: sum.splits)

definition demo_zod :: zod where
  "demo_zod = \<lparr>zd_message = (\<lambda>i. ''Invalid''), zd_email = (\<lambda>s. CHR ''@'' \<in> set s), zd_isoDate = (\<lambda>s. length s = 10),
     zd_locale = Some, zd_sanitize = (\<lambda>s. s)\<rparr>"

definition demo_body :: "string \<Rightarrow> json" where
  "demo_body password = JObj [(''name'', JStr ''Ann''), (''email'', JStr ''ann@x.io''), (''password'', JStr password),
     (''roleId'', JNum 1), (''isEmailVerified'', JBool True)]"

definition demo_validation :: "string \<Rightarrow> http_request" where
  "demo_validation password = (plain_request ''POST'' ''/register'')\<lparr>req_body := demo_body password\<rparr>"

theorem validated_bodies_typed_witness:
  "\<exists>req' problems. validate (registerSchema demo_zod) (demo_validation ''Secret1!'') = Inr req'
     \<and> conforms (register_shape demo_zod) (req_body req')
     \<and> validate (registerSchema demo_zod) (demo_validation ''secret'') = Inl (AppErrorFields ''Validation failed'' 400 problems)
     \<and> problems \<noteq> []"
proof -
  have m: "(registerSchema demo_zod, register_shape demo_zod) \<in> set (request_schemas demo_zod [] [])"
    by (simp add: request_schemas_def)
  have "\<not> isl (registerSchema demo_zod (demo_body ''Secret1!''))" "isl (registerSchema demo_zod (demo_body ''secret''))"
    by code_simp+
  then obtain data issues where "registerSchema demo_zod (demo_body ''Secret1!'') = Inr data"
      "registerSchema demo_zod (demo_body ''secret'') = Inl issues"
    unfolding isl_def by (cases "registerSchema demo_zod (demo_body ''Secret1!'')") blast+
  then have "\<exists>req'. validate (registerSchema demo_zod) (demo_validation ''Secret1!'') = Inr req'"
      "\<exists>e. validate (registerSchema demo_zod) (demo_validation ''secret'') = Inl e"
    by (simp_all add: validate_def demo_validation_def)
  with validated_bodies_typed [OF m, of "demo_validation ''Secret1!''"] validated_bodies_typed [OF m, of "demo_validation ''secret''"]
  show ?thesis by blast
qed

end
