(* ===== verification/Lifecycle.thy ===== *)
theory Lifecycle
  imports Http
begin

text \<open>
  The life of the processes: scheduled maintenance jobs with one job per time slot
  (\<^verbatim>\<open>src/jobs/cron/index.ts\<close>), the relay loop whose passes never overlap (\<^verbatim>\<open>outbox-relay.ts\<close>), the ordered
  shutdown (\<^verbatim>\<open>src/utils/graceful-shutdown.ts\<close> with the step lists of \<^verbatim>\<open>server.ts\<close> and
  \<^verbatim>\<open>run-workers.ts\<close>) and the health endpoints. In \<open>shutdown\<close> every step returns;
  \<open>shutdown_limited\<close> is the same run under its time limit, which cuts off a step that does not. The
  resources behind the steps are in \<open>Workers\<close>; log lines are left out. BullMQ keeps one job per id and
  removes a finished job only after its retention age, as documented.
\<close>

section \<open>Schedules\<close>

datatype slot_unit = hour | day

record schedule =
  sch_expression :: string
  sch_unit :: slot_unit
  sch_jobs :: "string list"

definition SCHEDULES :: "schedule list" where
  "SCHEDULES =
     [\<lparr>sch_expression = ''0 * * * *'', sch_unit = hour, sch_jobs = [JOB_CLEANUP_EXPIRED_TOKENS]\<rparr>,
      \<lparr>sch_expression = ''0 0 * * *'', sch_unit = day, sch_jobs = [JOB_CLEANUP_OUTBOX, JOB_CLEANUP_DEAD_LETTER_JOBS]\<rparr>]"

fun SLOT_SECONDS :: "slot_unit \<Rightarrow> nat" where
  "SLOT_SECONDS hour = 3600"
| "SLOT_SECONDS day = 86400"

definition slotKey :: "slot_unit \<Rightarrow> time \<Rightarrow> string" where
  "slotKey unit at = take (if unit = hour then 13 else 10) (toISOString at)"

record job_options =
  jo_jobId :: string
  jo_removeOnComplete :: nat
  jo_removeOnFail :: nat

definition scheduledJobOptions :: "string \<Rightarrow> slot_unit \<Rightarrow> time \<Rightarrow> job_options" where
  "scheduledJobOptions name unit at =
     (let retention = 2 * SLOT_SECONDS unit
      in \<lparr>jo_jobId = name @ ''-'' @ slotKey unit at, jo_removeOnComplete = retention, jo_removeOnFail = retention\<rparr>)"

text \<open>The system queue with the time each job finished; \<open>sq_created\<close> lists every job ever created.\<close>

record queued_job =
  qj_id :: string
  qj_name :: string
  qj_age :: nat
  qj_finishedAt :: "time option"

record system_queue =
  sq_jobs :: "queued_job list"
  sq_created :: "string list"

definition system_add :: "string \<Rightarrow> job_options \<Rightarrow> system_queue \<Rightarrow> system_queue" where
  "system_add name opts q =
     (if jo_jobId opts \<in> qj_id ` set (sq_jobs q) then q
      else q\<lparr>sq_jobs := sq_jobs q @ [\<lparr>qj_id = jo_jobId opts, qj_name = name, qj_age = jo_removeOnComplete opts,
                                   qj_finishedAt = None\<rparr>],
             sq_created := sq_created q @ [jo_jobId opts]\<rparr>)"

definition enqueueScheduled :: "schedule \<Rightarrow> time \<Rightarrow> system_queue \<Rightarrow> system_queue" where
  "enqueueScheduled s at q = fold (\<lambda>name. system_add name (scheduledJobOptions name (sch_unit s) at)) (sch_jobs s) q"

text \<open>What happens to the queue: a tick of a schedule in some worker, a job that completes or fails,
  the removal of finished jobs past their age.\<close>

datatype queue_event = Tick schedule time | Finish string time | Clean time

fun event_time :: "queue_event \<Rightarrow> time" where
  "event_time (Tick s t) = t"
| "event_time (Finish j t) = t"
| "event_time (Clean t) = t"

fun queue_step :: "queue_event \<Rightarrow> system_queue \<Rightarrow> system_queue" where
  "queue_step (Tick s at) q = enqueueScheduled s at q"
| "queue_step (Finish j at) q =
     q\<lparr>sq_jobs := update_where (\<lambda>x. qj_id x = j \<and> qj_finishedAt x = None) (\<lambda>x. x\<lparr>qj_finishedAt := Some at\<rparr>) (sq_jobs q)\<rparr>"
| "queue_step (Clean at) q =
     q\<lparr>sq_jobs := delete_where (\<lambda>x. case qj_finishedAt x of None \<Rightarrow> False | Some f \<Rightarrow> f + int (qj_age x) * 1000 < at) (sq_jobs q)\<rparr>"

section \<open>The relay loop\<close>

text \<open>\<open>inFlight\<close> is the pass in progress, \<open>timer\<close> whether the interval is set.\<close>

record relay_loop =
  rl_timer :: bool
  rl_inFlight :: "nat option"
  rl_passes :: nat

definition runOutboxRelayOnce :: "relay_loop \<Rightarrow> nat \<times> relay_loop" where
  "runOutboxRelayOnce s = (case rl_inFlight s of
     Some p \<Rightarrow> (p, s)
   | None \<Rightarrow> (rl_passes s, s\<lparr>rl_inFlight := Some (rl_passes s), rl_passes := rl_passes s + 1\<rparr>))"

definition startOutboxRelay :: "relay_loop \<Rightarrow> relay_loop" where
  "startOutboxRelay s = (if rl_timer s then s else s\<lparr>rl_timer := True\<rparr>)"

definition clear_timer :: "relay_loop \<Rightarrow> relay_loop" where
  "clear_timer s = s\<lparr>rl_timer := False\<rparr>"

definition pass_done :: "relay_loop \<Rightarrow> relay_loop" where
  "pass_done s = s\<lparr>rl_inFlight := None\<rparr>"

text \<open>Ticks of the interval, the start and end of passes, and \<^verbatim>\<open>stopOutboxRelay\<close>, which returns once no
  pass is in progress.\<close>

inductive loop_step :: "relay_loop \<Rightarrow> relay_loop \<Rightarrow> bool" where
  tick: "rl_timer s \<Longrightarrow> loop_step s (snd (runOutboxRelayOnce s))"
| finish: "rl_inFlight s \<noteq> None \<Longrightarrow> loop_step s (pass_done s)"
| stop: "loop_step s (clear_timer s)"

inductive_cases loop_stepE: "loop_step s s'"

section \<open>Shutdown\<close>

text \<open>A step acts on the world and succeeds or fails. \<open>sd_running\<close> is the result of the first run. The forced
  exit is in \<open>shutdown_limited\<close> below.\<close>

record 'w shutdown_state =
  sd_running :: "nat option"
  sd_world :: 'w
  sd_done :: "string list"

type_synonym 'w shutdown_step = "string \<times> ('w \<Rightarrow> bool \<times> 'w)"

fun run_steps :: "'w shutdown_step list \<Rightarrow> nat \<Rightarrow> 'w shutdown_state \<Rightarrow> nat \<times> 'w shutdown_state" where
  "run_steps [] exit st = (exit, st)"
| "run_steps ((name, run) # steps) exit st =
     (let (ok, w) = run (sd_world st)
      in run_steps steps (if ok then exit else 1) (st\<lparr>sd_world := w, sd_done := sd_done st @ [name]\<rparr>))"

definition shutdown :: "'w shutdown_step list \<Rightarrow> bool \<Rightarrow> 'w shutdown_state \<Rightarrow> nat \<times> 'w shutdown_state" where
  "shutdown steps fatal st =
     (case sd_running st of
        Some exit \<Rightarrow> (exit, st)
      | None \<Rightarrow> (let (exit, st') = run_steps steps (if fatal then 1 else 0) st in (exit, st'\<lparr>sd_running := Some exit\<rparr>)))"

text \<open>The first request again, now with the time limit. \<open>takes\<close> gives the milliseconds a step needs, if it ever
  settles; a step that is not done at the limit is cut off with the process, as are the steps after
  it. \<open>during\<close> is what else happens in the process while a step runs and, under the empty name, after the
  last one. Once the steps are done the process ends by itself unless something keeps it alive
  (\<open>leaks\<close>); then the limit ends it too.\<close>

fun run_limited :: "nat \<Rightarrow> (string \<Rightarrow> nat option) \<Rightarrow> (string \<Rightarrow> 'w \<Rightarrow> 'w) \<Rightarrow> 'w shutdown_step list \<Rightarrow> nat \<Rightarrow> nat
    \<Rightarrow> 'w shutdown_state \<Rightarrow> nat option \<times> 'w shutdown_state" where
  "run_limited limit takes during [] t exit st = (Some exit, st\<lparr>sd_world := during [] (sd_world st)\<rparr>)"
| "run_limited limit takes during ((name, run) # steps) t exit st =
     (case takes name of
        None \<Rightarrow> (None, st\<lparr>sd_world := during name (sd_world st)\<rparr>)
      | Some d \<Rightarrow>
          if limit \<le> t + d then (None, st\<lparr>sd_world := during name (sd_world st)\<rparr>)
          else (let (ok, w) = run (sd_world st)
                in run_limited limit takes during steps (t + d) (if ok then exit else 1)
                     (st\<lparr>sd_world := during name w, sd_done := sd_done st @ [name]\<rparr>)))"

definition shutdown_limited :: "nat \<Rightarrow> (string \<Rightarrow> nat option) \<Rightarrow> (string \<Rightarrow> 'w \<Rightarrow> 'w) \<Rightarrow> bool \<Rightarrow> 'w shutdown_step list \<Rightarrow> bool
    \<Rightarrow> 'w \<Rightarrow> nat \<times> 'w shutdown_state" where
  "shutdown_limited limit takes during leaks steps fatal w =
     (case run_limited limit takes during steps 0 (if fatal then 1 else 0) \<lparr>sd_running = None, sd_world = w, sd_done = []\<rparr> of
        (Some exit, st) \<Rightarrow> (if leaks then 1 else exit, st\<lparr>sd_running := Some exit\<rparr>)
      | (None, st) \<Rightarrow> (1, st))"

text \<open>Signals and fatal errors as they arrive.\<close>

datatype process_event = SIGINT | SIGTERM | uncaughtException | unhandledRejection

definition is_fatal :: "process_event \<Rightarrow> bool" where
  "is_fatal e = (e \<in> {uncaughtException, unhandledRejection})"

fun handle_events :: "'w shutdown_step list \<Rightarrow> process_event list \<Rightarrow> 'w shutdown_state \<Rightarrow> nat list \<times> 'w shutdown_state" where
  "handle_events steps [] st = ([], st)"
| "handle_events steps (e # es) st =
     (let (exit, st1) = shutdown steps (is_fatal e) st; (exits, st2) = handle_events steps es st1 in (exit # exits, st2))"

definition API_STEPS :: "string list" where
  "API_STEPS = [''http server'', ''database'', ''redis'']"

definition WORKER_STEPS :: "string list" where
  "WORKER_STEPS = [''scheduler'', ''outbox relay'', ''health file'', ''workers'', ''dead-letter writes'', ''queues'',
     ''database'', ''redis'']"

section \<open>Health\<close>

definition status_json :: "bool \<Rightarrow> json" where
  "status_json up = JStr (if up then ''UP'' else ''DOWN'')"

text \<open>\<open>uptime\<close> and \<open>now\<close> are the values assigned last.\<close>

definition healthCheck :: "string option \<Rightarrow> bool \<Rightarrow> bool \<Rightarrow> json \<Rightarrow> json \<Rightarrow> http_response" where
  "healthCheck NODE_ENV dbUp redisUp uptime now =
     (let isProd = (NODE_ENV = Some ''production'') in
      \<lparr>res_status = 200,
       res_body = JObj [(''status'', JStr ''OK''), (''uptime'', uptime), (''timestamp'', now),
         (''services'', JObj [(''database'', if isProd then JStr ''UNKNOWN'' else status_json dbUp),
                            (''redis'', if isProd then JStr ''UNKNOWN'' else status_json redisUp)])],
       res_cookies = []\<rparr>)"

definition readyCheck :: "bool \<Rightarrow> bool \<Rightarrow> http_response" where
  "readyCheck dbUp redisUp =
     (if dbUp \<and> redisUp
      then \<lparr>res_status = 200, res_body = JObj [(''status'', JStr ''READY'')], res_cookies = []\<rparr>
      else \<lparr>res_status = 503, res_body = JObj [(''status'', JStr ''NOT_READY'')], res_cookies = []\<rparr>)"

section \<open>One job per slot\<close>

definition slot_ms :: "slot_unit \<Rightarrow> int" where
  "slot_ms unit = int (SLOT_SECONDS unit) * 1000"

lemma length_pad_int: "n \<le> length (pad_int n i)"
  by (simp add: pad_int_def padStart_def)

lemma length_iso_year: "4 \<le> length (iso_year y)"
  using length_pad_int [of 4 y] length_pad_int [of 6 "\<bar>y\<bar>"] by (simp add: iso_year_def)

definition iso_date :: "int \<Rightarrow> string" where
  "iso_date days = (let (y, m, d) = civil_of_days days in iso_year y @ ''-'' @ pad_int 2 m @ ''-'' @ pad_int 2 d)"

lemma length_iso_date: "10 \<le> length (iso_date days)"
proof -
  obtain y m d where c: "civil_of_days days = (y, m, d)" by (cases "civil_of_days days") auto
  show ?thesis
    using length_iso_year [of y] length_pad_int [of 2 m] length_pad_int [of 2 d] by (simp add: iso_date_def c)
qed

lemma toISOString_prefix:
  "\<exists>rest. toISOString t = iso_date (t div MS_PER_DAY) @ ''T'' @ pad_int 2 (t mod MS_PER_DAY div 3600000) @ rest"
  by (auto simp: toISOString_def iso_date_def Let_def split: prod.splits)

lemma slotKey_eq:
  "slotKey day t = take 10 (iso_date (t div MS_PER_DAY))"
  "slotKey hour t = take 13 (iso_date (t div MS_PER_DAY) @ ''T'' @ pad_int 2 (t mod MS_PER_DAY div 3600000))"
proof -
  obtain rest where r: "toISOString t = iso_date (t div MS_PER_DAY) @ ''T'' @ pad_int 2 (t mod MS_PER_DAY div 3600000) @ rest"
    using toISOString_prefix by blast
  have l: "10 \<le> length (iso_date (t div MS_PER_DAY))" "2 \<le> length (pad_int 2 (t mod MS_PER_DAY div 3600000))"
    by (rule length_iso_date, rule length_pad_int)
  show "slotKey day t = take 10 (iso_date (t div MS_PER_DAY))" using l by (simp add: slotKey_def r)
  define X where "X = iso_date (t div MS_PER_DAY) @ ''T'' @ pad_int 2 (t mod MS_PER_DAY div 3600000)"
  have "13 \<le> length X" "toISOString t = X @ rest" using l r by (simp_all add: X_def)
  then show "slotKey hour t = take 13 (iso_date (t div MS_PER_DAY) @ ''T'' @ pad_int 2 (t mod MS_PER_DAY div 3600000))"
    unfolding X_def [symmetric] by (simp add: slotKey_def)
qed

text \<open>Times of one slot have one key.\<close>

lemma slotKey_same:
  assumes "t div slot_ms unit = u div slot_ms unit"
  shows "slotKey unit t = slotKey unit u"
proof (cases unit)
  case day
  then have "t div MS_PER_DAY = u div MS_PER_DAY" using assms by (simp add: slot_ms_def MS_PER_DAY_def)
  then show ?thesis by (simp add: day slotKey_eq)
next
  case hour
  then have h: "t div 3600000 = u div 3600000" using assms by (simp add: slot_ms_def)
  have "x mod (3600000 * 24) = 3600000 * (x div 3600000 mod 24) + x mod 3600000" for x :: int
    by (rule zmod_zmult2_eq) simp
  then have "x mod MS_PER_DAY div 3600000 = x div 3600000 mod 24" for x :: int by (simp add: MS_PER_DAY_def)
  moreover have "x div MS_PER_DAY = x div 3600000 div 24" for x :: int by (simp add: MS_PER_DAY_def)
  ultimately have d: "x div MS_PER_DAY = x div 3600000 div 24" "x mod MS_PER_DAY div 3600000 = x div 3600000 mod 24"
    for x :: int by simp_all
  show ?thesis unfolding hour slotKey_eq d h ..
qed

lemma job_id_parts:
  assumes "CHR ''-'' \<notin> set n" and "CHR ''-'' \<notin> set m" and "n @ ''-'' @ k = m @ ''-'' @ l"
  shows "n = m \<and> k = l"
proof -
  have "takeWhile (\<lambda>c. c \<noteq> CHR ''-'') (x @ ''-'' @ y) = x" if "CHR ''-'' \<notin> set x" for x y
    using that by (induction x) auto
  from this [OF assms(1), of k] this [OF assms(2), of l] have "n = m" using assms(3) by simp
  with assms(3) show ?thesis by simp
qed

lemma schedule_names:
  assumes "s \<in> set SCHEDULES" and "n \<in> set (sch_jobs s)"
  shows "CHR ''-'' \<notin> set n \<and> (\<forall>s' \<in> set SCHEDULES. n \<in> set (sch_jobs s') \<longrightarrow> s' = s)"
  using assms by (auto simp: SCHEDULES_def JOB_CLEANUP_EXPIRED_TOKENS_def JOB_CLEANUP_OUTBOX_def
      JOB_CLEANUP_DEAD_LETTER_JOBS_def)

lemma scheduled_job_id:
  assumes "s \<in> set SCHEDULES" and "n \<in> set (sch_jobs s)" and "s' \<in> set SCHEDULES" and "n' \<in> set (sch_jobs s')"
    and "jo_jobId (scheduledJobOptions n' (sch_unit s') t') = jo_jobId (scheduledJobOptions n (sch_unit s) t)"
  shows "s' = s \<and> n' = n"
proof -
  have "n' = n \<and> slotKey (sch_unit s') t' = slotKey (sch_unit s) t"
    using job_id_parts [of n' n] schedule_names [OF assms(1,2)] schedule_names [OF assms(3,4)] assms(5)
    by (simp add: scheduledJobOptions_def Let_def)
  then show ?thesis using schedule_names [OF assms(1,2)] assms(3,4) by auto
qed

text \<open>A job of the slot is created once and stays in the queue until the slot is over.\<close>

definition has_job :: "string \<Rightarrow> system_queue \<Rightarrow> bool" where
  "has_job j q = (j \<in> qj_id ` set (sq_jobs q))"

definition slot_inv :: "slot_unit \<Rightarrow> int \<Rightarrow> string \<Rightarrow> system_queue \<Rightarrow> bool" where
  "slot_inv unit k j q =
     (count_list (sq_created q) j = (if has_job j q then 1 else 0)
      \<and> (\<forall>x \<in> set (sq_jobs q). qj_id x = j \<longrightarrow> qj_age x = 2 * SLOT_SECONDS unit
            \<and> (\<forall>f. qj_finishedAt x = Some f \<longrightarrow> f div slot_ms unit = k)))"

lemma system_add_inv:
  assumes "slot_inv unit k j q" and "jo_jobId opts = j \<Longrightarrow> jo_removeOnComplete opts = 2 * SLOT_SECONDS unit"
  shows "slot_inv unit k j (system_add name opts q)"
  using assms by (auto simp: slot_inv_def system_add_def has_job_def count_list_append)

lemma has_job_add: "has_job j (system_add name opts q) \<longleftrightarrow> has_job j q \<or> jo_jobId opts = j"
  by (auto simp: has_job_def system_add_def)

lemma has_job_adds:
  "has_job j (fold (\<lambda>n. system_add n (opts n)) ns q) \<longleftrightarrow> has_job j q \<or> (\<exists>n \<in> set ns. jo_jobId (opts n) = j)"
  by (induction ns arbitrary: q) (auto simp: has_job_add)

lemma enqueueScheduled_inv:
  assumes "slot_inv unit k j q"
    and "\<And>n. n \<in> set ns \<Longrightarrow> jo_jobId (opts n) = j \<Longrightarrow> jo_removeOnComplete (opts n) = 2 * SLOT_SECONDS unit"
  shows "slot_inv unit k j (fold (\<lambda>n. system_add n (opts n)) ns q)"
  using assms by (induction ns arbitrary: q) (auto intro!: system_add_inv)

lemma finish_inv:
  assumes "slot_inv unit k j q" and "at div slot_ms unit = k"
  shows "slot_inv unit k j (queue_step (Finish i at) q)" and "has_job j (queue_step (Finish i at) q) = has_job j q"
proof -
  have "qj_id ` set (sq_jobs (queue_step (Finish i at) q)) = qj_id ` set (sq_jobs q)"
    unfolding set_map [symmetric] by (simp add: map_update_where del: set_map)
  then show h: "has_job j (queue_step (Finish i at) q) = has_job j q" by (simp add: has_job_def)
  show "slot_inv unit k j (queue_step (Finish i at) q)"
    using assms h by (auto simp: slot_inv_def set_update_where)
qed

lemma slot_ms_pos [simp]: "0 < slot_ms unit" by (cases unit) (simp_all add: slot_ms_def)

lemma same_slot_close: "a div slot_ms unit = b div slot_ms unit \<Longrightarrow> b < a + 2 * slot_ms unit"
proof -
  assume e: "a div slot_ms unit = b div slot_ms unit"
  have "b = b div slot_ms unit * slot_ms unit + b mod slot_ms unit" "b mod slot_ms unit < slot_ms unit"
    "a = a div slot_ms unit * slot_ms unit + a mod slot_ms unit" "0 \<le> a mod slot_ms unit" by simp_all
  moreover from e have "a div slot_ms unit * slot_ms unit = b div slot_ms unit * slot_ms unit" by simp
  ultimately show ?thesis using slot_ms_pos [of unit] by linarith
qed

lemma clean_inv:
  assumes "slot_inv unit k j q" and "at div slot_ms unit = k"
  shows "slot_inv unit k j (queue_step (Clean at) q)" and "has_job j (queue_step (Clean at) q) = has_job j q"
proof -
  have keep: "\<not> f + int (qj_age x) * 1000 < at" if "x \<in> set (sq_jobs q)" "qj_id x = j" "qj_finishedAt x = Some f" for x f
  proof -
    have "qj_age x = 2 * SLOT_SECONDS unit" "f div slot_ms unit = at div slot_ms unit"
      using that assms by (auto simp: slot_inv_def)
    with same_slot_close [of f unit at] show ?thesis by (simp add: slot_ms_def)
  qed
  then show h: "has_job j (queue_step (Clean at) q) = has_job j q"
    by (force simp: has_job_def split: option.splits)
  show "slot_inv unit k j (queue_step (Clean at) q)"
    using assms(1) h by (auto simp: slot_inv_def)
qed

lemma slot_step:
  assumes "s \<in> set SCHEDULES" and "name \<in> set (sch_jobs s)"
    and j: "j = jo_jobId (scheduledJobOptions name (sch_unit s) t)"
    and i: "slot_inv (sch_unit s) (t div slot_ms (sch_unit s)) j q"
    and e: "event_time e div slot_ms (sch_unit s) = t div slot_ms (sch_unit s)"
    and sch: "\<And>s' at. e = Tick s' at \<Longrightarrow> s' \<in> set SCHEDULES"
  shows "slot_inv (sch_unit s) (t div slot_ms (sch_unit s)) j (queue_step e q)
    \<and> (has_job j (queue_step e q) \<longleftrightarrow> has_job j q \<or> (\<exists>at. e = Tick s at))"
proof (cases e)
  case (Tick s' at)
  let ?o = "\<lambda>n. scheduledJobOptions n (sch_unit s') at"
  have o: "s' = s" if "n \<in> set (sch_jobs s')" "jo_jobId (?o n) = j" for n
    using scheduled_job_id [OF assms(1,2) sch [OF Tick] that(1)] that(2) j by blast
  then have "slot_inv (sch_unit s) (t div slot_ms (sch_unit s)) j (queue_step e q)"
    unfolding Tick queue_step.simps enqueueScheduled_def
    by (intro enqueueScheduled_inv [OF i]) (auto simp: scheduledJobOptions_def Let_def)
  moreover have "jo_jobId (scheduledJobOptions name (sch_unit s) at) = j"
    using slotKey_same [of at "sch_unit s" t] e j by (simp add: Tick scheduledJobOptions_def Let_def)
  with o assms(2) have "(\<exists>n \<in> set (sch_jobs s'). jo_jobId (?o n) = j) \<longleftrightarrow> s' = s" by blast
  then have "has_job j (queue_step e q) \<longleftrightarrow> has_job j q \<or> s' = s"
    unfolding Tick queue_step.simps enqueueScheduled_def has_job_adds by (rule arg_cong)
  ultimately show ?thesis by (simp add: Tick del: queue_step.simps)
next
  case (Finish f at)
  with e have "at div slot_ms (sch_unit s) = t div slot_ms (sch_unit s)" by simp
  from finish_inv [OF i this, of f] show ?thesis by (simp add: Finish del: queue_step.simps)
next
  case (Clean at)
  with e have "at div slot_ms (sch_unit s) = t div slot_ms (sch_unit s)" by simp
  from clean_inv [OF i this] show ?thesis by (simp add: Clean del: queue_step.simps)
qed

lemma slot_run:
  assumes "s \<in> set SCHEDULES" and "name \<in> set (sch_jobs s)"
    and "j = jo_jobId (scheduledJobOptions name (sch_unit s) t)"
    and "slot_inv (sch_unit s) (t div slot_ms (sch_unit s)) j q"
    and "\<And>e. e \<in> set es \<Longrightarrow> event_time e div slot_ms (sch_unit s) = t div slot_ms (sch_unit s)"
    and "\<And>s' at. Tick s' at \<in> set es \<Longrightarrow> s' \<in> set SCHEDULES"
  shows "slot_inv (sch_unit s) (t div slot_ms (sch_unit s)) j (fold queue_step es q)
    \<and> (has_job j (fold queue_step es q) \<longleftrightarrow> has_job j q \<or> (\<exists>at. Tick s at \<in> set es))"
  using assms(4-6)
proof (induction es arbitrary: q)
  case (Cons e es)
  have "event_time e div slot_ms (sch_unit s) = t div slot_ms (sch_unit s)" by (rule Cons.prems(2)) simp
  moreover have "s' \<in> set SCHEDULES" if "e = Tick s' at" for s' at by (rule Cons.prems(3) [of s' at]) (simp add: that)
  ultimately have e: "slot_inv (sch_unit s) (t div slot_ms (sch_unit s)) j (queue_step e q)"
      "has_job j (queue_step e q) \<longleftrightarrow> has_job j q \<or> (\<exists>at. e = Tick s at)"
    using slot_step [OF assms(1-3) Cons.prems(1)] by blast+
  have "slot_inv (sch_unit s) (t div slot_ms (sch_unit s)) j (fold queue_step es (queue_step e q))
      \<and> (has_job j (fold queue_step es (queue_step e q)) \<longleftrightarrow> has_job j (queue_step e q) \<or> (\<exists>at. Tick s at \<in> set es))"
    by (rule Cons.IH [OF e(1)]) (rule Cons.prems(2), simp, rule Cons.prems(3), rule list.set_intros(2))
  with e(2) show ?case by auto
qed simp

text \<open>C27. Scheduled maintenance runs once per slot: however many workers tick, jobs finish and finished
  jobs are cleaned up within one hour or day, each job of a schedule is created exactly once as soon
  as its schedule ticks.\<close>

theorem scheduled_once:
  assumes "s \<in> set SCHEDULES" and "name \<in> set (sch_jobs s)"
    and "\<And>e. e \<in> set es \<Longrightarrow> event_time e div slot_ms (sch_unit s) = t div slot_ms (sch_unit s)"
    and "\<And>s' at. Tick s' at \<in> set es \<Longrightarrow> s' \<in> set SCHEDULES"
    and "j = jo_jobId (scheduledJobOptions name (sch_unit s) t)"
    and "\<not> has_job j q" and "j \<notin> set (sq_created q)"
  shows "count_list (sq_created (fold queue_step es q)) j = (if \<exists>at. Tick s at \<in> set es then 1 else 0)"
proof -
  have "slot_inv (sch_unit s) (t div slot_ms (sch_unit s)) j q" using assms(6,7) by (auto simp: slot_inv_def has_job_def)
  from slot_run [OF assms(1,2,5) this assms(3,4)] assms(6) show ?thesis by (simp add: slot_inv_def)
qed

theorem scheduled_once_witness:
  "count_list (sq_created (fold queue_step
      [Tick (hd SCHEDULES) 100, Finish ''cleanupExpiredTokens-1970-01-01T00'' 2000, Clean 3000000, Tick (hd SCHEDULES) 3000001]
      \<lparr>sq_jobs = [], sq_created = []\<rparr>)) (jo_jobId (scheduledJobOptions JOB_CLEANUP_EXPIRED_TOKENS hour 0)) = 1"
proof -
  let ?s = "hd SCHEDULES" and ?q = "\<lparr>sq_jobs = [], sq_created = []\<rparr>"
  let ?es = "[Tick ?s 100, Finish ''cleanupExpiredTokens-1970-01-01T00'' 2000, Clean 3000000, Tick ?s 3000001]"
  let ?j = "jo_jobId (scheduledJobOptions JOB_CLEANUP_EXPIRED_TOKENS hour 0)"
  have s: "?s \<in> set SCHEDULES" "JOB_CLEANUP_EXPIRED_TOKENS \<in> set (sch_jobs ?s)" "sch_unit ?s = hour"
    by (simp_all add: SCHEDULES_def)
  have t: "event_time e div slot_ms (sch_unit ?s) = 0 div slot_ms (sch_unit ?s)" if "e \<in> set ?es" for e
    using that by (auto simp: slot_ms_def s(3))
  have "count_list (sq_created (fold queue_step ?es ?q)) ?j = (if \<exists>at. Tick ?s at \<in> set ?es then 1 else 0)"
    by (rule scheduled_once [OF s(1,2) t]) (auto simp: s has_job_def)
  moreover have "\<exists>at. Tick ?s at \<in> set ?es" by (intro exI [of _ 100]) simp
  ultimately show ?thesis by (simp only: if_True)
qed

section \<open>The relay loop stops\<close>

text \<open>Passes do not overlap: a pass starts only when none is in progress, and joining returns the one in
  progress. Once the timer is cleared no new pass starts, so when the pass in progress ends the loop
  is at rest.\<close>

lemma loop_passes:
  assumes "loop_step\<^sup>*\<^sup>* s s'" and "\<not> rl_timer s"
  shows "rl_passes s' = rl_passes s \<and> \<not> rl_timer s' \<and> (rl_inFlight s' = None \<or> rl_inFlight s' = rl_inFlight s)"
  using assms(1)
proof induction
  case (step y z)
  from step.hyps(2) step.IH show ?case by (cases rule: loop_step.cases) (auto simp: pass_done_def clear_timer_def)
qed (simp add: assms(2))

section \<open>Shutdown runs every step once\<close>

lemma run_steps_done:
  "run_steps steps exit st = (e, st') \<Longrightarrow> sd_done st' = sd_done st @ map fst steps \<and> sd_running st' = sd_running st
     \<and> (e = 0 \<longrightarrow> exit = 0)"
  by (induction steps exit st rule: run_steps.induct) (auto split: prod.splits if_splits)

lemma handle_events_again: "sd_running st = Some exit \<Longrightarrow> handle_events steps es st = (replicate (length es) exit, st)"
  by (induction es) (simp_all add: shutdown_def)

text \<open>All steps succeed on the way.\<close>

fun steps_ok :: "'w shutdown_step list \<Rightarrow> 'w \<Rightarrow> bool" where
  "steps_ok [] w = True"
| "steps_ok ((name, run) # steps) w = (fst (run w) \<and> steps_ok steps (snd (run w)))"

lemma run_steps_exit:
  "exit \<le> 1 \<Longrightarrow> run_steps steps exit st = (e, st') \<Longrightarrow>
     e = (if steps_ok steps (sd_world st) then exit else 1)"
  by (induction steps exit st rule: run_steps.induct) (auto split: prod.splits if_splits)

text \<open>C31. Shutdown runs every close step exactly once and in order, whatever signals and fatal errors
  arrive and whichever steps fail; every request gets the same exit code, which is 0 exactly when
  the first request was not fatal and every step succeeded.\<close>

theorem shutdown_once:
  assumes "handle_events steps (e # es) \<lparr>sd_running = None, sd_world = w, sd_done = []\<rparr> = (exits, st')"
  shows "sd_done st' = map fst steps
    \<and> exits = replicate (Suc (length es)) (if \<not> is_fatal e \<and> steps_ok steps w then 0 else 1)"
proof -
  let ?st = "\<lparr>sd_running = None, sd_world = w, sd_done = []\<rparr>"
  obtain x st1 where r: "run_steps steps (if is_fatal e then 1 else 0) ?st = (x, st1)" by fastforce
  have "x = (if \<not> is_fatal e \<and> steps_ok steps w then 0 else 1)" using run_steps_exit [OF _ r] by simp
  moreover have "sd_done st1 = map fst steps" using run_steps_done [OF r] by simp
  moreover have "exits = x # replicate (length es) x" "st' = st1\<lparr>sd_running := Some x\<rparr>"
    using assms by (simp_all add: shutdown_def r handle_events_again)
  ultimately show ?thesis by simp
qed

theorem shutdown_once_witness:
  "handle_events (map (\<lambda>n. (n, \<lambda>w. (n \<noteq> ''redis'', n # w))) API_STEPS) [SIGTERM, SIGINT] \<lparr>sd_running = None, sd_world = [], sd_done = []\<rparr>
     = ([1, 1], \<lparr>sd_running = Some 1, sd_world = rev API_STEPS, sd_done = API_STEPS\<rparr>)"
proof -
  let ?steps = "map (\<lambda>n. (n, \<lambda>w. (n \<noteq> ''redis'', n # w))) API_STEPS"
  let ?st = "\<lparr>sd_running = None, sd_world = [], sd_done = []\<rparr>"
  obtain exits st' where h: "handle_events ?steps [SIGTERM, SIGINT] ?st = (exits, st')" by fastforce
  have "\<not> steps_ok ?steps []" by (simp add: API_STEPS_def)
  with shutdown_once [OF h] have "exits = [1, 1]" by simp
  moreover have "st' = \<lparr>sd_running = Some 1, sd_world = rev API_STEPS, sd_done = API_STEPS\<rparr>"
    using h by (simp add: API_STEPS_def shutdown_def is_fatal_def)
  ultimately show ?thesis using h by simp
qed

section \<open>Shutdown within its time limit\<close>

text \<open>The durations of the steps together: the time after which all have run, if ever.\<close>

fun steps_time :: "nat option list \<Rightarrow> nat option" where
  "steps_time [] = Some 0"
| "steps_time (d # ds) = (case (d, steps_time ds) of (Some x, Some y) \<Rightarrow> Some (x + y) | _ \<Rightarrow> None)"

text \<open>Steps that together stay below the limit all run, and nothing else differs from the run without a limit.\<close>

lemma run_limited_in_time:
  assumes "steps_time (map takes (map fst steps)) = Some d" and "t + d < limit"
  shows "run_limited limit takes (\<lambda>_ w. w) steps t exit st = map_prod Some id (run_steps steps exit st)"
  using assms
proof (induction steps arbitrary: t d exit st)
  case (Cons s steps)
  obtain name run where s: "s = (name, run)" by fastforce
  from Cons.prems(1) s obtain x y where d: "takes name = Some x" "steps_time (map takes (map fst steps)) = Some y" "d = x + y"
    by (auto split: option.splits)
  have "t + x + y < limit" using Cons.prems(2) d by simp
  note ih = Cons.IH [OF d(2) this]
  from \<open>t + x + y < limit\<close> show ?case using d by (simp add: s ih split: prod.split)
qed simp

lemma shutdown_limited_in_time:
  assumes "steps_time (map takes (map fst steps)) = Some d" and "d < limit"
  shows "shutdown_limited limit takes (\<lambda>_ w. w) False steps fatal w
    = shutdown steps fatal \<lparr>sd_running = None, sd_world = w, sd_done = []\<rparr>"
  using run_limited_in_time [OF assms(1), of 0 limit] assms(2)
  by (simp add: shutdown_limited_def shutdown_def split: prod.split)

lemma run_limited_cut:
  assumes "\<not> (\<exists>d. takes name = Some d \<and> t + d < limit)"
  shows "run_limited limit takes during ((name, run) # steps) t exit st = (None, st\<lparr>sd_world := during name (sd_world st)\<rparr>)"
  using assms by (cases "takes name") auto

lemma run_limited_done:
  assumes "run_limited limit takes during steps t exit st = (r, st')"
  shows "(\<exists>n. sd_done st' = sd_done st @ take n (map fst steps))
    \<and> (r \<noteq> None \<longrightarrow> sd_done st' = sd_done st @ map fst steps)
    \<and> (\<forall>d. steps_time (map takes (map fst steps)) = Some d \<longrightarrow> t + d < limit \<longrightarrow> r \<noteq> None)"
  using assms
proof (induction steps arbitrary: t exit st)
  case (Cons s steps)
  obtain name run where s: "s = (name, run)" by fastforce
  show ?case
  proof (cases "\<exists>d. takes name = Some d \<and> t + d < limit")
    case True
    then obtain d where d: "takes name = Some d" "t + d < limit" by blast
    obtain ok w where w: "run (sd_world st) = (ok, w)" by fastforce
    let ?st = "st\<lparr>sd_world := during name w, sd_done := sd_done st @ [name]\<rparr>"
    have r: "run_limited limit takes during steps (t + d) (if ok then exit else 1) ?st = (r, st')"
      using Cons.prems s d w by simp
    note ih = Cons.IH [OF r]
    then obtain n where "sd_done st' = sd_done st @ name # take n (map fst steps)" by auto
    then have "sd_done st' = sd_done st @ take (Suc n) (map fst (s # steps))" by (simp add: s)
    then have "\<exists>n. sd_done st' = sd_done st @ take n (map fst (s # steps))" by blast
    with ih d s show ?thesis by (auto split: option.splits)
  next
    case False
    have r: "r = None" "sd_done st' = sd_done st" using Cons.prems unfolding s run_limited_cut [where takes = takes and name = name and t = t and limit = limit, OF False] by auto
    have "sd_done st' = sd_done st @ take 0 (map fst (s # steps))" using r by simp
    with False r show ?thesis by (auto simp: s split: option.splits)
  qed
qed (auto intro: exI [of _ 0])

lemma run_limited_prefix:
  assumes "run_limited limit takes during (pre @ post) t exit st = (r, st')"
    and "length (sd_done st) + length pre \<le> length (sd_done st')"
  shows "\<exists>t1 exit1 st1. run_limited limit takes during post t1 exit1 st1 = (r, st')
    \<and> sd_world st1 = fold (\<lambda>(name, run) w. during name (snd (run w))) pre (sd_world st)"
  using assms
proof (induction pre arbitrary: t exit st)
  case (Cons s pre)
  obtain name run where s: "s = (name, run)" by fastforce
  show ?case
  proof (cases "\<exists>d. takes name = Some d \<and> t + d < limit")
    case True
    then obtain d where d: "takes name = Some d" "t + d < limit" by blast
    obtain ok w where w: "run (sd_world st) = (ok, w)" by fastforce
    let ?st = "st\<lparr>sd_world := during name w, sd_done := sd_done st @ [name]\<rparr>"
    have r: "run_limited limit takes during (pre @ post) (t + d) (if ok then exit else 1) ?st = (r, st')"
      using Cons.prems(1) s d w by simp
    have "length (sd_done ?st) + length pre \<le> length (sd_done st')" using Cons.prems(2) by simp
    from Cons.IH [OF r this] show ?thesis by (simp add: s w)
  next
    case False
    have "sd_done st' = sd_done st"
      using Cons.prems(1) unfolding s append_Cons
        run_limited_cut [where takes = takes and name = name and t = t and limit = limit, OF False] by auto
    then show ?thesis using Cons.prems(2) by simp
  qed
qed auto

text \<open>What every step and everything beside the steps keeps, the whole run keeps, cut off or not.\<close>

lemma run_limited_keeps:
  assumes "\<And>name run w. (name, run) \<in> set steps \<Longrightarrow> R w (snd (run w))" and "\<And>name w. R w (during name w)"
    and "\<And>w1 w2 w3. R w1 w2 \<Longrightarrow> R w2 w3 \<Longrightarrow> R w1 w3"
    and "run_limited limit takes during steps t exit st = (r, st')"
  shows "R (sd_world st) (sd_world st')"
  using assms(1,4)
proof (induction steps arbitrary: t exit st)
  case Nil
  then show ?case using assms(2) by auto
next
  case (Cons s steps)
  obtain name run where s: "s = (name, run)" by fastforce
  show ?case
  proof (cases "\<exists>d. takes name = Some d \<and> t + d < limit")
    case True
    then obtain d where d: "takes name = Some d" "t + d < limit" by blast
    obtain ok w where w: "run (sd_world st) = (ok, w)" by fastforce
    let ?st = "st\<lparr>sd_world := during name w, sd_done := sd_done st @ [name]\<rparr>"
    have r: "run_limited limit takes during steps (t + d) (if ok then exit else 1) ?st = (r, st')"
      using Cons.prems(2) s d w by simp
    have "R (sd_world ?st) (sd_world st')" by (rule Cons.IH [OF _ r]) (erule Cons.prems(1) [OF list.set_intros(2)])
    then have tail: "R (during name w) (sd_world st')" by simp
    have "R (sd_world st) w" using Cons.prems(1) [of name run "sd_world st"] s w by simp
    from assms(3) [OF this assms(3) [OF assms(2) tail]] show ?thesis .
  next
    case False
    have "st' = st\<lparr>sd_world := during name (sd_world st)\<rparr>"
      using Cons.prems(2) unfolding s run_limited_cut [where takes = takes and name = name and t = t and limit = limit, OF False] by simp
    then show ?thesis using assms(2) by simp
  qed
qed

end
