(* ===== verification/Api.thy ===== *)
theory Api
  imports Rate_Limit Listings Upload Schemas Lifecycle
begin

text \<open>
  The HTTP API as one function of a request: the application with its global middleware
  (\<^verbatim>\<open>src/app.ts\<close>), the routers of every module in the order of their declarations
  (\<^verbatim>\<open>src/routes/index.ts\<close> and the \<^verbatim>\<open>*.route.ts\<close> files under \<^verbatim>\<open>src/modules\<close>) over the controllers, guards,
  schemas, uploaders and limiters of the other theories, and the error handler. Parsing of bodies,
  cookies and multipart forms, static files and the answer to unknown paths belong to the libraries
  and are given with the request or the server.
\<close>

section \<open>Server and request\<close>

record server =
  sv_crypto :: crypto
  sv_env :: env
  sv_NODE_ENV :: "string option"
  sv_allowedOrigins :: "string list"
  sv_originFromReferer :: "string \<Rightarrow> string option"
  sv_APP_URL :: string
  sv_zod :: zod
  sv_locales :: "string list"
  sv_xss :: "string \<Rightarrow> string"
  sv_increment :: increment
  sv_clientKey :: client_key
  sv_lower :: "string \<Rightarrow> string"
  sv_order :: db_order
  sv_localeDate :: "string \<Rightarrow> string"
  sv_midnight :: "string \<Rightarrow> time"
  sv_static :: "http_request \<Rightarrow> app \<Rightarrow> raised + http_response option"
  sv_unanswered :: "http_request \<Rightarrow> http_response"
  sv_dbMessage :: "string \<Rightarrow> string"

definition isProduction :: "server \<Rightarrow> bool" where
  "isProduction S = (sv_NODE_ENV S = Some ''production'')"

text \<open>What one request meets: the clocks, the parsed body or the parser's error, the multipart form
  with its file, the values drawn for it, and what others commit in between.\<close>

record circumstances =
  now_of :: time
  dbnow_of :: time
  parsed_body :: "raised + json"
  multipart :: "(json \<times> upload option) option"
  file_bytes :: "byte list"
  entropy_of :: entropy
  otp_number :: nat
  tokens_between :: "refresh_token list \<Rightarrow> refresh_token list"
  codes_between :: "email_otp list \<Rightarrow> email_otp list"
  passes_between :: interference
  database_up :: bool
  uptime_of :: json
  stack_of :: string

section \<open>Guards as stages\<close>

definition authenticate :: "server \<Rightarrow> circumstances \<Rightarrow> stage" where
  "authenticate S D = guard (authMiddleware (sv_crypto S) (sv_env S) (now_of D))"

definition permission :: "string \<Rightarrow> circumstances \<Rightarrow> stage" where
  "permission p D req a =
     (case checkPermission p None (req_sub req) (now_of D) (app_db a) (app_redis a) of
        (Inl e, s) \<Rightarrow> (Raise (Service e), a\<lparr>app_redis := s\<rparr>)
      | (Inr _, s) \<Rightarrow> (Next req, a\<lparr>app_redis := s\<rparr>))"

definition validated :: "(json \<Rightarrow> issues + json) \<Rightarrow> stage" where
  "validated schema = guard (validate schema)"

text \<open>\<^verbatim>\<open>avatarUploader.single('avatar')\<close>: a request that is not multipart passes; otherwise the body becomes
  the text fields of the form, which no earlier middleware has seen.\<close>

definition avatar_upload :: "circumstances \<Rightarrow> stage" where
  "avatar_upload D req a =
     (case multipart D of
        None \<Rightarrow> (Next req, a)
      | Some (form, file) \<Rightarrow>
          (case avatarUploader (file_bytes D) file (app_files a) of
             (Inl r, fs) \<Rightarrow> (Raise r, a\<lparr>app_files := fs\<rparr>)
           | (Inr filename, fs) \<Rightarrow> (Next (req\<lparr>req_body := form, req_filename := filename\<rparr>), a\<lparr>app_files := fs\<rparr>)))"

definition origin_guard :: "server \<Rightarrow> stage" where
  "origin_guard S = guard (checkOrigin (sv_originFromReferer S) (sv_allowedOrigins S))"

definition otpEnabled :: "server \<Rightarrow> stage" where
  "otpEnabled S req a = (if settings_mode (sv_env S) = Otp then Next req else Next_route, a)"

definition limit :: "server \<Rightarrow> circumstances \<Rightarrow> limiter \<Rightarrow> stage" where
  "limit S D L = limited (sv_increment S) (sv_clientKey S) L (now_of D)"

definition path_param :: "string \<Rightarrow> http_request \<Rightarrow> string" where
  "path_param k req = (case map_of (req_params req) k of None \<Rightarrow> [] | Some v \<Rightarrow> v)"

definition page_of_request :: "http_request \<Rightarrow> page_request" where
  "page_of_request req = \<lparr>rq_query = req_query req, rq_protocol = req_protocol req, rq_host = req_host req,
     rq_path = req_path req\<rparr>"

text \<open>A mounted router sees the path below its mount, which is \<open>/\<close> for every listing. So the links that a listing
  returns lead to the root of the host, which is no address of the API.\<close>

lemma listing_links_lead_away:
  assumes "mount_path base base = Some path"
  shows "\<exists>query. buildUrl (page_of_request (req\<lparr>req_path := path\<rparr>)) p = req_protocol req @ ''://'' @ req_host req @ ''/?'' @ query"
    and "mount_path ''/api/v1'' path = None"
proof -
  have path: "path = ''/''" using assms by (simp add: mount_path_def)
  show "mount_path ''/api/v1'' path = None" unfolding path by code_simp
  show "\<exists>query. buildUrl (page_of_request (req\<lparr>req_path := path\<rparr>)) p = req_protocol req @ ''://'' @ req_host req @ ''/?'' @ query"
    by (simp add: buildUrl_def basePath_def page_of_request_def path)
qed

section \<open>Authentication routes\<close>

definition otp_router :: "server \<Rightarrow> circumstances \<Rightarrow> stage" where
  "otp_router S D = router
     [Route ''POST'' [''send-otp'']
        [otpEnabled S, limit S D (sendOtpRateLimiter (isProduction S)), validated (sendOtpSchema (sv_zod S)),
         handle_db (send_otp_controller (sv_crypto S) (sv_env S) (sv_lower S) (otp_number D) (entropy_of D) (now_of D))],
      Route ''POST'' [''verify-otp'']
        [otpEnabled S, limit S D (verifyOtpRateLimiter (isProduction S)), validated (verifyOtpSchema (sv_zod S)),
         handle_db (verify_otp_controller (sv_crypto S) (sv_env S) (codes_between D) (dbnow_of D) (now_of D))]]"

definition logout_stage :: "server \<Rightarrow> circumstances \<Rightarrow> stage" where
  "logout_stage S D = handle (\<lambda>req a.
     let (r, (db, s)) = logout_controller (sv_crypto S) (sv_env S) (isProduction S) (passes_between D) req (app_db a, app_redis a)
     in (r, a\<lparr>app_db := db, app_redis := s\<rparr>))"

definition auth_router :: "server \<Rightarrow> circumstances \<Rightarrow> stage" where
  "auth_router S D =
     (let C = sv_crypto S; E = sv_env S; Z = sv_zod S; p = isProduction S; R = entropy_of D; now = now_of D;
          dbnow = dbnow_of D; I = passes_between D in
      router
        [Route ''POST'' [''register'']
           [limit S D (registerRateLimiter p), validated (registerSchema Z),
            handle_db (register_controller C E (sv_lower S) R now dbnow)],
         Route ''POST'' [''login'']
           [origin_guard S, limit S D (loginRateLimiter p), validated (loginSchema Z),
            handle_db (login_controller C E p R now dbnow)],
         Route ''POST'' [''request-password-reset'']
           [limit S D (requestPasswordResetRateLimiter p), validated (requestPasswordResetSchema Z),
            handle_db (request_reset_controller E R now dbnow)],
         Route ''POST'' [''reset-password'']
           [limit S D (resetPasswordRateLimiter p), validated (resetPasswordSchema Z),
            handle_db (reset_controller C I now)],
         Use (otp_router S D),
         Use (limit S D (authRateLimiter p)),
         Route ''POST'' [''refresh'']
           [origin_guard S, handle_db (refresh_controller C E p (tokens_between D) I R now dbnow)],
         Route ''GET'' [''verify-email''] [handle_db (verify_email_controller now dbnow)],
         Route ''POST'' [''logout''] [origin_guard S, logout_stage S D]])"

section \<open>Administration and profile routes\<close>

definition user_route :: "server \<Rightarrow> circumstances \<Rightarrow> (http_request \<Rightarrow> user_call) \<Rightarrow> stage" where
  "user_route S D call = handle (\<lambda>req.
     user_controller (sv_crypto S) (passes_between D) (sv_APP_URL S) (now_of D) (call req) req)"

definition read_route :: "server \<Rightarrow> (http_request \<Rightarrow> read_call) \<Rightarrow> stage" where
  "read_route S call = handle (\<lambda>req.
     read_controller (sv_order S) (sv_localeDate S) (page_of_request req) (call req) req)"

definition users_router :: "server \<Rightarrow> circumstances \<Rightarrow> stage" where
  "users_router S D = router
     [Use (authenticate S D),
      Route ''GET'' [] [permission ''module.master-data.user.index'' D, read_route S (\<lambda>req. List_users)],
      Route ''GET'' ['':slug'']
        [permission ''module.master-data.user.index'' D, user_route S D (\<lambda>req. Show_user (path_param ''slug'' req))],
      Route ''POST'' []
        [permission ''module.master-data.user.create'' D, avatar_upload D, validated (createUserSchema (sv_zod S)),
         user_route S D (\<lambda>req. Store_user (user_input_of req))],
      Route ''PUT'' ['':slug'']
        [permission ''module.master-data.user.edit'' D, avatar_upload D, validated (updateUserSchema (sv_zod S)),
         user_route S D (\<lambda>req. Update_user (path_param ''slug'' req) (user_changes_of req))],
      Route ''DELETE'' ['':slug'']
        [permission ''module.master-data.user.delete'' D, user_route S D (\<lambda>req. Delete_user (path_param ''slug'' req))]]"

definition profile_router :: "server \<Rightarrow> circumstances \<Rightarrow> stage" where
  "profile_router S D = router
     [Route ''GET'' [] [authenticate S D, handle (profile_get (sv_APP_URL S) (now_of D))],
      Route ''PUT'' []
        [authenticate S D, avatar_upload D,
         validated (updateProfileSchema (sv_zod S) (sv_locales S) (take 10 (toISOString (now_of D)))),
         handle (\<lambda>req. profile_put (sv_crypto S) (sv_env S) (isProduction S) (passes_between D) (sv_midnight S)
           (sv_APP_URL S) (now_of D) (profile_input_of req) req)]]"

definition role_route :: "circumstances \<Rightarrow> (http_request \<Rightarrow> role_call) \<Rightarrow> stage" where
  "role_route D call = handle (\<lambda>req. role_controller (now_of D) (call req) req)"

definition catalogue :: "json \<Rightarrow> string \<Rightarrow> stage" where
  "catalogue j message = handle (\<lambda>req a. (Inr (response j message 200), a))"

definition roles_router :: "server \<Rightarrow> circumstances \<Rightarrow> stage" where
  "roles_router S D = router
     [Use (authenticate S D),
      Route ''GET'' [''access-list''] [catalogue access_list_json ''Access list retrieved successfully''],
      Route ''GET'' [''user-types''] [catalogue (JArr (map JStr USER_TYPES)) ''User types retrieved successfully''],
      Route ''GET'' [] [permission ''module.master-data.role.index'' D, read_route S (\<lambda>req. List_roles)],
      Route ''GET'' ['':slug'']
        [permission ''module.master-data.role.index'' D, role_route D (\<lambda>req. Show_role (path_param ''slug'' req))],
      Route ''POST'' []
        [permission ''module.master-data.role.create'' D, validated (createRoleSchema (sv_zod S)),
         role_route D (\<lambda>req. Store_role (role_input_of req))],
      Route ''PUT'' ['':slug'']
        [permission ''module.master-data.role.edit'' D, validated (updateRoleSchema (sv_zod S)),
         role_route D (\<lambda>req. Update_role (path_param ''slug'' req) (role_changes_of req))],
      Route ''DELETE'' ['':slug'']
        [permission ''module.master-data.role.delete'' D, role_route D (\<lambda>req. Destroy_role (path_param ''slug'' req))]]"

definition activity_log_router :: "server \<Rightarrow> circumstances \<Rightarrow> stage" where
  "activity_log_router S D = router
     [Use (authenticate S D),
      Route ''GET'' [] [permission ''module.activity-log.index'' D, read_route S (\<lambda>req. List_logs)],
      Route ''GET'' ['':id'']
        [permission ''module.activity-log.detail'' D, read_route S (\<lambda>req. Show_log (path_param ''id'' req))],
      Route ''GET'' [''user'', '':userId'']
        [permission ''module.activity-log.index'' D, read_route S (\<lambda>req. User_logs (path_param ''userId'' req))]]"

definition helper_router :: "server \<Rightarrow> circumstances \<Rightarrow> stage" where
  "helper_router S D = router
     [Use (authenticate S D),
      Route ''GET'' [''role-options'']
        [handle (\<lambda>req. reply ''Role options retrieved successfully'' JArr (\<lambda>db. Inr (getRoleOptions (sv_order S) db)))],
      Route ''GET'' [] [handle (\<lambda>req a. (Inr (response JNull ''Not Found'' 404), a))]]"

definition template_changes_of :: "http_request \<Rightarrow> template_changes" where
  "template_changes_of req = \<lparr>tc_title = body_opt ''title'' req, tc_subject = body_opt ''subject'' req,
     tc_body = body_opt ''body'' req, tc_isActive = body_bool ''isActive'' req\<rparr>"

definition template_put :: "circumstances \<Rightarrow> stage" where
  "template_put D = handle (\<lambda>req. respond (\<lambda>j. response j ''Email template updated'' 200)
     (in_db (template_update (path_param ''key'' req) (template_changes_of req) (req_sub req) (now_of D))))"

definition email_template_router :: "server \<Rightarrow> circumstances \<Rightarrow> stage" where
  "email_template_router S D = router
     [Use (authenticate S D),
      Route ''GET'' [] [permission ''module.master-data.email-template.index'' D, read_route S (\<lambda>req. List_templates)],
      Route ''GET'' ['':key'']
        [permission ''module.master-data.email-template.index'' D,
         read_route S (\<lambda>req. Show_template (path_param ''key'' req))],
      Route ''PUT'' ['':key'']
        [permission ''module.master-data.email-template.edit'' D, validated (updateEmailTemplateSchema (sv_zod S)),
         template_put D]]"

definition health_router :: "server \<Rightarrow> circumstances \<Rightarrow> stage" where
  "health_router S D = router
     [Route ''GET'' [] [handle (\<lambda>req a. (Inr (healthCheck (sv_NODE_ENV S) (database_up D) (redis_up (app_redis a))
        (uptime_of D) (JNum (now_of D))), a))],
      Route ''GET'' [''ready''] [handle (\<lambda>req a. (Inr (readyCheck (database_up D) (redis_up (app_redis a))), a))]]"

section \<open>The application\<close>

definition not_found :: http_response where
  "not_found = \<lparr>res_status = 404, res_body = JObj [(''message'', JStr ''Not Found'')], res_cookies = []\<rparr>"

definition routes :: "server \<Rightarrow> circumstances \<Rightarrow> stage" where
  "routes S D = router
     [Mount ''/health'' (health_router S D),
      Mount ''/auth'' (auth_router S D),
      Use (limit S D apiRateLimiter),
      Mount ''/users'' (users_router S D),
      Mount ''/profile'' (profile_router S D),
      Mount ''/roles'' (roles_router S D),
      Mount ''/activity-logs'' (activity_log_router S D),
      Mount ''/utils'' (helper_router S D),
      Mount ''/email-templates'' (email_template_router S D),
      Route ''GET'' [] [\<lambda>req a. (Send not_found, a)]]"

text \<open>\<^verbatim>\<open>cors\<close>: a foreign origin is refused, and a preflight request is answered at once.\<close>

definition cors :: "server \<Rightarrow> stage" where
  "cors S req a =
     (case corsOrigin (sv_allowedOrigins S) (req_origin req) of
        Inl e \<Rightarrow> (Raise (Service e), a)
      | Inr _ \<Rightarrow> (if req_method req = ''OPTIONS''
                 then Send \<lparr>res_status = 200, res_body = JNull, res_cookies = []\<rparr> else Next req, a))"

definition parse_body :: "circumstances \<Rightarrow> stage" where
  "parse_body D req a = (case parsed_body D of Inl r \<Rightarrow> Raise r | Inr body \<Rightarrow> Next (req\<lparr>req_body := body\<rparr>), a)"

text \<open>\<^verbatim>\<open>express.static\<close> answers with a stored file or leaves the request to the next middleware.\<close>

definition static_files :: "server \<Rightarrow> stage" where
  "static_files S req a =
     (case sv_static S req a of Inl r \<Rightarrow> Raise r | Inr (Some res) \<Rightarrow> Send res | Inr None \<Rightarrow> Next req, a)"

definition app_router :: "server \<Rightarrow> circumstances \<Rightarrow> stage" where
  "app_router S D = router
     [Use (cors S), Use (parse_body D), Use (\<lambda>req a. (Next (xssMiddleware (sv_xss S) req), a)),
      Mount ''/storage'' (static_files S),
      Mount ''/api/v1'' (routes S D)]"

definition serve :: "server \<Rightarrow> circumstances \<Rightarrow> http_request \<Rightarrow> app \<Rightarrow> http_response \<times> app" where
  "serve S D req a =
     (case app_router S D req a of
        (Send res, a1) \<Rightarrow> (res, a1)
      | (Raise r, a1) \<Rightarrow> (errorHandler (sv_dbMessage S) (sv_NODE_ENV S) (stack_of D) r, a1)
      | (_, a1) \<Rightarrow> (sv_unanswered S req, a1))"

end
