(* ===== verification/Api_Security.thy ===== *)
theory Api_Security
  imports Api
begin

text \<open>
  What the assembled API guarantees for every request: without a valid access token only the
  authentication endpoints change anything; the administrative modules change only for users whose
  stored role grants the permission of the operation; a body that its schema refuses, and a request
  from a foreign page to a cookie endpoint, change nothing. The proofs follow the routers: a property
  of stages is shown for each middleware and controller and carried through stage lists, routes,
  mounts and routers by its rules.
\<close>

section \<open>Where a request goes\<close>

definition target :: "http_request \<Rightarrow> string \<times> string \<times> string option" where
  "target req = (req_method req, req_path req, req_authorization req)"

definition keeps :: "app \<Rightarrow> app \<Rightarrow> bool" where
  "keeps a a' = (app_db a' = app_db a \<and> app_files a' = app_files a)"

lemma keeps_refl [simp]: "keeps a a" by (simp add: keeps_def)

lemma keeps_trans: "keeps a b \<Longrightarrow> keeps b c \<Longrightarrow> keeps a c" by (simp add: keeps_def)

text \<open>A steady stage passes the request on with its method, path and authorization.\<close>

definition steady :: "stage \<Rightarrow> bool" where
  "steady s = (\<forall>req a req'. fst (s req a) = Next req' \<longrightarrow> target req' = target req)"

definition changes_only_if :: "(string \<times> string \<times> string option \<Rightarrow> bool) \<Rightarrow> stage \<Rightarrow> bool" where
  "changes_only_if Q s = (\<forall>req a. \<not> Q (target req) \<longrightarrow> keeps a (snd (s req a)))"

named_theorems steady_rules
named_theorems change_rules

lemma run_stages_Cons:
  "run_stages (s # ss) req a = (case s req a of (Next req1, a1) \<Rightarrow> run_stages ss req1 a1 | r \<Rightarrow> r)"
  by simp

lemma steady_Nil [steady_rules]: "steady (run_stages [])"
  by (simp add: steady_def)

lemma steady_Cons [steady_rules]:
  assumes "steady s" and "steady (run_stages ss)"
  shows "steady (run_stages (s # ss))"
  unfolding steady_def
proof (intro allI impI)
  fix req a req'
  assume n: "fst (run_stages (s # ss) req a) = Next req'"
  then obtain req1 a1 where s: "s req a = (Next req1, a1)" and r: "fst (run_stages ss req1 a1) = Next req'"
    by (auto split: prod.splits outcome.splits)
  have "target req1 = target req" using assms(1) s unfolding steady_def by (metis fst_conv)
  moreover have "target req' = target req1" using assms(2) r unfolding steady_def by blast
  ultimately show "target req' = target req" by simp
qed

lemma changes_Nil [change_rules]: "changes_only_if Q (run_stages [])"
  by (simp add: changes_only_if_def)

lemma changes_Cons [change_rules]:
  assumes "changes_only_if Q s" and "steady s" and "changes_only_if Q (run_stages ss)"
  shows "changes_only_if Q (run_stages (s # ss))"
  unfolding changes_only_if_def
proof (intro allI impI)
  fix req a
  assume q: "\<not> Q (target req)"
  obtain r a1 where s: "s req a = (r, a1)" by fastforce
  have k: "keeps a a1" using assms(1) q s unfolding changes_only_if_def by (metis snd_conv)
  show "keeps a (snd (run_stages (s # ss) req a))"
  proof (cases r)
    case (Next req1)
    then have "target req1 = target req" using assms(2) s unfolding steady_def by (metis fst_conv)
    then have "keeps a1 (snd (run_stages ss req1 a1))" using assms(3) q unfolding changes_only_if_def by simp
    with keeps_trans [OF k this] show ?thesis by (simp add: s Next)
  qed (use k s in simp_all)
qed

lemma changes_mono: "changes_only_if Q s \<Longrightarrow> (\<And>t. Q t \<Longrightarrow> Q' t) \<Longrightarrow> changes_only_if Q' s"
  unfolding changes_only_if_def by blast

section \<open>Entries\<close>

lemma run_Use [simp]: "run_entry (Use s) = s"
  by (rule ext)+ (simp add: run_entry_def)

lemma run_Route:
  "run_entry (Route m p ss) req a =
     (case match_path p (path_segments (req_path req)) of
        Some bs \<Rightarrow> if answers m req
          then (case run_stages ss (req\<lparr>req_params := bs\<rparr>) a of (Next_route, a1) \<Rightarrow> (Next req, a1) | r \<Rightarrow> r)
          else (Next req, a)
      | None \<Rightarrow> (Next req, a))"
  by (simp add: run_entry_def)

lemma run_Mount:
  "run_entry (Mount base s) req a =
     (case mount_path base (req_path req) of
        Some rest \<Rightarrow> (case s (req\<lparr>req_path := rest\<rparr>) a of
            (Next req1, a1) \<Rightarrow> (Next (req1\<lparr>req_path := req_path req\<rparr>), a1) | r \<Rightarrow> r)
      | None \<Rightarrow> (Next req, a))"
  by (simp add: run_entry_def)

lemma snd_Route:
  "snd (run_entry (Route m p ss) req a) =
     (case match_path p (path_segments (req_path req)) of
        Some bs \<Rightarrow> if answers m req then snd (run_stages ss (req\<lparr>req_params := bs\<rparr>) a) else a | None \<Rightarrow> a)"
  by (auto simp: run_Route split: option.split prod.split outcome.split)

lemma snd_Mount:
  "snd (run_entry (Mount base s) req a) =
     (case mount_path base (req_path req) of Some rest \<Rightarrow> snd (s (req\<lparr>req_path := rest\<rparr>) a) | None \<Rightarrow> a)"
  by (auto simp: run_Mount split: option.split prod.split outcome.split)

lemma target_params [simp]: "target (req\<lparr>req_params := bs\<rparr>) = target req"
  by (simp add: target_def)

lemma steady_Route [steady_rules]:
  assumes "steady (run_stages ss)"
  shows "steady (run_entry (Route m p ss))"
  unfolding steady_def
proof (intro allI impI)
  fix req a req'
  assume n: "fst (run_entry (Route m p ss) req a) = Next req'"
  obtain bs where bs: "match_path p (path_segments (req_path req)) = Some bs \<or> req' = req"
    using n by (cases "match_path p (path_segments (req_path req))") (auto simp: run_Route)
  show "target req' = target req"
  proof (cases "req' = req")
    case False
    with n bs have "fst (run_stages ss (req\<lparr>req_params := bs\<rparr>) a) = Next req'"
      by (auto simp: run_Route split: if_splits prod.splits outcome.splits)
    with assms have "target req' = target (req\<lparr>req_params := bs\<rparr>)" unfolding steady_def by blast
    then show ?thesis by simp
  qed simp
qed

lemma steady_Mount [steady_rules]:
  assumes "steady s"
  shows "steady (run_entry (Mount base s))"
  unfolding steady_def
proof (intro allI impI)
  fix req a req'
  assume n: "fst (run_entry (Mount base s) req a) = Next req'"
  show "target req' = target req"
  proof (cases "mount_path base (req_path req)")
    case None
    with n show ?thesis by (simp add: run_Mount)
  next
    case (Some rest)
    with n obtain req1 where "fst (s (req\<lparr>req_path := rest\<rparr>) a) = Next req1" "req' = req1\<lparr>req_path := req_path req\<rparr>"
      by (auto simp: run_Mount split: prod.splits outcome.splits)
    moreover from this have "target req1 = target (req\<lparr>req_path := rest\<rparr>)" using assms unfolding steady_def by blast
    ultimately show ?thesis by (simp add: target_def)
  qed
qed

definition at_route :: "string \<Rightarrow> string list \<Rightarrow> string \<times> string \<times> string option \<Rightarrow> bool" where
  "at_route m p = (\<lambda>(method, path, au). (method = m \<or> method = ''HEAD'' \<and> m = ''GET'')
     \<and> match_path p (path_segments path) \<noteq> None)"

definition under :: "string \<Rightarrow> (string \<times> string \<times> string option \<Rightarrow> bool) \<Rightarrow> string \<times> string \<times> string option \<Rightarrow> bool" where
  "under base Q = (\<lambda>(method, path, au). case mount_path base path of None \<Rightarrow> False | Some rest \<Rightarrow> Q (method, rest, au))"

lemma changes_Route [change_rules]:
  assumes "changes_only_if Q (run_stages ss)"
  shows "changes_only_if Q (run_entry (Route m p ss))"
  unfolding changes_only_if_def
proof (intro allI impI)
  fix req a
  assume q: "\<not> Q (target req)"
  have "keeps a (snd (run_stages ss (req\<lparr>req_params := bs\<rparr>) a))" for bs
    using assms q unfolding changes_only_if_def by simp
  then show "keeps a (snd (run_entry (Route m p ss) req a))"
    by (simp add: snd_Route split: option.split)
qed

lemma changes_at_route: "changes_only_if (at_route m p) (run_entry (Route m p ss))"
  by (auto simp: changes_only_if_def at_route_def target_def answers_def run_Route split: option.split)

lemma changes_Mount:
  assumes "changes_only_if Q s"
  shows "changes_only_if (under base Q) (run_entry (Mount base s))"
  unfolding changes_only_if_def
proof (intro allI impI)
  fix req a
  assume q: "\<not> under base Q (target req)"
  show "keeps a (snd (run_entry (Mount base s) req a))"
  proof (cases "mount_path base (req_path req)")
    case (Some rest)
    then have "\<not> Q (target (req\<lparr>req_path := rest\<rparr>))" using q by (simp add: under_def target_def)
    then have "keeps a (snd (s (req\<lparr>req_path := rest\<rparr>) a))" using assms unfolding changes_only_if_def by blast
    then show ?thesis by (simp add: snd_Mount Some)
  qed (simp add: snd_Mount)
qed

section \<open>Guards, limits and controllers\<close>

lemma handle_not_Next: "fst (handle h req a) \<noteq> Next req'" "fst (handle h req a) \<noteq> Next_route"
  by (simp_all add: handle_def split: prod.split sum.split)

lemma handle_snd [simp]: "snd (handle h req a) = snd (h req a)"
  by (simp add: handle_def split: prod.split sum.split)

lemma steady_handle [steady_rules]: "steady (handle h)" "steady (handle_db g)"
  by (simp_all add: steady_def handle_not_Next handle_db_def)

lemma guard_cases: "guard g req a = (r, a') \<Longrightarrow> a' = a \<and> (case g req of Inl e \<Rightarrow> r = Raise (Service e) | Inr req1 \<Rightarrow> r = Next req1)"
  by (auto simp: guard_def split: sum.splits)

lemma guard_keeps [change_rules]: "changes_only_if Q (guard g)"
  by (simp add: changes_only_if_def guard_def split: sum.split)

lemma authMiddleware_target: "authMiddleware C E now req = Inr req1 \<Longrightarrow> target req1 = target req"
  by (auto simp: authMiddleware_def Let_def target_def split: if_splits option.splits)

lemma steady_authenticate [steady_rules]: "steady (authenticate S D)"
  by (auto simp: steady_def authenticate_def guard_def authMiddleware_target split: sum.splits)

lemma steady_validated [steady_rules]: "steady (validated schema)"
  by (auto simp: steady_def validated_def guard_def validate_def target_def split: sum.splits)

lemma checkOrigin_same: "checkOrigin f allowed req = Inr req1 \<Longrightarrow> req1 = req"
  by (auto simp: checkOrigin_def Let_def split: if_splits)

lemma steady_origin [steady_rules]: "steady (origin_guard S)"
  by (auto simp: steady_def origin_guard_def guard_def dest: checkOrigin_same split: sum.splits)

lemma permission_Next: "fst (permission p D req a) = Next req' \<Longrightarrow> req' = req"
  by (auto simp: permission_def split: prod.splits sum.splits)

lemma permission_keeps: "keeps a (snd (permission p D req a))"
  by (simp add: permission_def keeps_def split: prod.split sum.split)

lemma steady_permission [steady_rules]: "steady (permission p D)"
  by (auto simp: steady_def dest: permission_Next)

lemma limit_Next: "fst (limit S D L req a) = Next req' \<Longrightarrow> req' = req"
  by (auto simp: limit_def limited_def split: prod.splits sum.splits if_splits)

lemma limit_keeps: "keeps a (snd (limit S D L req a))"
  by (simp add: limit_def limited_def keeps_def split: prod.split sum.split)

lemma steady_limit [steady_rules]: "steady (limit S D L)"
  by (auto simp: steady_def dest: limit_Next)

lemma steady_upload [steady_rules]: "steady (avatar_upload D)"
  by (auto simp: steady_def avatar_upload_def target_def split: option.splits prod.splits sum.splits)

lemma steady_otp [steady_rules]: "steady (otpEnabled S)"
  by (simp add: steady_def otpEnabled_def)

lemma steady_static [steady_rules]: "steady (static_files S)"
  by (auto simp: steady_def static_files_def split: sum.splits option.splits)

lemma steady_cors [steady_rules]: "steady (cors S)"
  by (auto simp: steady_def cors_def split: sum.splits if_splits)

lemma steady_parse [steady_rules]: "steady (parse_body D)"
  by (auto simp: steady_def parse_body_def target_def split: sum.splits)

lemma xss_target [simp]: "target (xssMiddleware xss req) = target req"
  by (simp add: xssMiddleware_def target_def)

lemma steady_xss [steady_rules]: "steady (\<lambda>req a. (Next (xssMiddleware xss req), a))"
  by (simp add: steady_def)

lemma changes_guards [change_rules]:
  "changes_only_if Q (authenticate S D)" "changes_only_if Q (validated schema)" "changes_only_if Q (origin_guard S)"
  "changes_only_if Q (permission p D)" "changes_only_if Q (limit S D L)" "changes_only_if Q (otpEnabled S)"
  "changes_only_if Q (static_files S)" "changes_only_if Q (cors S)" "changes_only_if Q (parse_body D)"
  "changes_only_if Q (\<lambda>req a. (Next (xssMiddleware xss req), a))"
  by (simp_all add: authenticate_def validated_def origin_guard_def guard_keeps)
    (simp_all add: changes_only_if_def permission_keeps limit_keeps otpEnabled_def static_files_def cors_def parse_body_def
      split: sum.split)

lemma reply_snd [simp]: "snd (reply message f m a) = a"
  by (simp add: reply_def)

lemma read_route_keeps: "snd (read_route S call req a) = a"
  unfolding read_route_def by (cases "call req") (simp_all add: reply_def)

lemma changes_reads [change_rules]:
  "changes_only_if Q (read_route S call)" "changes_only_if Q (catalogue j message)"
  "changes_only_if Q (handle (\<lambda>req. reply message f m))" "changes_only_if Q (handle (\<lambda>req a. (x req a, a)))"
  by (simp_all add: changes_only_if_def read_route_keeps catalogue_def)

lemma steady_routes [steady_rules]:
  "steady (read_route S call)" "steady (catalogue j message)" "steady (user_route S D ucall)" "steady (role_route D rcall)"
  "steady (template_put D)" "steady (logout_stage S D)"
  by (simp_all add: read_route_def catalogue_def user_route_def role_route_def template_put_def logout_stage_def
      steady_handle)

section \<open>Without a token\<close>

definition token_ok :: "server \<Rightarrow> circumstances \<Rightarrow> string \<times> string \<times> string option \<Rightarrow> bool" where
  "token_ok S D = (\<lambda>(method, path, au). bearer_token au \<noteq> []
     \<and> jwt_verify (sv_crypto S) (bearer_token au) (JWT_ACCESS_SECRET (sv_env S)) (now_of D) \<noteq> None)"

lemma token_ok_iff: "token_ok S D (target req) \<longleftrightarrow> (\<exists>req1. authMiddleware (sv_crypto S) (sv_env S) (now_of D) req = Inr req1)"
  by (simp add: token_ok_def target_def authMiddleware_def Let_def split: option.split)

lemma changes_authenticated: "changes_only_if (token_ok S D) (run_stages (authenticate S D # ss))"
  by (auto simp: changes_only_if_def token_ok_iff authenticate_def guard_def split: sum.split)

lemma under_token: "under base (token_ok S D) t \<Longrightarrow> token_ok S D t"
  by (auto simp: under_def token_ok_def split: prod.splits option.splits)

lemma changes_gated_mount:
  assumes "changes_only_if (token_ok S D) s" and "\<And>t. token_ok S D t \<Longrightarrow> Q t"
  shows "changes_only_if Q (run_entry (Mount base s))"
  by (rule changes_mono [OF changes_Mount [OF assms(1)]]) (use under_token assms(2) in blast)

lemma changes_modules:
  "changes_only_if (token_ok S D) (users_router S D)" "changes_only_if (token_ok S D) (roles_router S D)"
  "changes_only_if (token_ok S D) (activity_log_router S D)" "changes_only_if (token_ok S D) (helper_router S D)"
  "changes_only_if (token_ok S D) (email_template_router S D)"
  by (simp_all only: users_router_def roles_router_def activity_log_router_def helper_router_def
      email_template_router_def router_def list.map run_Use changes_authenticated)

lemma changes_profile: "changes_only_if (token_ok S D) (profile_router S D)"
  unfolding profile_router_def router_def list.map
  by (intro change_rules steady_rules changes_authenticated)

lemma changes_health: "changes_only_if Q (health_router S D)"
  unfolding health_router_def router_def list.map
  by (intro change_rules steady_rules)

definition AUTH_ENDPOINTS :: "(string \<times> string list) list" where
  "AUTH_ENDPOINTS = [(''POST'', [''register'']), (''POST'', [''login'']), (''POST'', [''request-password-reset'']),
     (''POST'', [''reset-password'']), (''POST'', [''send-otp'']), (''POST'', [''verify-otp'']), (''POST'', [''refresh'']),
     (''GET'', [''verify-email'']), (''POST'', [''logout''])]"

definition auth_endpoint :: "string \<times> string \<times> string option \<Rightarrow> bool" where
  "auth_endpoint t = list_ex (\<lambda>(m, p). at_route m p t) AUTH_ENDPOINTS"

lemma changes_endpoint: "(m, p) \<in> set AUTH_ENDPOINTS \<Longrightarrow> changes_only_if auth_endpoint (run_entry (Route m p ss))"
  by (rule changes_mono [OF changes_at_route]) (auto simp: auth_endpoint_def list_ex_iff)

lemma steady_otp_router [steady_rules]: "steady (otp_router S D)"
  unfolding otp_router_def router_def list.map by (intro steady_rules)

lemma changes_otp: "changes_only_if auth_endpoint (otp_router S D)"
  unfolding otp_router_def router_def list.map
  by (intro change_rules steady_rules changes_endpoint) (simp_all add: AUTH_ENDPOINTS_def)

lemma changes_auth: "changes_only_if auth_endpoint (auth_router S D)"
  unfolding auth_router_def Let_def router_def list.map run_Use
  by (intro changes_Cons changes_Nil steady_rules changes_otp changes_guards changes_endpoint) (simp_all add: AUTH_ENDPOINTS_def)

lemma steady_modules [steady_rules]:
  "steady (health_router S D)" "steady (users_router S D)" "steady (profile_router S D)" "steady (roles_router S D)"
  "steady (activity_log_router S D)" "steady (helper_router S D)" "steady (email_template_router S D)"
  "steady (auth_router S D)"
  unfolding health_router_def users_router_def profile_router_def roles_router_def activity_log_router_def
    helper_router_def email_template_router_def auth_router_def Let_def router_def list.map run_Use
  by (intro steady_rules)+

lemma steady_not_found [steady_rules]: "steady (\<lambda>req a. (Send res, a))"
  by (simp add: steady_def)

lemma steady_api [steady_rules]: "steady (routes S D)"
  unfolding routes_def router_def list.map run_Use by (intro steady_rules)

lemma changes_api: "changes_only_if (\<lambda>t. token_ok S D t \<or> under ''/auth'' auth_endpoint t) (routes S D)"
proof -
  let ?Q = "\<lambda>t. token_ok S D t \<or> under ''/auth'' auth_endpoint t"
  have gated: "changes_only_if ?Q (run_entry (Mount base s))" if "changes_only_if (token_ok S D) s" for base s
    by (rule changes_gated_mount [OF that]) simp
  have auth: "changes_only_if ?Q (run_entry (Mount ''/auth'' (auth_router S D)))"
    by (rule changes_mono [OF changes_Mount [OF changes_auth]]) simp
  have "changes_only_if ?Q (run_entry (Route ''GET'' [] [\<lambda>req a. (Send not_found, a)]))"
    by (intro change_rules steady_rules) (simp add: changes_only_if_def)
  then show ?thesis
    unfolding routes_def router_def list.map run_Use
    by (simp only: changes_Cons changes_Nil steady_rules changes_guards auth gated changes_modules changes_profile
        changes_health)
qed

lemma changes_app:
  "changes_only_if (\<lambda>t. token_ok S D t \<or> under ''/api/v1'' (under ''/auth'' auth_endpoint) t) (app_router S D)"
  unfolding app_router_def router_def list.map run_Use
proof (intro changes_Cons changes_Nil steady_rules changes_guards)
  let ?Q = "\<lambda>t. token_ok S D t \<or> under ''/api/v1'' (under ''/auth'' auth_endpoint) t"
  show "changes_only_if ?Q (run_entry (Mount ''/storage'' (static_files S)))"
    by (rule changes_gated_mount [OF changes_guards(7) [where Q = "token_ok S D"]]) simp
  show "changes_only_if ?Q (run_entry (Mount ''/api/v1'' (routes S D)))"
    by (rule changes_mono [OF changes_Mount [OF changes_api]])
      (auto simp: under_def token_ok_def split: prod.splits option.splits)
qed

lemma snd_serve [simp]: "snd (serve S D req a) = snd (app_router S D req a)"
  by (simp add: serve_def split: prod.split outcome.split)

text \<open>C9. Without a token only authentication changes anything. Whatever a request contains and whatever else
  happens meanwhile, when its access token is missing or does not verify and yet the database or the
  stored files change, it was sent to one of the nine authentication endpoints, by the method of that
  endpoint. No administrative or profile path, and no spelling of one, writes anything.\<close>

theorem anonymous_changes_only_auth:
  assumes "authMiddleware (sv_crypto S) (sv_env S) (now_of D) req = Inl e" and "serve S D req a = (res, a')"
    and "app_db a' \<noteq> app_db a \<or> app_files a' \<noteq> app_files a"
  shows "\<exists>path rest m p bs. mount_path ''/api/v1'' (req_path req) = Some path \<and> mount_path ''/auth'' path = Some rest
    \<and> (m, p) \<in> set AUTH_ENDPOINTS \<and> answers m req \<and> match_path p (path_segments rest) = Some bs"
proof -
  have a': "a' = snd (app_router S D req a)" using snd_serve [of S D req a] assms(2) by simp
  have "\<not> token_ok S D (target req)" using assms(1) by (simp add: token_ok_iff)
  moreover have "\<not> keeps a (snd (app_router S D req a))" using assms(3) unfolding a' keeps_def by blast
  ultimately have "under ''/api/v1'' (under ''/auth'' auth_endpoint) (target req)"
    using changes_app unfolding changes_only_if_def by blast
  then show ?thesis
    by (auto simp: under_def target_def auth_endpoint_def list_ex_iff at_route_def answers_def split: option.splits)
qed

section \<open>A server to try requests on\<close>

definition demo_server :: server where
  "demo_server = \<lparr>sv_crypto = demo_crypto, sv_env = default_env, sv_NODE_ENV = Some ''production'',
     sv_allowedOrigins = [''https://x.io''], sv_originFromReferer = Some, sv_APP_URL = ''http://x'', sv_zod = demo_zod,
     sv_locales = [''en''], sv_xss = (\<lambda>s. s), sv_increment = redis_increment, sv_clientKey = (\<lambda>ip. ip), sv_lower = toLowerCase,
     sv_order = \<lparr>do_lower = toLowerCase, do_rank = (\<lambda>f j. 0)\<rparr>, sv_localeDate = (\<lambda>s. s), sv_midnight = (\<lambda>s. 0),
     sv_static = (\<lambda>req a. Inr None), sv_unanswered = (\<lambda>req. not_found), sv_dbMessage = (\<lambda>c. c)\<rparr>"

definition demo_circumstances :: circumstances where
  "demo_circumstances = \<lparr>now_of = 5, dbnow_of = 5, parsed_body = Inr JNull, multipart = None, file_bytes = [],
     entropy_of = \<lparr>en_bytes = [], en_iv = [], en_uuid = ''u'', en_family = ''f''\<rparr>, otp_number = 0,
     tokens_between = (\<lambda>ts. ts), codes_between = (\<lambda>cs. cs), passes_between = quiet, database_up = True,
     uptime_of = JNum 0, stack_of = []\<rparr>"

lemma lower_literals: "lower_char CHR ''a'' = CHR ''a''" "lower_char CHR ''s'' = CHR ''s''"
  by code_simp+

lemma api_mounts:
  "mount_path ''/storage'' (''/api/v1'' @ p) = None"
  "mount_path ''/api/v1'' (''/api/v1/'' @ p) = Some (CHR ''/'' # p)"
  by (simp_all add: mount_path_def toLowerCase_def lower_literals)

lemma serve_api:
  assumes "corsOrigin (sv_allowedOrigins S) (req_origin req) = Inr b" and "req_method req \<noteq> ''OPTIONS''"
    and "parsed_body D = Inr body" and "req_path req = ''/api/v1/'' @ p"
  shows "app_router S D req a =
    (case routes S D ((xssMiddleware (sv_xss S) (req\<lparr>req_body := body\<rparr>))\<lparr>req_path := CHR ''/'' # p\<rparr>) a of
       (Next req1, a1) \<Rightarrow> (Next (req1\<lparr>req_path := req_path req\<rparr>), a1) | r \<Rightarrow> r)"
proof -
  have [simp]: "req_path (xssMiddleware (sv_xss S) (req\<lparr>req_body := body\<rparr>)) = ''/api/v1/'' @ p"
    using assms(4) by (simp add: xssMiddleware_def)
  have "mount_path ''/storage'' (''/api/v1/'' @ p) = None" using api_mounts(1) [of "CHR ''/'' # p"] by simp
  then show ?thesis
    using assms api_mounts(2) [of p]
    by (simp add: app_router_def router_def cors_def parse_body_def run_Mount split: prod.split outcome.split)
qed

definition demo_link_request :: http_request where
  "demo_link_request = (plain_request ''GET'' ''/api/v1/auth/verify-email'')\<lparr>req_query := [(''token'', ''tok'')]\<rparr>"

definition demo_link_app :: app where
  "demo_link_app = demo_app\<lparr>app_db := demo_verify_db\<rparr>"

lemma demo_paths:
  "mount_path ''/health'' ''/auth/verify-email'' = None" "mount_path ''/auth'' ''/auth/verify-email'' = Some ''/verify-email''"
  "path_segments ''/verify-email'' = [''verify-email'']"
  by code_simp+

lemma demo_expired_link: "verifyEmail 600 600 ''tok'' demo_verify_db
    = (Inl (AppError ''Token expired'' 400), delete_verification_token ''tok'' demo_verify_db)"
  by (simp add: verifyEmail_def verifyEmail_tx_def transaction_def findEmailVerificationToken_def demo_verify_db_def)

lemma redis_increment_up: "redis_up s \<Longrightarrow> kv s key = None \<Longrightarrow> \<exists>s'. redis_increment key w now s = Inr (1, s')"
  using redis_rate.opens [of s now key w] by (auto simp: live_value_def)

lemma router_Nil: "router [] req a = (Next req, a)"
  by (simp add: router_def)

lemma router_skip_Route:
  "match_path p (path_segments (req_path req)) = None \<or> \<not> answers m req \<Longrightarrow> router (Route m p ss # es) req a = router es req a"
  by (auto simp: router_def run_Route split: option.split)

lemma router_skip_Mount: "mount_path base (req_path req) = None \<Longrightarrow> router (Mount base s # es) req a = router es req a"
  by (simp add: router_def run_Mount)

lemma router_Use: "s req a = (Next req1, a1) \<Longrightarrow> router (Use s # es) req a = router es req1 a1"
  by (simp add: router_def)

lemma router_Route:
  "match_path p (path_segments (req_path req)) = Some bs \<Longrightarrow> answers m req
     \<Longrightarrow> run_stages ss (req\<lparr>req_params := bs\<rparr>) a = (r, a1) \<Longrightarrow> (case r of Next req1 \<Rightarrow> False | Next_route \<Rightarrow> False | _ \<Rightarrow> True)
     \<Longrightarrow> router (Route m p ss # es) req a = (r, a1)"
  by (auto simp: router_def run_Route split: outcome.splits)

lemma router_Mount:
  "mount_path base (req_path req) = Some rest \<Longrightarrow> s (req\<lparr>req_path := rest\<rparr>) a = (r, a1)
     \<Longrightarrow> (case r of Next req1 \<Rightarrow> False | _ \<Rightarrow> True) \<Longrightarrow> router (Mount base s # es) req a = (r, a1)"
  by (auto simp: router_def run_Mount split: outcome.splits)

lemma demo_matches:
  "match_path [''register''] [''verify-email''] = None" "match_path [''login''] [''verify-email''] = None"
  "match_path [''request-password-reset''] [''verify-email''] = None" "match_path [''reset-password''] [''verify-email''] = None"
  "match_path [''send-otp''] [''verify-email''] = None" "match_path [''verify-otp''] [''verify-email''] = None"
  "match_path [''refresh''] [''verify-email''] = None" "match_path [''verify-email''] [''verify-email''] = Some []"
  by code_simp+

lemma verify_email_route:
  assumes "req_path req = ''/auth/verify-email''" and "req_method req = ''GET''"
    and "limit S D (authRateLimiter (isProduction S)) (req\<lparr>req_path := ''/verify-email''\<rparr>) a = (Next (req\<lparr>req_path := ''/verify-email''\<rparr>), a1)"
    and "verify_email_controller (now_of D) (dbnow_of D) (req\<lparr>req_path := ''/verify-email'', req_params := []\<rparr>) (app_db a1) = (Inl e, db)"
  shows "routes S D req a = (Raise (Service e), a1\<lparr>app_db := db\<rparr>)"
proof -
  let ?req = "req\<lparr>req_path := ''/verify-email''\<rparr>"
  have o: "otp_router S D ?req a = (Next ?req, a)"
    by (simp add: otp_router_def router_skip_Route router_Nil demo_paths demo_matches del: match_path.simps)
  have h: "run_stages [handle_db (verify_email_controller (now_of D) (dbnow_of D))] (?req\<lparr>req_params := []\<rparr>) a1
      = (Raise (Service e), a1\<lparr>app_db := db\<rparr>)"
    using assms(4) by (simp add: handle_db_def handle_def in_db_def)
  have "router [Route ''GET'' [''verify-email''] [handle_db (verify_email_controller (now_of D) (dbnow_of D))],
      Route ''POST'' [''logout''] [origin_guard S, logout_stage S D]] ?req a1 = (Raise (Service e), a1\<lparr>app_db := db\<rparr>)"
    by (rule router_Route [OF _ _ h]) (simp_all add: demo_paths demo_matches answers_def assms(2))
  then have "auth_router S D ?req a = (Raise (Service e), a1\<lparr>app_db := db\<rparr>)"
    unfolding auth_router_def Let_def
    by (simp add: router_skip_Route router_Use [where s = "otp_router S D", OF o]
        router_Use [where s = "limit S D L" for L, OF assms(3)] demo_paths demo_matches del: match_path.simps)
  then show ?thesis
    unfolding routes_def using assms(1) by (simp add: router_skip_Mount router_Mount demo_paths)
qed

lemma demo_link_change:
  "app_db (snd (serve demo_server (demo_circumstances\<lparr>now_of := 600, dbnow_of := 600\<rparr>) demo_link_request demo_link_app))
     = delete_verification_token ''tok'' demo_verify_db"
proof -
  let ?D = "demo_circumstances\<lparr>now_of := 600, dbnow_of := 600\<rparr>"
  let ?req = "(xssMiddleware (sv_xss demo_server) (demo_link_request\<lparr>req_body := JNull\<rparr>))\<lparr>req_path := ''/auth/verify-email''\<rparr>"
  let ?L = "authRateLimiter (isProduction demo_server)"
  have "redis_up empty_redis" "kv empty_redis (limit_key ?L []) = None" by (simp_all add: empty_redis_def)
  then obtain s' where i: "redis_increment (limit_key ?L []) (lim_windowMs ?L) 600 empty_redis = Inr (1, s')"
    using redis_increment_up by blast
  have a: "app_redis demo_link_app = empty_redis" "app_db demo_link_app = demo_verify_db"
    by (simp_all add: demo_link_app_def demo_app_def)
  have m: "1 \<le> lim_max ?L" by (simp add: limiter_defs)
  have ip: "req_ip ?req = []" "req_path ?req = ''/auth/verify-email''" "req_method ?req = ''GET''" "req_query ?req = [(''token'', ''tok'')]"
    by (simp_all add: xssMiddleware_def demo_link_request_def plain_request_def)
  have f: "sv_increment demo_server = redis_increment" "sv_clientKey demo_server [] = []" "now_of ?D = 600" "dbnow_of ?D = 600" "parsed_body ?D = Inr JNull"
    by (simp_all add: demo_server_def demo_circumstances_def)
  have l: "limit demo_server ?D ?L (?req\<lparr>req_path := ''/verify-email''\<rparr>) demo_link_app
      = (Next (?req\<lparr>req_path := ''/verify-email''\<rparr>), demo_link_app\<lparr>app_redis := s'\<rparr>)"
    using i m ip(1) a(1) by (simp add: limit_def limited_def f del: One_nat_def)
  have v: "verify_email_controller (now_of ?D) (dbnow_of ?D) (?req\<lparr>req_path := ''/verify-email'', req_params := []\<rparr>)
      (app_db (demo_link_app\<lparr>app_redis := s'\<rparr>))
      = (Inl (AppError ''Token expired'' 400), delete_verification_token ''tok'' demo_verify_db)"
    unfolding f using ip(4) a(2) by (simp add: verify_email_controller_def respond_def demo_expired_link)
  have "app_router demo_server ?D demo_link_request demo_link_app =
    (case routes demo_server ?D ((xssMiddleware (sv_xss demo_server) (demo_link_request\<lparr>req_body := JNull\<rparr>))
        \<lparr>req_path := CHR ''/'' # ''auth/verify-email''\<rparr>) demo_link_app of
       (Next req1, a1) \<Rightarrow> (Next (req1\<lparr>req_path := req_path demo_link_request\<rparr>), a1) | r \<Rightarrow> r)"
    by (rule serve_api [of demo_server demo_link_request True ?D JNull "''auth/verify-email''" demo_link_app])
      (simp_all add: demo_server_def demo_circumstances_def corsOrigin_def demo_link_request_def plain_request_def)
  with verify_email_route [OF ip(2,3) l v] show ?thesis by simp
qed

theorem anonymous_changes_only_auth_witness:
  "\<exists>res a'. serve demo_server (demo_circumstances\<lparr>now_of := 600, dbnow_of := 600\<rparr>) demo_link_request demo_link_app = (res, a')
     \<and> app_db a' \<noteq> app_db demo_link_app
     \<and> (\<exists>path rest m p bs. mount_path ''/api/v1'' (req_path demo_link_request) = Some path \<and> mount_path ''/auth'' path = Some rest
          \<and> (m, p) \<in> set AUTH_ENDPOINTS \<and> answers m demo_link_request \<and> match_path p (path_segments rest) = Some bs)"
proof -
  let ?D = "demo_circumstances\<lparr>now_of := 600, dbnow_of := 600\<rparr>"
  obtain res a' where s: "serve demo_server ?D demo_link_request demo_link_app = (res, a')" by fastforce
  have "app_db a' = delete_verification_token ''tok'' demo_verify_db" using demo_link_change unfolding s by simp
  then have "email_verification_tokens (app_db a') \<noteq> email_verification_tokens (app_db demo_link_app)"
    by (simp add: delete_verification_token_def demo_verify_db_def demo_link_app_def delete_where_def)
  then have c: "app_db a' \<noteq> app_db demo_link_app" by metis
  have "authMiddleware (sv_crypto demo_server) (sv_env demo_server) (now_of ?D) demo_link_request = Inl (AppError ''Unauthorized'' 401)"
    by (simp add: authMiddleware_def demo_link_request_def plain_request_def bearer_token_def)
  from anonymous_changes_only_auth [OF this s] c s show ?thesis by blast
qed

section \<open>Administration needs the permission of the operation\<close>

text \<open>The state in which permissions are decided: no bump of the role version is outstanding.\<close>

definition app_ok :: "app \<Rightarrow> bool" where
  "app_ok a = (redis_up (app_redis a)
     \<and> rbac_inv \<lparr>rs_db = app_db a, rs_redis = app_redis a, rs_flights = [], rs_pending = 0\<rparr>)"

text \<open>The changing operations of the administrative modules with the permission of each.\<close>

definition WRITES :: "(string \<times> string \<times> string) list" where
  "WRITES =
     [(''/users'', ''POST'', ''module.master-data.user.create''), (''/users'', ''PUT'', ''module.master-data.user.edit''),
      (''/users'', ''DELETE'', ''module.master-data.user.delete''),
      (''/roles'', ''POST'', ''module.master-data.role.create''), (''/roles'', ''PUT'', ''module.master-data.role.edit''),
      (''/roles'', ''DELETE'', ''module.master-data.role.delete''),
      (''/email-templates'', ''PUT'', ''module.master-data.email-template.edit'')]"

definition permitted :: "string \<Rightarrow> http_request \<Rightarrow> app \<Rightarrow> bool" where
  "permitted base req a = (\<exists>userId p. req_sub req = Some userId \<and> (base, req_method req, p) \<in> set WRITES
     \<and> access_decision p userId (app_db a) = Inr ())"

text \<open>A gated entry changes something only for permitted requests, and passes on what it does not answer.\<close>

definition gated :: "string \<Rightarrow> stage \<Rightarrow> bool" where
  "gated base s = (\<forall>req a. app_ok a \<longrightarrow> (keeps a (snd (s req a)) \<or> permitted base req a)
     \<and> (\<forall>req'. fst (s req a) = Next req' \<longrightarrow> req' = req \<and> snd (s req a) = a))"

definition stops :: "stage \<Rightarrow> bool" where
  "stops s = (\<forall>req a. case fst (s req a) of Next req' \<Rightarrow> False | Next_route \<Rightarrow> False | r \<Rightarrow> True)"

definition no_skip :: "stage \<Rightarrow> bool" where
  "no_skip s = (\<forall>req a. fst (s req a) \<noteq> Next_route)"

lemma stops_Cons:
  assumes "no_skip s" and "stops (run_stages ss)"
  shows "stops (run_stages (s # ss))"
  unfolding stops_def
proof (intro allI)
  fix req a
  obtain r a1 where r: "s req a = (r, a1)" by fastforce
  with assms(1) have "r \<noteq> Next_route" unfolding no_skip_def by (metis fst_conv)
  then show "case fst (run_stages (s # ss) req a) of Next req' \<Rightarrow> False | Next_route \<Rightarrow> False | r \<Rightarrow> True"
    using assms(2) r unfolding stops_def by (cases r) simp_all
qed

lemma stops_last:
  assumes "stops s"
  shows "stops (run_stages [s])"
  unfolding stops_def
proof (intro allI)
  fix req a
  obtain r a1 where r: "s req a = (r, a1)" by fastforce
  with assms have "case r of Next req' \<Rightarrow> False | Next_route \<Rightarrow> False | r \<Rightarrow> True" unfolding stops_def by (metis fst_conv)
  then show "case fst (run_stages [s] req a) of Next req' \<Rightarrow> False | Next_route \<Rightarrow> False | r \<Rightarrow> True"
    using r by (cases r) simp_all
qed

lemma stops_handle: "stops (handle h)"
  by (simp add: stops_def handle_def split: prod.split sum.split)

lemma stops_routes:
  "stops (read_route S call)" "stops (catalogue j message)" "stops (user_route S D ucall)" "stops (role_route D rcall)"
  "stops (template_put D)"
  by (simp_all add: read_route_def catalogue_def user_route_def role_route_def template_put_def stops_handle)

lemma no_skips: "no_skip (permission p D)" "no_skip (validated schema)" "no_skip (avatar_upload D)"
  by (simp_all add: no_skip_def permission_def validated_def guard_def avatar_upload_def split: prod.split sum.split option.split)

lemma gated_Nil: "gated base (run_stages [])"
  by (simp add: gated_def)

lemma gated_Cons:
  assumes "gated base s" and "gated base (run_stages ss)"
  shows "gated base (run_stages (s # ss))"
  unfolding gated_def
proof (intro allI impI)
  fix req a assume ok: "app_ok a"
  let ?P = "\<lambda>t. (keeps a (snd (t req a)) \<or> permitted base req a) \<and> (\<forall>req'. fst (t req a) = Next req' \<longrightarrow> req' = req \<and> snd (t req a) = a)"
  have s: "?P s" and ss: "?P (run_stages ss)" using assms ok unfolding gated_def by blast+
  obtain r a1 where r: "s req a = (r, a1)" by fastforce
  show "?P (run_stages (s # ss))" using s ss r by (cases r) simp_all
qed

lemma gated_Route:
  assumes "stops (run_stages ss)"
    and "\<And>req a. app_ok a \<Longrightarrow> answers m req \<Longrightarrow> keeps a (snd (run_stages ss req a)) \<or> permitted base req a"
  shows "gated base (run_entry (Route m p ss))"
  unfolding gated_def
proof (intro allI impI)
  fix req a assume ok: "app_ok a"
  show "(keeps a (snd (run_entry (Route m p ss) req a)) \<or> permitted base req a)
    \<and> (\<forall>req'. fst (run_entry (Route m p ss) req a) = Next req' \<longrightarrow> req' = req \<and> snd (run_entry (Route m p ss) req a) = a)"
  proof (cases "\<exists>bs. match_path p (path_segments (req_path req)) = Some bs \<and> answers m req")
    case True
    then obtain bs where bs: "match_path p (path_segments (req_path req)) = Some bs" and an: "answers m req" by blast
    obtain r a1 where r: "run_stages ss (req\<lparr>req_params := bs\<rparr>) a = (r, a1)" by fastforce
    have st: "case r of Next req' \<Rightarrow> False | Next_route \<Rightarrow> False | r \<Rightarrow> True"
      using assms(1) r unfolding stops_def by (metis fst_conv)
    have "keeps a a1 \<or> permitted base req a"
      using assms(2) [OF ok, of "req\<lparr>req_params := bs\<rparr>"] an r by (simp add: answers_def permitted_def)
    with st show ?thesis by (cases r) (simp_all add: run_Route bs an r)
  qed (auto simp: run_Route split: option.split)
qed

lemma gated_read:
  assumes "stops (run_stages ss)" and "\<And>Q. changes_only_if Q (run_stages ss)"
  shows "gated base (run_entry (Route m p ss))"
proof (rule gated_Route [OF assms(1)])
  show "keeps a (snd (run_stages ss req a)) \<or> permitted base req a" for req a
    using assms(2) [of "\<lambda>t. False"] unfolding changes_only_if_def by blast
qed

lemma gated_write:
  assumes "stops (run_stages (permission perm D # ss))" and "(base, m, perm) \<in> set WRITES"
  shows "gated base (run_entry (Route m p (permission perm D # ss)))"
proof (rule gated_Route [OF assms(1)])
  fix req a assume ok: "app_ok a" and an: "answers m req"
  have m: "req_method req = m" using an assms(2) by (auto simp: answers_def WRITES_def)
  obtain r s where c: "checkPermission perm None (req_sub req) (now_of D) (app_db a) (app_redis a) = (r, s)" by fastforce
  show "keeps a (snd (run_stages (permission perm D # ss) req a)) \<or> permitted base req a"
  proof (cases r)
    case Inl
    with c show ?thesis by (simp add: permission_def keeps_def)
  next
    case (Inr u)
    have "rbac_inv \<lparr>rs_db = app_db a, rs_redis = app_redis a, rs_flights = [], rs_pending = 0\<rparr>" "redis_up (app_redis a)"
      using ok by (simp_all add: app_ok_def)
    from checkPermission_passed [OF this c [unfolded Inr]] assms(2) m show ?thesis by (auto simp: permitted_def)
  qed
qed

lemma changes_show:
  "changes_only_if Q (user_route S D (\<lambda>req. Show_user (f req)))" "changes_only_if Q (role_route D (\<lambda>req. Show_role (f req)))"
  by (simp_all add: changes_only_if_def user_route_def role_route_def)

lemma writes_listed:
  "(''/users'', ''POST'', ''module.master-data.user.create'') \<in> set WRITES"
  "(''/users'', ''PUT'', ''module.master-data.user.edit'') \<in> set WRITES"
  "(''/users'', ''DELETE'', ''module.master-data.user.delete'') \<in> set WRITES"
  "(''/roles'', ''POST'', ''module.master-data.role.create'') \<in> set WRITES"
  "(''/roles'', ''PUT'', ''module.master-data.role.edit'') \<in> set WRITES"
  "(''/roles'', ''DELETE'', ''module.master-data.role.delete'') \<in> set WRITES"
  "(''/email-templates'', ''PUT'', ''module.master-data.email-template.edit'') \<in> set WRITES"
  by (simp_all add: WRITES_def)

lemmas gated_rules = gated_Nil gated_Cons gated_read gated_write writes_listed stops_Cons stops_last stops_routes no_skips

lemmas reading_rules = changes_Nil changes_Cons changes_guards changes_reads changes_show steady_rules

text \<open>The entries of a module behind its authentication.\<close>

definition behind_token :: "server \<Rightarrow> circumstances \<Rightarrow> string \<Rightarrow> stage \<Rightarrow> bool" where
  "behind_token S D base s = (\<exists>ss. s = run_stages (authenticate S D # ss) \<and> gated base (run_stages ss))"

lemma modules_gated:
  "behind_token S D ''/users'' (users_router S D)" "behind_token S D ''/roles'' (roles_router S D)"
  "behind_token S D ''/activity-logs'' (activity_log_router S D)"
  "behind_token S D ''/email-templates'' (email_template_router S D)"
proof -
  show "behind_token S D ''/users'' (users_router S D)"
    unfolding behind_token_def users_router_def router_def list.map run_Use
    by (intro exI conjI, rule refl) (simp only: gated_rules reading_rules)
  show "behind_token S D ''/roles'' (roles_router S D)"
    unfolding behind_token_def roles_router_def router_def list.map run_Use
    by (intro exI conjI, rule refl) (simp only: gated_rules reading_rules)
  show "behind_token S D ''/activity-logs'' (activity_log_router S D)"
    unfolding behind_token_def activity_log_router_def router_def list.map run_Use
    by (intro exI conjI, rule refl) (simp only: gated_rules reading_rules)
  show "behind_token S D ''/email-templates'' (email_template_router S D)"
    unfolding behind_token_def email_template_router_def router_def list.map run_Use
    by (intro exI conjI, rule refl) (simp only: gated_rules reading_rules)
qed

definition authorized :: "server \<Rightarrow> circumstances \<Rightarrow> string \<Rightarrow> string \<Rightarrow> string option \<Rightarrow> database \<Rightarrow> bool" where
  "authorized S D base method au db = (\<exists>sub userId p.
     jwt_verify (sv_crypto S) (bearer_token au) (JWT_ACCESS_SECRET (sv_env S)) (now_of D) = Some sub
     \<and> sub_number sub = Some userId \<and> (base, method, p) \<in> set WRITES \<and> access_decision p userId db = Inr ())"

text \<open>For requests to one target: a stage keeps the state, and keeps permissions decidable for the
  stages after it, unless the request is authorized.\<close>

definition fine :: "server \<Rightarrow> circumstances \<Rightarrow> string \<Rightarrow> string \<times> string \<times> string option \<Rightarrow> stage \<Rightarrow> bool" where
  "fine S D base t s = (\<forall>req a. target req = t \<longrightarrow> app_ok a \<longrightarrow>
     authorized S D base (fst t) (snd (snd t)) (app_db a)
     \<or> keeps a (snd (s req a)) \<and> (\<forall>req'. fst (s req a) = Next req' \<longrightarrow> app_ok (snd (s req a))))"

lemma fine_Nil: "fine S D base t (run_stages [])"
  by (simp add: fine_def)

lemma fine_Cons:
  assumes "fine S D base t s" and "steady s" and "fine S D base t (run_stages ss)"
  shows "fine S D base t (run_stages (s # ss))"
  unfolding fine_def
proof (intro allI impI)
  fix req a assume t: "target req = t" and ok: "app_ok a"
  let ?A = "authorized S D base (fst t) (snd (snd t)) (app_db a)"
  obtain r a1 where s: "s req a = (r, a1)" by fastforce
  show "?A \<or> keeps a (snd (run_stages (s # ss) req a))
    \<and> (\<forall>req'. fst (run_stages (s # ss) req a) = Next req' \<longrightarrow> app_ok (snd (run_stages (s # ss) req a)))"
  proof (cases ?A)
    case False
    with assms(1) t ok s have k: "keeps a a1" "\<And>req'. r = Next req' \<Longrightarrow> app_ok a1" unfolding fine_def by fastforce+
    show ?thesis
    proof (cases r)
      case (Next req1)
      have "target req1 = t" using assms(2) s t Next unfolding steady_def by (metis fst_conv)
      moreover have "app_db a1 = app_db a" using k(1) by (simp add: keeps_def)
      ultimately have "keeps a1 (snd (run_stages ss req1 a1))
          \<and> (\<forall>req'. fst (run_stages ss req1 a1) = Next req' \<longrightarrow> app_ok (snd (run_stages ss req1 a1)))"
        using assms(3) k(2) [OF Next] False unfolding fine_def by fastforce
      with keeps_trans [OF k(1)] show ?thesis by (simp add: s Next)
    qed (use k s in simp_all)
  qed simp
qed

lemma fine_same: "(\<And>req a. snd (s req a) = a) \<Longrightarrow> fine S D base t s"
  by (simp add: fine_def)

lemma fine_elsewhere:
  assumes "mount_path b (fst (snd t)) = None"
  shows "fine S D base t (run_entry (Mount b s))"
  using assms by (auto simp: fine_def run_Mount target_def)

lemma fine_Mount:
  assumes "mount_path b path = Some rest" and "fine S D base (m, rest, au) s"
  shows "fine S D base (m, path, au) (run_entry (Mount b s))"
  unfolding fine_def
proof (intro allI impI)
  fix req a assume t: "target req = (m, path, au)" and ok: "app_ok a"
  have p: "req_path req = path" and t1: "target (req\<lparr>req_path := rest\<rparr>) = (m, rest, au)" using t by (simp_all add: target_def)
  obtain r a1 where s: "s (req\<lparr>req_path := rest\<rparr>) a = (r, a1)" by fastforce
  show "authorized S D base (fst (m, path, au)) (snd (snd (m, path, au))) (app_db a)
    \<or> keeps a (snd (run_entry (Mount b s) req a))
      \<and> (\<forall>req'. fst (run_entry (Mount b s) req a) = Next req' \<longrightarrow> app_ok (snd (run_entry (Mount b s) req a)))"
    using assms(2) [unfolded fine_def, rule_format, OF t1 ok] s by (cases r) (auto simp: run_Mount p assms(1))
qed

lemma fine_module:
  assumes "behind_token S D base s"
  shows "fine S D base t s"
  unfolding fine_def
proof (intro allI impI)
  fix req a assume t: "target req = t" and ok: "app_ok a"
  obtain ss where s: "s = run_stages (authenticate S D # ss)" and g: "gated base (run_stages ss)"
    using assms by (auto simp: behind_token_def)
  show "authorized S D base (fst t) (snd (snd t)) (app_db a)
    \<or> keeps a (snd (s req a)) \<and> (\<forall>req'. fst (s req a) = Next req' \<longrightarrow> app_ok (snd (s req a)))"
  proof (cases "authMiddleware (sv_crypto S) (sv_env S) (now_of D) req")
    case Inl
    then show ?thesis by (simp add: s authenticate_def guard_def)
  next
    case (Inr req1)
    then obtain sub where sub: "jwt_verify (sv_crypto S) (bearer_token (req_authorization req)) (JWT_ACCESS_SECRET (sv_env S)) (now_of D) = Some sub"
      and r1: "req_sub req1 = sub_number sub" "req_method req1 = req_method req"
      by (auto simp: authMiddleware_def Let_def split: if_splits option.splits)
    have run: "s req a = run_stages ss req1 a" using Inr by (simp add: s authenticate_def guard_def)
    have "permitted base req1 a \<Longrightarrow> authorized S D base (fst t) (snd (snd t)) (app_db a)"
      using sub r1 t by (auto simp: permitted_def authorized_def target_def)
    moreover have "keeps a (snd (s req a)) \<or> permitted base req1 a" "\<And>req'. fst (s req a) = Next req' \<Longrightarrow> app_ok (snd (s req a))"
      using g [unfolded gated_def, rule_format, OF ok, of req1] ok by (auto simp: run)
    ultimately show ?thesis by blast
  qed
qed

lemma rbac_keys_unlimited: "RBAC_VERSION_KEY \<noteq> limit_key L ip" "userKey u \<noteq> limit_key L ip"
  by (simp_all add: RBAC_VERSION_KEY_def userKey_def limit_key_def)

lemma rbac_inv_other_keys:
  assumes "rbac_inv \<lparr>rs_db = db, rs_redis = s, rs_flights = [], rs_pending = n\<rparr>"
    and "kv s' RBAC_VERSION_KEY = kv s RBAC_VERSION_KEY" and "\<And>u. kv s' (userKey u) = kv s (userKey u)"
  shows "rbac_inv \<lparr>rs_db = db, rs_redis = s', rs_flights = [], rs_pending = n\<rparr>"
proof -
  have c: "cur_version s' = cur_version s" by (simp add: cur_version_def assms(2))
  show ?thesis
    using assms(1) by (simp add: rbac_inv_def version_ok_def entries_fresh_def flights_fresh_def flight_fresh_def
        fresh_data_def c assms(2,3))
qed

lemma fine_limit:
  assumes "rate_store (sv_increment S)"
  shows "fine S D base t (limit S D L)"
  unfolding fine_def
proof (intro allI impI disjI2 conjI)
  fix req a req'
  assume ok: "app_ok a" and n: "fst (limit S D L req a) = Next req'"
  obtain i s where i: "sv_increment S (limit_key L (sv_clientKey S (req_ip req))) (lim_windowMs L) (now_of D) (app_redis a) = Inr (i, s)"
    using n by (auto simp: limit_def limited_def split: sum.splits prod.splits)
  have "app_ok (a\<lparr>app_redis := s\<rparr>)"
    using ok rate_store.stays_up [OF assms i] rate_store.other_keys [OF assms i rbac_keys_unlimited(1)]
      rate_store.other_keys [OF assms i rbac_keys_unlimited(2)]
    by (auto simp: app_ok_def intro: rbac_inv_other_keys)
  moreover have "snd (limit S D L req a) = a\<lparr>app_redis := s\<rparr>" using i by (simp add: limit_def limited_def)
  ultimately show "app_ok (snd (limit S D L req a))" by simp
qed (rule limit_keeps)

text \<open>A path belongs to at most one module.\<close>

definition first_segment :: "string \<Rightarrow> string" where
  "first_segment path = toLowerCase (takeWhile (\<lambda>c. c \<noteq> CHR ''/'') (tl path))"

lemma lower_slash: "lower_char c = CHR ''/'' \<longleftrightarrow> c = CHR ''/''"
proof
  assume l: "lower_char c = CHR ''/''"
  show "c = CHR ''/''"
  proof (rule ccontr)
    assume "c \<noteq> CHR ''/''"
    with l have "char_of (char_code c + 32) = CHR ''/''" and u: "is_upper_alpha c \<or> 192 \<le> char_code c \<and> char_code c \<le> 222"
      by (auto simp: lower_char_def split: if_splits)
    then have "char_code (char_of (char_code c + 32)) = char_code (CHR ''/'')" by simp
    moreover have "char_code (CHR ''/'') = 47" by code_simp
    moreover have "char_code c + 32 < 256" using u by (auto simp: is_upper_alpha_def)
    ultimately show False using u by (auto simp: is_upper_alpha_def)
  qed
next
  assume "c = CHR ''/''"
  moreover have "lower_char (CHR ''/'') = CHR ''/''" by code_simp
  ultimately show "lower_char c = CHR ''/''" by simp
qed

lemma takeWhile_upto: "x \<notin> set u \<Longrightarrow> v = [] \<or> hd v = x \<Longrightarrow> takeWhile (\<lambda>c. c \<noteq> x) (u @ v) = u"
  by (induction u) (cases v; auto)+

lemma mount_first_segment:
  assumes "mount_path (CHR ''/'' # w) path = Some rest" and "CHR ''/'' \<notin> set (toLowerCase w)"
  shows "first_segment path = toLowerCase w"
proof -
  let ?n = "Suc (length w)"
  have t: "toLowerCase (take ?n path) = toLowerCase (CHR ''/'' # w)"
    and d: "drop ?n path = [] \<or> hd (drop ?n path) = CHR ''/''"
    using assms(1) by (auto simp: mount_path_def split: if_splits list.splits)
  obtain c u where u: "take ?n path = c # u" using t by (cases "take ?n path") (simp_all add: toLowerCase_def)
  have lu: "toLowerCase u = toLowerCase w" using t u by (simp add: toLowerCase_def)
  have "CHR ''/'' \<notin> set u"
  proof
    assume "CHR ''/'' \<in> set u"
    then have "lower_char (CHR ''/'') \<in> set (toLowerCase u)" by (simp add: toLowerCase_def)
    with assms(2) lu lower_slash [of "CHR ''/''"] show False by simp
  qed
  then have "takeWhile (\<lambda>c. c \<noteq> CHR ''/'') (u @ drop ?n path) = u" using d by (rule takeWhile_upto)
  moreover have "path = (c # u) @ drop ?n path" using append_take_drop_id [of ?n path] u by simp
  then have "tl path = u @ drop ?n path" by (metis append_Cons list.sel(3))
  ultimately show ?thesis using lu by (simp add: first_segment_def)
qed

definition MODULES :: "string list" where
  "MODULES = [''/health'', ''/auth'', ''/users'', ''/profile'', ''/roles'', ''/activity-logs'', ''/utils'', ''/email-templates'']"

lemma module_words:
  "map (\<lambda>b. toLowerCase (tl b)) MODULES = map tl MODULES"
  "list_all (\<lambda>b. CHR ''/'' \<notin> set (tl b) \<and> hd b = CHR ''/'' \<and> b \<noteq> []) MODULES"
  by code_simp+

lemma module_segment:
  assumes "b \<in> set MODULES" and "mount_path b path = Some rest"
  shows "CHR ''/'' # first_segment path = b"
proof -
  have b: "b = CHR ''/'' # tl b" "CHR ''/'' \<notin> set (tl b)"
    using module_words(2) assms(1) by (auto simp: list_all_iff) (metis list.collapse)
  have l: "toLowerCase (tl b) = tl b" using module_words(1) assms(1) by (auto simp: map_eq_conv)
  have m: "mount_path (CHR ''/'' # tl b) path = Some rest" using assms(2) b(1) by simp
  from mount_first_segment [OF m] b l show ?thesis by simp
qed

lemma fine_other_module:
  assumes "b \<in> set MODULES" and "base \<in> set MODULES" and "b \<noteq> base" and "mount_path base (fst (snd t)) = Some rest"
  shows "fine S D base t (run_entry (Mount b s))"
proof (rule fine_elsewhere)
  show "mount_path b (fst (snd t)) = None"
    using module_segment [OF assms(1)] module_segment [OF assms(2,4)] assms(3)
    by (cases "mount_path b (fst (snd t))") auto
qed

definition ADMIN_MODULES :: "string list" where
  "ADMIN_MODULES = [''/users'', ''/roles'', ''/activity-logs'', ''/email-templates'']"

lemma fine_mounted:
  assumes "base \<in> set ADMIN_MODULES" and "mount_path base (fst (snd t)) = Some rest" and "b \<in> set MODULES"
    and "b = base \<Longrightarrow> behind_token S D b s"
  shows "fine S D base t (run_entry (Mount b s))"
proof (cases "b = base")
  case True
  obtain m path au where t: "t = (m, path, au)" by (cases t)
  have p: "mount_path b path = Some rest" using assms(2) True t by simp
  show ?thesis unfolding t by (rule fine_Mount [OF p fine_module]) (use assms(4) True in simp)
next
  case False
  have "base \<in> set MODULES" using assms(1) by (auto simp: ADMIN_MODULES_def MODULES_def)
  from fine_other_module [OF assms(3) this False assms(2)] show ?thesis .
qed

lemma fine_api:
  assumes "base \<in> set ADMIN_MODULES" and "mount_path base (fst (snd t)) = Some rest" and "rate_store (sv_increment S)"
  shows "fine S D base t (routes S D)"
proof -
  note f = fine_mounted [OF assms(1,2)]
  have n: "base \<noteq> ''/health''" "base \<noteq> ''/auth''" "base \<noteq> ''/profile''" "base \<noteq> ''/utils''"
    using assms(1) by (auto simp: ADMIN_MODULES_def)
  have "fine S D base t (run_entry (Mount ''/health'' (health_router S D)))"
    "fine S D base t (run_entry (Mount ''/auth'' (auth_router S D)))"
    "fine S D base t (run_entry (Mount ''/users'' (users_router S D)))"
    "fine S D base t (run_entry (Mount ''/profile'' (profile_router S D)))"
    "fine S D base t (run_entry (Mount ''/roles'' (roles_router S D)))"
    "fine S D base t (run_entry (Mount ''/activity-logs'' (activity_log_router S D)))"
    "fine S D base t (run_entry (Mount ''/utils'' (helper_router S D)))"
    "fine S D base t (run_entry (Mount ''/email-templates'' (email_template_router S D)))"
    by (rule f; use n modules_gated in \<open>auto simp: MODULES_def\<close>)+
  moreover have "fine S D base t (run_entry (Route ''GET'' [] [\<lambda>req a. (Send not_found, a)]))"
    by (rule fine_same) (simp add: snd_Route split: option.split)
  ultimately show ?thesis
    unfolding routes_def router_def list.map run_Use
    by (simp only: fine_Nil fine_Cons steady_rules fine_limit [OF assms(3)])
qed

lemma fine_app:
  assumes "mount_path ''/api/v1'' path = Some p" and "base \<in> set ADMIN_MODULES" and "mount_path base p = Some rest"
    and "rate_store (sv_increment S)"
  shows "fine S D base (m, path, au) (app_router S D)"
proof -
  have "fine S D base (m, p, au) (routes S D)" by (rule fine_api [OF assms(2) _ assms(4)]) (simp add: assms(3))
  from fine_Mount [OF assms(1) this] have api: "fine S D base (m, path, au) (run_entry (Mount ''/api/v1'' (routes S D)))" .
  have same: "fine S D base t (cors S)" "fine S D base t (parse_body D)"
    "fine S D base t (\<lambda>req a. (Next (xssMiddleware (sv_xss S) req), a))"
    "fine S D base t (run_entry (Mount ''/storage'' (static_files S)))" for t
    by (rule fine_same; simp add: cors_def parse_body_def snd_Mount static_files_def split: sum.split option.split)+
  show ?thesis
    unfolding app_router_def router_def list.map run_Use
    by (simp only: fine_Nil fine_Cons steady_rules same api)
qed

text \<open>C8. Administration needs the permission of the operation. In the whole application, a request under the
  user, role, activity-log or template paths changes the database or the stored files only when its
  bearer token verifies to a user whose role in the database grants the permission of that very
  operation, whatever roles are cached and whatever the limiters count. No request changes anything
  under the activity logs.\<close>

theorem gated_changes_permitted:
  assumes "redis_up (app_redis a)" and "rbac_inv \<lparr>rs_db = app_db a, rs_redis = app_redis a, rs_flights = [], rs_pending = 0\<rparr>"
    and "rate_store (sv_increment S)" and "base \<in> set ADMIN_MODULES"
    and "mount_path ''/api/v1'' (req_path req) = Some path" and "mount_path base path = Some rest"
    and "serve S D req a = (res, a')" and "app_db a' \<noteq> app_db a \<or> app_files a' \<noteq> app_files a"
  shows "base \<noteq> ''/activity-logs'' \<and> (\<exists>sub userId p.
    jwt_verify (sv_crypto S) (bearer_token (req_authorization req)) (JWT_ACCESS_SECRET (sv_env S)) (now_of D) = Some sub
    \<and> sub_number sub = Some userId \<and> (base, req_method req, p) \<in> set WRITES
    \<and> access_decision p userId (app_db a) = Inr ())"
proof -
  have a': "a' = snd (app_router S D req a)" using snd_serve [of S D req a] assms(7) by simp
  have "app_ok a" using assms(1,2) by (simp add: app_ok_def)
  moreover have "\<not> keeps a (snd (app_router S D req a))" using assms(8) unfolding a' keeps_def by blast
  ultimately have "authorized S D base (req_method req) (req_authorization req) (app_db a)"
    using fine_app [OF assms(5,4,6,3), of D "req_method req" "req_authorization req"]
    unfolding fine_def target_def by fastforce
  then show ?thesis by (auto simp: authorized_def WRITES_def)
qed

definition demo_deleter :: role where
  "demo_deleter = demo_admin_role\<lparr>role_access := JArr [JStr ''module.master-data.role.delete'']\<rparr>"

definition demo_spare :: role where
  "demo_spare = demo_admin_role\<lparr>role_id := 2, role_slug := ''spare''\<rparr>"

definition demo_delete_app :: app where
  "demo_delete_app = demo_app\<lparr>app_db := demo_rbac_db\<lparr>roles := [demo_deleter, demo_spare]\<rparr>\<rparr>"

definition demo_delete :: http_request where
  "demo_delete = (plain_request ''DELETE'' ''/api/v1/roles/spare'')\<lparr>req_authorization := Some ''Bearer 1.secret''\<rparr>"

lemma demo_delete_paths:
  "mount_path ''/health'' ''/roles/spare'' = None" "mount_path ''/auth'' ''/roles/spare'' = None"
  "mount_path ''/users'' ''/roles/spare'' = None" "mount_path ''/profile'' ''/roles/spare'' = None"
  "mount_path ''/roles'' ''/roles/spare'' = Some ''/spare''" "path_segments ''/spare'' = [''spare'']"
  "match_path ['':slug''] [''spare''] = Some [(''slug'', ''spare'')]"
  "mount_path ''/api/v1'' ''/api/v1/roles/spare'' = Some ''/roles/spare''"
  by code_simp+

lemma demo_delete_state:
  "app_redis demo_delete_app = empty_redis" "redis_up empty_redis" "app_files demo_delete_app = []"
  "rbac_inv \<lparr>rs_db = app_db demo_delete_app, rs_redis = empty_redis, rs_flights = [], rs_pending = 0\<rparr>"
  using rbac_inv_init [of "app_db demo_delete_app"]
  by (simp_all add: demo_delete_app_def demo_app_def empty_redis_def rbac_init_def)

lemma demo_delete_granted:
  assumes "rbac_inv \<lparr>rs_db = app_db demo_delete_app, rs_redis = s, rs_flights = [], rs_pending = 0\<rparr>" and "redis_up s"
  shows "\<exists>s'. checkPermission ''module.master-data.role.delete'' None (Some 1) 5 (app_db demo_delete_app) s = (Inr (), s')"
proof -
  have "stored_access 1 (app_db demo_delete_app) = Some (JObj [(''id'', JNum 1), (''role'', role_json demo_deleter)])"
    by (simp add: stored_access_def access_json_def role_findById_def role_active_def active_def
        demo_delete_app_def demo_app_def demo_rbac_db_def demo_deleter_def demo_spare_def demo_admin_role_def)
  then have "fst (checkPermission ''module.master-data.role.delete'' None (Some 1) 5 (app_db demo_delete_app) s) = Inr ()"
    using resolveRole_fresh [OF assms(1), of 1 5] assms(2)
    by (simp add: checkPermission_def grants_def granted_access_def role_of_def role_json_def demo_deleter_def
        json_field_def case_prod_beta)
  then show ?thesis by (metis prod.collapse)
qed

lemma demo_role_deleted:
  assumes "app_db a = app_db demo_delete_app"
  shows "app_db (snd (deleteRole ''spare'' (Some 1) 5 a)) \<noteq> app_db a"
proof -
  have "\<exists>db. deleteRole_tx demo_spare (Some 1) 5 (app_db a) = Inr ((), db) \<and> roles db \<noteq> roles (app_db a)"
    by (simp add: assms deleteRole_tx_def role_delete_def demo_delete_app_def demo_app_def demo_rbac_db_def demo_deleter_def
        demo_spare_def demo_admin_role_def update_where_def)
  then obtain db where "deleteRole_tx demo_spare (Some 1) 5 (app_db a) = Inr ((), db)" "db \<noteq> app_db a" by blast
  moreover have "role_findBySlug ''spare'' (app_db a) = Some demo_spare" "countUsers (role_id demo_spare) (app_db a) = 0"
    by (simp_all add: assms role_findBySlug_def role_active_def countUsers_def count_where_def demo_delete_app_def demo_app_def
        demo_rbac_db_def demo_deleter_def demo_spare_def demo_admin_role_def)
  ultimately show ?thesis by (simp add: deleteRole_def then_cache_db in_db_def transaction_def)
qed

lemma roles_delete_route:
  assumes "path_segments (req_path req) = [slug]" and "slug \<noteq> []" and "req_method req = ''DELETE''"
    and "authMiddleware (sv_crypto S) (sv_env S) (now_of D) req = Inr req1" and "target req1 = target req"
    and "checkPermission ''module.master-data.role.delete'' None (req_sub req1) (now_of D) (app_db a) (app_redis a) = (Inr (), s)"
  shows "\<exists>r. roles_router S D req a = (r, snd (deleteRole slug (req_sub req1) (now_of D) (a\<lparr>app_redis := s\<rparr>)))
    \<and> (case r of Next req' \<Rightarrow> False | Next_route \<Rightarrow> False | _ \<Rightarrow> True)"
proof -
  have r1: "path_segments (req_path req1) = [slug]" "req_method req1 = ''DELETE''"
    using assms(1,3,5) by (simp_all add: target_def)
  have au: "authenticate S D req a = (Next req1, a)" using assms(4) by (simp add: authenticate_def guard_def)
  have m: "match_path ['':slug''] [slug] = Some [(''slug'', slug)]" using assms(2) by simp
  let ?req = "req1\<lparr>req_params := [(''slug'', slug)]\<rparr>" and ?a = "a\<lparr>app_redis := s\<rparr>"
  let ?h = "role_route D (\<lambda>req. Destroy_role (path_param ''slug'' req))"
  have p: "permission ''module.master-data.role.delete'' D ?req a = (Next ?req, ?a)"
    using assms(6) by (simp add: permission_def)
  define r where "r = fst (?h ?req ?a)"
  have snd_h: "snd (?h ?req ?a) = snd (deleteRole slug (req_sub req1) (now_of D) ?a)"
    by (simp add: role_route_def path_param_def)
  then have r: "?h ?req ?a = (r, snd (deleteRole slug (req_sub req1) (now_of D) ?a))"
    by (simp add: r_def prod_eq_iff)
  have st: "case r of Next req' \<Rightarrow> False | Next_route \<Rightarrow> False | _ \<Rightarrow> True"
    using stops_routes(4) [of D "\<lambda>req. Destroy_role (path_param ''slug'' req)"] unfolding stops_def r_def by blast
  have "run_stages [permission ''module.master-data.role.delete'' D, ?h] ?req a = (r, snd (deleteRole slug (req_sub req1) (now_of D) ?a))"
    using p r st by (cases r) simp_all
  from router_Route [OF _ _ this st, where p = "['':slug'']" and m = "''DELETE''" and es = "[]"] m r1
  have d: "router [Route ''DELETE'' ['':slug''] [permission ''module.master-data.role.delete'' D, ?h]] req1 a
      = (r, snd (deleteRole slug (req_sub req1) (now_of D) ?a))"
    by (simp add: answers_def del: match_path.simps)
  have "roles_router S D req a = (r, snd (deleteRole slug (req_sub req1) (now_of D) ?a))"
    unfolding roles_router_def
    by (simp add: router_Use [where s = "authenticate S D", OF au] router_skip_Route answers_def r1(2) d del: match_path.simps)
  with st show ?thesis by blast
qed

lemma authMiddleware_same:
  assumes "authMiddleware C E now r1 = Inr (r1\<lparr>req_sub := x\<rparr>)" and "req_authorization r2 = req_authorization r1"
  shows "authMiddleware C E now r2 = Inr (r2\<lparr>req_sub := x\<rparr>)"
proof -
  obtain sub where t: "bearer_token (req_authorization r1) \<noteq> []"
      "jwt_verify C (bearer_token (req_authorization r1)) (JWT_ACCESS_SECRET E) now = Some sub"
    and r: "r1\<lparr>req_sub := sub_number sub\<rparr> = r1\<lparr>req_sub := x\<rparr>"
    using assms(1) by (auto simp: authMiddleware_def Let_def split: if_splits option.splits)
  from arg_cong [OF r, of req_sub] have "sub_number sub = x" by simp
  with t show ?thesis by (simp add: authMiddleware_def assms(2))
qed

theorem gated_changes_permitted_witness:
  "\<exists>res a'. serve demo_server demo_circumstances demo_delete demo_delete_app = (res, a')
     \<and> app_db a' \<noteq> app_db demo_delete_app
     \<and> (\<exists>userId. access_decision ''module.master-data.role.delete'' userId (app_db demo_delete_app) = Inr ())"
proof -
  let ?S = demo_server and ?D = demo_circumstances and ?a = demo_delete_app
  let ?req = "(xssMiddleware (sv_xss ?S) (demo_delete\<lparr>req_body := JNull\<rparr>))\<lparr>req_path := ''/roles/spare''\<rparr>"
  let ?key = "limit_key apiRateLimiter []" and ?w = "lim_windowMs apiRateLimiter"
  have f: "sv_increment ?S = redis_increment" "sv_clientKey ?S [] = []" "sv_crypto ?S = demo_crypto" "sv_env ?S = default_env" "now_of ?D = 5"
    by (simp_all add: demo_server_def demo_circumstances_def)
  have q: "req_ip ?req = []" "req_path ?req = ''/roles/spare''" "req_method ?req = ''DELETE''"
      "req_authorization ?req = Some ''Bearer 1.secret''"
    by (simp_all add: xssMiddleware_def demo_delete_def plain_request_def)
  obtain s where i: "redis_increment ?key ?w 5 empty_redis = Inr (1, s)"
    using redis_increment_up [of empty_redis ?key] by (auto simp: empty_redis_def)
  have up: "redis_up s" by (rule redis_rate.stays_up [OF i])
  have inv: "rbac_inv \<lparr>rs_db = app_db ?a, rs_redis = s, rs_flights = [], rs_pending = 0\<rparr>"
    by (rule rbac_inv_other_keys [OF demo_delete_state(4)])
      (rule redis_rate.other_keys [OF i] rbac_keys_unlimited)+
  obtain s2 where c: "checkPermission ''module.master-data.role.delete'' None (Some 1) 5 (app_db ?a) s = (Inr (), s2)"
    using demo_delete_granted [OF inv up] by blast
  have l: "limit ?S ?D apiRateLimiter ?req ?a = (Next ?req, ?a\<lparr>app_redis := s\<rparr>)"
    using i q(1) by (simp add: limit_def limited_def f demo_delete_state(1) limiter_defs)
  let ?inner = "?req\<lparr>req_path := ''/spare''\<rparr>"
  have "authMiddleware demo_crypto default_env 5 demo_request = Inr (demo_request\<lparr>req_sub := Some 1\<rparr>)"
    by (rule demo_request_authorized)
  then have au: "authMiddleware (sv_crypto ?S) (sv_env ?S) (now_of ?D) ?inner = Inr (?inner\<lparr>req_sub := Some 1\<rparr>)"
    unfolding f by (rule authMiddleware_same) (use q(4) in \<open>simp add: demo_request_def\<close>)
  obtain r where rr: "roles_router ?S ?D ?inner (?a\<lparr>app_redis := s\<rparr>)
      = (r, snd (deleteRole ''spare'' (Some 1) 5 (?a\<lparr>app_redis := s2\<rparr>)))"
    and st: "case r of Next req' \<Rightarrow> False | Next_route \<Rightarrow> False | _ \<Rightarrow> True"
    using roles_delete_route [of ?inner "''spare''" ?S ?D _ "?a\<lparr>app_redis := s\<rparr>" s2, OF _ _ _ au] c q(3)
    by (auto simp: f demo_delete_paths target_def)
  have "routes ?S ?D ?req ?a = (r, snd (deleteRole ''spare'' (Some 1) 5 (?a\<lparr>app_redis := s2\<rparr>)))"
    unfolding routes_def using st rr
    by (simp add: router_skip_Mount q demo_delete_paths router_Use [where s = "limit ?S ?D apiRateLimiter", OF l] router_Mount
        split: outcome.splits)
  moreover have "app_router ?S ?D demo_delete ?a =
    (case routes ?S ?D ((xssMiddleware (sv_xss ?S) (demo_delete\<lparr>req_body := JNull\<rparr>))
        \<lparr>req_path := CHR ''/'' # ''roles/spare''\<rparr>) ?a of
       (Next req1, a1) \<Rightarrow> (Next (req1\<lparr>req_path := req_path demo_delete\<rparr>), a1) | r \<Rightarrow> r)"
    by (rule serve_api [of ?S demo_delete True ?D JNull "''roles/spare''" ?a])
      (simp_all add: demo_server_def demo_circumstances_def corsOrigin_def demo_delete_def plain_request_def)
  ultimately have "snd (app_router ?S ?D demo_delete ?a) = snd (deleteRole ''spare'' (Some 1) 5 (?a\<lparr>app_redis := s2\<rparr>))"
    using st by (cases r) simp_all
  then have ch: "app_db (snd (serve ?S ?D demo_delete ?a)) \<noteq> app_db ?a"
    using demo_role_deleted [of "?a\<lparr>app_redis := s2\<rparr>"] by simp
  obtain res a' where s: "serve ?S ?D demo_delete ?a = (res, a')" by fastforce
  have b: "''/roles'' \<in> set ADMIN_MODULES" by (simp add: ADMIN_MODULES_def)
  have p: "mount_path ''/api/v1'' (req_path demo_delete) = Some ''/roles/spare''"
    by (simp add: demo_delete_def plain_request_def demo_delete_paths)
  have rs: "rate_store (sv_increment ?S)" using redis_rate.rate_store_axioms by (simp add: f)
  have "redis_up (app_redis ?a)" "rbac_inv \<lparr>rs_db = app_db ?a, rs_redis = app_redis ?a, rs_flights = [], rs_pending = 0\<rparr>"
    using demo_delete_state by simp_all
  from gated_changes_permitted [OF this rs b p demo_delete_paths(5) s] ch s
  have "\<exists>sub userId p. jwt_verify demo_crypto (bearer_token (req_authorization demo_delete)) (JWT_ACCESS_SECRET default_env) 5 = Some sub
      \<and> sub_number sub = Some userId \<and> (''/roles'', ''DELETE'', p) \<in> set WRITES \<and> access_decision p userId (app_db ?a) = Inr ()"
    by (simp add: f) (simp add: demo_delete_def plain_request_def)
  then have "\<exists>userId. access_decision ''module.master-data.role.delete'' userId (app_db ?a) = Inr ()"
    by (auto simp: WRITES_def)
  with ch s show ?thesis by auto
qed

end
