(* ===== verification/Api_Refusals.thy ===== *)
theory Api_Refusals
  imports Api_Security
begin

text \<open>
  Requests the API refuses: a body its schema rejects, and a request from a foreign page to an
  endpoint of the refresh cookie, leave the database as it was and are answered by the error
  handler, a limiter or the answer for unknown paths, never by a controller.
\<close>

section \<open>Refusing stages\<close>

text \<open>For requests with \<open>Q\<close> a stage leaves the database alone, answers nothing but the limiter's refusal,
  and passes on only requests with \<open>Q\<close>.\<close>

definition refuses :: "(http_request \<Rightarrow> bool) \<Rightarrow> stage \<Rightarrow> bool" where
  "refuses Q s = (\<forall>req a. Q req \<longrightarrow> app_db (snd (s req a)) = app_db a
     \<and> (case fst (s req a) of Next req' \<Rightarrow> Q req' | Next_route \<Rightarrow> True | Send res \<Rightarrow> res = too_many_requests
        | Raise r \<Rightarrow> True))"

lemma refuses_Nil: "refuses Q (run_stages [])"
  by (simp add: refuses_def)

lemma refuses_Cons:
  assumes "refuses Q s" and "refuses Q (run_stages ss)"
  shows "refuses Q (run_stages (s # ss))"
  unfolding refuses_def
proof (intro allI impI)
  fix req a assume q: "Q req"
  obtain r a1 where r: "s req a = (r, a1)" by fastforce
  have s: "app_db a1 = app_db a"
      "case r of Next req' \<Rightarrow> Q req' | Next_route \<Rightarrow> True | Send res \<Rightarrow> res = too_many_requests | Raise x \<Rightarrow> True"
    using assms(1) q r unfolding refuses_def by (metis fst_conv snd_conv)+
  show "app_db (snd (run_stages (s # ss) req a)) = app_db a
    \<and> (case fst (run_stages (s # ss) req a) of Next req' \<Rightarrow> Q req' | Next_route \<Rightarrow> True | Send res \<Rightarrow> res = too_many_requests
       | Raise x \<Rightarrow> True)"
  proof (cases r)
    case (Next req1)
    then have "Q req1" using s(2) by simp
    with assms(2) s(1) show ?thesis unfolding refuses_def by (simp add: r Next)
  qed (use s r in simp_all)
qed

lemma refuses_Route:
  assumes "\<And>req bs. Q req \<Longrightarrow> Q (req\<lparr>req_params := bs\<rparr>)" and "refuses Q (run_stages ss)"
  shows "refuses Q (run_entry (Route m p ss))"
  unfolding refuses_def
proof (intro allI impI)
  fix req a assume q: "Q req"
  show "app_db (snd (run_entry (Route m p ss) req a)) = app_db a
    \<and> (case fst (run_entry (Route m p ss) req a) of Next req' \<Rightarrow> Q req' | Next_route \<Rightarrow> True
       | Send res \<Rightarrow> res = too_many_requests | Raise x \<Rightarrow> True)"
  proof (cases "\<exists>bs. match_path p (path_segments (req_path req)) = Some bs \<and> answers m req")
    case True
    then obtain bs where bs: "match_path p (path_segments (req_path req)) = Some bs" "answers m req" by blast
    obtain r a1 where r: "run_stages ss (req\<lparr>req_params := bs\<rparr>) a = (r, a1)" by fastforce
    have "app_db a1 = app_db a"
      "case r of Next req' \<Rightarrow> Q req' | Next_route \<Rightarrow> True | Send res \<Rightarrow> res = too_many_requests | Raise x \<Rightarrow> True"
      using assms(2) assms(1) [OF q, of bs] r unfolding refuses_def by (metis fst_conv snd_conv)+
    then show ?thesis using q by (cases r) (simp_all add: run_Route bs r)
  qed (use q in \<open>auto simp: run_Route split: option.split\<close>)
qed

lemma refuses_skip:
  assumes "\<And>req. Q req \<Longrightarrow> \<not> answers m req \<or> match_path p (path_segments (req_path req)) = None"
  shows "refuses Q (run_entry (Route m p ss))"
  using assms by (auto simp: refuses_def run_Route split: option.split)

definition below :: "string \<Rightarrow> (http_request \<Rightarrow> bool) \<Rightarrow> http_request \<Rightarrow> bool" where
  "below base Q req = (case mount_path base (req_path req) of None \<Rightarrow> False | Some rest \<Rightarrow> Q (req\<lparr>req_path := rest\<rparr>))"

lemma refuses_Mount:
  assumes "steady s" and "refuses Q s"
  shows "refuses (below base Q) (run_entry (Mount base s))"
  unfolding refuses_def
proof (intro allI impI)
  fix req a assume q: "below base Q req"
  then obtain rest where m: "mount_path base (req_path req) = Some rest" and q1: "Q (req\<lparr>req_path := rest\<rparr>)"
    by (auto simp: below_def split: option.splits)
  obtain r a1 where r: "s (req\<lparr>req_path := rest\<rparr>) a = (r, a1)" by fastforce
  have s: "app_db a1 = app_db a"
      "case r of Next req' \<Rightarrow> Q req' | Next_route \<Rightarrow> True | Send res \<Rightarrow> res = too_many_requests | Raise x \<Rightarrow> True"
    using assms(2) q1 r unfolding refuses_def by (metis fst_conv snd_conv)+
  show "app_db (snd (run_entry (Mount base s) req a)) = app_db a
    \<and> (case fst (run_entry (Mount base s) req a) of Next req' \<Rightarrow> below base Q req' | Next_route \<Rightarrow> True
       | Send res \<Rightarrow> res = too_many_requests | Raise x \<Rightarrow> True)"
  proof (cases r)
    case (Next req1)
    have "target req1 = target (req\<lparr>req_path := rest\<rparr>)" using assms(1) r Next unfolding steady_def by (metis fst_conv)
    then have "req1\<lparr>req_path := rest\<rparr> = req1" by (simp add: target_def)
    then have "below base Q (req1\<lparr>req_path := req_path req\<rparr>)" using s(2) Next m by (simp add: below_def)
    then show ?thesis using s(1) by (simp add: run_Mount m r Next)
  qed (use s r in \<open>simp_all add: run_Mount m\<close>)
qed

lemma refuses_elsewhere:
  assumes "b \<in> set MODULES" and "base \<in> set MODULES" and "b \<noteq> base"
  shows "refuses (below base Q) (run_entry (Mount b s))"
proof -
  have "mount_path b (req_path req) = None" if b: "below base Q req" for req
  proof -
    obtain rest where "mount_path base (req_path req) = Some rest"
      using b by (cases "mount_path base (req_path req)") (simp_all add: below_def)
    from module_segment [OF assms(2) this] module_segment [OF assms(1)] assms(3)
    show ?thesis by (cases "mount_path b (req_path req)") auto
  qed
  then show ?thesis by (simp add: refuses_def run_Mount)
qed

lemma refuses_same:
  "refuses Q (limit S D L)" "refuses Q (permission p D)" "refuses Q (origin_guard S)" "refuses Q (otpEnabled S)"
  by (auto simp: refuses_def limit_def limited_def permission_def origin_guard_def guard_def otpEnabled_def
      dest: checkOrigin_same split: sum.splits prod.splits)

section \<open>Refused bodies\<close>

text \<open>The body a schema sees: on routes with an upload the text fields of a multipart form, otherwise
  the filtered body.\<close>

definition sent_body :: "circumstances \<Rightarrow> bool \<Rightarrow> json \<Rightarrow> json" where
  "sent_body D form body = (if form then case multipart D of None \<Rightarrow> body | Some (texts, file) \<Rightarrow> texts else body)"

definition bad_body ::
  "circumstances \<Rightarrow> string \<Rightarrow> string list \<Rightarrow> bool \<Rightarrow> (json \<Rightarrow> issues + json) \<Rightarrow> http_request \<Rightarrow> bool" where
  "bad_body D m p form schema req = (req_method req = m \<and> match_path p (path_segments (req_path req)) \<noteq> None
     \<and> isl (schema (sent_body D form (req_body req))))"

lemma bad_body_params: "bad_body D m p form schema req \<Longrightarrow> bad_body D m p form schema (req\<lparr>req_params := bs\<rparr>)"
  by (simp add: bad_body_def)

lemma refuses_authenticate: "refuses (bad_body D m p form schema) (authenticate S D)"
  by (auto simp: refuses_def bad_body_def authenticate_def guard_def authMiddleware_def Let_def split: sum.splits option.splits if_splits)

lemma refuses_validated: "refuses (bad_body D m p False schema) (run_stages (validated schema # ss))"
  by (auto simp: refuses_def bad_body_def sent_body_def validated_def guard_def validate_def split: sum.splits)

lemma refuses_upload: "refuses (bad_body D m p True schema) (run_stages (avatar_upload D # validated schema # ss))"
  by (auto simp: refuses_def bad_body_def sent_body_def avatar_upload_def validated_def guard_def validate_def
      split: sum.splits option.splits prod.splits)

lemma refuses_method:
  "m \<noteq> m' \<Longrightarrow> m \<noteq> ''HEAD'' \<Longrightarrow> refuses (bad_body D m p form schema) (run_entry (Route m' p' ss))"
  by (rule refuses_skip) (auto simp: bad_body_def answers_def)

lemma match_literal:
  assumes "match_path [p] ss = Some bs" and "hd p \<noteq> CHR '':''"
  shows "\<exists>s. ss = [s] \<and> toLowerCase s = toLowerCase p"
proof (cases ss)
  case (Cons s rest)
  with assms show ?thesis by (cases rest) (simp_all split: if_splits)
qed (use assms in simp)

lemma refuses_literal:
  assumes "toLowerCase p \<noteq> toLowerCase p'" and "hd p \<noteq> CHR '':''" "hd p' \<noteq> CHR '':''"
  shows "refuses (bad_body D m [p] form schema) (run_entry (Route m' [p'] ss))"
proof (rule refuses_skip)
  fix req assume "bad_body D m [p] form schema req"
  then obtain bs where "match_path [p] (path_segments (req_path req)) = Some bs" by (auto simp: bad_body_def)
  then obtain s where s: "path_segments (req_path req) = [s]" "toLowerCase s = toLowerCase p"
    using match_literal assms(2) by blast
  then have "match_path [p'] [s] \<noteq> Some bs'" for bs' using match_literal [OF _ assms(3)] assms(1) by force
  with s(1) show "\<not> answers m' req \<or> match_path [p'] (path_segments (req_path req)) = None" by (metis option.exhaust)
qed

lemma endpoint_lower:
  "toLowerCase ''register'' = ''register''" "toLowerCase ''login'' = ''login''"
  "toLowerCase ''request-password-reset'' = ''request-password-reset''" "toLowerCase ''reset-password'' = ''reset-password''"
  "toLowerCase ''send-otp'' = ''send-otp''" "toLowerCase ''verify-otp'' = ''verify-otp''" "toLowerCase ''refresh'' = ''refresh''"
  "toLowerCase ''verify-email'' = ''verify-email''" "toLowerCase ''logout'' = ''logout''"
  by code_simp+

lemma refuses_body_Route:
  "refuses (bad_body D m p form schema) (run_stages ss) \<Longrightarrow> refuses (bad_body D m p form schema) (run_entry (Route m' p' ss))"
  by (rule refuses_Route) (rule bad_body_params)

lemmas refusal_rules = refuses_Nil refuses_Cons refuses_same refuses_authenticate refuses_validated refuses_upload
  refuses_literal refuses_method refuses_body_Route endpoint_lower

lemma auth_refuses:
  "refuses (bad_body D ''POST'' [''register''] False (registerSchema (sv_zod S))) (auth_router S D)"
  "refuses (bad_body D ''POST'' [''login''] False (loginSchema (sv_zod S))) (auth_router S D)"
  "refuses (bad_body D ''POST'' [''request-password-reset''] False (requestPasswordResetSchema (sv_zod S))) (auth_router S D)"
  "refuses (bad_body D ''POST'' [''reset-password''] False (resetPasswordSchema (sv_zod S))) (auth_router S D)"
  "refuses (bad_body D ''POST'' [''send-otp''] False (sendOtpSchema (sv_zod S))) (auth_router S D)"
  "refuses (bad_body D ''POST'' [''verify-otp''] False (verifyOtpSchema (sv_zod S))) (auth_router S D)"
  unfolding auth_router_def otp_router_def Let_def router_def list.map run_Use
  by (simp_all add: refusal_rules)

lemma module_refuses:
  "refuses (bad_body D ''POST'' [] True (createUserSchema (sv_zod S))) (users_router S D)"
  "refuses (bad_body D ''PUT'' ['':slug''] True (updateUserSchema (sv_zod S))) (users_router S D)"
  "refuses (bad_body D ''PUT'' [] True (updateProfileSchema (sv_zod S) (sv_locales S) (take 10 (toISOString (now_of D)))))
     (profile_router S D)"
  "refuses (bad_body D ''POST'' [] False (createRoleSchema (sv_zod S))) (roles_router S D)"
  "refuses (bad_body D ''PUT'' ['':slug''] False (updateRoleSchema (sv_zod S))) (roles_router S D)"
  "refuses (bad_body D ''PUT'' ['':key''] False (updateEmailTemplateSchema (sv_zod S))) (email_template_router S D)"
  unfolding users_router_def profile_router_def roles_router_def email_template_router_def router_def list.map run_Use
  by (simp_all add: refusal_rules)

text \<open>Every route with a schema: module, method, pattern, whether it accepts an upload, and the schema.\<close>

definition BODY_ROUTES ::
  "server \<Rightarrow> circumstances \<Rightarrow> (string \<times> string \<times> string list \<times> bool \<times> (json \<Rightarrow> issues + json)) list" where
  "BODY_ROUTES S D = (let Z = sv_zod S in
     [(''/auth'', ''POST'', [''register''], False, registerSchema Z),
      (''/auth'', ''POST'', [''login''], False, loginSchema Z),
      (''/auth'', ''POST'', [''request-password-reset''], False, requestPasswordResetSchema Z),
      (''/auth'', ''POST'', [''reset-password''], False, resetPasswordSchema Z),
      (''/auth'', ''POST'', [''send-otp''], False, sendOtpSchema Z),
      (''/auth'', ''POST'', [''verify-otp''], False, verifyOtpSchema Z),
      (''/users'', ''POST'', [], True, createUserSchema Z), (''/users'', ''PUT'', ['':slug''], True, updateUserSchema Z),
      (''/profile'', ''PUT'', [], True, updateProfileSchema Z (sv_locales S) (take 10 (toISOString (now_of D)))),
      (''/roles'', ''POST'', [], False, createRoleSchema Z), (''/roles'', ''PUT'', ['':slug''], False, updateRoleSchema Z),
      (''/email-templates'', ''PUT'', ['':key''], False, updateEmailTemplateSchema Z)])"

definition module_router :: "server \<Rightarrow> circumstances \<Rightarrow> string \<Rightarrow> stage" where
  "module_router S D base = (case map_of [(''/auth'', auth_router S D), (''/users'', users_router S D),
     (''/profile'', profile_router S D), (''/roles'', roles_router S D), (''/email-templates'', email_template_router S D)] base
   of None \<Rightarrow> (\<lambda>req a. (Next req, a)) | Some s \<Rightarrow> s)"

lemma module_routers:
  "module_router S D ''/auth'' = auth_router S D" "module_router S D ''/users'' = users_router S D"
  "module_router S D ''/profile'' = profile_router S D" "module_router S D ''/roles'' = roles_router S D"
  "module_router S D ''/email-templates'' = email_template_router S D"
  by (simp_all add: module_router_def)

lemma body_routes_refuse:
  "list_all (\<lambda>(base, m, p, form, schema). refuses (bad_body D m p form schema) (module_router S D base)) (BODY_ROUTES S D)"
  unfolding BODY_ROUTES_def Let_def
  by (simp only: list.pred_inject prod.case module_routers auth_refuses module_refuses simp_thms)

lemma body_routes_module:
  "(base, m, p, form, schema) \<in> set (BODY_ROUTES S D) \<Longrightarrow> refuses (bad_body D m p form schema) (module_router S D base)"
  using body_routes_refuse [of D S] by (fastforce simp: list_all_iff)

lemma steady_module_router: "steady (module_router S D base)"
proof -
  have "steady (\<lambda>req a. (Next req, a))" by (simp add: steady_def)
  then show ?thesis by (simp add: module_router_def steady_rules)
qed

lemma api_refuses:
  assumes "refuses Q (module_router S D base)" and "base \<in> {''/auth'', ''/users'', ''/profile'', ''/roles'', ''/email-templates''}"
  shows "refuses (below base Q) (routes S D)"
proof -
  have mod: "base \<in> set MODULES" using assms(2) by (auto simp: MODULES_def)
  note own = refuses_Mount [OF steady_module_router assms(1)]
  have m: "refuses (below base Q) (run_entry (Mount b (module_router S D b)))"
    if "b \<in> {''/auth'', ''/users'', ''/profile'', ''/roles'', ''/email-templates''}" for b
  proof (cases "b = base")
    case True
    with own show ?thesis by simp
  next
    case False
    have "b \<in> set MODULES" using that by (auto simp: MODULES_def)
    from refuses_elsewhere [OF this mod False] show ?thesis .
  qed
  have others: "refuses (below base Q) (run_entry (Mount ''/health'' s))" "refuses (below base Q) (run_entry (Mount ''/activity-logs'' s))"
    "refuses (below base Q) (run_entry (Mount ''/utils'' s))" for s
    by (rule refuses_elsewhere [OF _ mod]; use assms(2) in \<open>auto simp: MODULES_def\<close>)+
  have root: "refuses (below base Q) (run_entry (Route ''GET'' [] ss))" for ss
  proof (rule refuses_skip)
    fix req assume "below base Q req"
    then obtain rest where r: "mount_path base (req_path req) = Some rest"
      by (cases "mount_path base (req_path req)") (simp_all add: below_def)
    have "path_segments (req_path req) \<noteq> []"
    proof
      assume "path_segments (req_path req) = []"
      then have "length (req_path req) \<le> 1"
        by (cases "req_path req"; cases "tl (req_path req)") (auto simp: path_segments_def Let_def split: if_splits)
      moreover have "toLowerCase (take (length base) (req_path req)) = toLowerCase base"
        using r by (simp add: mount_path_def split: if_splits)
      then have "length (take (length base) (req_path req)) = length base"
        unfolding toLowerCase_def by (metis length_map)
      ultimately show False using assms(2) by auto
    qed
    then show "\<not> answers ''GET'' req \<or> match_path [] (path_segments (req_path req)) = None"
      by (cases "path_segments (req_path req)") simp_all
  qed
  show ?thesis
    unfolding routes_def router_def list.map run_Use
    using m by (simp add: refuses_Nil refuses_Cons refuses_same others root flip: module_routers)
qed

lemma storage_or_api: "mount_path ''/api/v1'' path = Some rest \<Longrightarrow> mount_path ''/storage'' path = None"
  by (cases path; cases "tl path") (auto simp: mount_path_def toLowerCase_def lower_literals split: if_splits)

definition refused :: "server \<Rightarrow> circumstances \<Rightarrow> http_request \<Rightarrow> http_response \<Rightarrow> bool" where
  "refused S D req res = (res = too_many_requests \<or> res = sv_unanswered S req
     \<or> (\<exists>r. res = errorHandler (sv_dbMessage S) (sv_NODE_ENV S) (stack_of D) r))"

text \<open>The request as the routers get it: its body parsed and filtered.\<close>

definition filtered :: "server \<Rightarrow> json \<Rightarrow> http_request \<Rightarrow> http_request" where
  "filtered S body req = xssMiddleware (sv_xss S) (req\<lparr>req_body := body\<rparr>)"

lemma serve_refuses:
  assumes "refuses (below base Q) (routes S D)" and "mount_path ''/api/v1'' (req_path req) = Some path"
    and "req_method req \<noteq> ''OPTIONS''"
    and "\<And>body. parsed_body D = Inr body \<Longrightarrow> below base Q ((filtered S body req)\<lparr>req_path := path\<rparr>)"
    and "serve S D req a = (res, a')"
  shows "app_db a' = app_db a \<and> refused S D req res"
proof -
  have p: "req_path (filtered S body req) = req_path req" for body by (simp add: filtered_def xssMiddleware_def)
  note app = app_router_def router_def cors_def parse_body_def
  consider (origin) e where "corsOrigin (sv_allowedOrigins S) (req_origin req) = Inl e"
    | (parser) b e where "corsOrigin (sv_allowedOrigins S) (req_origin req) = Inr b" "parsed_body D = Inl e"
    | (body) b body where "corsOrigin (sv_allowedOrigins S) (req_origin req) = Inr b" "parsed_body D = Inr body"
    by (metis sum.exhaust)
  then show ?thesis
  proof cases
    case origin
    then show ?thesis using assms(5) by (auto simp: serve_def app refused_def)
  next
    case parser
    then show ?thesis using assms(3,5) by (auto simp: serve_def app refused_def)
  next
    case body
    obtain r a1 where r: "routes S D ((filtered S body req)\<lparr>req_path := path\<rparr>) a = (r, a1)" by fastforce
    have s: "app_db a1 = app_db a"
      "case r of Next req' \<Rightarrow> below base Q req' | Next_route \<Rightarrow> True | Send res \<Rightarrow> res = too_many_requests | Raise x \<Rightarrow> True"
      using assms(1) assms(4) [OF body(2)] r unfolding refuses_def by (metis fst_conv snd_conv)+
    have "app_router S D req a = (case (r, a1) of (Next req1, a1) \<Rightarrow> (Next (req1\<lparr>req_path := req_path req\<rparr>), a1) | x \<Rightarrow> x)"
      using body assms(2,3) storage_or_api [OF assms(2)] r p [of body]
      by (cases r) (simp_all add: app run_Mount filtered_def)
    then show ?thesis using s assms(5) by (cases r) (auto simp: serve_def refused_def)
  qed
qed

text \<open>C10. Refused bodies store nothing. Whenever the body sent to one of the twelve routes that have a schema is
  refused by that schema, after parsing, HTML filtering and, for uploads, from the form, the database
  is as before and no controller answers: the response comes from the error handler, from a limiter,
  or is the answer to unknown paths (the code routes when they are switched off).\<close>

theorem invalid_bodies_store_nothing:
  assumes "(base, m, p, form, schema) \<in> set (BODY_ROUTES S D)"
    and "req_method req = m" and "mount_path ''/api/v1'' (req_path req) = Some path"
    and "mount_path base path = Some rest" and "match_path p (path_segments rest) = Some bs"
    and "\<forall>body. parsed_body D = Inr body \<longrightarrow> isl (schema (sent_body D form (req_body (filtered S body req))))"
    and "serve S D req a = (res, a')"
  shows "app_db a' = app_db a \<and> refused S D req res"
proof (rule serve_refuses [OF _ assms(3) _ _ assms(7)])
  have "base \<in> {''/auth'', ''/users'', ''/profile'', ''/roles'', ''/email-templates''}"
    using assms(1) by (auto simp: BODY_ROUTES_def Let_def)
  then show "refuses (below base (bad_body D m p form schema)) (routes S D)"
    by (rule api_refuses [OF body_routes_module [OF assms(1)]])
  show "req_method req \<noteq> ''OPTIONS''" using assms(1,2) by (auto simp: BODY_ROUTES_def Let_def)
  fix body assume b: "parsed_body D = Inr body"
  have "req_method (filtered S body req) = m" using assms(2) by (simp add: filtered_def xssMiddleware_def)
  then show "below base (bad_body D m p form schema) ((filtered S body req)\<lparr>req_path := path\<rparr>)"
    using assms(4,5,6) b by (simp add: below_def bad_body_def)
qed

definition demo_weak :: http_request where
  "demo_weak = plain_request ''POST'' ''/api/v1/auth/register''"

lemma demo_weak_paths:
  "mount_path ''/api/v1'' ''/api/v1/auth/register'' = Some ''/auth/register''"
  "mount_path ''/auth'' ''/auth/register'' = Some ''/register''"
  "match_path [''register''] (path_segments ''/register'') = Some []"
  by code_simp+

theorem invalid_bodies_store_nothing_witness:
  "\<exists>res a'. serve demo_server (demo_circumstances\<lparr>parsed_body := Inr (demo_body ''secret'')\<rparr>) demo_weak demo_app = (res, a')
     \<and> app_db a' = app_db demo_app
     \<and> refused demo_server (demo_circumstances\<lparr>parsed_body := Inr (demo_body ''secret'')\<rparr>) demo_weak res"
proof -
  let ?D = "demo_circumstances\<lparr>parsed_body := Inr (demo_body ''secret'')\<rparr>"
  obtain res a' where s: "serve demo_server ?D demo_weak demo_app = (res, a')" by fastforce
  have r: "(''/auth'', ''POST'', [''register''], False, registerSchema (sv_zod demo_server)) \<in> set (BODY_ROUTES demo_server ?D)"
    by (simp add: BODY_ROUTES_def Let_def)
  have "req_body (filtered demo_server (demo_body ''secret'') demo_weak) = demo_body ''secret''"
    by (simp add: filtered_def xssMiddleware_def demo_server_def demo_weak_def plain_request_def sanitize_body_def demo_body_def
        routeOwnedFields_def Let_def)
  moreover have "isl (registerSchema demo_zod (demo_body ''secret''))" by code_simp
  moreover have "sv_zod demo_server = demo_zod" "parsed_body ?D = Inr (demo_body ''secret'')"
    by (simp_all add: demo_server_def)
  ultimately have b: "\<forall>body. parsed_body ?D = Inr body
      \<longrightarrow> isl (registerSchema (sv_zod demo_server) (sent_body ?D False (req_body (filtered demo_server body demo_weak))))"
    by (simp add: sent_body_def)
  have m: "req_method demo_weak = ''POST''" "mount_path ''/api/v1'' (req_path demo_weak) = Some ''/auth/register''"
    by (simp_all add: demo_weak_def plain_request_def demo_weak_paths)
  from invalid_bodies_store_nothing [OF r m demo_weak_paths(2,3) b s] s show ?thesis by blast
qed

section \<open>Foreign pages\<close>

text \<open>The endpoints that issue or consume the refresh cookie.\<close>

definition COOKIE_ENDPOINTS :: "string list" where
  "COOKIE_ENDPOINTS = [''login'', ''refresh'', ''logout'']"

definition foreign :: "server \<Rightarrow> string \<Rightarrow> http_request \<Rightarrow> bool" where
  "foreign S p req = (req_method req = ''POST'' \<and> match_path [p] (path_segments (req_path req)) \<noteq> None
     \<and> isl (checkOrigin (sv_originFromReferer S) (sv_allowedOrigins S) req))"

lemma checkOrigin_fields:
  "isl (checkOrigin f allowed (req\<lparr>req_params := bs\<rparr>)) = isl (checkOrigin f allowed req)"
  "isl (checkOrigin f allowed (req\<lparr>req_path := path\<rparr>)) = isl (checkOrigin f allowed req)"
  "isl (checkOrigin f allowed (filtered S body req)) = isl (checkOrigin f allowed req)"
  by (simp_all add: checkOrigin_def Let_def filtered_def xssMiddleware_def)

lemma foreign_guarded: "refuses (foreign S p) (run_stages (origin_guard S # ss))"
  by (auto simp: refuses_def foreign_def origin_guard_def guard_def split: sum.splits)

lemma foreign_Route:
  "refuses (foreign S p) (run_stages ss) \<Longrightarrow> refuses (foreign S p) (run_entry (Route m' p' ss))"
  by (rule refuses_Route) (simp add: foreign_def checkOrigin_fields)

lemma foreign_method: "m' \<noteq> ''POST'' \<Longrightarrow> refuses (foreign S p) (run_entry (Route m' p' ss))"
  by (rule refuses_skip) (auto simp: foreign_def answers_def)

lemma foreign_literal:
  assumes "toLowerCase p \<noteq> toLowerCase p'" and "hd p \<noteq> CHR '':''" "hd p' \<noteq> CHR '':''"
  shows "refuses (foreign S p) (run_entry (Route m' [p'] ss))"
proof (rule refuses_skip)
  fix req assume "foreign S p req"
  then obtain bs where "match_path [p] (path_segments (req_path req)) = Some bs" by (auto simp: foreign_def)
  then obtain s where s: "path_segments (req_path req) = [s]" "toLowerCase s = toLowerCase p"
    using match_literal assms(2) by blast
  then have "match_path [p'] [s] \<noteq> Some bs'" for bs' using match_literal [OF _ assms(3)] assms(1) by force
  with s(1) show "\<not> answers m' req \<or> match_path [p'] (path_segments (req_path req)) = None" by (metis option.exhaust)
qed

lemma auth_refuses_foreign:
  "refuses (foreign S ''login'') (auth_router S D)" "refuses (foreign S ''refresh'') (auth_router S D)"
  "refuses (foreign S ''logout'') (auth_router S D)"
  unfolding auth_router_def otp_router_def Let_def router_def list.map run_Use
  by (simp_all add: refuses_Nil refuses_Cons refuses_same foreign_guarded foreign_literal foreign_method foreign_Route
      endpoint_lower)

definition at_cookie_endpoint :: "http_request \<Rightarrow> bool" where
  "at_cookie_endpoint req = (req_method req = ''POST''
     \<and> (case Option.bind (mount_path ''/api/v1'' (req_path req)) (mount_path ''/auth'') of
          None \<Rightarrow> False
        | Some rest \<Rightarrow> list_ex (\<lambda>p. match_path [p] (path_segments rest) \<noteq> None) COOKIE_ENDPOINTS))"

definition foreign_origin :: "server \<Rightarrow> http_request \<Rightarrow> bool" where
  "foreign_origin S req = (truthy (req_origin req) \<and> \<not> isAllowedOrigin (sv_allowedOrigins S) (the (req_origin req)))"

lemma cookie_endpoint_guarded:
  assumes "at_cookie_endpoint req" and "checkOrigin (sv_originFromReferer S) (sv_allowedOrigins S) req = Inl e"
    and "serve S D req a = (res, a')"
  shows "app_db a' = app_db a \<and> refused S D req res"
proof -
  obtain path rest p bs where e: "mount_path ''/api/v1'' (req_path req) = Some path" "mount_path ''/auth'' path = Some rest"
      "p \<in> set COOKIE_ENDPOINTS" "match_path [p] (path_segments rest) = Some bs" and m: "req_method req = ''POST''"
    using assms(1) by (auto simp: at_cookie_endpoint_def list_ex_iff split: Option.bind_splits option.splits)
  have "refuses (foreign S p) (module_router S D ''/auth'')"
    using e(3) by (auto simp: module_routers COOKIE_ENDPOINTS_def auth_refuses_foreign)
  then have r: "refuses (below ''/auth'' (foreign S p)) (routes S D)" by (rule api_refuses) simp
  have q: "below ''/auth'' (foreign S p) ((filtered S body req)\<lparr>req_path := path\<rparr>)" for body
  proof -
    have "req_method (filtered S body req) = ''POST''" using m by (simp add: filtered_def xssMiddleware_def)
    moreover have "isl (checkOrigin (sv_originFromReferer S) (sv_allowedOrigins S) (filtered S body req))"
      by (simp add: checkOrigin_fields assms(2))
    ultimately show ?thesis
      using e(2,4) by (simp add: below_def foreign_def checkOrigin_fields)
  qed
  have "req_method req \<noteq> ''OPTIONS''" using m by simp
  from serve_refuses [OF r e(1) this q assms(3)] show ?thesis .
qed

lemma foreign_origin_stopped:
  assumes "foreign_origin S req" and "serve S D req a = (res, a')"
  shows "a' = a \<and> res_status res = 403 \<and> res_cookies res = []"
proof -
  have "corsOrigin (sv_allowedOrigins S) (req_origin req) = Inl (AppError ''Not allowed by CORS'' 403)"
    using assms(1) by (simp add: foreign_origin_def corsOrigin_def)
  then show ?thesis
    using assms(2) by (auto simp: serve_def app_router_def router_def cors_def errorHandler_def status_or_500_def Let_def)
qed

text \<open>C11. Foreign pages. A request whose Origin header names an origin outside the allowlist is answered 403
  before anything of it runs, whatever its method and path: no counter, cache, file or table changes.
  At the three endpoints that issue or consume the refresh cookie (POST login, refresh and logout) a
  request without an Origin whose Referer is foreign or unreadable is refused as well: the database
  is unchanged and no controller answers. Elsewhere the Referer is not looked at, as no other
  endpoint acts on the cookie.\<close>

theorem foreign_pages_refused:
  assumes "serve S D req a = (res, a')"
  shows "(foreign_origin S req \<longrightarrow> a' = a \<and> res_status res = 403 \<and> res_cookies res = [])
    \<and> (at_cookie_endpoint req \<and> isl (checkOrigin (sv_originFromReferer S) (sv_allowedOrigins S) req)
        \<longrightarrow> app_db a' = app_db a \<and> refused S D req res)"
  using foreign_origin_stopped [OF _ assms] cookie_endpoint_guarded [OF _ _ assms] by (auto simp: isl_def)

definition demo_foreign :: http_request where
  "demo_foreign = (plain_request ''POST'' ''/api/v1/auth/logout'')\<lparr>req_referer := Some ''https://evil.io'',
     req_cookies := JObj [(''refreshToken'', JStr ''old'')]\<rparr>"

definition demo_foreign_reset :: http_request where
  "demo_foreign_reset = (plain_request ''POST'' ''/api/v1/auth/reset-password'')\<lparr>req_origin := Some ''https://evil.io''\<rparr>"

theorem foreign_pages_refused_witness:
  "\<exists>res a'. serve demo_server demo_circumstances demo_foreign (demo_app\<lparr>app_db := demo_token_db\<rparr>) = (res, a')
     \<and> app_db a' = demo_token_db \<and> refused demo_server demo_circumstances demo_foreign res
     \<and> snd (serve demo_server demo_circumstances demo_foreign_reset demo_app) = demo_app"
proof -
  let ?a = "demo_app\<lparr>app_db := demo_token_db\<rparr>"
  obtain res a' where s: "serve demo_server demo_circumstances demo_foreign ?a = (res, a')" by fastforce
  have "at_cookie_endpoint demo_foreign" by code_simp
  moreover have "isl (checkOrigin (sv_originFromReferer demo_server) (sv_allowedOrigins demo_server) demo_foreign)"
    by (simp add: checkOrigin_def demo_foreign_def plain_request_def demo_server_def isAllowedOrigin_def SAFE_METHODS_def)
  ultimately have "app_db a' = app_db ?a \<and> refused demo_server demo_circumstances demo_foreign res"
    using foreign_pages_refused [OF s] by blast
  moreover obtain res2 a2 where s2: "serve demo_server demo_circumstances demo_foreign_reset demo_app = (res2, a2)" by fastforce
  moreover have "foreign_origin demo_server demo_foreign_reset"
    by (simp add: foreign_origin_def demo_foreign_reset_def plain_request_def demo_server_def isAllowedOrigin_def)
  ultimately show ?thesis using foreign_pages_refused [OF s2] s by auto
qed

section \<open>What uploads leave behind\<close>

text \<open>The text fields of a multipart form replace the body after the HTML filter has run, so they reach the
  schema and the controller as they were sent.\<close>

lemma multipart_text_unfiltered:
  assumes "multipart D = Some (form, None)"
  shows "run_stages [\<lambda>req a. (Next (xssMiddleware xss req), a), avatar_upload D] req a
    = (Next ((xssMiddleware xss req)\<lparr>req_body := form, req_filename := None\<rparr>), a)"
  by (simp add: avatar_upload_def assms avatarUploader_def createUploader_def)

text \<open>A file is stored before the other fields are validated and stays when they are refused.\<close>

lemma refused_upload_stays:
  assumes "multipart D = Some (form, Some f)" and "avatarUploader (file_bytes D) (Some f) (app_files a) = (Inr name, files)"
    and "schema form = Inl problems"
  shows "\<exists>e. run_stages [avatar_upload D, validated schema] req a = (Raise (Service e), a\<lparr>app_files := files\<rparr>)"
  using assms by (simp add: avatar_upload_def validated_def guard_def validate_def)

end
