(* ===== verification/Workers.thy ===== *)
theory Workers
  imports Email_Delivery Lifecycle "HOL-Library.Multiset"
begin

text \<open>
  The worker process (\<^verbatim>\<open>src/jobs/run-workers.ts\<close>): the attempts of a job under the default job options
  (\<^verbatim>\<open>src/jobs/config/queue.config.ts\<close>), the dead-letter writes that run beside the worker loop
  (\<^verbatim>\<open>src/jobs/workers/worker-logging.ts\<close>), start-up, and the eight shutdown steps acting on the resources
  of the process. Also the start of the API process (\<^verbatim>\<open>src/server.ts\<close>), \<^verbatim>\<open>closeRedis\<close>, the time limit of
  a shutdown and \<^verbatim>\<open>withTimeout\<close>. As its documentation says, BullMQ retries a failed attempt unless its
  error is unrecoverable or the attempts are used up, and emits \<^verbatim>\<open>failed\<close> for every failed attempt; a run
  of a job that stalls, which BullMQ starts anew, is left out.
\<close>

section \<open>Attempts of a job\<close>

record default_job_options =
  djo_attempts :: nat
  djo_backoffType :: string
  djo_backoffDelay :: nat
  djo_removeOnComplete :: nat
  djo_removeOnFail :: nat

definition DEFAULT_JOB_OPTIONS :: default_job_options where
  "DEFAULT_JOB_OPTIONS = \<lparr>djo_attempts = 3, djo_backoffType = ''exponential'', djo_backoffDelay = 5000,
     djo_removeOnComplete = 100, djo_removeOnFail = 500\<rparr>"

text \<open>The delay before the attempt after \<open>made\<close> failed ones, by BullMQ's documentation of its backoff types.\<close>

definition backoff :: "default_job_options \<Rightarrow> nat \<Rightarrow> nat" where
  "backoff opts made = (if djo_backoffType opts = ''exponential'' then 2 ^ (made - 1) * djo_backoffDelay opts
     else djo_backoffDelay opts)"

datatype attempt_result = Completed | Failed_with string bool

text \<open>One attempt acts on a state; the flag of a failure says that its error is unrecoverable.\<close>

type_synonym 's processor = "nat \<Rightarrow> 's \<Rightarrow> attempt_result \<times> 's"

record job_failure =
  jf_attempt :: nat
  jf_reason :: string
  jf_unrecoverable :: bool

text \<open>Every failed attempt is a \<open>failed\<close> event; the job is delayed between attempts.\<close>

record job_run =
  jr_made :: nat
  jr_failures :: "job_failure list"
  jr_delays :: "nat list"
  jr_completed :: bool

function run_attempts :: "default_job_options \<Rightarrow> 's processor \<Rightarrow> nat \<Rightarrow> 's \<Rightarrow> job_run \<times> 's" where
  "run_attempts opts process made s =
     (let (r, s1) = process (Suc made) s in
      case r of
        Completed \<Rightarrow> (\<lparr>jr_made = Suc made, jr_failures = [], jr_delays = [], jr_completed = True\<rparr>, s1)
      | Failed_with reason unrecoverable \<Rightarrow>
          (let failure = \<lparr>jf_attempt = Suc made, jf_reason = reason, jf_unrecoverable = unrecoverable\<rparr> in
           if unrecoverable \<or> djo_attempts opts \<le> Suc made
           then (\<lparr>jr_made = Suc made, jr_failures = [failure], jr_delays = [], jr_completed = False\<rparr>, s1)
           else (let (run, s2) = run_attempts opts process (Suc made) s1
                 in (run\<lparr>jr_failures := failure # jr_failures run, jr_delays := backoff opts (Suc made) # jr_delays run\<rparr>, s2))))"
  by pat_completeness auto
termination by (relation "measure (\<lambda>(opts, process, made, s). djo_attempts opts - made)") auto

declare run_attempts.simps [simp del]

section \<open>Dead-letter writes\<close>

record dl_write =
  wr_worker :: string
  wr_job :: failed_job
  wr_reason :: string

text \<open>\<open>w_lost\<close> lists the writes whose insert failed; the code logs them.\<close>

record writes =
  w_pending :: "dl_write list"
  w_db :: database
  w_lost :: "dl_write list"

definition recordDeadLetter :: "string \<Rightarrow> failed_job \<Rightarrow> string \<Rightarrow> writes \<Rightarrow> writes" where
  "recordDeadLetter workerName job reason st =
     st\<lparr>w_pending := w_pending st @ [\<lparr>wr_worker = workerName, wr_job = job, wr_reason = reason\<rparr>]\<rparr>"

definition failed_event :: "string \<Rightarrow> failed_job option \<Rightarrow> string \<Rightarrow> bool \<Rightarrow> writes \<Rightarrow> writes" where
  "failed_event workerName job reason unrecoverable st =
     (case job of
        None \<Rightarrow> st
      | Some j \<Rightarrow> if isFinalFailure j unrecoverable then recordDeadLetter workerName j reason st else st)"

text \<open>The insert of a pending write succeeds or fails; either way the write is no longer pending.\<close>

definition write_row :: "time \<Rightarrow> dl_write \<Rightarrow> database \<Rightarrow> database" where
  "write_row now w = dead_letter_record (wr_worker w) (fj_name (wr_job w)) (fj_id (wr_job w))
     (payload_or_empty (fj_data (wr_job w))) (wr_reason w) (fj_attemptsMade (wr_job w)) now"

definition settle :: "time \<Rightarrow> bool \<Rightarrow> dl_write \<Rightarrow> writes \<Rightarrow> writes" where
  "settle now ok w st =
     (let st1 = st\<lparr>w_pending := remove1 w (w_pending st)\<rparr> in
      if ok then st1\<lparr>w_db := write_row now w (w_db st)\<rparr> else st1\<lparr>w_lost := w_lost st @ [w]\<rparr>)"

definition settle_all :: "time \<Rightarrow> (dl_write \<Rightarrow> bool) \<Rightarrow> dl_write list \<Rightarrow> writes \<Rightarrow> writes" where
  "settle_all now ok ws st = fold (\<lambda>w. settle now (ok w) w) ws st"

text \<open>\<^verbatim>\<open>drainDeadLetterWrites\<close> waits for the writes pending when it is called.\<close>

definition drainDeadLetterWrites :: "time \<Rightarrow> (dl_write \<Rightarrow> bool) \<Rightarrow> writes \<Rightarrow> writes" where
  "drainDeadLetterWrites now ok st = settle_all now ok (w_pending st) st"

section \<open>A worker at a job\<close>

text \<open>The queue adds its default options to every job.\<close>

definition job_at :: "default_job_options \<Rightarrow> job \<Rightarrow> nat \<Rightarrow> failed_job" where
  "job_at opts j attempt = \<lparr>fj_name = job_name j, fj_id = Some (job_id j), fj_data = job_data j,
     fj_attemptsMade = attempt, fj_attempts = Some (djo_attempts opts)\<rparr>"

definition failure_event :: "string \<Rightarrow> default_job_options \<Rightarrow> job \<Rightarrow> job_failure \<Rightarrow> writes \<Rightarrow> writes" where
  "failure_event workerName opts j f =
     failed_event workerName (Some (job_at opts j (jf_attempt f))) (jf_reason f) (jf_unrecoverable f)"

definition work_job ::
  "string \<Rightarrow> default_job_options \<Rightarrow> 's processor \<Rightarrow> job \<Rightarrow> 's \<Rightarrow> writes \<Rightarrow> job_run \<times> 's \<times> writes" where
  "work_job workerName opts process j s st =
     (let (run, s') = run_attempts opts process 0 s
      in (run, s', fold (failure_event workerName opts j) (jr_failures run) st))"

text \<open>The processors of the two workers; what each attempt meets is an argument.\<close>

definition attempt_of :: "job_error + unit \<Rightarrow> attempt_result" where
  "attempt_of r = (case r of
     Inr _ \<Rightarrow> Completed
   | Inl (UnrecoverableError m) \<Rightarrow> Failed_with m True
   | Inl (PermanentMailError m) \<Rightarrow> Failed_with m False
   | Inl (OtherError m) \<Rightarrow> Failed_with m False)"

definition email_processor ::
  "mail_settings \<Rightarrow> (nat \<Rightarrow> network \<times> database \<times> time) \<Rightarrow> job \<Rightarrow> worker_state processor" where
  "email_processor S meets j attempt st =
     (case meets attempt of (net, db, now) \<Rightarrow> map_prod attempt_of id (processEmailJob S net db j now st))"

text \<open>The one error \<^verbatim>\<open>processSystemJob\<close> throws itself is unrecoverable.\<close>

definition system_processor :: "env \<Rightarrow> (nat \<Rightarrow> time) \<Rightarrow> job \<Rightarrow> database processor" where
  "system_processor E now_of j attempt db =
     (case processSystemJob E (job_name j) (now_of attempt) db of
        (Inr _, db') \<Rightarrow> (Completed, db')
      | (Inl e, db') \<Rightarrow> (Failed_with (case e of ThrownError m \<Rightarrow> m | _ \<Rightarrow> []) True, db'))"

section \<open>A job ends once\<close>

lemma isFinalFailure_job_at [simp]:
  "isFinalFailure (job_at opts j n) u \<longleftrightarrow> u \<or> djo_attempts opts \<le> n"
  by (simp add: isFinalFailure_def job_at_def)

text \<open>Only the failure that ends a run is recorded.\<close>

lemma run_attempts_events:
  "run_attempts opts process made s = (run, s') \<Longrightarrow>
     fold (failure_event workerName opts j) (jr_failures run) st
       = (if jr_completed run then st
          else recordDeadLetter workerName (job_at opts j (jr_made run)) (jf_reason (last (jr_failures run))) st)
     \<and> (jr_completed run \<or> jr_failures run \<noteq> [])"
proof (induction opts process made s arbitrary: run s' rule: run_attempts.induct)
  case (1 opts process made s)
  obtain r s1 where p: "process (Suc made) s = (r, s1)" by fastforce
  show ?case
  proof (cases r)
    case Completed
    with 1(2) p show ?thesis by (auto simp: run_attempts.simps [of opts process made])
  next
    case (Failed_with reason u)
    show ?thesis
    proof (cases "u \<or> djo_attempts opts \<le> Suc made")
      case True
      with 1(2) p Failed_with show ?thesis
        by (auto simp: run_attempts.simps [of opts process made] Let_def failure_event_def failed_event_def)
    next
      case False
      obtain run2 s2 where r2: "run_attempts opts process (Suc made) s1 = (run2, s2)" by fastforce
      have "run = run2\<lparr>jr_failures := \<lparr>jf_attempt = Suc made, jf_reason = reason, jf_unrecoverable = u\<rparr> # jr_failures run2,
          jr_delays := backoff opts (Suc made) # jr_delays run2\<rparr>"
        using 1(2) p Failed_with False r2 by (auto simp: run_attempts.simps [of opts process made] Let_def)
      moreover have "failure_event workerName opts j \<lparr>jf_attempt = Suc made, jf_reason = reason, jf_unrecoverable = u\<rparr> st = st"
        using False by (simp add: failure_event_def failed_event_def)
      moreover note 1(1) [OF p [symmetric] refl Failed_with refl False r2]
      ultimately show ?thesis by auto
    qed
  qed
qed

lemma run_attempts_bounds:
  "run_attempts opts process made s = (run, s') \<Longrightarrow>
     made < jr_made run \<and> jr_made run \<le> max (Suc made) (djo_attempts opts)
     \<and> jr_delays run = map (backoff opts) [Suc made..<jr_made run]
     \<and> (jr_completed run \<or> djo_attempts opts \<le> jr_made run \<or> jf_unrecoverable (last (jr_failures run)))"
proof (induction opts process made s arbitrary: run s' rule: run_attempts.induct)
  case (1 opts process made s)
  obtain r s1 where p: "process (Suc made) s = (r, s1)" by fastforce
  show ?case
  proof (cases r)
    case Completed
    with 1(2) p show ?thesis by (auto simp: run_attempts.simps [of opts process made])
  next
    case (Failed_with reason u)
    show ?thesis
    proof (cases "u \<or> djo_attempts opts \<le> Suc made")
      case True
      with 1(2) p Failed_with show ?thesis
        by (auto simp: run_attempts.simps [of opts process made] Let_def)
    next
      case False
      obtain run2 s2 where r2: "run_attempts opts process (Suc made) s1 = (run2, s2)" by fastforce
      have run: "run = run2\<lparr>jr_failures := \<lparr>jf_attempt = Suc made, jf_reason = reason, jf_unrecoverable = u\<rparr> # jr_failures run2,
          jr_delays := backoff opts (Suc made) # jr_delays run2\<rparr>"
        using 1(2) p Failed_with False r2 by (auto simp: run_attempts.simps [of opts process made] Let_def)
      have ih: "Suc made < jr_made run2" "jr_made run2 \<le> max (Suc (Suc made)) (djo_attempts opts)"
          "jr_delays run2 = map (backoff opts) [Suc (Suc made)..<jr_made run2]"
          "jr_completed run2 \<or> djo_attempts opts \<le> jr_made run2 \<or> jf_unrecoverable (last (jr_failures run2))"
        using 1(1) [OF p [symmetric] refl Failed_with refl False r2] by blast+
      have "jr_completed run2 \<or> jr_failures run2 \<noteq> []" using run_attempts_events [OF r2] by blast
      then have "jr_completed run \<or> djo_attempts opts \<le> jr_made run \<or> jf_unrecoverable (last (jr_failures run))"
        using ih(4) by (auto simp: run)
      moreover have "map (backoff opts) [Suc made..<jr_made run2] = backoff opts (Suc made) # jr_delays run2"
        using ih(1,3) by (simp add: upt_rec [of "Suc made"])
      moreover have "jr_made run2 \<le> max (Suc made) (djo_attempts opts)" using ih(2) False by auto
      ultimately show ?thesis using ih(1) by (simp add: run)
    qed
  qed
qed

lemma default_delays: "made \<in> {1..3} \<Longrightarrow> map (backoff DEFAULT_JOB_OPTIONS) [1..<made] = take (made - 1) [5000, 10000]"
  by (subgoal_tac "made = 1 \<or> made = 2 \<or> made = 3")
     (auto simp: backoff_def DEFAULT_JOB_OPTIONS_def upt_rec)

text \<open>C25. A job is attempted at most three times, with delays of 5 and 10 seconds, and ends either completed
  with nothing recorded, or with exactly one dead-letter write, for its last failure, which is the
  third one or unrecoverable.\<close>

theorem job_dead_lettered_once:
  "case work_job workerName DEFAULT_JOB_OPTIONS process j s st of (run, s', st') \<Rightarrow>
     jr_made run \<in> {1..3} \<and> jr_delays run = take (jr_made run - 1) [5000, 10000]
     \<and> (jr_completed run \<or> jr_made run = 3 \<or> jf_unrecoverable (last (jr_failures run)))
     \<and> st' = (if jr_completed run then st
              else st\<lparr>w_pending := w_pending st @ [\<lparr>wr_worker = workerName,
                     wr_job = job_at DEFAULT_JOB_OPTIONS j (jr_made run),
                     wr_reason = jf_reason (last (jr_failures run))\<rparr>]\<rparr>)"
proof -
  obtain run s' where r: "run_attempts DEFAULT_JOB_OPTIONS process 0 s = (run, s')" by fastforce
  have three: "djo_attempts DEFAULT_JOB_OPTIONS = 3" by (simp add: DEFAULT_JOB_OPTIONS_def)
  from run_attempts_bounds [OF r] have m: "jr_made run \<in> {1..3}" by (simp add: three)
  moreover have "jr_delays run = take (jr_made run - 1) [5000, 10000]"
    using run_attempts_bounds [OF r] default_delays [OF m] by simp
  moreover have "jr_completed run \<or> jr_made run = 3 \<or> jf_unrecoverable (last (jr_failures run))"
    using run_attempts_bounds [OF r] m by (auto simp: three)
  ultimately show ?thesis
    using run_attempts_events [OF r, of workerName j st] by (simp add: work_job_def r recordDeadLetter_def)
qed

lemma unrecoverable_once:
  assumes "process 1 s = (Failed_with reason True, s1)"
  shows "work_job workerName opts process j s st
    = (\<lparr>jr_made = 1, jr_failures = [\<lparr>jf_attempt = 1, jf_reason = reason, jf_unrecoverable = True\<rparr>],
         jr_delays = [], jr_completed = False\<rparr>, s1, recordDeadLetter workerName (job_at opts j 1) reason st)"
  using assms
  by (simp add: work_job_def run_attempts.simps [of opts process 0] failure_event_def failed_event_def)

text \<open>An email that can never be delivered, or a job no processor knows, is not retried.\<close>

lemma email_refused_once:
  assumes "meets 1 = (net, mdb, now)" and "processEmailJob S net mdb j now s = (Inl (UnrecoverableError m), s1)"
  shows "snd (snd (work_job QUEUE_EMAIL DEFAULT_JOB_OPTIONS (email_processor S meets j) j s st))
    = recordDeadLetter QUEUE_EMAIL (job_at DEFAULT_JOB_OPTIONS j 1) m st"
proof -
  have "email_processor S meets j 1 s = (Failed_with m True, s1)"
    using assms by (simp add: email_processor_def attempt_of_def)
  from unrecoverable_once [where process = "email_processor S meets j", OF this] show ?thesis by simp
qed

lemma unknown_system_job_once:
  assumes "job_name j \<notin> {JOB_CLEANUP_EXPIRED_TOKENS, JOB_CLEANUP_OUTBOX, JOB_CLEANUP_DEAD_LETTER_JOBS}"
  shows "snd (snd (work_job QUEUE_SYSTEM DEFAULT_JOB_OPTIONS (system_processor E now_of j) j db st))
    = recordDeadLetter QUEUE_SYSTEM (job_at DEFAULT_JOB_OPTIONS j 1) (''Unknown job name: '' @ job_name j) st"
proof -
  have "system_processor E now_of j 1 db = (Failed_with (''Unknown job name: '' @ job_name j) True, db)"
    using assms by (simp add: system_processor_def processSystemJob_def)
  from unrecoverable_once [where process = "system_processor E now_of j", OF this] show ?thesis by simp
qed

section \<open>Every write is accounted for\<close>

lemma fold_remove1_filter:
  "list_all (\<lambda>x. \<not> P x) ys \<Longrightarrow> fold remove1 (filter P xs) (ys @ xs) = ys @ filter (\<lambda>x. \<not> P x) xs"
proof (induction xs arbitrary: ys)
  case (Cons x xs)
  show ?case
  proof (cases "P x")
    case True
    then have "remove1 x (ys @ x # xs) = ys @ xs"
      using Cons.prems by (auto simp: remove1_append list_all_iff)
    with True Cons.IH [OF Cons.prems] show ?thesis by simp
  next
    case False
    with Cons.prems Cons.IH [of "ys @ [x]"] show ?thesis by simp
  qed
qed simp

lemma settle_all_eq:
  "settle_all now ok ws st = st\<lparr>w_pending := fold remove1 ws (w_pending st),
     w_db := fold (write_row now) (filter ok ws) (w_db st),
     w_lost := w_lost st @ filter (\<lambda>w. \<not> ok w) ws\<rparr>"
  unfolding settle_all_def
  by (induction ws arbitrary: st) (simp_all add: settle_def Let_def)

lemma fold_remove1_self: "fold remove1 xs xs = []"
  using fold_remove1_filter [of "\<lambda>_. True" "[]" xs] by simp

text \<open>The drain leaves nothing pending; each write is in the table or logged.\<close>

lemma drain_eq:
  "drainDeadLetterWrites now ok st = st\<lparr>w_pending := [], w_db := fold (write_row now) (filter ok (w_pending st)) (w_db st),
     w_lost := w_lost st @ filter (\<lambda>w. \<not> ok w) (w_pending st)\<rparr>"
  by (simp add: drainDeadLetterWrites_def settle_all_eq fold_remove1_self)

text \<open>Failures arrive and writes settle in any order; the first argument lists the final failures, the
  second the writes inserted, each with the time of its row.\<close>

definition final_writes :: "string \<Rightarrow> failed_job option \<Rightarrow> string \<Rightarrow> bool \<Rightarrow> dl_write list" where
  "final_writes workerName job reason unrecoverable = (case job of
     None \<Rightarrow> []
   | Some j \<Rightarrow> if isFinalFailure j unrecoverable then [\<lparr>wr_worker = workerName, wr_job = j, wr_reason = reason\<rparr>] else [])"

inductive write_run :: "dl_write list \<Rightarrow> (time \<times> dl_write) list \<Rightarrow> writes \<Rightarrow> writes \<Rightarrow> bool" where
  start: "write_run [] [] st st"
| failed: "write_run fs rs st st1 \<Longrightarrow>
    write_run (fs @ final_writes workerName job reason unrecoverable) rs st (failed_event workerName job reason unrecoverable st1)"
| settled: "write_run fs rs st st1 \<Longrightarrow> w \<in> set (w_pending st1) \<Longrightarrow>
    write_run fs (if ok then rs @ [(now, w)] else rs) st (settle now ok w st1)"

lemma failed_event_eq:
  "failed_event workerName job reason unrecoverable st
     = st\<lparr>w_pending := w_pending st @ final_writes workerName job reason unrecoverable\<rparr>"
  by (auto simp: failed_event_def final_writes_def recordDeadLetter_def split: option.splits)

lemma write_run_accounted:
  "write_run fs rs st st' \<Longrightarrow>
     mset (map snd rs) + mset (w_lost st') + mset (w_pending st') = mset fs + mset (w_lost st) + mset (w_pending st)
     \<and> w_db st' = fold (\<lambda>(t, w). write_row t w) rs (w_db st)"
proof (induction rule: write_run.induct)
  case (failed fs rs st st1 workerName job reason unrecoverable)
  then show ?case by (simp add: failed_event_eq ac_simps)
next
  case (settled fs rs st st1 w ok now)
  have w: "mset (w_pending st1) = add_mset w (mset (remove1 w (w_pending st1)))" using settled.hyps(2) by simp
  note ih = settled.IH [unfolded w]
  show ?case
  proof (cases ok)
    case True
    with ih show ?thesis by (simp add: settle_def del: mset_remove1)
  next
    case False
    with ih show ?thesis by (simp add: settle_def del: mset_remove1)
  qed
qed simp

section \<open>The worker process\<close>

text \<open>The states of an ioredis connection. \<^verbatim>\<open>closeRedis\<close> waits for Redis only while it is ready.\<close>

datatype redis_status = redis_wait | redis_connecting | redis_connect | redis_ready | redis_reconnecting | redis_close | redis_end

definition closeRedis :: "bool \<Rightarrow> redis_status \<Rightarrow> bool \<times> redis_status" where
  "closeRedis quits status =
     (if status = redis_end then (True, status)
      else if status = redis_ready then (quits, if quits then redis_end else status)
      else (True, redis_end))"

text \<open>An attempt in progress, with what it will come to.\<close>

record active_job =
  aj_worker :: string
  aj_job :: failed_job
  aj_result :: attempt_result

text \<open>\<open>wp_cut\<close> notes what was still going on when the database connection was closed: pending writes, a
  relay pass, attempts.\<close>

record worker_process =
  wp_cron :: "(schedule \<times> bool) list"
  wp_relay :: relay_loop
  wp_healthTimer :: bool
  wp_workers :: "string list"
  wp_active :: "active_job list"
  wp_writes :: writes
  wp_queues :: "string list"
  wp_connected :: bool
  wp_redis :: redis_status
  wp_cut :: "(dl_write list \<times> nat option \<times> active_job list) option"

text \<open>What goes on and goes wrong while the process closes: the attempts that workers still open take and
  the attempts and writes that end while a step runs (or, under the empty name, after the last step),
  the inserts that fail, the tasks, workers and queues whose closing rejects, and the two connections.\<close>

record faults =
  flt_takes :: "string \<Rightarrow> active_job list"
  flt_ends :: "string \<Rightarrow> active_job \<Rightarrow> bool"
  flt_settles :: "string \<Rightarrow> dl_write \<Rightarrow> bool"
  flt_insert :: "dl_write \<Rightarrow> bool"
  flt_task :: "schedule \<Rightarrow> bool"
  flt_worker :: "string \<Rightarrow> bool"
  flt_queue :: "string \<Rightarrow> bool"
  flt_database :: bool
  flt_quit :: bool
  flt_now :: time

definition stop_scheduler :: "faults \<Rightarrow> worker_process \<Rightarrow> bool \<times> worker_process" where
  "stop_scheduler F w =
     (\<not> list_ex (\<lambda>(s, _). flt_task F s) (wp_cron w), w\<lparr>wp_cron := map (\<lambda>(s, on). (s, on \<and> flt_task F s)) (wp_cron w)\<rparr>)"

text \<open>A pass catches its own errors.\<close>

definition stopOutboxRelay :: "worker_process \<Rightarrow> bool \<times> worker_process" where
  "stopOutboxRelay w = (True, w\<lparr>wp_relay := pass_done (clear_timer (wp_relay w))\<rparr>)"

definition clear_health :: "worker_process \<Rightarrow> bool \<times> worker_process" where
  "clear_health w = (True, w\<lparr>wp_healthTimer := False\<rparr>)"

definition attempt_ends :: "active_job \<Rightarrow> writes \<Rightarrow> writes" where
  "attempt_ends a = (case aj_result a of
     Completed \<Rightarrow> id
   | Failed_with reason unrecoverable \<Rightarrow> failed_event (aj_worker a) (Some (aj_job a)) reason unrecoverable)"

text \<open>The process beside the steps: workers take jobs until they are closed, attempts end, writes settle.\<close>

definition meanwhile :: "faults \<Rightarrow> string \<Rightarrow> worker_process \<Rightarrow> worker_process" where
  "meanwhile F name w =
     (let running = wp_active w @ filter (\<lambda>a. aj_worker a \<in> set (wp_workers w)) (flt_takes F name);
          st = fold attempt_ends (filter (flt_ends F name) running) (wp_writes w)
      in w\<lparr>wp_active := filter (\<lambda>a. \<not> flt_ends F name a) running,
           wp_writes := settle_all (flt_now F) (\<lambda>u. \<not> flt_insert F u) (filter (flt_settles F name) (w_pending st)) st\<rparr>)"

text \<open>Closing a worker waits for its attempts; the step rejects as soon as one worker does, and then waits for
  nothing: attempts and their writes go on beside the steps that follow.\<close>

definition close_workers :: "faults \<Rightarrow> worker_process \<Rightarrow> bool \<times> worker_process" where
  "close_workers F w =
     (let ok = \<not> list_ex (flt_worker F) (wp_workers w)
      in (ok, w\<lparr>wp_workers := filter (flt_worker F) (wp_workers w),
               wp_active := (if ok then [] else wp_active w),
               wp_writes := (if ok then fold attempt_ends (wp_active w) (wp_writes w) else wp_writes w)\<rparr>))"

definition drain_writes :: "faults \<Rightarrow> worker_process \<Rightarrow> bool \<times> worker_process" where
  "drain_writes F w = (True, w\<lparr>wp_writes := drainDeadLetterWrites (flt_now F) (\<lambda>u. \<not> flt_insert F u) (wp_writes w)\<rparr>)"

definition close_queues :: "faults \<Rightarrow> worker_process \<Rightarrow> bool \<times> worker_process" where
  "close_queues F w = (\<not> list_ex (flt_queue F) (wp_queues w), w\<lparr>wp_queues := filter (flt_queue F) (wp_queues w)\<rparr>)"

definition disconnect :: "faults \<Rightarrow> worker_process \<Rightarrow> bool \<times> worker_process" where
  "disconnect F w = (\<not> flt_database F,
     w\<lparr>wp_connected := wp_connected w \<and> flt_database F,
       wp_cut := Some (w_pending (wp_writes w), rl_inFlight (wp_relay w), wp_active w)\<rparr>)"

definition quit_redis :: "faults \<Rightarrow> worker_process \<Rightarrow> bool \<times> worker_process" where
  "quit_redis F w = (case closeRedis (\<not> flt_quit F) (wp_redis w) of (ok, status) \<Rightarrow> (ok, w\<lparr>wp_redis := status\<rparr>))"

definition worker_steps :: "faults \<Rightarrow> worker_process shutdown_step list" where
  "worker_steps F =
     [(''scheduler'', stop_scheduler F), (''outbox relay'', stopOutboxRelay), (''health file'', clear_health),
      (''workers'', close_workers F), (''dead-letter writes'', drain_writes F), (''queues'', close_queues F),
      (''database'', disconnect F), (''redis'', quit_redis F)]"

definition WORKER_TIMEOUT_MS :: nat where "WORKER_TIMEOUT_MS = 30000"

lemma worker_steps_names: "map fst (worker_steps F) = WORKER_STEPS"
  by (simp add: worker_steps_def WORKER_STEPS_def)

text \<open>Start-up: the workers are running when the module is loaded; each problem of the mail configuration
  is logged and stops nothing.\<close>

definition start_worker :: "mail_config \<Rightarrow> database \<Rightarrow> string list \<times> worker_process" where
  "start_worker config db =
     (map (\<lambda>p. ''Mail configuration: '' @ p @ ''; email jobs will fail permanently'') (validateMailConfig config),
      \<lparr>wp_cron = map (\<lambda>s. (s, True)) SCHEDULES,
       wp_relay = startOutboxRelay \<lparr>rl_timer = False, rl_inFlight = None, rl_passes = 0\<rparr>,
       wp_healthTimer = True, wp_workers = [QUEUE_EMAIL, QUEUE_SYSTEM], wp_active = [],
       wp_writes = \<lparr>w_pending = [], w_db = db, w_lost = []\<rparr>, wp_queues = [QUEUE_EMAIL, QUEUE_SYSTEM],
       wp_connected = True, wp_redis = redis_connecting, wp_cut = None\<rparr>)"

section \<open>Shutdown loses nothing\<close>

definition final_of :: "active_job \<Rightarrow> dl_write list" where
  "final_of a = (case aj_result a of
     Completed \<Rightarrow> []
   | Failed_with reason unrecoverable \<Rightarrow> final_writes (aj_worker a) (Some (aj_job a)) reason unrecoverable)"

lemma attempts_end:
  "fold attempt_ends as st = st\<lparr>w_pending := w_pending st @ concat (map final_of as)\<rparr>"
  by (induction as arbitrary: st)
     (simp_all add: attempt_ends_def final_of_def failed_event_eq split: attempt_result.split)

lemma run_steps_world:
  "run_steps steps exit st = (e, st') \<Longrightarrow> sd_world st' = fold (\<lambda>(name, run) w. snd (run w)) steps (sd_world st)"
  by (induction steps exit st rule: run_steps.induct) (auto split: prod.splits)

lemma handle_events_world:
  assumes "handle_events steps (e # es) \<lparr>sd_running = None, sd_world = w, sd_done = []\<rparr> = (exits, st')"
  shows "sd_world st' = fold (\<lambda>(name, run) w. snd (run w)) steps w"
proof -
  let ?st = "\<lparr>sd_running = None, sd_world = w, sd_done = []\<rparr>"
  obtain x st1 where r: "run_steps steps (if is_fatal e then 1 else 0) ?st = (x, st1)" by fastforce
  have "st' = st1\<lparr>sd_running := Some x\<rparr>" using assms by (simp add: shutdown_def r handle_events_again)
  with run_steps_world [OF r] show ?thesis by simp
qed

lemma quit_redis_writes [simp]:
  "wp_writes (snd (quit_redis F w)) = wp_writes w" "wp_cut (snd (quit_redis F w)) = wp_cut w"
  by (simp_all add: quit_redis_def split: prod.splits)

lemma steps_world:
  "fold (\<lambda>(name, run) w. snd (run w)) (worker_steps F) w
    = snd (quit_redis F (snd (disconnect F (snd (close_queues F (snd (drain_writes F (snd (close_workers F
        (snd (clear_health (snd (stopOutboxRelay (snd (stop_scheduler F w)))))))))))))))"
  by (simp add: worker_steps_def)

lemmas step_defs = stop_scheduler_def stopOutboxRelay_def clear_health_def close_workers_def drain_writes_def
  close_queues_def disconnect_def pass_done_def clear_timer_def

lemma mset_filter_split: "mset (filter P xs @ filter (\<lambda>x. \<not> P x) xs) = mset xs"
  by (induction xs) auto

text \<open>The books of a stretch of the process: \<open>rs\<close> are the writes inserted in it, \<open>lost\<close> those whose insert failed,
  \<open>ended\<close> the attempts that ended and \<open>taken\<close> those that started.\<close>

definition books_kept :: "faults \<Rightarrow> worker_process \<Rightarrow> worker_process \<Rightarrow> (time \<times> dl_write) list \<Rightarrow> dl_write list
    \<Rightarrow> active_job list \<Rightarrow> active_job list \<Rightarrow> bool" where
  "books_kept F w w' rs lost ended taken =
     (w_db (wp_writes w') = fold (\<lambda>(t, u). write_row t u) rs (w_db (wp_writes w))
      \<and> w_lost (wp_writes w') = w_lost (wp_writes w) @ lost \<and> list_all (flt_insert F) lost
      \<and> list_all (\<lambda>a. \<exists>n. a \<in> set (flt_takes F n)) taken
      \<and> mset ended + mset (wp_active w') = mset (wp_active w) + mset taken
      \<and> mset (map snd rs) + mset lost + mset (w_pending (wp_writes w'))
          = mset (w_pending (wp_writes w)) + mset (concat (map final_of ended)))"

definition accounted :: "faults \<Rightarrow> worker_process \<Rightarrow> worker_process \<Rightarrow> bool" where
  "accounted F w w' = (\<exists>rs lost ended taken. books_kept F w w' rs lost ended taken)"

lemma accounted_trans:
  assumes "accounted F w1 w2" and "accounted F w2 w3"
  shows "accounted F w1 w3"
proof -
  obtain rs lost ended taken where a: "books_kept F w1 w2 rs lost ended taken" using assms(1) by (auto simp: accounted_def)
  obtain rs' lost' ended' taken' where b: "books_kept F w2 w3 rs' lost' ended' taken'" using assms(2) by (auto simp: accounted_def)
  from a b have "mset (ended @ ended') + mset (wp_active w3) = mset (wp_active w1) + mset (taken @ taken')"
    unfolding books_kept_def mset_append by (metis (no_types) add.assoc add.commute)
  moreover have "mset (map snd (rs @ rs')) + mset (lost @ lost') + mset (w_pending (wp_writes w3))
      = mset (w_pending (wp_writes w1)) + mset (concat (map final_of (ended @ ended')))"
  proof -
    have "mset (map snd (rs @ rs')) + mset (lost @ lost') + mset (w_pending (wp_writes w3))
        = mset (map snd rs) + mset lost + (mset (map snd rs') + mset lost' + mset (w_pending (wp_writes w3)))"
      by (simp only: map_append mset_append ac_simps)
    also have "\<dots> = (mset (map snd rs) + mset lost + mset (w_pending (wp_writes w2))) + mset (concat (map final_of ended'))"
      using b unfolding books_kept_def by (simp only: ac_simps)
    also have "\<dots> = mset (w_pending (wp_writes w1)) + mset (concat (map final_of (ended @ ended')))"
      using a unfolding books_kept_def by (simp only: map_append concat_append mset_append ac_simps)
    finally show ?thesis .
  qed
  ultimately have "books_kept F w1 w3 (rs @ rs') (lost @ lost') (ended @ ended') (taken @ taken')"
    using a b by (simp add: books_kept_def del: mset_map)
  then show ?thesis unfolding accounted_def by blast
qed

lemma accounted_same:
  "wp_writes w' = wp_writes w \<Longrightarrow> wp_active w' = wp_active w \<Longrightarrow> accounted F w w'"
  unfolding accounted_def books_kept_def
  by (rule exI [of _ "[]"], rule exI [of _ "[]"], rule exI [of _ "[]"], rule exI [of _ "[]"]) simp

lemma accounted_meanwhile: "accounted F w (meanwhile F name w)"
proof -
  define taken where "taken = filter (\<lambda>a. aj_worker a \<in> set (wp_workers w)) (flt_takes F name)"
  define running where "running = wp_active w @ taken"
  define ended where "ended = filter (flt_ends F name) running"
  define all where "all = w_pending (wp_writes w) @ concat (map final_of ended)"
  define now_done where "now_done = filter (flt_settles F name) all"
  have m: "meanwhile F name w = w\<lparr>wp_active := filter (\<lambda>a. \<not> flt_ends F name a) running,
      wp_writes := settle_all (flt_now F) (\<lambda>u. \<not> flt_insert F u) now_done ((wp_writes w)\<lparr>w_pending := all\<rparr>)\<rparr>"
    by (simp add: meanwhile_def attempts_end Let_def running_def taken_def ended_def all_def now_done_def)
  have left: "fold remove1 now_done all = filter (\<lambda>u. \<not> flt_settles F name u) all"
    using fold_remove1_filter [of "flt_settles F name" "[]" all] by (simp add: now_done_def)
  let ?rs = "map (Pair (flt_now F)) (filter (\<lambda>u. \<not> flt_insert F u) now_done)"
  let ?lost = "filter (flt_insert F) now_done"
  have "mset (map snd ?rs) + mset ?lost = mset now_done"
    using mset_filter_split [of "flt_insert F" now_done] by (simp add: comp_def ac_simps)
  moreover have "mset now_done + mset (filter (\<lambda>u. \<not> flt_settles F name u) all) = mset all"
    using mset_filter_split [of "flt_settles F name" all] by (simp add: now_done_def)
  ultimately have "mset (map snd ?rs) + mset ?lost + mset (w_pending (wp_writes (meanwhile F name w)))
      = mset (w_pending (wp_writes w)) + mset (concat (map final_of ended))"
  proof -
    assume a: "mset (map snd ?rs) + mset ?lost = mset now_done"
      and b: "mset now_done + mset (filter (\<lambda>u. \<not> flt_settles F name u) all) = mset all"
    have "w_pending (wp_writes (meanwhile F name w)) = filter (\<lambda>u. \<not> flt_settles F name u) all"
      by (simp add: m settle_all_eq left)
    with a b show ?thesis by (simp only: all_def mset_append)
  qed
  moreover have "mset ended + mset (wp_active (meanwhile F name w)) = mset (wp_active w) + mset taken"
    using mset_filter_split [of "flt_ends F name" running] by (simp add: m ended_def running_def ac_simps del: mset_filter)
  ultimately have "books_kept F w (meanwhile F name w) ?rs ?lost ended taken"
    by (auto simp: books_kept_def m settle_all_eq taken_def fold_map comp_def list_all_iff simp del: mset_map)
  then show ?thesis unfolding accounted_def by blast
qed

lemma accounted_close_workers: "accounted F w (snd (close_workers F w))"
proof (cases "list_ex (flt_worker F) (wp_workers w)")
  case True
  then show ?thesis by (intro accounted_same) (simp_all add: close_workers_def)
next
  case False
  then have "books_kept F w (snd (close_workers F w)) [] [] (wp_active w) []"
    by (simp add: books_kept_def close_workers_def attempts_end)
  then show ?thesis unfolding accounted_def by blast
qed

lemma accounted_drain: "accounted F w (snd (drain_writes F w))"
proof -
  let ?all = "w_pending (wp_writes w)"
  let ?rs = "map (Pair (flt_now F)) (filter (\<lambda>u. \<not> flt_insert F u) ?all)" and ?lost = "filter (flt_insert F) ?all"
  have "mset (map snd ?rs) + mset ?lost = mset ?all"
    using mset_filter_split [of "flt_insert F" ?all] by (simp add: comp_def ac_simps)
  then have "books_kept F w (snd (drain_writes F w)) ?rs ?lost [] []"
    by (simp add: books_kept_def drain_writes_def drain_eq fold_map comp_def list_all_iff del: mset_map)
  then show ?thesis unfolding accounted_def by blast
qed

lemma accounted_steps:
  assumes "(name, run) \<in> set (worker_steps F)"
  shows "accounted F w (snd (run w))"
proof -
  have "accounted F w (snd (stop_scheduler F w))" "accounted F w (snd (stopOutboxRelay w))"
      "accounted F w (snd (clear_health w))" "accounted F w (snd (close_queues F w))"
      "accounted F w (snd (disconnect F w))" "accounted F w (snd (quit_redis F w))"
    by (rule accounted_same; simp add: step_defs quit_redis_def split: prod.splits)+
  with assms show ?thesis
    by (auto simp: worker_steps_def intro: accounted_close_workers accounted_drain)
qed

text \<open>Once the workers are closed nothing starts or ends, and once the writes are drained nothing settles.\<close>

lemma meanwhile_closed:
  assumes "wp_workers w = []" and "wp_active w = []"
  shows "meanwhile F name w = w\<lparr>wp_writes := settle_all (flt_now F) (\<lambda>u. \<not> flt_insert F u)
    (filter (flt_settles F name) (w_pending (wp_writes w))) (wp_writes w)\<rparr>"
  using assms by (simp add: meanwhile_def Let_def)

definition at_rest :: "worker_process \<Rightarrow> bool" where
  "at_rest w = (wp_workers w = [] \<and> wp_active w = [] \<and> w_pending (wp_writes w) = [])"

lemma meanwhile_at_rest: "at_rest w \<Longrightarrow> meanwhile F name w = w"
  by (simp add: at_rest_def meanwhile_closed settle_all_def)

lemma meanwhile_frame [simp]:
  "wp_workers (meanwhile F name w) = wp_workers w" "wp_relay (meanwhile F name w) = wp_relay w"
  "wp_cut (meanwhile F name w) = wp_cut w"
  by (simp_all add: meanwhile_def Let_def)

lemma steps_to_database:
  assumes "\<not> list_ex (flt_worker F) (wp_workers w)"
  defines "w' \<equiv> fold (\<lambda>(name, run) w. meanwhile F name (snd (run w))) (take 7 (worker_steps F)) w"
  shows "at_rest w' \<and> wp_cut w' = Some ([], None, [])"
proof -
  define w1 where "w1 = meanwhile F ''health file'' (snd (clear_health (meanwhile F ''outbox relay'' (snd (stopOutboxRelay
      (meanwhile F ''scheduler'' (snd (stop_scheduler F w))))))))"
  define w2 where "w2 = meanwhile F ''workers'' (snd (close_workers F w1))"
  define w3 where "w3 = meanwhile F ''dead-letter writes'' (snd (drain_writes F w2))"
  have 1: "wp_workers w1 = wp_workers w" "rl_inFlight (wp_relay w1) = None"
    by (simp_all add: w1_def stop_scheduler_def stopOutboxRelay_def clear_health_def pass_done_def)
  have "filter (flt_worker F) (wp_workers w) = []" using assms(1) by (simp add: list_ex_iff filter_empty_conv)
  then have 2: "wp_workers w2 = []" "wp_active w2 = []" "wp_relay w2 = wp_relay w1"
    using assms(1) by (simp_all add: w2_def close_workers_def 1(1) meanwhile_def Let_def)
  have "at_rest (snd (drain_writes F w2))" using 2 by (simp add: at_rest_def drain_writes_def drain_eq)
  then have 3: "at_rest w3" "w3 = snd (drain_writes F w2)" by (simp_all add: w3_def meanwhile_at_rest)
  then have relay: "rl_inFlight (wp_relay w3) = None" using 1(2) 2(3) by (simp add: drain_writes_def)
  have 4: "at_rest (snd (close_queues F w3))" using 3(1) by (simp add: at_rest_def close_queues_def)
  have 5: "at_rest (snd (disconnect F (snd (close_queues F w3))))" using 4 by (simp add: at_rest_def disconnect_def)
  have "w' = snd (disconnect F (snd (close_queues F w3)))"
    using 4 5 by (simp add: w'_def worker_steps_def w1_def w2_def w3_def meanwhile_at_rest)
  moreover have "wp_cut (snd (disconnect F (snd (close_queues F w3)))) = Some ([], None, [])"
    using 3(1) relay by (simp add: disconnect_def close_queues_def at_rest_def)
  ultimately show ?thesis using 5 by simp
qed

lemma database_step_reached:
  assumes "''database'' \<in> set (take n WORKER_STEPS)"
  shows "7 \<le> length (take n WORKER_STEPS)"
proof (rule ccontr)
  assume "\<not> ?thesis"
  then have "n \<le> 6" by (simp add: WORKER_STEPS_def)
  from set_take_subset_set_take [OF this, of WORKER_STEPS] assms have "''database'' \<in> set (take 6 WORKER_STEPS)" by blast
  then show False by (simp add: WORKER_STEPS_def)
qed

text \<open>A shutdown of the worker process: what a run under the time limit leaves.\<close>

lemma shutdown_limited_run:
  assumes "shutdown_limited limit takes during leaks steps fatal w = (exit, st')"
  shows "\<exists>r st. run_limited limit takes during steps 0 (if fatal then 1 else 0)
      \<lparr>sd_running = None, sd_world = w, sd_done = []\<rparr> = (r, st) \<and> sd_world st' = sd_world st \<and> sd_done st' = sd_done st"
  using assms by (auto simp: shutdown_limited_def split: prod.splits option.splits if_splits)

lemma worker_shutdown_rest:
  assumes "run_limited limit takes (meanwhile F) (worker_steps F) 0 e \<lparr>sd_running = None, sd_world = w, sd_done = []\<rparr> = (r, st)"
    and "\<not> list_ex (flt_worker F) (wp_workers w)" and "''database'' \<in> set (sd_done st)"
  shows "at_rest (sd_world st) \<and> wp_cut (sd_world st) = Some ([], None, [])"
proof -
  have steps: "worker_steps F = take 7 (worker_steps F) @ [(''redis'', quit_redis F)]" by (simp add: worker_steps_def)
  have "7 \<le> length (sd_done st)"
    using run_limited_done [OF assms(1)] assms(3) database_step_reached by (auto simp: worker_steps_names)
  then obtain t1 e1 st1 where r: "run_limited limit takes (meanwhile F) [(''redis'', quit_redis F)] t1 e1 st1 = (r, st)"
      and w1: "sd_world st1 = fold (\<lambda>(name, run) w. meanwhile F name (snd (run w))) (take 7 (worker_steps F)) w"
    using run_limited_prefix [where pre = "take 7 (worker_steps F)" and post = "[(''redis'', quit_redis F)]", folded steps, OF assms(1)]
    by (auto simp: worker_steps_def)
  let ?R = "\<lambda>w w'. at_rest w \<longrightarrow> at_rest w' \<and> wp_cut w' = wp_cut w"
  have "?R (sd_world st1) (sd_world st)"
  proof (rule run_limited_keeps [where R = ?R, OF _ _ _ r])
    show "?R w (snd (run w))" if "(name, run) \<in> set [(''redis'', quit_redis F)]" for name run w
      using that by (simp add: at_rest_def quit_redis_def split: prod.splits)
  qed (simp_all add: meanwhile_at_rest)
  with steps_to_database [OF assms(2)] show ?thesis by (simp add: w1)
qed

definition demo_failed :: failed_job where
  "demo_failed = \<lparr>fj_name = JOB_OTP_CODE, fj_id = Some ''outbox-1'', fj_data = JNull, fj_attemptsMade = 3, fj_attempts = Some 3\<rparr>"

definition demo_faults :: faults where
  "demo_faults = \<lparr>flt_takes = \<lambda>_. [], flt_ends = \<lambda>_ _. False, flt_settles = \<lambda>_ _. False,
     flt_insert = \<lambda>_. False, flt_task = \<lambda>_. False, flt_worker = \<lambda>_. False, flt_queue = \<lambda>_. True, flt_database = False, flt_quit = True, flt_now = 7\<rparr>"

definition demo_mail_config :: mail_config where
  "demo_mail_config = \<lparr>MAIL_DRIVER = smtp, SMTP_HOST = None, SMTP_FROM = None, ZEPTOMAIL_KEY = None,
     ZEPTOMAIL_FROM_ADDRESS = None, ZEPTOMAIL_FROM_NAME = None, ZEPTOMAIL_API_URL = [], APP_NAME = []\<rparr>"

definition demo_worker :: worker_process where
  "demo_worker = (snd (start_worker demo_mail_config empty_db))
     \<lparr>wp_active := [\<lparr>aj_worker = QUEUE_EMAIL, aj_job = demo_failed, aj_result = Failed_with ''refused'' False\<rparr>]\<rparr>"

text \<open>C26. From the start of the worker process to its end no final failure is forgotten. After any failures
  and settled writes, in any order, let the process shut down while attempts are running, more jobs are
  taken, attempts end and writes settle at any step, inserts fail, tasks, workers, queues and
  connections refuse to close, and the time limit of 30 seconds may end the process at any step. Then
  every final failure, of before and of the attempts that ended meanwhile, is in the table, in the log,
  or cut off as a pending write; a write is logged only when its own insert fails; and an attempt that
  did not end is still an active job of its queue. If the steps together take less than the limit all
  of them run. If no worker refuses to close and the database step was reached, nothing was pending,
  running or in a relay pass when the database was disconnected, and nothing is cut off: every final
  failure is in the table or the log.\<close>

theorem worker_shutdown_loses_nothing:
  assumes "write_run fs rs (wp_writes (snd (start_worker config db))) (wp_writes w)"
    and "shutdown_limited WORKER_TIMEOUT_MS takes (meanwhile F) leaks (worker_steps F) fatal w = (exit, st')"
  shows "(\<exists>rs' lost ended taken.
      w_db (wp_writes (sd_world st')) = fold (\<lambda>(t, u). write_row t u) rs' db
      \<and> w_lost (wp_writes (sd_world st')) = w_lost (wp_writes w) @ lost \<and> list_all (flt_insert F) lost
      \<and> list_all (\<lambda>a. \<exists>n. a \<in> set (flt_takes F n)) taken
      \<and> mset ended + mset (wp_active (sd_world st')) = mset (wp_active w) + mset taken
      \<and> mset (map snd rs') + mset (w_lost (wp_writes (sd_world st'))) + mset (w_pending (wp_writes (sd_world st')))
          = mset fs + mset (concat (map final_of ended)))
    \<and> (steps_time (map takes WORKER_STEPS) = Some d \<and> d < WORKER_TIMEOUT_MS \<longrightarrow> sd_done st' = WORKER_STEPS)
    \<and> (\<not> list_ex (flt_worker F) (wp_workers w) \<and> ''database'' \<in> set (sd_done st') \<longrightarrow>
        wp_cut (sd_world st') = Some ([], None, []) \<and> wp_active (sd_world st') = []
        \<and> w_pending (wp_writes (sd_world st')) = [])"
proof -
  obtain r st where run: "run_limited WORKER_TIMEOUT_MS takes (meanwhile F) (worker_steps F) 0 (if fatal then 1 else 0)
        \<lparr>sd_running = None, sd_world = w, sd_done = []\<rparr> = (r, st)"
      and st: "sd_world st' = sd_world st" "sd_done st' = sd_done st"
    using shutdown_limited_run [OF assms(2)] by blast
  note keeps = run_limited_keeps [where R = "accounted F", OF _ _ _ run]
  have "accounted F w (sd_world st)"
    using keeps [OF _ accounted_meanwhile, simplified] accounted_steps accounted_trans by blast
  then obtain rs1 lost ended taken where b: "books_kept F w (sd_world st) rs1 lost ended taken"
    by (auto simp: accounted_def)
  then have logged: "w_lost (wp_writes (sd_world st)) = w_lost (wp_writes w) @ lost" by (simp add: books_kept_def)
  have before: "mset (map snd rs) + mset (w_lost (wp_writes w)) + mset (w_pending (wp_writes w)) = mset fs"
      and rows: "w_db (wp_writes w) = fold (\<lambda>(t, u). write_row t u) rs db"
    using write_run_accounted [OF assms(1)] by (simp_all add: start_worker_def)
  have "mset (map snd (rs @ rs1)) + mset (w_lost (wp_writes (sd_world st))) + mset (w_pending (wp_writes (sd_world st)))
      = (mset (map snd rs) + mset (w_lost (wp_writes w)))
        + (mset (map snd rs1) + mset lost + mset (w_pending (wp_writes (sd_world st))))"
    unfolding logged by (simp only: map_append mset_append ac_simps)
  also have "mset (map snd rs1) + mset lost + mset (w_pending (wp_writes (sd_world st)))
      = mset (w_pending (wp_writes w)) + mset (concat (map final_of ended))"
    using b unfolding books_kept_def by blast
  also have "(mset (map snd rs) + mset (w_lost (wp_writes w))) + (mset (w_pending (wp_writes w)) + mset (concat (map final_of ended)))
      = mset fs + mset (concat (map final_of ended))"
    unfolding before [symmetric] by (simp only: ac_simps)
  finally have counted: "mset (map snd (rs @ rs1)) + mset (w_lost (wp_writes (sd_world st)))
      + mset (w_pending (wp_writes (sd_world st))) = mset fs + mset (concat (map final_of ended))" .
  have "fold (\<lambda>(t, u). write_row t u) (rs @ rs1) db = w_db (wp_writes (sd_world st))"
    using b rows by (simp add: books_kept_def)
  then have "\<exists>rs' lost ended taken.
      w_db (wp_writes (sd_world st)) = fold (\<lambda>(t, u). write_row t u) rs' db
      \<and> w_lost (wp_writes (sd_world st)) = w_lost (wp_writes w) @ lost \<and> list_all (flt_insert F) lost
      \<and> list_all (\<lambda>a. \<exists>n. a \<in> set (flt_takes F n)) taken
      \<and> mset ended + mset (wp_active (sd_world st)) = mset (wp_active w) + mset taken
      \<and> mset (map snd rs') + mset (w_lost (wp_writes (sd_world st))) + mset (w_pending (wp_writes (sd_world st)))
          = mset fs + mset (concat (map final_of ended))"
    using b counted unfolding books_kept_def
    by (intro exI [of _ "rs @ rs1"] exI [of _ lost] exI [of _ ended] exI [of _ taken]) simp
  moreover have "sd_done st = WORKER_STEPS"
    if "steps_time (map takes WORKER_STEPS) = Some d \<and> d < WORKER_TIMEOUT_MS"
    using run_limited_done [OF run] that by (simp add: worker_steps_names)
  ultimately show ?thesis using worker_shutdown_rest [OF run] unfolding st at_rest_def by blast
qed

text \<open>A failure ends while a worker refuses to close: its write comes after the drain, and is still made.\<close>

theorem worker_shutdown_loses_nothing_witness:
  "\<exists>exit st' row. shutdown_limited WORKER_TIMEOUT_MS (\<lambda>_. Some 100) (meanwhile demo_faults) False (worker_steps demo_faults) False demo_worker
       = (exit, st')
     \<and> w_db (wp_writes (sd_world st')) = write_row row \<lparr>wr_worker = QUEUE_EMAIL, wr_job = demo_failed, wr_reason = ''refused''\<rparr> empty_db"
proof -
  obtain exit st' where h: "shutdown_limited WORKER_TIMEOUT_MS (\<lambda>_. Some 100) (meanwhile demo_faults) False
      (worker_steps demo_faults) False demo_worker = (exit, st')" by fastforce
  have w: "write_run [] [] (wp_writes (snd (start_worker demo_mail_config empty_db))) (wp_writes demo_worker)"
    by (simp add: demo_worker_def write_run.start)
  let ?u = "\<lparr>wr_worker = QUEUE_EMAIL, wr_job = demo_failed, wr_reason = ''refused''\<rparr>"
  have one: "concat (map final_of (wp_active demo_worker)) = [?u]"
    by (simp add: demo_worker_def final_of_def final_writes_def isFinalFailure_def demo_failed_def)
  have none: "w_lost (wp_writes demo_worker) = []" by (simp add: demo_worker_def start_worker_def)
  note main = worker_shutdown_loses_nothing [OF w h, of 800]
  have all: "sd_done st' = WORKER_STEPS" using main by (simp add: WORKER_STEPS_def WORKER_TIMEOUT_MS_def)
  have "\<not> list_ex (flt_worker demo_faults) (wp_workers demo_worker)" by (simp add: demo_faults_def list_ex_iff)
  with main all have rest: "wp_active (sd_world st') = []" "w_pending (wp_writes (sd_world st')) = []"
    by (simp_all add: WORKER_STEPS_def)
  from main obtain rs' lost ended taken where
      db: "w_db (wp_writes (sd_world st')) = fold (\<lambda>(t, u). write_row t u) rs' empty_db"
      and l: "w_lost (wp_writes (sd_world st')) = w_lost (wp_writes demo_worker) @ lost" "list_all (flt_insert demo_faults) lost"
      and t: "list_all (\<lambda>a. \<exists>n. a \<in> set (flt_takes demo_faults n)) taken"
      and a: "mset ended + mset (wp_active (sd_world st')) = mset (wp_active demo_worker) + mset taken"
      and c: "mset (map snd rs') + mset (w_lost (wp_writes (sd_world st'))) + mset (w_pending (wp_writes (sd_world st')))
        = mset [] + mset (concat (map final_of ended))" by blast
  from l(2) have "lost = []" by (cases lost) (simp_all add: demo_faults_def)
  moreover from t have "taken = []" by (cases taken) (simp_all add: demo_faults_def)
  moreover have "length (wp_active demo_worker) = 1" by (simp add: demo_worker_def)
  ultimately have "ended = wp_active demo_worker" using a rest by (simp add: demo_worker_def)
  with c l none rest one \<open>lost = []\<close> have "map snd rs' = [?u]" by (simp del: mset_map)
  then obtain t where "rs' = [(t, ?u)]" by auto
  with h db show ?thesis by auto
qed

text \<open>Everything that does not refuse to close is closed.\<close>

theorem worker_shutdown_closes:
  assumes "handle_events (worker_steps F) (e # es) \<lparr>sd_running = None, sd_world = w, sd_done = []\<rparr> = (exits, st')"
  shows "list_all (\<lambda>(s, on). on \<longrightarrow> flt_task F s) (wp_cron (sd_world st'))"
    and "\<not> rl_timer (wp_relay (sd_world st')) \<and> rl_inFlight (wp_relay (sd_world st')) = None"
    and "\<not> wp_healthTimer (sd_world st')"
    and "list_all (flt_worker F) (wp_workers (sd_world st')) \<and> list_all (flt_queue F) (wp_queues (sd_world st'))"
    and "wp_connected (sd_world st') \<longrightarrow> flt_database F"
    and "wp_redis (sd_world st') = redis_end \<or> wp_redis (sd_world st') = redis_ready \<and> flt_quit F"
  unfolding handle_events_world [OF assms] steps_world
  by (auto simp: step_defs quit_redis_def closeRedis_def Let_def list_all_iff split: prod.splits)

section \<open>The API process\<close>

record api_process =
  ap_listening :: bool
  ap_connected :: bool
  ap_redis :: redis_status

record api_faults =
  aflt_close :: bool
  aflt_database :: bool
  aflt_quit :: bool

text \<open>Closing a server that does not listen is an error.\<close>

definition closeServer :: "api_faults \<Rightarrow> api_process \<Rightarrow> bool \<times> api_process" where
  "closeServer F p = (if ap_listening p \<and> \<not> aflt_close F then (True, p\<lparr>ap_listening := False\<rparr>) else (False, p))"

definition api_steps :: "api_faults \<Rightarrow> api_process shutdown_step list" where
  "api_steps F =
     [(''http server'', closeServer F),
      (''database'', \<lambda>p. (\<not> aflt_database F, p\<lparr>ap_connected := ap_connected p \<and> aflt_database F\<rparr>)),
      (''redis'', \<lambda>p. case closeRedis (\<not> aflt_quit F) (ap_redis p) of (ok, status) \<Rightarrow> (ok, p\<lparr>ap_redis := status\<rparr>))]"

lemma api_steps_names: "map fst (api_steps F) = API_STEPS"
  by (simp add: api_steps_def API_STEPS_def)

text \<open>The listener starts, or fails and shuts the process down as after a fatal error.\<close>

definition start_api :: "api_faults \<Rightarrow> bool \<Rightarrow> redis_status \<Rightarrow> nat option \<times> api_process shutdown_state" where
  "start_api F listens status =
     (let st = \<lparr>sd_running = None, sd_world = \<lparr>ap_listening = listens, ap_connected = True, ap_redis = status\<rparr>, sd_done = []\<rparr>
      in if listens then (None, st)
         else (case shutdown (api_steps F) True st of (exit, st') \<Rightarrow> (Some exit, st')))"

lemma listen_failure_exits:
  assumes "start_api F False status = (exit, st)"
  shows "exit = Some 1 \<and> sd_done st = API_STEPS \<and> (ap_connected (sd_world st) \<longrightarrow> aflt_database F)
    \<and> (ap_redis (sd_world st) = redis_end \<or> status = redis_ready \<and> aflt_quit F)"
  using assms
  by (auto simp: start_api_def shutdown_def api_steps_def API_STEPS_def closeServer_def closeRedis_def Let_def
      split: prod.splits if_splits)

section \<open>Time limits\<close>

text \<open>A promise settles after some milliseconds with a result, or never. An operation that settles before
  the timer decides the race.\<close>

type_synonym 'a promise = "(nat \<times> (string + 'a)) option"

definition withTimeout :: "'a promise \<Rightarrow> nat \<Rightarrow> string \<Rightarrow> nat \<times> (string + 'a)" where
  "withTimeout operation timeoutMs message =
     (case operation of
        Some (t, r) \<Rightarrow> if t < timeoutMs then (t, r) else (timeoutMs, Inl message)
      | None \<Rightarrow> (timeoutMs, Inl message))"

lemma withTimeout_bounded: "fst (withTimeout operation timeoutMs message) \<le> timeoutMs"
  by (simp add: withTimeout_def split: option.split)

text \<open>One attempt of the relay to publish a row; the queue may still take the job after the time limit,
  since the operation is not cancelled.\<close>

definition publish_meets :: "unit promise \<Rightarrow> bool \<Rightarrow> publish_result" where
  "publish_meets operation reached =
     (case withTimeout operation PUBLISH_TIMEOUT_MS (''Publish timed out after '' @ show_nat PUBLISH_TIMEOUT_MS @ '' ms'') of
        (_, Inr _) \<Rightarrow> PubOk
      | (_, Inl reason) \<Rightarrow> PubErr reason reached)"

lemma publish_unreachable:
  "publish_meets None reached = PubErr (''Publish timed out after '' @ show_nat 5000 @ '' ms'') reached"
  by (simp add: publish_meets_def withTimeout_def PUBLISH_TIMEOUT_MS_def)

text \<open>When and with which code the process ends: after the last step once nothing keeps it alive (\<open>leaks\<close>
  says that something does), forced with 1 at the time limit otherwise. A step that never settles
  keeps the process alive.\<close>

definition process_end :: "nat \<Rightarrow> nat option list \<Rightarrow> bool \<Rightarrow> nat \<Rightarrow> nat \<times> nat" where
  "process_end timeoutMs durations leaks exit =
     (case steps_time durations of
        Some t \<Rightarrow> if t < timeoutMs \<and> \<not> leaks then (t, exit) else (timeoutMs, 1)
      | None \<Rightarrow> (timeoutMs, 1))"

definition API_TIMEOUT_MS :: nat where "API_TIMEOUT_MS = 15000"

lemma process_ends:
  assumes "process_end timeoutMs durations leaks exit = (t, code')"
  shows "t \<le> timeoutMs \<and> (code' = exit \<or> code' = 1) \<and> (list_all (\<lambda>d. d \<noteq> None) durations \<or> code' = 1)"
proof -
  have "list_all (\<lambda>d. d \<noteq> None) ds" if "steps_time ds = Some x" for ds x
    using that by (induction ds arbitrary: x) (auto split: option.splits)
  with assms show ?thesis by (auto simp: process_end_def split: option.splits if_splits)
qed

section \<open>The liveness file\<close>

text \<open>The content is the time of the last successful write; a failing write changes nothing.\<close>

definition touchHealthFile :: "bool \<Rightarrow> time \<Rightarrow> time option \<Rightarrow> time option" where
  "touchHealthFile writable now file = (if writable then Some now else file)"

definition health_at :: "time \<Rightarrow> time \<Rightarrow> time option" where
  "health_at started now = fold (\<lambda>k. touchHealthFile True (started + int k * 10000))
     [0..<Suc (nat ((now - started) div 10000))] None"

text \<open>The container is healthy while the file is younger than a minute; a running process keeps it so.\<close>

lemma health_file_fresh:
  assumes "started \<le> now"
  shows "\<exists>t. health_at started now = Some t \<and> t \<le> now \<and> now - t < 60000"
proof -
  have "(now - started) div 10000 * 10000 + (now - started) mod 10000 = now - started" by simp
  moreover have "0 \<le> (now - started) mod 10000" "(now - started) mod 10000 < 10000" by simp_all
  moreover have "int (nat ((now - started) div 10000)) = (now - started) div 10000"
    using assms by (simp add: pos_imp_zdiv_nonneg_iff)
  ultimately have "started + int (nat ((now - started) div 10000)) * 10000 \<le> now"
      "now - (started + int (nat ((now - started) div 10000)) * 10000) < 60000" by linarith+
  then show ?thesis by (simp add: health_at_def touchHealthFile_def)
qed

section \<open>Ticks of the schedules\<close>

text \<open>The jobs of a tick are added one after the other up to the first that Redis refuses; the tick
  handler logs that error and ends.\<close>

fun enqueue_jobs :: "(string \<Rightarrow> bool) \<Rightarrow> schedule \<Rightarrow> time \<Rightarrow> string list \<Rightarrow> system_queue \<Rightarrow> bool \<times> system_queue" where
  "enqueue_jobs up s at [] q = (True, q)"
| "enqueue_jobs up s at (name # names) q =
     (if up name then enqueue_jobs up s at names (system_add name (scheduledJobOptions name (sch_unit s) at) q)
      else (False, q))"

definition tick_handler :: "(string \<Rightarrow> bool) \<Rightarrow> schedule \<Rightarrow> time \<Rightarrow> system_queue \<Rightarrow> string list \<times> system_queue" where
  "tick_handler up s at q = (case enqueue_jobs up s at (sch_jobs s) q of
     (ok, q') \<Rightarrow> (if ok then [] else [''Failed to enqueue scheduled jobs''], q'))"

lemma enqueue_jobs_takes:
  "\<exists>n. enqueue_jobs up s at names q
     = (n = length names, fold (\<lambda>name. system_add name (scheduledJobOptions name (sch_unit s) at)) (take n names) q)
     \<and> n \<le> length names"
proof (induction names arbitrary: q)
  case (Cons name names)
  show ?case
  proof (cases "up name")
    case True
    from Cons.IH [of "system_add name (scheduledJobOptions name (sch_unit s) at) q"] obtain n where
      "enqueue_jobs up s at names (system_add name (scheduledJobOptions name (sch_unit s) at) q)
         = (n = length names, fold (\<lambda>name. system_add name (scheduledJobOptions name (sch_unit s) at)) (take n names)
             (system_add name (scheduledJobOptions name (sch_unit s) at) q))" "n \<le> length names" by blast
    with True show ?thesis by (intro exI [of _ "Suc n"]) simp
  next
    case False
    then show ?thesis by (intro exI [of _ 0]) simp
  qed
qed simp

text \<open>When every add succeeds the handler is the tick of the queue model.\<close>

lemma tick_handler_up: "tick_handler (\<lambda>_. True) s at q = ([], enqueueScheduled s at q)"
proof -
  have "enqueue_jobs (\<lambda>_. True) s at names q = (True, fold (\<lambda>name. system_add name (scheduledJobOptions name (sch_unit s) at)) names q)"
    for names by (induction names arbitrary: q) simp_all
  then show ?thesis by (simp add: tick_handler_def enqueueScheduled_def)
qed

lemma system_add_has: "has_job (jo_jobId opts) q \<Longrightarrow> system_add name opts q = q"
  by (simp add: system_add_def has_job_def)

lemma system_adds_has:
  "(\<And>n. n \<in> set names \<Longrightarrow> has_job (jo_jobId (opts n)) q) \<Longrightarrow> fold (\<lambda>n. system_add n (opts n)) names q = q"
proof (induction names)
  case (Cons n names)
  then have "system_add n (opts n) q = q" by (intro system_add_has) simp
  with Cons show ?case by simp
qed simp

text \<open>A tick within the slot of an earlier complete one adds nothing, and a complete tick after a broken one
  adds just what is missing.\<close>

lemma tick_again:
  assumes "t div slot_ms (sch_unit s) = u div slot_ms (sch_unit s)"
  shows "enqueueScheduled s u (enqueueScheduled s t q) = enqueueScheduled s t q"
proof -
  have "scheduledJobOptions n (sch_unit s) u = scheduledJobOptions n (sch_unit s) t" for n
    using slotKey_same [OF assms] by (simp add: scheduledJobOptions_def)
  then show ?thesis unfolding enqueueScheduled_def
    by (intro system_adds_has) (auto simp: has_job_adds)
qed

lemma tick_after_failure:
  assumes "t div slot_ms (sch_unit s) = u div slot_ms (sch_unit s)"
  shows "enqueueScheduled s u (snd (tick_handler up s t q)) = enqueueScheduled s t q"
proof -
  have o: "scheduledJobOptions n (sch_unit s) u = scheduledJobOptions n (sch_unit s) t" for n
    using slotKey_same [OF assms] by (simp add: scheduledJobOptions_def)
  let ?add = "\<lambda>name. system_add name (scheduledJobOptions name (sch_unit s) t)"
  obtain n where e: "enqueue_jobs up s t (sch_jobs s) q = (n = length (sch_jobs s), fold ?add (take n (sch_jobs s)) q)"
    using enqueue_jobs_takes by blast
  have split: "fold ?add (sch_jobs s) r = fold ?add (drop n (sch_jobs s)) (fold ?add (take n (sch_jobs s)) r)" for r
    using fold_append [of ?add "take n (sch_jobs s)" "drop n (sch_jobs s)"] by simp
  have "fold ?add (sch_jobs s) (fold ?add (take n (sch_jobs s)) q)
      = fold ?add (drop n (sch_jobs s)) (fold ?add (take n (sch_jobs s)) (fold ?add (take n (sch_jobs s)) q))"
    by (rule split)
  also have "fold ?add (take n (sch_jobs s)) (fold ?add (take n (sch_jobs s)) q) = fold ?add (take n (sch_jobs s)) q"
    by (intro system_adds_has) (auto simp: has_job_adds)
  also have "fold ?add (drop n (sch_jobs s)) (fold ?add (take n (sch_jobs s)) q) = fold ?add (sch_jobs s) q"
    by (rule split [symmetric])
  finally show ?thesis by (simp add: enqueueScheduled_def o tick_handler_def e)
qed

text \<open>The schedules fire by the local clock, the slots follow UTC: in London the midnights that begin the 30th
  and the 31st of March 2025 lie in one UTC day, and the second one adds nothing.\<close>

lemma spring_midnight_dropped:
  "enqueueScheduled (SCHEDULES ! 1) 1743375600000 (enqueueScheduled (SCHEDULES ! 1) 1743292800000 q)
     = enqueueScheduled (SCHEDULES ! 1) 1743292800000 q"
  by (rule tick_again) (simp add: SCHEDULES_def slot_ms_def)

section \<open>Workers and the sent marker\<close>

record worker_options =
  wo_queue :: string
  wo_concurrency :: nat
  wo_lockDuration :: "nat option"
  wo_stalledInterval :: "nat option"
  wo_maxStalledCount :: "nat option"

definition emailWorker :: worker_options where
  "emailWorker = \<lparr>wo_queue = QUEUE_EMAIL, wo_concurrency = 5, wo_lockDuration = Some 60000,
     wo_stalledInterval = Some 30000, wo_maxStalledCount = Some 1\<rparr>"

definition systemWorker :: worker_options where
  "systemWorker = \<lparr>wo_queue = QUEUE_SYSTEM, wo_concurrency = 10, wo_lockDuration = None,
     wo_stalledInterval = None, wo_maxStalledCount = None\<rparr>"

definition all_workers :: "worker_options list" where
  "all_workers = [emailWorker, systemWorker]"

lemma start_worker_consumes: "wp_workers (snd (start_worker config db)) = map wo_queue all_workers"
  by (simp add: start_worker_def all_workers_def emailWorker_def systemWorker_def)

text \<open>The marker of a sent email outlives the retries of its job. The relay may publish the row again after
  each failed attempt; that window stays within the life of the marker up to 32 attempts, and exceeds
  it at the 50 attempts the configuration allows.\<close>

lemma marker_outlives_retries:
  "sum_list (map (backoff DEFAULT_JOB_OPTIONS) [1..<djo_attempts DEFAULT_JOB_OPTIONS]) < SENT_MARKER_TTL_SECONDS * 1000"
  by (simp add: DEFAULT_JOB_OPTIONS_def backoff_def SENT_MARKER_TTL_SECONDS_def upt_rec [of "Suc 0"] numeral_2_eq_2 [symmetric])

definition republish_seconds :: "nat \<Rightarrow> nat" where
  "republish_seconds attempts = sum_list (map retryDelaySeconds [1..<attempts])"

lemma republish_mono: "m \<le> n \<Longrightarrow> republish_seconds m \<le> republish_seconds n"
proof (induction rule: dec_induct)
  case (step k)
  have "republish_seconds k \<le> republish_seconds (Suc k)" by (simp add: republish_seconds_def)
  with step.IH show ?case by simp
qed simp

lemma republish_within_marker: "attempts \<le> 32 \<Longrightarrow> republish_seconds attempts < SENT_MARKER_TTL_SECONDS"
proof -
  assume "attempts \<le> 32"
  moreover have "republish_seconds 32 < SENT_MARKER_TTL_SECONDS"
    by (simp add: republish_seconds_def retryDelaySeconds_def SENT_MARKER_TTL_SECONDS_def upt_rec [of "Suc 0"] numeral_2_eq_2 [symmetric])
  ultimately show ?thesis using republish_mono [of attempts 32] by simp
qed

lemma republish_beyond_marker: "SENT_MARKER_TTL_SECONDS < republish_seconds 50"
  by (simp add: republish_seconds_def retryDelaySeconds_def SENT_MARKER_TTL_SECONDS_def upt_rec [of "Suc 0"] numeral_2_eq_2 [symmetric])

end
