(* ===== verification/Pipeline.thy ===== *)
theory Pipeline
  imports Workers
begin

text \<open>
  The way of an email intent across the relay (\<^verbatim>\<open>src/jobs/relay/outbox-relay.ts\<close>), the email worker with
  its attempts (\<^verbatim>\<open>src/jobs/workers\<close>) and the dead-letter table: what a completed job did, and that an
  intent ends as an email or as a dead letter with all its content.
\<close>

section \<open>What a completed email job did\<close>

lemma run_attempts_completed:
  "run_attempts opts process made s = (run, s') \<Longrightarrow> jr_completed run \<Longrightarrow>
     \<exists>sk. process (jr_made run) sk = (Completed, s')"
proof (induction opts process made s arbitrary: run s' rule: run_attempts.induct)
  case (1 opts process made s)
  obtain r s1 where p: "process (Suc made) s = (r, s1)" by fastforce
  show ?case
  proof (cases r)
    case Completed
    with 1(2) p show ?thesis by (auto simp: run_attempts.simps [of opts process made])
  next
    case (Failed_with reason u)
    show ?thesis
    proof (cases "u \<or> djo_attempts opts \<le> Suc made")
      case True
      with 1(2,3) p Failed_with show ?thesis by (auto simp: run_attempts.simps [of opts process made] Let_def)
    next
      case False
      obtain run2 s2 where r2: "run_attempts opts process (Suc made) s1 = (run2, s2)" by fastforce
      have "jr_made run = jr_made run2" "jr_completed run = jr_completed run2" "s' = s2"
        using 1(2) p Failed_with False r2 by (auto simp: run_attempts.simps [of opts process made] Let_def)
      with 1(1) [OF p [symmetric] refl Failed_with refl False r2] 1(3) show ?thesis by simp
    qed
  qed
qed

definition skipped_or_sent :: "mail_settings \<Rightarrow> network \<times> database \<times> time \<Rightarrow> job \<Rightarrow> worker_state \<Rightarrow> worker_state \<Rightarrow> bool" where
  "skipped_or_sent S meets j st st' = (case meets of (net, mdb, now) \<Rightarrow>
     (st' = st \<and> (\<exists>v s. cache_get (marker (job_id j)) now (ws_redis st) = Inr (v, s) \<and> marked v))
     \<or> (\<exists>tv. mail_for S (job_name j) (job_data j) = Some tv \<and> ws_sent st' = ws_sent st @ [message_for S mdb (job_data j) tv]))"

lemma processEmailJob_done:
  assumes "processEmailJob S net mdb j now st = (Inr (), st')"
  shows "skipped_or_sent S (net, mdb, now) j st st'"
proof -
  obtain v s where g: "cache_get (marker (job_id j)) now (ws_redis st) = Inr (v, s)"
    using assms by (auto simp: processEmailJob_def split: sum.splits)
  show ?thesis
  proof (cases "marked v")
    case True
    with assms g show ?thesis by (auto simp: processEmailJob_def skipped_or_sent_def)
  next
    case False
    obtain r sent where d: "dispatch S net mdb (job_name j) (job_id j) (job_data j) (ws_sent st) = (r, sent)" by fastforce
    from assms g False d have r: "r = Inr ()" "ws_sent st' = sent"
      by (auto simp: processEmailJob_def split: sum.splits)
    then obtain tv where tv: "mail_for S (job_name j) (job_data j) = Some tv"
      using dispatch_None [of S "job_name j" "job_data j" net mdb "job_id j" "ws_sent st"] d
      by (cases "mail_for S (job_name j) (job_data j)") auto
    then have "sendMail (set_mail S) net (message_for S mdb (job_data j) tv) (ws_sent st) = (Inr (), sent)"
      using d r(1) by (simp add: dispatch_Some)
    from sendMail_Inr [OF this] r(2) tv show ?thesis by (auto simp: skipped_or_sent_def)
  qed
qed

section \<open>No intent is lost\<close>

text \<open>A dead letter that keeps an intent: it can be read, and re-driven, with all its content.\<close>

definition keeps_intent :: "claimed_row \<Rightarrow> dead_letter_job \<Rightarrow> bool" where
  "keeps_intent row d = (dl_queueName d = cr_queueName row \<and> dl_jobName d = cr_jobName row
     \<and> dl_jobId d = Some (outboxJobId (cr_id row)) \<and> dl_payload d = payload_or_empty (cr_payload row) \<and> dl_redrivenAt d = None)"

text \<open>A write whose insert failed: its intent is only in the log line and in the failed job that Redis keeps.\<close>

definition logged_intent :: "claimed_row \<Rightarrow> dl_write \<Rightarrow> bool" where
  "logged_intent row u = (wr_worker u = cr_queueName row \<and> fj_name (wr_job u) = cr_jobName row
     \<and> fj_id (wr_job u) = Some (outboxJobId (cr_id row)) \<and> fj_data (wr_job u) = cr_payload row)"

text \<open>How a worker's run of the job ended, once the writes have been drained.\<close>

definition email_job_outcome :: "mail_settings \<Rightarrow> (nat \<Rightarrow> network \<times> database \<times> time) \<Rightarrow> claimed_row \<Rightarrow> job \<Rightarrow> time
    \<Rightarrow> (dl_write \<Rightarrow> bool) \<Rightarrow> job_run \<times> worker_state \<times> writes \<Rightarrow> bool" where
  "email_job_outcome S meets row j t ok result = (case result of (run, s', st') \<Rightarrow>
     if jr_completed run then (\<exists>sk. skipped_or_sent S (meets (jr_made run)) j sk s')
     else (\<exists>u. logged_intent row u \<and> u \<in> set (w_pending st')
       \<and> (if ok u then \<exists>d \<in> set (dead_letter_jobs (w_db (drainDeadLetterWrites t ok st'))). keeps_intent row d
          else u \<in> set (w_lost (drainDeadLetterWrites t ok st')))))"

lemma write_row_keeps:
  assumes "job_name j = cr_jobName row" and "job_data j = cr_payload row" and "job_id j = outboxJobId (cr_id row)"
  shows "\<exists>d. dead_letter_jobs (write_row t \<lparr>wr_worker = cr_queueName row, wr_job = job_at opts j n, wr_reason = reason\<rparr> db)
      = dead_letter_jobs db @ [d] \<and> keeps_intent row d"
  using assms by (simp add: write_row_def dead_letter_record_def dead_letter_create_def job_at_def keeps_intent_def)

lemma write_row_grows: "set (dead_letter_jobs db) \<subseteq> set (dead_letter_jobs (write_row t u db))"
  by (auto simp: write_row_def dead_letter_record_def dead_letter_create_def)

lemma write_rows_grow: "set (dead_letter_jobs db) \<subseteq> set (dead_letter_jobs (fold (write_row t) us db))"
proof (induction us arbitrary: db)
  case (Cons u us)
  with write_row_grows [of db t u] show ?case by fastforce
qed simp

lemma logged_write_keeps:
  assumes "logged_intent row u"
  shows "\<exists>d \<in> set (dead_letter_jobs (write_row t u db)). keeps_intent row d"
  using assms by (auto simp: logged_intent_def write_row_def dead_letter_record_def dead_letter_create_def keeps_intent_def)

lemma drained_write:
  assumes "logged_intent row u" and "u \<in> set (w_pending st)"
  shows "if ok u then \<exists>d \<in> set (dead_letter_jobs (w_db (drainDeadLetterWrites t ok st))). keeps_intent row d
    else u \<in> set (w_lost (drainDeadLetterWrites t ok st))"
proof (cases "ok u")
  case True
  with assms(2) have "u \<in> set (filter ok (w_pending st))" by simp
  then obtain us vs where "filter ok (w_pending st) = us @ u # vs" using split_list by metis
  then have "w_db (drainDeadLetterWrites t ok st) = fold (write_row t) vs (write_row t u (fold (write_row t) us (w_db st)))"
    by (simp add: drain_eq)
  with logged_write_keeps [OF assms(1)] write_rows_grow True show ?thesis by fastforce
next
  case False
  with assms(2) show ?thesis by (simp add: drain_eq)
qed

lemma work_email_job_kept:
  assumes "job_name j = cr_jobName row" and "job_data j = cr_payload row" and "job_id j = outboxJobId (cr_id row)"
    and "cr_queueName row = QUEUE_EMAIL"
  shows "email_job_outcome S meets row j t ok (work_job QUEUE_EMAIL DEFAULT_JOB_OPTIONS (email_processor S meets j) j s st)"
proof -
  obtain run s' where r: "run_attempts DEFAULT_JOB_OPTIONS (email_processor S meets j) 0 s = (run, s')" by fastforce
  obtain st' where w: "work_job QUEUE_EMAIL DEFAULT_JOB_OPTIONS (email_processor S meets j) j s st = (run, s', st')"
    by (simp add: work_job_def r)
  show ?thesis
  proof (cases "jr_completed run")
    case True
    with run_attempts_completed [OF r] obtain sk where c: "email_processor S meets j (jr_made run) sk = (Completed, s')"
      by blast
    obtain net mdb now where m: "meets (jr_made run) = (net, mdb, now)" by (cases "meets (jr_made run)") auto
    obtain res st1 where p: "processEmailJob S net mdb j now sk = (res, st1)" by fastforce
    from c m p have "attempt_of res = Completed" "st1 = s'" by (simp_all add: email_processor_def)
    then have "processEmailJob S net mdb j now sk = (Inr (), s')"
      using p by (cases res) (auto simp: attempt_of_def split: job_error.splits)
    from processEmailJob_done [OF this] m True show ?thesis unfolding w by (auto simp: email_job_outcome_def)
  next
    case False
    let ?u = "\<lparr>wr_worker = cr_queueName row, wr_job = job_at DEFAULT_JOB_OPTIONS j (jr_made run),
        wr_reason = jf_reason (last (jr_failures run))\<rparr>"
    from False have "st' = recordDeadLetter QUEUE_EMAIL (job_at DEFAULT_JOB_OPTIONS j (jr_made run)) (jf_reason (last (jr_failures run))) st"
      using run_attempts_events [OF r, of QUEUE_EMAIL j st] w by (simp add: work_job_def r)
    then have u: "?u \<in> set (w_pending st')" by (simp add: recordDeadLetter_def assms(4))
    have "logged_intent row ?u" using assms(1-3) by (simp add: logged_intent_def job_at_def)
    with u drained_write [OF this u] False show ?thesis unfolding w email_job_outcome_def by auto
  qed
qed

lemma processRow_ends:
  assumes "processRow E pub now row (db, b) = (outcome, (db', b'))" and "outcome = Published \<or> outcome = Failed"
  shows "(\<exists>d. dead_letter_jobs db' = dead_letter_jobs db @ [d] \<and> keeps_intent row d)
    \<or> b' = queue_add (cr_queueName row) (cr_jobName row) (cr_payload row) (outboxJobId (cr_id row)) b"
proof -
  have failed: "\<exists>d. dead_letter_jobs (snd (markFailed row reason attempts now db)) = dead_letter_jobs db @ [d] \<and> keeps_intent row d"
    if "fst (markFailed row reason attempts now db)" for reason attempts
    using that by (auto simp: markFailed_def dead_letter_create_def keeps_intent_def split: if_splits)
  show ?thesis
    using assms failed
    by (auto simp: processRow_def publish_def Let_def case_prod_beta split: if_splits publish_result.splits)
qed

text \<open>C19. What becomes of an email intent between the outbox and the mailbox. When the relay is done with its
  row, either the row left a dead letter with the whole intent, or its job is queued. When a worker has
  worked on the job, whatever each attempt met and whichever dead-letter inserts fail, there are three
  ends: the run completed, with the email of the job sent or found already sent; it failed, and after
  the drain a dead letter keeps the whole intent; or it failed and the insert of its own dead letter
  failed too, and then the write is among the logged ones. That failed insert is the only way in which
  neither an email nor a dead letter comes of the intent; the job itself is still a failed job in Redis.\<close>

theorem intent_kept:
  assumes "processRow E pub now row (db, b) = (outcome, (db', b'))" and "outcome = Published \<or> outcome = Failed"
    and "cr_queueName row = QUEUE_EMAIL"
    and "\<And>j. j \<in> set b \<Longrightarrow> job_id j = outboxJobId (cr_id row) \<Longrightarrow> job_name j = cr_jobName row \<and> job_data j = cr_payload row"
  shows "(\<exists>d. dead_letter_jobs db' = dead_letter_jobs db @ [d] \<and> keeps_intent row d)
    \<or> (\<exists>j \<in> set b'. job_id j = outboxJobId (cr_id row)
        \<and> (case work_job QUEUE_EMAIL DEFAULT_JOB_OPTIONS (email_processor S meets j) j s st of (run, s', st') \<Rightarrow>
             if jr_completed run then (\<exists>sk. skipped_or_sent S (meets (jr_made run)) j sk s')
             else (\<exists>u \<in> set (w_pending st'). logged_intent row u
               \<and> (if ok u then \<exists>d \<in> set (dead_letter_jobs (w_db (drainDeadLetterWrites t ok st'))). keeps_intent row d
                  else u \<in> set (w_lost (drainDeadLetterWrites t ok st'))))))"
  using processRow_ends [OF assms(1,2)]
proof
  assume b': "b' = queue_add (cr_queueName row) (cr_jobName row) (cr_payload row) (outboxJobId (cr_id row)) b"
  then have "outboxJobId (cr_id row) \<in> job_id ` set b'" by (simp add: queue_add_ids)
  then obtain j where j: "j \<in> set b'" "job_id j = outboxJobId (cr_id row)" by force
  then have c: "job_name j = cr_jobName row" "job_data j = cr_payload row"
    using b' assms(4) by (auto simp: queue_add_def split: if_splits)
  note kept = work_email_job_kept [OF c j(2) assms(3), of S meets t ok s st, unfolded email_job_outcome_def]
  from j kept show ?thesis by (intro disjI2 bexI [of _ j] conjI) (auto split: prod.splits if_splits)
qed blast

definition demo_claimed :: claimed_row where
  "demo_claimed = \<lparr>cr_id = 1, cr_queueName = QUEUE_EMAIL, cr_jobName = JOB_OTP_CODE, cr_payload = JObj [], cr_attempts = 0\<rparr>"

text \<open>A job that no template knows, and a database that refuses the insert.\<close>

definition demo_unknown :: claimed_row where
  "demo_unknown = demo_claimed\<lparr>cr_jobName := ''unknown''\<rparr>"

theorem intent_kept_witness:
  "\<exists>db' b'. processRow default_env (\<lambda>_. PubOk) 10 demo_unknown (demo_relay_db, []) = (Published, (db', b'))
    \<and> (\<exists>j \<in> set b'. job_id j = outboxJobId 1
        \<and> (case work_job QUEUE_EMAIL DEFAULT_JOB_OPTIONS (email_processor demo_settings (\<lambda>_. (demo_net, empty_db, 0)) j) j
              \<lparr>ws_redis = empty_redis, ws_sent = []\<rparr> \<lparr>w_pending = [], w_db = empty_db, w_lost = []\<rparr> of (run, s', st') \<Rightarrow>
             if jr_completed run then (\<exists>sk. skipped_or_sent demo_settings (demo_net, empty_db, 0) j sk s')
             else (\<exists>u \<in> set (w_pending st'). logged_intent demo_unknown u
               \<and> u \<in> set (w_lost (drainDeadLetterWrites 20 (\<lambda>_. False) st')))))"
proof -
  obtain outcome db' b' where p: "processRow default_env (\<lambda>_. PubOk) 10 demo_unknown (demo_relay_db, []) = (outcome, (db', b'))"
    by (metis prod.exhaust)
  then have o: "outcome = Published" and d: "dead_letter_jobs db' = []"
    by (auto simp: processRow_def demo_unknown_def demo_claimed_def demo_relay_db_def publish_def routable_def markPublished_def
        enqueue_def outbox_create_def empty_db_def pending_id_def Let_def QUEUE_EMAIL_def split: if_splits)
  have q: "cr_queueName demo_unknown = QUEUE_EMAIL" "cr_id demo_unknown = 1" by (simp_all add: demo_unknown_def demo_claimed_def)
  have "\<not> (\<exists>x. dead_letter_jobs db' = dead_letter_jobs demo_relay_db @ [x] \<and> keeps_intent demo_unknown x)" using d by simp
  with intent_kept [where S = demo_settings and meets = "\<lambda>_. (demo_net, empty_db, 0)" and ok = "\<lambda>_. False"
      and s = "\<lparr>ws_redis = empty_redis, ws_sent = []\<rparr>" and st = "\<lparr>w_pending = [], w_db = empty_db, w_lost = []\<rparr>" and t = 20,
      OF p _ q(1)] o
  have "\<exists>j \<in> set b'. job_id j = outboxJobId (cr_id demo_unknown)
        \<and> (case work_job QUEUE_EMAIL DEFAULT_JOB_OPTIONS (email_processor demo_settings (\<lambda>_. (demo_net, empty_db, 0)) j) j
              \<lparr>ws_redis = empty_redis, ws_sent = []\<rparr> \<lparr>w_pending = [], w_db = empty_db, w_lost = []\<rparr> of (run, s', st') \<Rightarrow>
             if jr_completed run then (\<exists>sk. skipped_or_sent demo_settings (demo_net, empty_db, 0) j sk s')
             else (\<exists>u \<in> set (w_pending st'). logged_intent demo_unknown u
               \<and> u \<in> set (w_lost (drainDeadLetterWrites 20 (\<lambda>_. False) st'))))"
    unfolding if_False list.set(1) by blast
  then show ?thesis using p o q(2) by auto
qed

end
