(* ===== verification/Logging.thy ===== *)
theory Logging
  imports Encoding
begin

text \<open>
  Request logging and the logger: the morgan middleware with its skip predicates
  (\<^verbatim>\<open>src/middleware/http-log.middleware.ts\<close>), the line it writes (\<^verbatim>\<open>src/config/log.ts\<close>) and where an
  entry of the logger goes (\<^verbatim>\<open>src/config/logger.ts\<close>). Winston hands an entry to every transport whose
  level is not below it, as documented; the shape of an entry (JSON, plain) is left out.
\<close>

section \<open>The request line\<close>

text \<open>No code sets \<^verbatim>\<open>DeviceType\<close>; a token without a value is a dash.\<close>

record request_log =
  rql_now :: time
  rql_remoteAddr :: "string option"
  rql_device :: "string option"
  rql_method :: string
  rql_url :: string
  rql_status :: nat
  rql_time :: "string option"

definition request_time :: "time \<Rightarrow> string" where
  "request_time now = show_int now @ '' - '' @ toISOString now"

definition request_device :: "string option \<Rightarrow> string" where
  "request_device device = (case device of Some d \<Rightarrow> if d = [] then ''Unknown Device'' else d | None \<Rightarrow> ''Unknown Device'')"

definition dash :: "string option \<Rightarrow> string" where
  "dash v = (case v of Some s \<Rightarrow> s | None \<Rightarrow> ''-'')"

definition logFormat :: "request_log \<Rightarrow> string" where
  "logFormat r = request_time (rql_now r) @ '' '' @ dash (rql_remoteAddr r) @ '' '' @ request_device (rql_device r)
     @ '' '' @ [CHR 0x22] @ rql_method r @ '' '' @ rql_url r @ [CHR 0x22] @ '' '' @ show_nat (rql_status r)
     @ '' '' @ dash (rql_time r) @ '' ms''"

section \<open>The middleware\<close>

datatype log_level = Error | Warn | Info

record http_log_options =
  hlo_enabled :: bool
  hlo_logSuccess :: bool

text \<open>A handler: what it skips, and the level of its entries.\<close>

record http_log_handler =
  hlh_skip :: "request_log \<Rightarrow> bool"
  hlh_level :: log_level

definition isApiRequest :: "request_log \<Rightarrow> bool" where
  "isApiRequest r = str_includes (rql_url r) ''api/v1''"

definition createHttpLogMiddleware :: "http_log_options \<Rightarrow> http_log_handler list" where
  "createHttpLogMiddleware opts =
     (if \<not> hlo_enabled opts then []
      else (if hlo_logSuccess opts
            then [\<lparr>hlh_skip = \<lambda>r. \<not> isApiRequest r \<or> 400 \<le> rql_status r, hlh_level = Info\<rparr>] else [])
           @ [\<lparr>hlh_skip = \<lambda>r. \<not> isApiRequest r \<or> rql_status r < 400, hlh_level = Warn\<rparr>])"

text \<open>The application turns it on with \<^verbatim>\<open>ENABLELOG\<close> and logs successes in development only.\<close>

definition app_log_options :: "bool \<Rightarrow> string \<Rightarrow> http_log_options" where
  "app_log_options ENABLELOG NODE_ENV = \<lparr>hlo_enabled = ENABLELOG, hlo_logSuccess = NODE_ENV = ''development''\<rparr>"

text \<open>The entries of an answered request.\<close>

definition http_log :: "http_log_options \<Rightarrow> request_log \<Rightarrow> (log_level \<times> string) list" where
  "http_log opts r = map (\<lambda>h. (hlh_level h, trim (logFormat r))) (filter (\<lambda>h. \<not> hlh_skip h r) (createHttpLogMiddleware opts))"

section \<open>The logger\<close>

datatype transport_kind = Console | File string

record transport =
  tp_kind :: transport_kind
  tp_level :: "log_level option"
  tp_silent :: bool

fun log_rank :: "log_level \<Rightarrow> nat" where
  "log_rank Error = 0"
| "log_rank Warn = 1"
| "log_rank Info = 2"

definition logger_transports :: "string \<Rightarrow> bool \<Rightarrow> string \<Rightarrow> transport list" where
  "logger_transports NODE_ENV LOG_TO_FILES logDir =
     (let isTest = (NODE_ENV = ''test'') in
      \<lparr>tp_kind = Console, tp_level = None, tp_silent = isTest\<rparr>
      # (if LOG_TO_FILES \<and> \<not> isTest
         then [\<lparr>tp_kind = File (logDir @ ''/error.log''), tp_level = Some Error, tp_silent = False\<rparr>,
               \<lparr>tp_kind = File (logDir @ ''/combined.log''), tp_level = None, tp_silent = False\<rparr>] else []))"

text \<open>A transport without a level has that of the logger, \<^verbatim>\<open>info\<close>.\<close>

definition log_to :: "string \<Rightarrow> bool \<Rightarrow> string \<Rightarrow> log_level \<Rightarrow> transport_kind list" where
  "log_to NODE_ENV LOG_TO_FILES logDir level =
     map tp_kind (filter (\<lambda>t. \<not> tp_silent t \<and> log_rank level \<le> log_rank (case tp_level t of Some l \<Rightarrow> l | None \<Rightarrow> Info))
       (logger_transports NODE_ENV LOG_TO_FILES logDir))"

section \<open>What is logged\<close>

text \<open>A request is logged at most once: refusals and errors as warnings, successes only when asked for.\<close>

lemma http_log_once:
  "http_log opts r =
     (if hlo_enabled opts \<and> isApiRequest r \<and> (400 \<le> rql_status r \<or> hlo_logSuccess opts)
      then [(if 400 \<le> rql_status r then Warn else Info, trim (logFormat r))] else [])"
  by (simp add: http_log_def createHttpLogMiddleware_def)

lemma app_logs_failures:
  "400 \<le> rql_status r \<Longrightarrow> isApiRequest r \<Longrightarrow>
     http_log (app_log_options True NODE_ENV) r = [(Warn, trim (logFormat r))]"
  "rql_status r < 400 \<Longrightarrow> NODE_ENV \<noteq> ''development'' \<Longrightarrow> http_log (app_log_options enabled NODE_ENV) r = []"
  by (simp_all add: http_log_once app_log_options_def)

text \<open>Tests log nothing; otherwise the console has every entry, and of the two files the second has every
  entry and the first just the errors.\<close>

lemma log_to_eq:
  "log_to NODE_ENV LOG_TO_FILES logDir level =
     (if NODE_ENV = ''test'' then []
      else [Console] @ (if LOG_TO_FILES
        then (if level = Error then [File (logDir @ ''/error.log'')] else []) @ [File (logDir @ ''/combined.log'')] else []))"
  by (cases level) (simp_all add: log_to_def logger_transports_def Let_def)

end
