(* ===== verification/Template_Html.thy ===== *)
theory Template_Html
  imports Email_Template
begin

text \<open>
  The HTML policy of the template editor (\<^verbatim>\<open>src/modules/email-template/email-template.sanitizer.ts\<close>): the
  whitelist and the rule for attribute values handed to js-xss. The library is a parameter: its
  default whitelist, its rule for attribute values and the filter it builds from the options.
\<close>

section \<open>The policy\<close>

type_synonym white_list = "(string \<times> string list) list"

record xss_library =
  xl_defaults :: white_list
  xl_safeAttrValue :: "string \<Rightarrow> string \<Rightarrow> string \<Rightarrow> string"

text \<open>\<^verbatim>\<open>FilterXSS\<close> takes these options; \<^verbatim>\<open>css\<close> is off.\<close>

record xss_options =
  xo_whiteList :: white_list
  xo_css :: bool
  xo_stripIgnoreTag :: bool
  xo_stripIgnoreTagBody :: "string list"
  xo_safeAttrValue :: "string \<Rightarrow> string \<Rightarrow> string \<Rightarrow> string"

text \<open>\<^verbatim>\<open>[...new Set([...xs, ...ys])]\<close>.\<close>

definition set_union :: "string list \<Rightarrow> string list \<Rightarrow> string list" where
  "set_union xs ys = rev (remdups (rev (xs @ ys)))"

definition with_style :: "white_list \<Rightarrow> white_list" where
  "with_style wl = map (\<lambda>(tag, attrs). (tag, set_union attrs [''style''])) wl"

text \<open>Assigning to \<^verbatim>\<open>whiteList.table\<close> replaces the entry or appends one.\<close>

definition TABLE_ATTRS :: "string list" where
  "TABLE_ATTRS = [''cellpadding'', ''cellspacing'', ''role'']"

definition whiteList :: "white_list \<Rightarrow> white_list" where
  "whiteList defaults =
     (let wl = with_style defaults;
          attrs = set_union (case map_of wl ''table'' of Some as \<Rightarrow> as | None \<Rightarrow> []) TABLE_ATTRS
      in if ''table'' \<in> fst ` set wl
         then map (\<lambda>(tag, as). (tag, if tag = ''table'' then attrs else as)) wl
         else wl @ [(''table'', attrs)])"

definition PLACEHOLDER_ONLY :: "string \<Rightarrow> bool" where
  "PLACEHOLDER_ONLY value = (case match_placeholder value of Some (_, _, rest) \<Rightarrow> rest = [] | None \<Rightarrow> False)"

definition template_safeAttrValue :: "xss_library \<Rightarrow> string \<Rightarrow> string \<Rightarrow> string \<Rightarrow> string" where
  "template_safeAttrValue L tag name value =
     (if (name = ''href'' \<or> name = ''src'') \<and> PLACEHOLDER_ONLY (trim value) then trim value
      else xl_safeAttrValue L tag name value)"

definition template_xss_options :: "xss_library \<Rightarrow> xss_options" where
  "template_xss_options L = \<lparr>xo_whiteList = whiteList (xl_defaults L), xo_css = False, xo_stripIgnoreTag = True,
     xo_stripIgnoreTagBody = [''script'', ''style''], xo_safeAttrValue = template_safeAttrValue L\<rparr>"

definition sanitizeTemplateHtml :: "(xss_options \<Rightarrow> string \<Rightarrow> string) \<Rightarrow> xss_library \<Rightarrow> string \<Rightarrow> string" where
  "sanitizeTemplateHtml filter_xss L html = filter_xss (template_xss_options L) html"

section \<open>What the policy allows\<close>

lemma set_set_union [simp]: "set (set_union xs ys) = set xs \<union> set ys"
  by (auto simp: set_union_def)

lemma distinct_set_union [simp]: "distinct (set_union xs ys)"
  by (simp add: set_union_def)

lemma map_of_with_style: "map_of (with_style wl) tag = map_option (\<lambda>as. set_union as [''style'']) (map_of wl tag)"
  by (induction wl) (auto simp: with_style_def)

definition allowed :: "white_list \<Rightarrow> string \<Rightarrow> string set" where
  "allowed wl tag = (case map_of wl tag of Some as \<Rightarrow> set as | None \<Rightarrow> {})"

lemma map_of_replace:
  "map_of (map (\<lambda>(tag, as). (tag, if tag = k then bs else as)) wl) tag
     = (if tag = k then map_option (\<lambda>_. bs) (map_of wl tag) else map_of wl tag)"
  by (induction wl) auto

lemma whiteList_map_of:
  "map_of (whiteList defaults) tag =
     (if tag = ''table''
      then Some (set_union (case map_of (with_style defaults) ''table'' of Some as \<Rightarrow> as | None \<Rightarrow> []) TABLE_ATTRS)
      else map_of (with_style defaults) tag)"
proof (cases "map_of (with_style defaults) ''table''")
  case None
  then have "''table'' \<notin> fst ` set (with_style defaults)" by (simp add: map_of_eq_None_iff)
  with None show ?thesis by (auto simp: whiteList_def Let_def map_add_def split: option.splits)
next
  case (Some as)
  then have "''table'' \<in> fst ` set (with_style defaults)" by (metis map_of_eq_None_iff option.distinct(1))
  with Some show ?thesis by (simp add: whiteList_def Let_def map_of_replace)
qed

text \<open>The policy adds no tag other than \<open>table\<close>, and no attribute other than \<open>style\<close> and three of a table; so a tag or
  an event handler the library refuses stays refused.\<close>

lemma whiteList_bounded:
  "allowed (whiteList defaults) tag \<subseteq> allowed defaults tag \<union> {''style''} \<union> (if tag = ''table'' then set TABLE_ATTRS else {})"
  by (auto simp: allowed_def whiteList_map_of map_of_with_style split: option.splits)

lemma whiteList_tags:
  "map_of (whiteList defaults) tag = None \<longleftrightarrow> tag \<noteq> ''table'' \<and> map_of defaults tag = None"
  by (auto simp: whiteList_map_of map_of_with_style)

lemma whiteList_keeps: "allowed defaults tag \<subseteq> allowed (whiteList defaults) tag"
  by (auto simp: allowed_def whiteList_map_of map_of_with_style split: option.splits)

text \<open>A link survives unchecked only as a single placeholder, which carries no scheme of its own.\<close>

lemma PLACEHOLDER_ONLY_shape:
  assumes "PLACEHOLDER_ONLY value"
  shows "\<exists>a n b. value = ''{{'' @ a @ n @ b @ ''}}'' \<and> list_all is_space (a @ b) \<and> n \<noteq> [] \<and> list_all is_word n"
proof -
  let ?t = "dropWhile is_space (drop 2 value)"
  let ?n = "takeWhile is_word ?t"
  let ?u = "dropWhile is_space (drop (length ?n) ?t)"
  from assms have p: "startsWith value ''{{''" "?n \<noteq> []" "startsWith ?u ''}}''" "drop 2 ?u = []"
    by (auto simp: PLACEHOLDER_ONLY_def match_placeholder_def Let_def split: if_splits)
  have "value = ''{{'' @ drop 2 value" using p(1) by (auto simp: startsWith_def prefix_def)
  moreover have "drop 2 value = takeWhile is_space (drop 2 value) @ ?t" by simp
  moreover have "?t = ?n @ drop (length ?n) ?t"
    by (metis append_eq_conv_conj takeWhile_dropWhile_id)
  moreover have "drop (length ?n) ?t = takeWhile is_space (drop (length ?n) ?t) @ ?u" by simp
  moreover have "?u = ''}}''" using p(3,4) by (auto simp: startsWith_def prefix_def)
  ultimately have "value = ''{{'' @ takeWhile is_space (drop 2 value) @ ?n @ takeWhile is_space (drop (length ?n) ?t) @ ''}}''"
    by (metis append.assoc)
  moreover have "list_all P (takeWhile P xs)" for P :: "char \<Rightarrow> bool" and xs
    by (auto simp: list_all_iff dest: set_takeWhileD)
  ultimately show ?thesis using p(2) by (metis list_all_append)
qed

lemma template_value_checked:
  "template_safeAttrValue L tag name value = xl_safeAttrValue L tag name value
   \<or> (template_safeAttrValue L tag name value = trim value \<and> PLACEHOLDER_ONLY (trim value) \<and> name \<in> {''href'', ''src''})"
  by (simp add: template_safeAttrValue_def)

text \<open>A link with a script scheme gets the treatment of the library.\<close>

lemma script_link_checked:
  "template_safeAttrValue L ''a'' ''href'' ''javascript:alert(1)'' = xl_safeAttrValue L ''a'' ''href'' ''javascript:alert(1)''"
proof -
  have "PLACEHOLDER_ONLY (trim ''javascript:alert(1)'') = False" by code_simp
  then show ?thesis by (simp add: template_safeAttrValue_def)
qed

lemma placeholder_link_kept:
  "template_safeAttrValue L ''a'' ''href'' '' {{ link }} '' = ''{{ link }}''"
proof -
  have "trim '' {{ link }} '' = ''{{ link }}''" "PLACEHOLDER_ONLY ''{{ link }}''" by code_simp+
  then show ?thesis by (simp add: template_safeAttrValue_def)
qed

end
