(* ===== verification/Test_Guard.thy ===== *)
theory Test_Guard
  imports Js_String
begin

text \<open>
  The guard of the integration tests (\<^verbatim>\<open>scripts/test-environment.cjs\<close>): \<open>configure\<close> points the process at
  the disposable resources, \<open>assertTarget\<close> refuses to run against any other. The environment is a map;
  the URL parser, \<^verbatim>\<open>path.resolve\<close>, the temporary directory and the directory made by \<^verbatim>\<open>mkdtemp\<close> are
  parameters.
\<close>

section \<open>The guard\<close>

type_synonym process_env = "string \<rightharpoonup> string"

record url_view =
  uv_username :: string
  uv_password :: string
  uv_hostname :: string
  uv_pathname :: string

record node =
  node_URL :: "string \<Rightarrow> url_view option"
  node_resolve :: "string \<Rightarrow> string"
  node_tmpdir :: string

record test_identity =
  ti_owner :: string
  ti_database :: string
  ti_user :: string
  ti_password :: string
  ti_redisPassword :: string
  ti_storagePrefix :: string

definition TEST_IDENTITY :: test_identity where
  "TEST_IDENTITY = \<lparr>ti_owner = ''express-core-test'', ti_database = ''express_core_test'', ti_user = ''express_core_test'',
     ti_password = ''express_core_test'', ti_redisPassword = ''express_core_test'', ti_storagePrefix = ''express-core-test-''\<rparr>"

definition storage_prefix :: "node \<Rightarrow> string" where
  "storage_prefix N = node_tmpdir N @ ''/'' @ ti_storagePrefix TEST_IDENTITY"

definition test_storage :: "node \<Rightarrow> process_env \<Rightarrow> bool" where
  "test_storage N env = (case env ''STORAGE_ROOT'' of
     Some s \<Rightarrow> s \<noteq> [] \<and> startsWith (node_resolve N s) (storage_prefix N)
   | None \<Rightarrow> False)"

text \<open>The first assertion that does not hold is thrown.\<close>

definition assertTarget :: "node \<Rightarrow> process_env \<Rightarrow> string + unit" where
  "assertTarget N env =
     (if env ''NODE_ENV'' \<noteq> Some ''test'' then Inl ''Tests require NODE_ENV=test''
      else if env ''TEST_RESOURCE_OWNER'' \<noteq> Some (ti_owner TEST_IDENTITY) then Inl ''Missing isolated resource declaration''
      else case Option.bind (env ''DATABASE_URL'') (node_URL N) of
        None \<Rightarrow> Inl ''Invalid URL''
      | Some url \<Rightarrow>
          if uv_pathname url \<noteq> ''/'' @ ti_database TEST_IDENTITY then Inl ''Refusing non-test database''
          else if uv_username url \<noteq> ti_user TEST_IDENTITY then Inl ''Refusing non-test database user''
          else if uv_password url \<noteq> ti_password TEST_IDENTITY then Inl ''Refusing non-test database credentials''
          else if uv_hostname url \<notin> {''postgres'', ''127.0.0.1'', ''localhost''} then Inl ''Unexpected database host''
          else if env ''REDIS_HOST'' \<notin> Some ` {''redis'', ''127.0.0.1'', ''localhost''} then Inl ''Unexpected Redis host''
          else if env ''REDIS_PASSWORD'' \<noteq> Some (ti_redisPassword TEST_IDENTITY) then Inl ''Refusing non-test Redis credentials''
          else if \<not> test_storage N env then Inl ''Refusing non-test storage''
          else Inr ())"

section \<open>The configuration\<close>

definition env_or :: "process_env \<Rightarrow> string \<Rightarrow> string \<Rightarrow> string" where
  "env_or env key default' = (if truthy (env key) then the (env key) else default')"

definition test_database_url :: "string \<Rightarrow> string" where
  "test_database_url dbHost = ''postgresql://'' @ ti_user TEST_IDENTITY @ '':'' @ ti_password TEST_IDENTITY @ ''@'' @ dbHost
     @ '':5432/'' @ ti_database TEST_IDENTITY @ ''?schema=public''"

text \<open>The assignments in their order; \<open>made\<close> is the directory \<^verbatim>\<open>mkdtempSync\<close> returns.\<close>

definition fixed_values :: "(string \<times> string) list" where
  "fixed_values =
     [(''REDIS_PORT'', ''6379''), (''REDIS_PASSWORD'', ti_redisPassword TEST_IDENTITY),
      (''JWT_ACCESS_SECRET'', ''test-only-access-secret-do-not-deploy''), (''JWT_ACCESS_EXPIRES'', ''15m''),
      (''REFRESH_TOKEN_EXPIRES_DAYS'', ''7''), (''REFRESH_GRACE_SECONDS'', ''30''),
      (''EMAIL_VERIFICATION_EXPIRES_HOURS'', ''24''), (''PASSWORD_RESET_EXPIRES_MINUTES'', ''30''), (''BCRYPT_ROUNDS'', ''4''),
      (''ALLOWED_ORIGINS'', ''http://test.invalid''), (''APP_NAME'', ''Express Core Test''), (''APP_URL'', ''http://test.invalid''),
      (''PASSWORD_RESET_URL'', ''http://test.invalid/reset-password''), (''OUTBOX_RELAY_INTERVAL_MS'', ''100''), (''PORT'', ''3001''),
      (''SMTP_HOST'', ''127.0.0.1''), (''SMTP_PORT'', ''1''), (''SMTP_USER'', ''test''), (''SMTP_PASS'', ''test''),
      (''SMTP_FROM'', ''Express Core Test <noreply@test.invalid>'')]"

definition configure :: "string \<Rightarrow> process_env \<Rightarrow> process_env" where
  "configure made env =
     (let env1 = env(''NODE_ENV'' \<mapsto> ''test'',
                   ''DATABASE_URL'' \<mapsto> test_database_url (env_or env ''TEST_DB_HOST'' ''127.0.0.1''),
                   ''REDIS_HOST'' \<mapsto> env_or env ''TEST_REDIS_HOST'' ''127.0.0.1'');
          env2 = fold (\<lambda>(k, v) e. e(k \<mapsto> v)) fixed_values env1
      in (env2(''ENABLELOG'' := None, ''LOG_TO_FILES'' := None))(''STORAGE_ROOT'' \<mapsto> made))"

section \<open>Only disposable resources\<close>

lemma assertTarget_accepts:
  "assertTarget N env = Inr () \<longleftrightarrow>
     env ''NODE_ENV'' = Some ''test'' \<and> env ''TEST_RESOURCE_OWNER'' = Some (ti_owner TEST_IDENTITY)
     \<and> (\<exists>s url. env ''DATABASE_URL'' = Some s \<and> node_URL N s = Some url \<and> uv_pathname url = ''/'' @ ti_database TEST_IDENTITY
          \<and> uv_username url = ti_user TEST_IDENTITY \<and> uv_password url = ti_password TEST_IDENTITY
          \<and> uv_hostname url \<in> {''postgres'', ''127.0.0.1'', ''localhost''})
     \<and> env ''REDIS_HOST'' \<in> Some ` {''redis'', ''127.0.0.1'', ''localhost''}
     \<and> env ''REDIS_PASSWORD'' = Some (ti_redisPassword TEST_IDENTITY) \<and> test_storage N env"
  unfolding assertTarget_def
  by (cases "env ''DATABASE_URL''") (simp_all split: option.split)

text \<open>A database of another name is refused whatever else the environment says.\<close>

lemma other_database_refused:
  assumes "env ''DATABASE_URL'' = Some s" and "node_URL N s = Some url" and "uv_pathname url \<noteq> ''/express_core_test''"
  shows "\<exists>m. assertTarget N env = Inl m"
proof (cases "assertTarget N env")
  case (Inr u)
  with assms assertTarget_accepts [of N env] show ?thesis by (auto simp: TEST_IDENTITY_def)
qed simp

text \<open>What the configuration sets passes the guard once the run is declared, on the hosts it knows.\<close>

lemma fold_updates_other:
  "k \<notin> fst ` set kvs \<Longrightarrow> fold (\<lambda>(k, v) e. e(k \<mapsto> v)) kvs env k = env k"
  by (induction kvs arbitrary: env) auto

lemma fixed_keys:
  "fst ` set fixed_values \<inter> {''NODE_ENV'', ''TEST_RESOURCE_OWNER'', ''DATABASE_URL'', ''REDIS_HOST'', ''STORAGE_ROOT''} = {}"
  by code_simp

lemma configure_values:
  "configure made env ''NODE_ENV'' = Some ''test''"
  "configure made env ''TEST_RESOURCE_OWNER'' = env ''TEST_RESOURCE_OWNER''"
  "configure made env ''DATABASE_URL'' = Some (test_database_url (env_or env ''TEST_DB_HOST'' ''127.0.0.1''))"
  "configure made env ''REDIS_HOST'' = Some (env_or env ''TEST_REDIS_HOST'' ''127.0.0.1'')"
  "configure made env ''STORAGE_ROOT'' = Some made"
  "configure made env ''ENABLELOG'' = None"
  using fixed_keys by (auto simp: configure_def Let_def fold_updates_other)

lemma configure_redis_password:
  "configure made env ''REDIS_PASSWORD'' = Some (ti_redisPassword TEST_IDENTITY)"
  by (simp add: configure_def Let_def fixed_values_def)

lemma configured_accepted:
  assumes "env ''TEST_RESOURCE_OWNER'' = Some (ti_owner TEST_IDENTITY)"
    and "env_or env ''TEST_DB_HOST'' ''127.0.0.1'' \<in> {''postgres'', ''127.0.0.1'', ''localhost''}"
    and "env_or env ''TEST_REDIS_HOST'' ''127.0.0.1'' \<in> {''redis'', ''127.0.0.1'', ''localhost''}"
    and "\<And>h. h \<in> {''postgres'', ''127.0.0.1'', ''localhost''} \<Longrightarrow> node_URL N (test_database_url h)
      = Some \<lparr>uv_username = ti_user TEST_IDENTITY, uv_password = ti_password TEST_IDENTITY, uv_hostname = h,
              uv_pathname = ''/'' @ ti_database TEST_IDENTITY\<rparr>"
    and "made \<noteq> []" and "startsWith (node_resolve N made) (storage_prefix N)"
  shows "assertTarget N (configure made env) = Inr ()"
proof -
  let ?h = "env_or env ''TEST_DB_HOST'' ''127.0.0.1''"
  have "test_storage N (configure made env)"
    using assms(5,6) by (simp add: test_storage_def configure_values(5))
  moreover have "configure made env ''REDIS_HOST'' \<in> Some ` {''redis'', ''127.0.0.1'', ''localhost''}"
    unfolding configure_values(4) using assms(3) by blast
  moreover note assms(4) [OF assms(2)]
  ultimately show ?thesis
    unfolding assertTarget_accepts configure_values configure_redis_password
    using assms(1,2) by auto
qed

end
