(* ===== verification/Spec2Isabelle.thy ===== *)
theory Spec2Isabelle
  imports Sessions Journey Env Seeders Api_Refusals Relay Dead_Letter System_Service Pipeline Logging Template_Html
    Test_Guard
begin

text \<open>
  A verification development for a REST back end written in TypeScript (Express, Prisma on
  PostgreSQL, BullMQ on Redis). Two processes share one database and one Redis: the API
  (\<^verbatim>\<open>src/server.ts\<close>) serves requests, the worker (\<^verbatim>\<open>src/jobs/run-workers.ts\<close>) relays the outbox, sends
  emails and runs maintenance. All paths are relative to \<^verbatim>\<open>src/\<close>.

  \<^bold>\<open>How the program is modelled.\<close> A table is a list of records, the database the record of all tables
  with the sequences behind generated keys (\<open>Schema\<close>, after \<^verbatim>\<open>prisma/schema.prisma\<close>). A SQL statement
  is one of \<open>find_first\<close>, \<open>update_where\<close>, \<open>delete_where\<close>, \<open>count_where\<close> and appending, on rows in
  insertion order. A body inside \<^verbatim>\<open>prisma.$transaction\<close> is a function \<open>db \<Rightarrow> error + 'a \<times> db\<close>;
  \<open>transaction\<close> turns it into a service, which returns a value or an error together with the state it
  leaves, so that a rollback is visible (\<open>Prelude\<close>). Every \<open>throw\<close> is a value of \<open>error\<close>. Clocks,
  random bytes and generated keys are arguments. What other transactions commit between two statements
  of one operation is an argument as well for the token table, the codes, the outbox and the re-drive (\<open>W\<close>
  before a guarded update, \<open>I\<close> between the passes of a revocation), or the operations are steps of a step
  relation that interleaves them. A reset of a password, a registration and the creation and update of
  a user check first and write later without a lock: \<open>resetPassword_between\<close>, \<open>register_between\<close>,
  \<open>admin_createUser_between\<close> and \<open>updateUser_between\<close> take what is committed in between, and
  \<open>resetPassword_tx\<close>, \<open>register_tx\<close>, \<open>admin_createUser_tx\<close> and \<open>updateUser_tx\<close> are their instances with
  nothing in between. The properties of single use, free addresses and free slugs are about these, so
  about requests one after the other; racing requests break them (\<open>racing_resets\<close>,
  \<open>racing_registrations\<close>, \<open>racing_creations\<close>). In the operations on roles, profiles and templates nothing
  comes between the statements. Integers of the program are
  counters, ages and timestamps far below \<open>2 ^ 53\<close>, so they are \<open>nat\<close> and \<open>int\<close>; bytes are natural numbers
  with \<open>bytes_ok\<close>.

  \<^bold>\<open>Theories and the code they model.\<close>
  \<^item> Strings and encodings: \<open>Js_String\<close> (the string operations of JavaScript), \<open>Encoding\<close> (hexadecimal,
    base64url, UTF-8, ISO dates), \<open>Url\<close> (\<^verbatim>\<open>utils/url.ts\<close>, form encoding), \<open>Sluggable\<close>
    (\<^verbatim>\<open>utils/sluggable.ts\<close>), \<open>Crypto\<close> (\<^verbatim>\<open>utils/token.ts\<close>, \<^verbatim>\<open>utils/jwt.ts\<close>, \<^verbatim>\<open>refresh-successor.ts\<close>,
    \<^verbatim>\<open>otp.code.ts\<close>).
  \<^item> Configuration: \<open>Env\<close> (\<^verbatim>\<open>config/env.ts\<close>).
  \<^item> Authentication: \<open>Auth_Repository\<close>, \<open>Refresh_Rotation\<close>, \<open>Otp\<close>, \<open>Auth_Service\<close> (\<^verbatim>\<open>modules/auth\<close>,
    \<^verbatim>\<open>modules/otp\<close>), \<open>Sessions\<close> (the abstract machine they refine) and \<open>Journey\<close> (registration to login
    across the outbox and the worker).
  \<^item> Identity and access: \<open>Identity_Repository\<close>, \<open>User_Service\<close>, \<open>Role_Service\<close>, \<open>Profile\<close>
    (\<^verbatim>\<open>modules/user\<close>, \<^verbatim>\<open>modules/role\<close>, \<^verbatim>\<open>modules/profile\<close>), \<open>Cache\<close> and \<open>Rbac\<close>
    (\<^verbatim>\<open>services/cache.service.ts\<close>, \<^verbatim>\<open>rbac-cache.service.ts\<close>, the permission middleware).
  \<^item> Asynchronous work: \<open>Outbox\<close>, \<open>Relay\<close>, \<open>Dead_Letter\<close>, \<open>Email_Template\<close>, \<open>Email_Delivery\<close>,
    \<open>Retention\<close> and \<open>System_Service\<close> (\<^verbatim>\<open>modules/outbox\<close>, \<^verbatim>\<open>jobs/relay\<close>, \<^verbatim>\<open>modules/dead-letter\<close>,
    \<^verbatim>\<open>modules/email-template\<close>, \<^verbatim>\<open>email/mailer.ts\<close>, \<^verbatim>\<open>services\<close>, \<^verbatim>\<open>jobs/workers\<close>).
  \<^item> The HTTP surface: \<open>Middleware\<close>, \<open>Schemas\<close>, \<open>Upload\<close>, \<open>Paginator\<close>, \<open>Http\<close>, \<open>Listings\<close> (\<^verbatim>\<open>middleware\<close>,
    \<^verbatim>\<open>utils/paginator.ts\<close>, the controllers and schemas under \<^verbatim>\<open>modules\<close>), \<open>Routing\<close> (stages and routers
    of Express), \<open>Rate_Limit\<close> (\<^verbatim>\<open>middleware/rate-limit.middleware.ts\<close>), \<open>Api\<close> (\<^verbatim>\<open>app.ts\<close>,
    \<^verbatim>\<open>routes/index.ts\<close> and every \<^verbatim>\<open>*.route.ts\<close>, composed to one function \<open>serve\<close> of a request) and
    \<open>Api_Security\<close> and \<open>Api_Refusals\<close> (what \<open>serve\<close> guarantees).
  \<^item> Processes: \<open>Lifecycle\<close> (\<^verbatim>\<open>jobs/cron\<close>, the relay loop, \<^verbatim>\<open>utils/graceful-shutdown.ts\<close>, health), \<open>Workers\<close>
    (the attempts of a job, the dead-letter writes beside the worker loop, start and shutdown of both
    processes with their resources: \<^verbatim>\<open>jobs/run-workers.ts\<close>, \<^verbatim>\<open>server.ts\<close>, \<^verbatim>\<open>worker-logging.ts\<close>,
    \<^verbatim>\<open>queue.config.ts\<close>, \<^verbatim>\<open>config/redis.ts\<close>, \<^verbatim>\<open>utils/timeout.ts\<close>), \<open>Pipeline\<close> (an intent
    across relay, worker and dead letters) and \<open>Seeders\<close> (\<^verbatim>\<open>seeders\<close>, \<^verbatim>\<open>scripts/seed.ts\<close>).
  \<^item> Policies: \<open>Logging\<close> (\<^verbatim>\<open>http-log.middleware.ts\<close>, \<^verbatim>\<open>config/log.ts\<close>, \<^verbatim>\<open>config/logger.ts\<close>), \<open>Template_Html\<close>
    (\<^verbatim>\<open>email-template.sanitizer.ts\<close>) and \<open>Test_Guard\<close> (\<^verbatim>\<open>scripts/test-environment.cjs\<close>, beside \<^verbatim>\<open>src/\<close>).

  \<^bold>\<open>How the parts interact.\<close> A registration writes the account, its token and an outbox row in one
  transaction; the relay claims the row under a lease, queues its job and marks the row; the email
  worker renders and sends, leaving a marker so that a redelivered job sends nothing; what fails for
  good becomes a dead letter, which can be re-driven once while its token is usable. A login opens a
  token family; every refresh claims the presented row, seals its successor into it and appends the
  successor; a reused token revokes its family. Permission checks read a cached role whose version
  every change of a user or role bumps after its commit.

  \<^bold>\<open>Interfaces.\<close> \<open>slug_table\<close> (what the slug search needs of a table) is interpreted on users and
  roles, \<open>batched_delete\<close> on the deletion statement shared by four repositories, \<open>json_store\<close> on the
  cache service, \<open>intent_log\<close> on the outbox, \<open>rate_store\<close> (the counters of the limiters) on the
  modelled Redis. Their lemmas are proved once from the laws.

  \<^bold>\<open>What the lemmas show.\<close> Invariants of tables and that every operation keeps them (\<open>rt_inv\<close>, \<open>otp_inv\<close>,
  \<open>outbox_inv\<close>, \<open>rbac_inv\<close>, \<open>users_ok\<close>, \<open>roles_ok\<close>, \<open>templates_ok\<close>); the effect of each operation on
  every branch; convergence of racing refreshes; the refinement of the token table to a set of
  sessions; safety of the relay, the re-drive and the permission cache under interleaving; where every final
  failure is when a worker has shut down, cleanly, with closings that fail or cut off by its time limit;
  how an email intent ends, the failed insert of its dead letter included; bounds on
  guesses, attempts and leases; termination of the slug search; round trips of seals, codes, links
  and whole registrations; refusal behaviour of validation, uploads and configuration.

  \<^bold>\<open>Bounds.\<close> The successor chain is followed for at most \<open>MAX_SUCCESSOR_HOPS\<close> hops and a revocation runs
  at most \<open>MAX_REVOCATION_PASSES\<close> passes, as in the code; batched deletion runs at most the number of
  batches the caller gives. A shutdown step that is not done at the time limit of its process is cut off with it
  (\<open>shutdown_limited\<close>). These are the program's own limits, so nothing is cut off by the model.
  The slug search has no limit in the code: it is a \<open>partial_function\<close>, and \<open>makeUniqueSlug_total\<close>
  shows that it returns whenever finitely many slugs are taken.

  \<^bold>\<open>Parameters.\<close> The record \<open>crypto\<close> holds hashing, HMAC, bcrypt, AES-GCM and JWT; what a property
  needs of them is a named hypothesis (\<open>bcrypt_correct\<close>, \<open>jwt_correct\<close> and others) with
  an instance in its witness. The URL parser, the HTML filter of js-xss, language tags, lower-casing
  and collation of PostgreSQL, localized dates, the mail transports, the counters of the rate limiter and its key of a client (the
  address, or the subnet of an IPv6 address), the
  messages and patterns of zod, body parsing and static files are parameters as well. Of BullMQ the
  development assumes what its documentation says: a job id is kept once, a failed attempt is retried
  unless its error is unrecoverable or the attempts are used up (\<open>run_attempts\<close>), the exponential delay
  doubles from the configured one (\<open>backoff\<close>), a closed worker takes no job and has finished its own.

  \<^bold>\<open>Not modelled.\<close> Construction of ioredis, helmet, BullMQ and node-cron objects, because it only hands
  options over; log lines other than those of requests; the js-xss filter itself (its whitelist and
  attribute rule are in \<open>Template_Html\<close>) and the URL parser behind \<open>with_query\<close>, which are library code;
  jobs that stall because their worker lost its lock, which BullMQ runs again by itself; the JavaScript drivers under \<^verbatim>\<open>scripts\<close> that start
  processes and containers; type declarations without code (\<^verbatim>\<open>user.types.ts\<close>).
\<close>

end
